(* ===== verification/Prelude.thy ===== *)
theory Prelude
  imports Main "HOL-Library.Word"
begin

text \<open>
  Shared vocabulary of the development: the machine integers of the Rust sources and the
  arithmetic of the Rust standard library on them, the result type of fallible functions,
  the state-and-error monad in which the stateful code is modelled together with its
  Hoare-style rules, the string codec interface shared by the enums that are parsed from and
  printed to JSON-RPC strings, and the generic list facts the components use.
\<close>

section \<open>Fact collections\<close>

named_theorems result_simps \<open>unfolding of fallible computations\<close>
named_theorems u32_simps \<open>Rust arithmetic on 32-bit words, read through unat\<close>
named_theorems wp \<open>Hoare rules of the state-and-error monad\<close>
named_theorems sr_simps \<open>successful runs of the state-and-error monad\<close>

section \<open>Machine integers\<close>

type_synonym u8 = "8 word"
type_synonym u32 = "32 word"

text \<open>The standard library's \<open>saturating_sub\<close>, \<open>saturating_add\<close>, \<open>checked_sub\<close> and
  \<open>checked_mul\<close> on unsigned integers.\<close>

definition saturating_sub :: "'a::len word \<Rightarrow> 'a word \<Rightarrow> 'a word" where
  "saturating_sub a b = (if b \<le> a then a - b else 0)"

definition saturating_add :: "'a::len word \<Rightarrow> 'a word \<Rightarrow> 'a word" where
  "saturating_add a b = (if unat a + unat b < 2 ^ LENGTH('a) then a + b else - 1)"

definition checked_sub :: "'a::len word \<Rightarrow> 'a word \<Rightarrow> 'a word option" where
  "checked_sub a b = (if b \<le> a then Some (a - b) else None)"

definition checked_mul :: "'a::len word \<Rightarrow> 'a word \<Rightarrow> 'a word option" where
  "checked_mul a b = (if unat a * unat b < 2 ^ LENGTH('a) then Some (a * b) else None)"

lemma unat_minus_le: "b \<le> a \<Longrightarrow> unat (a - b) = unat a - unat (b :: 'a::len word)"
  by (simp add: unat_sub)

lemma unat_saturating_sub [u32_simps]: "unat (saturating_sub a b) = unat a - unat b"
  by (auto simp: saturating_sub_def unat_minus_le word_le_nat_alt)

lemma saturating_sub_le: "saturating_sub a b \<le> a"
  by (simp add: word_le_nat_alt unat_saturating_sub)

lemma saturating_sub_0 [simp]: "saturating_sub a 0 = a"
  by (simp add: saturating_sub_def)

lemma saturating_sub_less: "0 < b \<Longrightarrow> 0 < a \<Longrightarrow> saturating_sub a b < a"
  by (simp add: word_less_nat_alt unat_saturating_sub)

lemma unat_saturating_add: "unat (saturating_add a b) = min (unat a + unat b) (2 ^ LENGTH('a) - 1)" for a b :: "'a::len word"
proof (cases "unat a + unat b < 2 ^ LENGTH('a)")
  case True
  then show ?thesis by (simp add: saturating_add_def unat_word_ariths(1))
next
  case False
  then show ?thesis by (simp add: saturating_add_def unsigned_minus_1_eq_mask mask_eq_exp_minus_1)
qed

lemma unat_checked_sub:
  "checked_sub a b = Some c \<Longrightarrow> unat c = unat a - unat b \<and> unat b \<le> unat a"
  by (auto simp: checked_sub_def unat_minus_le word_le_nat_alt split: if_splits)

lemma checked_mul_Some:
  "checked_mul a b = Some c \<Longrightarrow> unat c = unat a * unat (b :: 'a::len word)"
  by (auto simp: checked_mul_def unat_word_ariths split: if_splits)

lemma unat_max_word: "unat (max a b) = max (unat a) (unat (b :: 'a::len word))"
  by (simp add: max_def word_le_nat_alt)

lemma unat_min_word: "unat (min a b) = min (unat a) (unat (b :: 'a::len word))"
  by (simp add: min_def word_le_nat_alt)

lemma unat_plus_one_word: "a < b \<Longrightarrow> unat (a + 1) = unat a + 1" for a b :: "'a::len word"
proof -
  assume "a < b"
  then have "unat a < unat b" by (simp add: word_less_nat_alt)
  moreover have "unat b < 2 ^ LENGTH('a)" by (rule unsigned_less)
  ultimately have "unat a + 1 < 2 ^ LENGTH('a)" by linarith
  then show ?thesis
    by (simp add: unat_word_ariths)
qed

lemma unat_of_nat_le: "n \<le> unat w \<Longrightarrow> unat (of_nat n :: 'a::len word) = n" for w :: "'a::len word"
  using le_less_trans [OF _ unsigned_less [of w]] by (simp add: unsigned_of_nat take_bit_nat_eq_self_iff)

lemma of_nat_le_word: "n \<le> unat w \<Longrightarrow> (of_nat n :: 'a::len word) \<le> w" for w :: "'a::len word"
  by (simp add: word_le_nat_alt unat_of_nat_le)

lemmas word_nat_simps =
  word_le_nat_alt word_less_nat_alt unat_saturating_sub unat_max_word unat_min_word

section \<open>Fallible computations\<close>

text \<open>A Rust \<open>Result\<close> is a sum whose left side is the error. A Rust panic (a failed
  \<open>assert!\<close>, an \<open>expect\<close> on an absent value, \<open>unreachable!\<close>) is an error of its own,
  distinct from every value the function's own error type has.\<close>

datatype 'e fault = Raise 'e | Panic string

definition rbind :: "'e + 'a \<Rightarrow> ('a \<Rightarrow> 'e + 'b) \<Rightarrow> 'e + 'b" where
  "rbind m f = (case m of Inl e \<Rightarrow> Inl e | Inr x \<Rightarrow> f x)"

definition map_err :: "('e \<Rightarrow> 'f) \<Rightarrow> 'e + 'a \<Rightarrow> 'f + 'a" where
  "map_err g m = (case m of Inl e \<Rightarrow> Inl (g e) | Inr x \<Rightarrow> Inr x)"

definition ok_or :: "'e \<Rightarrow> 'a option \<Rightarrow> 'e + 'a" where
  "ok_or e m = (case m of None \<Rightarrow> Inl e | Some x \<Rightarrow> Inr x)"

definition is_ok :: "'e + 'a \<Rightarrow> bool" where
  "is_ok m = (case m of Inl _ \<Rightarrow> False | Inr _ \<Rightarrow> True)"

lemma rbind_simps [simp]: "rbind (Inl e) f = Inl e" "rbind (Inr x) f = f x"
  by (simp_all add: rbind_def)

lemma rbind_Inr_iff [result_simps]: "rbind m f = Inr y \<longleftrightarrow> (\<exists>x. m = Inr x \<and> f x = Inr y)"
  by (cases m) auto

lemma rbind_Inl_iff [result_simps]:
  "rbind m f = Inl e \<longleftrightarrow> m = Inl e \<or> (\<exists>x. m = Inr x \<and> f x = Inl e)"
  by (cases m) auto

lemma rbind_assoc: "rbind (rbind m f) g = rbind m (\<lambda>x. rbind (f x) g)"
  by (cases m) auto

lemma map_err_simps [simp]: "map_err g (Inl e) = Inl (g e)" "map_err g (Inr x) = Inr x"
  by (simp_all add: map_err_def)

lemma map_err_Inr_iff [result_simps]: "map_err g m = Inr x \<longleftrightarrow> m = Inr x"
  by (cases m) auto

lemma map_err_Inl_iff [result_simps]: "map_err g m = Inl e \<longleftrightarrow> (\<exists>d. m = Inl d \<and> e = g d)"
  by (cases m) auto

lemma ok_or_simps [simp]: "ok_or e None = Inl e" "ok_or e (Some x) = Inr x"
  by (simp_all add: ok_or_def)

lemma ok_or_Inr_iff [result_simps]: "ok_or e m = Inr x \<longleftrightarrow> m = Some x"
  by (cases m) auto

lemma ok_or_Inl_iff [result_simps]: "ok_or e m = Inl d \<longleftrightarrow> m = None \<and> d = e"
  by (cases m) auto

lemma is_ok_simps [simp]: "is_ok (Inl e) = False" "is_ok (Inr x) = True"
  by (simp_all add: is_ok_def)

lemma is_ok_iff: "is_ok m \<longleftrightarrow> (\<exists>x. m = Inr x)"
  by (cases m) auto

text \<open>The \<open>collect\<close> of an iterator of results: the first error wins.\<close>

fun try_map :: "('a \<Rightarrow> 'e + 'b) \<Rightarrow> 'a list \<Rightarrow> 'e + 'b list" where
  "try_map f [] = Inr []"
| "try_map f (x # xs) = rbind (f x) (\<lambda>y. rbind (try_map f xs) (\<lambda>ys. Inr (y # ys)))"

lemma try_map_Inr_length: "try_map f xs = Inr ys \<Longrightarrow> length ys = length xs"
  by (induction xs arbitrary: ys) (auto simp: result_simps)

lemma try_map_Inr_iff: "try_map f xs = Inr ys \<longleftrightarrow> list_all2 (\<lambda>x y. f x = Inr y) xs ys"
proof (induction xs arbitrary: ys)
  case Nil
  then show ?case by auto
next
  case (Cons x xs)
  then show ?case by (auto simp: result_simps list_all2_Cons1)
qed

lemma try_map_Inr_set: "try_map f xs = Inr ys \<Longrightarrow> set ys = {y. \<exists>x \<in> set xs. f x = Inr y}"
proof (induction xs arbitrary: ys)
  case Nil
  then show ?case by simp
next
  case (Cons x xs)
  then obtain y zs where "f x = Inr y" "try_map f xs = Inr zs" "ys = y # zs" by (auto simp: result_simps)
  with Cons.IH show ?case by auto
qed

lemma try_map_concat_image:
  "try_map f xs = Inr parts \<Longrightarrow> e \<in> g ` set (concat parts) \<longleftrightarrow> (\<exists>x \<in> set xs. \<exists>p. f x = Inr p \<and> e \<in> g ` set p)"
  by (auto simp: try_map_Inr_set)

lemma try_map_Inr_each: "try_map f xs = Inr ys \<Longrightarrow> x \<in> set xs \<Longrightarrow> \<exists>y. f x = Inr y"
  by (induction xs arbitrary: ys) (auto simp: result_simps)

section \<open>State and errors\<close>

text \<open>A Rust function that mutates what it was lent and may fail: what it wrote before the
  failure stays written, so the state is returned on both paths.\<close>

type_synonym ('s, 'e, 'a) sr = "'s \<Rightarrow> ('e + 'a) \<times> 's"

definition sret :: "'a \<Rightarrow> ('s, 'e, 'a) sr" where
  "sret x = (\<lambda>s. (Inr x, s))"

definition sfail :: "'e \<Rightarrow> ('s, 'e, 'a) sr" where
  "sfail e = (\<lambda>s. (Inl e, s))"

definition sbind :: "('s, 'e, 'a) sr \<Rightarrow> ('a \<Rightarrow> ('s, 'e, 'b) sr) \<Rightarrow> ('s, 'e, 'b) sr" where
  "sbind m f = (\<lambda>s. case m s of (Inl e, t) \<Rightarrow> (Inl e, t) | (Inr x, t) \<Rightarrow> f x t)"

definition slift :: "'e + 'a \<Rightarrow> ('s, 'e, 'a) sr" where
  "slift r = (\<lambda>s. (r, s))"

definition sget :: "('s \<Rightarrow> 'a) \<Rightarrow> ('s, 'e, 'a) sr" where
  "sget f = (\<lambda>s. (Inr (f s), s))"

definition smodify :: "('s \<Rightarrow> 's) \<Rightarrow> ('s, 'e, unit) sr" where
  "smodify f = (\<lambda>s. (Inr (), f s))"

definition sassert :: "bool \<Rightarrow> string \<Rightarrow> ('s, 'e fault, unit) sr" where
  "sassert b msg = (if b then sret () else sfail (Panic msg))"

fun sfor :: "('a \<Rightarrow> ('s, 'e, unit) sr) \<Rightarrow> 'a list \<Rightarrow> ('s, 'e, unit) sr" where
  "sfor f [] = sret ()"
| "sfor f (x # xs) = sbind (f x) (\<lambda>_. sfor f xs)"

text \<open>What a successful run returned, read off its steps.\<close>

lemma sbind_Inr [sr_simps]:
  "sbind m f s = (Inr y, t) \<longleftrightarrow> (\<exists>x u. m s = (Inr x, u) \<and> f x u = (Inr y, t))"
  by (auto simp: sbind_def split: prod.splits sum.splits)

lemma sret_Inr [sr_simps]: "sret x s = (Inr y, t) \<longleftrightarrow> y = x \<and> t = s"
  by (auto simp: sret_def)

lemma sfail_Inr [sr_simps]: "sfail e s = (Inr y, t) \<longleftrightarrow> False"
  by (simp add: sfail_def)

lemma slift_Inr [sr_simps]: "slift r s = (Inr y, t) \<longleftrightarrow> r = Inr y \<and> t = s"
  by (auto simp: slift_def)

lemma sget_Inr [sr_simps]: "sget f s = (Inr y, t) \<longleftrightarrow> y = f s \<and> t = s"
  by (auto simp: sget_def)

lemma smodify_Inr [sr_simps]: "smodify f s = (Inr y, t) \<longleftrightarrow> t = f s"
  by (auto simp: smodify_def)

lemma sif_Inr [sr_simps]:
  "(if b then m else n) s = (Inr y, t) \<longleftrightarrow> (if b then m s = (Inr y, t) else n s = (Inr y, t))"
  by simp

text \<open>\<open>sr_valid P m Q E\<close>: from a state in \<open>P\<close>, \<open>m\<close> returns a value and state in \<open>Q\<close> or
  fails with an error and state in \<open>E\<close>.\<close>

definition sr_valid ::
    "('s \<Rightarrow> bool) \<Rightarrow> ('s, 'e, 'a) sr \<Rightarrow> ('a \<Rightarrow> 's \<Rightarrow> bool) \<Rightarrow> ('e \<Rightarrow> 's \<Rightarrow> bool) \<Rightarrow> bool" where
  "sr_valid P m Q E \<longleftrightarrow>
     (\<forall>s. P s \<longrightarrow> (case m s of (Inl e, t) \<Rightarrow> E e t | (Inr x, t) \<Rightarrow> Q x t))"

lemma sr_validI:
  "(\<And>s e t. P s \<Longrightarrow> m s = (Inl e, t) \<Longrightarrow> E e t) \<Longrightarrow>
   (\<And>s x t. P s \<Longrightarrow> m s = (Inr x, t) \<Longrightarrow> Q x t) \<Longrightarrow> sr_valid P m Q E"
  by (auto simp: sr_valid_def split: prod.splits sum.splits)

lemma sr_validD_Inr: "sr_valid P m Q E \<Longrightarrow> P s \<Longrightarrow> m s = (Inr x, t) \<Longrightarrow> Q x t"
  by (force simp: sr_valid_def)

lemma sr_validD_Inl: "sr_valid P m Q E \<Longrightarrow> P s \<Longrightarrow> m s = (Inl e, t) \<Longrightarrow> E e t"
  by (force simp: sr_valid_def)

lemma sr_valid_weaken:
  "sr_valid P' m Q' E' \<Longrightarrow> (\<And>s. P s \<Longrightarrow> P' s) \<Longrightarrow> (\<And>x s. Q' x s \<Longrightarrow> Q x s) \<Longrightarrow>
   (\<And>e s. E' e s \<Longrightarrow> E e s) \<Longrightarrow> sr_valid P m Q E"
  by (rule sr_validI) (blast dest: sr_validD_Inl sr_validD_Inr)+

lemma sr_valid_sret [wp]: "(\<And>s. P s \<Longrightarrow> Q x s) \<Longrightarrow> sr_valid P (sret x) Q E"
  by (simp add: sr_valid_def sret_def)

lemma sr_valid_sfail [wp]: "(\<And>s. P s \<Longrightarrow> E e s) \<Longrightarrow> sr_valid P (sfail e) Q E"
  by (simp add: sr_valid_def sfail_def)

lemma sr_valid_slift [wp]:
  "(\<And>s x. P s \<Longrightarrow> r = Inr x \<Longrightarrow> Q x s) \<Longrightarrow> (\<And>s e. P s \<Longrightarrow> r = Inl e \<Longrightarrow> E e s) \<Longrightarrow>
   sr_valid P (slift r) Q E"
  by (auto simp: sr_valid_def slift_def split: sum.splits)

lemma sr_valid_sget [wp]: "(\<And>s. P s \<Longrightarrow> Q (f s) s) \<Longrightarrow> sr_valid P (sget f) Q E"
  by (simp add: sr_valid_def sget_def)

lemma sr_valid_smodify [wp]: "(\<And>s. P s \<Longrightarrow> Q () (f s)) \<Longrightarrow> sr_valid P (smodify f) Q E"
  by (simp add: sr_valid_def smodify_def)

lemma sr_valid_sassert [wp]:
  "(\<And>s. P s \<Longrightarrow> b \<Longrightarrow> Q () s) \<Longrightarrow> (\<And>s. P s \<Longrightarrow> \<not> b \<Longrightarrow> E (Panic msg) s) \<Longrightarrow>
   sr_valid P (sassert b msg) Q E"
  by (simp add: sassert_def sr_valid_def sret_def sfail_def)

lemma sr_valid_sbind:
  "sr_valid P m R E \<Longrightarrow> (\<And>x. sr_valid (R x) (f x) Q E) \<Longrightarrow> sr_valid P (sbind m f) Q E"
  unfolding sr_valid_def sbind_def
  by (fastforce split: prod.splits sum.splits)

lemma sr_valid_if [wp]:
  "(b \<Longrightarrow> sr_valid P m Q E) \<Longrightarrow> (\<not> b \<Longrightarrow> sr_valid P n Q E) \<Longrightarrow>
   sr_valid P (if b then m else n) Q E"
  by simp

lemma sr_valid_option [wp]:
  "(x = None \<Longrightarrow> sr_valid P m Q E) \<Longrightarrow> (\<And>y. x = Some y \<Longrightarrow> sr_valid P (f y) Q E) \<Longrightarrow>
   sr_valid P (case x of None \<Rightarrow> m | Some y \<Rightarrow> f y) Q E"
  by (cases x) auto

lemma sr_valid_sfor:
  "(\<And>x. x \<in> set xs \<Longrightarrow> sr_valid I (f x) (\<lambda>_. I) E) \<Longrightarrow> sr_valid I (sfor f xs) (\<lambda>_. I) E"
proof (induction xs)
  case Nil
  then show ?case by (simp add: sr_valid_sret)
next
  case (Cons x xs)
  then have "sr_valid I (f x) (\<lambda>_. I) E" and "sr_valid I (sfor f xs) (\<lambda>_. I) E"
    by simp_all
  then show ?case by (auto intro: sr_valid_sbind)
qed

text \<open>Frame rule: a state predicate kept by both outcomes.\<close>

abbreviation sr_keeps :: "('s \<Rightarrow> bool) \<Rightarrow> ('s, 'e, 'a) sr \<Rightarrow> bool" where
  "sr_keeps I m \<equiv> sr_valid I m (\<lambda>_. I) (\<lambda>_. I)"

lemma sr_keeps_iff: "sr_keeps I m \<longleftrightarrow> (\<forall>s. I s \<longrightarrow> I (snd (m s)))"
proof -
  have "(case m s of (Inl e, t) \<Rightarrow> I t | (Inr x, t) \<Rightarrow> I t) = I (snd (m s))" for s
    by (cases "m s") (simp split: sum.splits)
  then show ?thesis by (simp add: sr_valid_def)
qed

lemma sr_keeps_sbind [wp]: "sr_keeps I m \<Longrightarrow> (\<And>x. sr_keeps I (f x)) \<Longrightarrow> sr_keeps I (sbind m f)"
  by (rule sr_valid_sbind)

section \<open>Strings\<close>

text \<open>Enums exchanged with JSON-RPC clients as fixed strings. The contract is the one both
  directions of the code promise: what is printed is parsed back, and only printed strings
  parse.\<close>

locale string_codec =
  fixes print :: "'a \<Rightarrow> string"
    and parse :: "string \<Rightarrow> 'a option"
  assumes parse_print: "parse (print x) = Some x"
    and print_parse: "parse s = Some x \<Longrightarrow> s = print x"
begin

lemma print_inj: "print x = print y \<longleftrightarrow> x = y"
  by (metis option.inject parse_print)

lemma parse_iff: "parse s = Some x \<longleftrightarrow> s = print x"
  using parse_print print_parse by blast

lemma parse_None_iff: "parse s = None \<longleftrightarrow> s \<notin> range print"
  using parse_iff by (metis not_None_eq rangeE rangeI)

end

section \<open>Lists\<close>

abbreviation strictly_decreasing :: "'a::linorder list \<Rightarrow> bool" where
  "strictly_decreasing \<equiv> sorted_wrt (>)"

lemma strictly_decreasing_distinct: "strictly_decreasing xs \<Longrightarrow> distinct xs"
  by (induction xs) auto

lemma find_Some_first:
  "find P xs = Some x \<Longrightarrow> \<exists>ys zs. xs = ys @ x # zs \<and> P x \<and> (\<forall>y \<in> set ys. \<not> P y)"
proof (induction xs)
  case Nil
  then show ?case by simp
next
  case (Cons a xs)
  show ?case
  proof (cases "P a")
    case True
    with Cons.prems show ?thesis by (intro exI[of _ "[]"] exI[of _ xs]) auto
  next
    case False
    with Cons.prems Cons.IH obtain ys zs
      where "xs = ys @ x # zs" "P x" "\<forall>y \<in> set ys. \<not> P y"
      by auto
    with False show ?thesis by (intro exI[of _ "a # ys"] exI[of _ zs]) auto
  qed
qed

lemma find_Some_mem: "find P xs = Some x \<Longrightarrow> x \<in> set xs \<and> P x"
  by (induction xs) (auto split: if_splits)

text \<open>The first success of a partial function along a list, as \<open>filter_map(f).next()\<close>.\<close>

fun find_map :: "('a \<Rightarrow> 'b option) \<Rightarrow> 'a list \<Rightarrow> 'b option" where
  "find_map f [] = None"
| "find_map f (x # xs) = (case f x of Some y \<Rightarrow> Some y | None \<Rightarrow> find_map f xs)"

lemma find_map_Some: "find_map f xs = Some y \<Longrightarrow> \<exists>x \<in> set xs. f x = Some y"
  by (induction xs) (auto split: option.splits)

lemma find_map_Some_first:
  "find_map f xs = Some y \<Longrightarrow>
   \<exists>pre x post. xs = pre @ x # post \<and> f x = Some y \<and> (\<forall>q \<in> set pre. f q = None)"
proof (induction xs)
  case Nil
  then show ?case by simp
next
  case (Cons a xs)
  show ?case
  proof (cases "f a")
    case None
    with Cons obtain pre x post where "xs = pre @ x # post" "f x = Some y" "\<forall>q \<in> set pre. f q = None"
      by auto
    with None show ?thesis by (intro exI [of _ "a # pre"] exI [of _ x] exI [of _ post]) simp
  next
    case (Some b)
    with Cons.prems show ?thesis by (intro exI [of _ "[]"] exI [of _ a] exI [of _ xs]) simp
  qed
qed

lemma find_map_None_iff: "find_map f xs = None \<longleftrightarrow> (\<forall>x \<in> set xs. f x = None)"
  by (induction xs) (auto split: option.splits)

lemma set_map_filter_eq: "set (List.map_filter f xs) = {y. \<exists>x \<in> set xs. f x = Some y}"
  by (induction xs) (auto simp: List.map_filter_simps split: option.splits)

lemma upt_Suc_shift: "[0..<Suc n] = 0 # map Suc [0..<n]"
  by (simp add: upt_conv_Cons map_Suc_upt del: upt_Suc)

lemma list_all2_set2_ex: "list_all2 P xs ys \<Longrightarrow> y \<in> set ys \<Longrightarrow> \<exists>x \<in> set xs. P x y"
  by (induction xs ys rule: list_all2_induct) auto

end
