(* ===== verification/Chain_Types.thy ===== *)
theory Chain_Types
  imports Prelude
begin

text \<open>
  The backend-neutral chain vocabulary of \<open>zallet-core/src/components/chain.rs\<close> and
  \<open>chain/error.rs\<close>: block heights, the chain error, a block's position, the block locator
  with its construction invariant, the transaction wrapper and the note-commitment-tree pools.

  \<open>BlockHeight\<close> is a 32-bit newtype of the crate \<open>zcash_protocol\<close>, whose \<open>+\<close> and \<open>-\<close> are not
  part of this repository: they are the two functions of \<^emph>\<open>height_ops\<close>, an argument of every
  definition that uses them, and \<^emph>\<open>height_ops_ok\<close> states what the code relies on (they are
  exact while the result is a 32-bit height).
\<close>

section \<open>Heights\<close>

type_synonym BlockHeight = u32
type_synonym BlockHash = "u8 list"
type_synonym TxId = "u8 list"

record height_ops =
  h_add :: "BlockHeight \<Rightarrow> u32 \<Rightarrow> BlockHeight"
  h_sub :: "BlockHeight \<Rightarrow> u32 \<Rightarrow> BlockHeight"

definition height_ops_ok :: "height_ops \<Rightarrow> bool" where
  "height_ops_ok H \<longleftrightarrow>
     (\<forall>h n. unat h + unat n < 2 ^ 32 \<longrightarrow> unat (h_add H h n) = unat h + unat n) \<and>
     (\<forall>h n. unat n \<le> unat h \<longrightarrow> unat (h_sub H h n) = unat h - unat n)"

text \<open>Two implementations with that behaviour: arithmetic that saturates at the ends of the
  range, and arithmetic that wraps there.\<close>

definition saturating_heights :: height_ops where
  "saturating_heights = \<lparr>h_add = saturating_add, h_sub = saturating_sub\<rparr>"

definition wrapping_heights :: height_ops where
  "wrapping_heights = \<lparr>h_add = (+), h_sub = (-)\<rparr>"

lemma saturating_heights_ok: "height_ops_ok saturating_heights"
  by (auto simp: height_ops_ok_def saturating_heights_def saturating_add_def
      unat_saturating_sub unat_word_ariths)

lemma wrapping_heights_ok: "height_ops_ok wrapping_heights"
  by (auto simp: height_ops_ok_def wrapping_heights_def unat_word_ariths unat_minus_le
      word_le_nat_alt)

lemma h_add_one: "height_ops_ok H \<Longrightarrow> h < k \<Longrightarrow> unat (h_add H h 1) = unat h + 1"
proof -
  assume ok: "height_ops_ok H" and lt: "h < k"
  have "unat k < 2 ^ LENGTH(32)" by (rule unsigned_less)
  with lt have "unat h + unat (1 :: u32) < 2 ^ 32" by (simp add: word_less_nat_alt)
  with ok have "unat (h_add H h 1) = unat h + unat (1 :: u32)"
    unfolding height_ops_ok_def by blast
  then show ?thesis by simp
qed

lemma h_sub_one: "height_ops_ok H \<Longrightarrow> 0 < h \<Longrightarrow> unat (h_sub H h 1) = unat h - 1"
proof -
  assume ok: "height_ops_ok H" and "0 < h"
  then have "unat (1 :: u32) \<le> unat h" by (simp add: word_less_nat_alt)
  with ok have "unat (h_sub H h 1) = unat h - unat (1 :: u32)"
    unfolding height_ops_ok_def by blast
  then show ?thesis by simp
qed

section \<open>Errors\<close>

text \<open>\<open>chain/error.rs\<close>: a boxed source error is kept as its text.\<close>

datatype ChainError = Unavailable string | InvalidData string | Backend string

section \<open>Blocks and locators\<close>

record ChainBlock =
  cb_height :: BlockHeight
  cb_hash :: BlockHash

abbreviation chain_block :: "BlockHeight \<Rightarrow> BlockHash \<Rightarrow> ChainBlock" where
  "chain_block h x \<equiv> \<lparr>cb_height = h, cb_hash = x\<rparr>"

datatype BlockLocator = BlockLocator (hashes: "BlockHash list")

text \<open>\<open>BlockLocator::from_blocks\<close>: the loop over the blocks with the previous height and the
  hashes pushed so far; heights that do not strictly decrease panic.\<close>

fun from_blocks_loop ::
    "BlockHeight option \<Rightarrow> BlockHash list \<Rightarrow> ChainBlock list \<Rightarrow> 'e fault + BlockLocator" where
  "from_blocks_loop prev_height acc [] = Inr (BlockLocator acc)"
| "from_blocks_loop prev_height acc (block # blocks) =
     (if \<exists>prev. prev_height = Some prev \<and> \<not> cb_height block < prev
      then Inl (Panic ''block locator heights must strictly decrease'')
      else from_blocks_loop (Some (cb_height block)) (acc @ [cb_hash block]) blocks)"

definition from_blocks :: "ChainBlock list \<Rightarrow> 'e fault + BlockLocator" where
  "from_blocks blocks = from_blocks_loop None [] blocks"

lemma from_blocks_loop_ok:
  "strictly_decreasing (case_option [] (\<lambda>p. [p]) prev @ map cb_height blocks) \<Longrightarrow>
   from_blocks_loop prev acc blocks = Inr (BlockLocator (acc @ map cb_hash blocks))"
  by (induction blocks arbitrary: prev acc) (auto split: option.splits)

lemma from_blocks_loop_panics:
  "\<not> strictly_decreasing (case_option [] (\<lambda>p. [p]) prev @ map cb_height blocks) \<Longrightarrow>
   \<exists>msg. from_blocks_loop prev acc blocks = Inl (Panic msg)"
proof (induction blocks arbitrary: prev acc)
  case Nil
  then show ?case by (simp split: option.splits)
next
  case (Cons b bs)
  show ?case
  proof (cases "\<exists>p. prev = Some p \<and> \<not> cb_height b < p")
    case True
    then show ?thesis by auto
  next
    case False
    with Cons.prems have "\<not> strictly_decreasing (cb_height b # map cb_height bs)"
      by (fastforce split: option.splits)
    with False Cons.IH [of "Some (cb_height b)" "acc @ [cb_hash b]"] show ?thesis
      by (auto split: option.splits)
  qed
qed

lemma from_blocks_ok:
  "strictly_decreasing (map cb_height blocks) \<Longrightarrow>
   from_blocks blocks = Inr (BlockLocator (map cb_hash blocks))"
  by (simp add: from_blocks_def from_blocks_loop_ok)

lemma from_blocks_panics:
  "\<not> strictly_decreasing (map cb_height blocks) \<Longrightarrow> \<exists>msg. from_blocks blocks = Inl (Panic msg)"
  by (simp add: from_blocks_def from_blocks_loop_panics)

section \<open>Transactions with chain metadata\<close>

record 'tx ChainTx =
  inner :: 'tx
  raw :: "u8 list"
  tx_block_hash :: "BlockHash option"
  mined_height :: "BlockHeight option"
  block_time :: "u32 option"

text \<open>\<open>SpendStatus\<close>.\<close>

datatype SpendStatus = Unspent | SpentBy TxId | SpentSpenderUnknown

text \<open>The status of a transaction, a transparent output's position and a transparent address,
  the public enums and struct of the librustzcash crates.\<close>

datatype TransactionStatus = TxidNotRecognized | NotInMainChain | Mined BlockHeight

type_synonym OutPoint = "TxId \<times> u32"

datatype TransparentAddress = PublicKeyHash "u8 list" | ScriptHash "u8 list"

section \<open>Chain views\<close>

text \<open>The trait \<open>ChainView\<close>: a captured view of the chain is the collection of its answers. A
  stream is the list of the results it yields, read up to its first error; a header is known to
  the wallet through its hash.\<close>

type_synonym 'a result_stream = "(ChainError + 'a) list"

record ('blk, 'ts, 'tx) ChainView =
  view_tip :: "ChainError + ChainBlock"
  find_fork_point :: "BlockLocator \<Rightarrow> ChainError + ChainBlock option"
  tree_state_as_of :: "BlockHeight \<Rightarrow> ChainError + 'ts option"
  get_block_header :: "BlockHeight \<Rightarrow> ChainError + BlockHash option"
  get_block :: "BlockHeight \<Rightarrow> ChainError + 'blk option"
  stream_blocks_to_tip :: "BlockHeight \<Rightarrow> 'blk result_stream"
  stream_blocks :: "BlockHeight \<times> BlockHeight \<Rightarrow> 'blk result_stream"
  get_mempool_stream :: "ChainError + 'tx list option"
  get_transaction :: "TxId \<Rightarrow> ChainError + 'tx ChainTx option"
  get_transaction_status :: "TxId \<Rightarrow> ChainError + TransactionStatus"
  outpoint_spend_status :: "OutPoint \<Rightarrow> ChainError + SpendStatus"
  get_address_unspent_outpoints :: "TransparentAddress \<Rightarrow> ChainError + OutPoint list"
  get_address_tx_ids :: "TransparentAddress \<Rightarrow> BlockHeight \<times> BlockHeight \<Rightarrow> ChainError + TxId list"

section \<open>Note commitment tree pools\<close>

datatype TreePool = TreeSapling | TreeOrchard | TreeIronwood

datatype NetworkUpgrade = UpgradeSapling | UpgradeNu5 | UpgradeNu6_3

fun activated_by :: "TreePool \<Rightarrow> NetworkUpgrade" where
  "activated_by TreeSapling = UpgradeSapling"
| "activated_by TreeOrchard = UpgradeNu5"
| "activated_by TreeIronwood = UpgradeNu6_3"

fun show_tree_pool :: "TreePool \<Rightarrow> string" where
  "show_tree_pool TreeSapling = ''Sapling''"
| "show_tree_pool TreeOrchard = ''Orchard''"
| "show_tree_pool TreeIronwood = ''Ironwood''"

text \<open>\<open>empty_tree_is_legitimate\<close>, over the network's activation heights.\<close>

definition empty_tree_is_legitimate ::
    "(NetworkUpgrade \<Rightarrow> BlockHeight option) \<Rightarrow> TreePool \<Rightarrow> BlockHeight \<Rightarrow> bool" where
  "empty_tree_is_legitimate activation_height pool height =
     (case activation_height (activated_by pool) of
        None \<Rightarrow> True
      | Some activation \<Rightarrow> height < activation)"

text \<open>Legitimacy of an absent tree is lost exactly once, at activation.\<close>

lemma empty_tree_antimono:
  "h \<le> k \<Longrightarrow> empty_tree_is_legitimate act pool k \<Longrightarrow> empty_tree_is_legitimate act pool h"
  by (auto simp: empty_tree_is_legitimate_def split: option.splits)

end
