(* ===== verification/Numerals.thy ===== *)
theory Numerals
  imports Prelude
begin

text \<open>
  The standard library's conversions between unsigned integers and text that the sources use:
  \<open>to_string\<close> and \<open>{}\<close> (decimal), \<open>{:08x}\<close> (zero-padded hexadecimal), \<open>from_str_radix\<close>
  and \<open>parse\<close>. The facts shown are the round trips and that parsing accepts only in-range
  numerals.
\<close>

section \<open>Digits\<close>

definition digit_char :: "nat \<Rightarrow> char" where
  "digit_char d = (if d < 10 then char_of (48 + d) else char_of (87 + d))"

text \<open>\<open>char::to_digit(radix)\<close>.\<close>

definition to_digit :: "nat \<Rightarrow> char \<Rightarrow> nat option" where
  "to_digit radix c =
     (let n = of_char c :: nat;
          d = (if 48 \<le> n \<and> n \<le> 57 then Some (n - 48)
               else if 97 \<le> n \<and> n \<le> 122 then Some (n - 87)
               else if 65 \<le> n \<and> n \<le> 90 then Some (n - 55)
               else None)
      in case d of None \<Rightarrow> None | Some v \<Rightarrow> if v < radix then Some v else None)"

lemma to_digit_digit_char: "d < radix \<Longrightarrow> radix \<le> 36 \<Longrightarrow> to_digit radix (digit_char d) = Some d"
  by (auto simp: to_digit_def digit_char_def Let_def)

lemma to_digit_less: "to_digit radix c = Some d \<Longrightarrow> d < radix"
  by (auto simp: to_digit_def Let_def split: option.splits if_splits)

lemma digit_char_neq_plus: "d < 36 \<Longrightarrow> digit_char d \<noteq> CHR ''+''"
  using to_digit_digit_char [of d 36] by (auto simp: to_digit_def)

lemma digit_char_neq_colon: "d < 36 \<Longrightarrow> digit_char d \<noteq> CHR '':''"
  using to_digit_digit_char [of d 36] by (auto simp: to_digit_def)

section \<open>Printing\<close>

fun show_radix :: "nat \<Rightarrow> nat \<Rightarrow> string" where
  "show_radix b n =
     (if n < b \<or> b \<le> 1 then [digit_char n] else show_radix b (n div b) @ [digit_char (n mod b)])"

declare show_radix.simps [simp del]

abbreviation show_nat :: "nat \<Rightarrow> string" where
  "show_nat \<equiv> show_radix 10"

definition pad_zeros :: "nat \<Rightarrow> string \<Rightarrow> string" where
  "pad_zeros w s = replicate (w - length s) (CHR ''0'') @ s"

abbreviation show_hex8 :: "u32 \<Rightarrow> string" where
  "show_hex8 n \<equiv> pad_zeros 8 (show_radix 16 (unat n))"

lemma show_radix_nonempty: "show_radix b n \<noteq> []"
  by (subst show_radix.simps) simp

lemma show_radix_digits:
  "1 < b \<Longrightarrow> c \<in> set (show_radix b n) \<Longrightarrow> \<exists>d < b. c = digit_char d"
proof (induction b n rule: show_radix.induct)
  case (1 b n)
  show ?case
  proof (cases "n < b \<or> b \<le> 1")
    case True
    with "1.prems" show ?thesis by (auto simp: show_radix.simps [of b n])
  next
    case False
    with "1.prems" have "c \<in> set (show_radix b (n div b)) \<or> c = digit_char (n mod b)"
      by (auto simp: show_radix.simps [of b n])
    with False "1.IH" "1.prems"(1) show ?thesis
      by (metis bot_nat_0.extremum_strict linorder_neqE_nat mod_less_divisor not_le)
  qed
qed

section \<open>Parsing\<close>

text \<open>The digit loop of \<open>from_str_radix\<close>: each step is a checked multiplication and addition
  below the type's bound.\<close>

fun radix_loop :: "nat \<Rightarrow> nat \<Rightarrow> nat \<Rightarrow> string \<Rightarrow> nat option" where
  "radix_loop radix bound acc [] = Some acc"
| "radix_loop radix bound acc (c # cs) =
     (case to_digit radix c of
        None \<Rightarrow> None
      | Some d \<Rightarrow> if acc * radix + d < bound then radix_loop radix bound (acc * radix + d) cs
                  else None)"

definition from_str_radix :: "nat \<Rightarrow> string \<Rightarrow> 'a::len word option" where
  "from_str_radix radix s =
     (let digits = (case s of c # cs \<Rightarrow> if c = CHR ''+'' then cs else s | [] \<Rightarrow> s)
      in if digits = [] then None
         else map_option of_nat (radix_loop radix (2 ^ LENGTH('a)) 0 digits))"

lemma radix_loop_append:
  "radix_loop b m acc (xs @ ys) =
     (case radix_loop b m acc xs of None \<Rightarrow> None | Some v \<Rightarrow> radix_loop b m v ys)"
  by (induction xs arbitrary: acc) (auto split: option.splits)

lemma radix_loop_bound: "radix_loop b m acc s = Some v \<Longrightarrow> acc < m \<Longrightarrow> v < m"
  by (induction s arbitrary: acc) (auto split: option.splits if_splits)

lemma radix_loop_show:
  "1 < b \<Longrightarrow> b \<le> 36 \<Longrightarrow> n < m \<Longrightarrow> radix_loop b m 0 (show_radix b n) = Some n"
proof (induction b n rule: show_radix.induct)
  case (1 b n)
  show ?case
  proof (cases "n < b \<or> b \<le> 1")
    case True
    with "1.prems" show ?thesis
      by (subst show_radix.simps) (simp add: to_digit_digit_char)
  next
    case False
    then have "n div b < n" using "1.prems"(1) by simp
    with "1.prems"(3) have "n div b < m" by linarith
    with False "1.IH" "1.prems" have ih: "radix_loop b m 0 (show_radix b (n div b)) = Some (n div b)"
      by simp
    have "to_digit b (digit_char (n mod b)) = Some (n mod b)"
      using "1.prems" by (simp add: to_digit_digit_char)
    with False ih "1.prems"(3) show ?thesis
      by (subst show_radix.simps) (simp add: radix_loop_append)
  qed
qed

lemma radix_loop_zeros:
  "1 < b \<Longrightarrow> b \<le> 36 \<Longrightarrow> 0 < m \<Longrightarrow>
   radix_loop b m 0 (replicate k (CHR ''0'') @ s) = radix_loop b m 0 s"
proof (induction k)
  case 0
  then show ?case by simp
next
  case (Suc k)
  have "to_digit b (CHR ''0'') = Some 0"
    using Suc.prems by (simp add: to_digit_def)
  with Suc show ?case by simp
qed

lemma from_str_radix_digits:
  "s \<noteq> [] \<Longrightarrow> hd s \<noteq> CHR ''+'' \<Longrightarrow>
   from_str_radix b s = (map_option of_nat (radix_loop b (2 ^ LENGTH('a)) 0 s) :: 'a::len word option)"
  by (auto simp: from_str_radix_def split: list.splits)

lemma hd_show_radix: "1 < b \<Longrightarrow> b \<le> 36 \<Longrightarrow> hd (show_radix b n) \<noteq> CHR ''+''"
  using show_radix_digits [of b "hd (show_radix b n)" n] show_radix_nonempty [of b n]
  by (metis digit_char_neq_plus hd_in_set order_less_le_trans)

lemma from_str_radix_show:
  "1 < b \<Longrightarrow> b \<le> 36 \<Longrightarrow> from_str_radix b (show_radix b (unat x)) = Some (x :: 'a::len word)"
  by (simp add: from_str_radix_digits show_radix_nonempty hd_show_radix radix_loop_show unsigned_less)

lemma from_str_radix_padded:
  "from_str_radix 16 (pad_zeros w (show_radix 16 (unat x))) = Some (x :: 'a::len word)"
proof -
  let ?s = "show_radix 16 (unat x)"
  have "hd (pad_zeros w ?s) \<noteq> CHR ''+''" and "pad_zeros w ?s \<noteq> []"
    using hd_show_radix [of 16 "unat x"] show_radix_nonempty [of 16 "unat x"]
    by (auto simp: pad_zeros_def hd_append)
  then show ?thesis
    by (simp add: from_str_radix_digits pad_zeros_def radix_loop_zeros radix_loop_show unsigned_less)
qed

section \<open>Splitting\<close>

text \<open>\<open>str::split_once\<close> at a character.\<close>

fun split_once :: "char \<Rightarrow> string \<Rightarrow> (string \<times> string) option" where
  "split_once d [] = None"
| "split_once d (c # cs) =
     (if c = d then Some ([], cs)
      else map_option (\<lambda>(a, b). (c # a, b)) (split_once d cs))"

lemma split_once_append: "d \<notin> set a \<Longrightarrow> split_once d (a @ d # b) = Some (a, b)"
  by (induction a) auto

lemma split_once_Some: "split_once d s = Some (a, b) \<Longrightarrow> s = a @ d # b \<and> d \<notin> set a"
  by (induction s arbitrary: a) (auto split: if_splits)

section \<open>Text\<close>

text \<open>The standard library's \<open>str::trim\<close> and \<open>str::strip_prefix\<close>, on ASCII text.\<close>

definition is_ascii_space :: "char \<Rightarrow> bool" where
  "is_ascii_space c \<longleftrightarrow> (let n = of_char c :: nat in (9 \<le> n \<and> n \<le> 13) \<or> n = 32)"

definition trim :: "string \<Rightarrow> string" where
  "trim s = rev (dropWhile is_ascii_space (rev (dropWhile is_ascii_space s)))"

fun strip_prefix :: "string \<Rightarrow> string \<Rightarrow> string option" where
  "strip_prefix [] s = Some s"
| "strip_prefix (p # ps) [] = None"
| "strip_prefix (p # ps) (c # cs) = (if p = c then strip_prefix ps cs else None)"

abbreviation starts_with :: "string \<Rightarrow> string \<Rightarrow> bool" where
  "starts_with p s \<equiv> strip_prefix p s \<noteq> None"

lemma strip_prefix_iff: "strip_prefix p s = Some t \<longleftrightarrow> s = p @ t"
  by (induction p s rule: strip_prefix.induct) auto

lemma trim_id:
  assumes "\<And>c. c \<in> set s \<Longrightarrow> \<not> is_ascii_space c"
  shows "trim s = s"
proof -
  have "dropWhile is_ascii_space t = t" if "set t \<subseteq> set s" for t
    using assms that by (cases t) auto
  then show ?thesis by (simp add: trim_def)
qed

text \<open>Strings are the bytes of their UTF-8 encoding: \<open>str::as_bytes\<close> and \<open>String::from_utf8\<close>.\<close>

definition as_bytes :: "string \<Rightarrow> u8 list" where
  "as_bytes s = map (\<lambda>c. of_nat (of_char c)) s"

abbreviation continues :: "nat \<Rightarrow> bool" where
  "continues b \<equiv> 128 \<le> b \<and> b \<le> 191"

fun utf8_valid :: "nat list \<Rightarrow> bool" where
  "utf8_valid [] = True"
| "utf8_valid (b # bs) =
     (if b < 128 then utf8_valid bs
      else case bs of
        [] \<Rightarrow> False
      | c # bs \<Rightarrow>
          if 194 \<le> b \<and> b \<le> 223 then continues c \<and> utf8_valid bs
          else case bs of
            [] \<Rightarrow> False
          | d # bs \<Rightarrow>
              if 224 \<le> b \<and> b \<le> 239
              then continues c \<and> (b = 224 \<longrightarrow> 160 \<le> c) \<and> (b = 237 \<longrightarrow> c \<le> 159) \<and> continues d \<and> utf8_valid bs
              else case bs of
                [] \<Rightarrow> False
              | e # bs \<Rightarrow>
                  240 \<le> b \<and> b \<le> 244 \<and> continues c \<and> (b = 240 \<longrightarrow> 144 \<le> c) \<and> (b = 244 \<longrightarrow> c \<le> 143) \<and>
                  continues d \<and> continues e \<and> utf8_valid bs)"

definition from_utf8 :: "u8 list \<Rightarrow> string option" where
  "from_utf8 bytes = (if utf8_valid (map unat bytes) then Some (map (\<lambda>b. char_of (unat b)) bytes) else None)"

lemma ascii_utf8_valid: "(\<And>b. b \<in> set bs \<Longrightarrow> b < 128) \<Longrightarrow> utf8_valid bs"
  by (induction bs) auto

lemma unat_of_char: "unat (of_nat (of_char c) :: u8) = of_char c"
  using nat_of_char_less_256 [of c] by (simp add: unsigned_of_nat take_bit_eq_mod)

lemma as_bytes_chars: "map (\<lambda>b. char_of (unat b)) (as_bytes s) = s"
  by (induction s) (simp_all add: as_bytes_def unat_of_char)

lemma from_utf8_ascii:
  assumes "\<And>c. c \<in> set s \<Longrightarrow> of_char c < (128 :: nat)"
  shows "from_utf8 (as_bytes s) = Some s"
proof -
  have "utf8_valid (map unat (as_bytes s))"
    using assms by (intro ascii_utf8_valid) (auto simp: as_bytes_def unat_of_char)
  then show ?thesis by (simp add: from_utf8_def as_bytes_chars)
qed

end
