(* ===== verification/Chain_Compat.thy ===== *)
theory Chain_Compat
  imports Chain_Types Numerals
begin

text \<open>
  The network parameters (\<open>network.rs\<close>) and the startup check that the backing full node
  follows the consensus rules this build knows (\<open>chain.rs\<close>, \<open>detect_incompatibilities\<close> to
  \<open>check_consensus_compatibility\<close>). The specification is the set of rule changes in force at a
  height on either side; the check refuses to start exactly when the two sides already differ
  at the tip, and otherwise the height it returns is the first one at which they will.

  \<open>BranchId\<close> is an enum of \<open>zcash_protocol\<close>; its conversions and each branch's activation
  heights are the fields of \<^emph>\<open>consensus_params\<close>.
\<close>

section \<open>Network parameters\<close>

datatype BranchId =
  Sprout | Overwinter | Sapling | Blossom | Heartwood | Canopy
  | Nu5 | Nu6 | Nu6_1 | Nu6_2 | Nu6_3 | ZFuture

definition NETWORK_UPGRADES :: "BranchId list" where
  "NETWORK_UPGRADES =
     [Overwinter, Sapling, Blossom, Heartwood, Canopy, Nu5, Nu6, Nu6_1, Nu6_2, Nu6_3]"

datatype NetworkType = Main | Test | Regtest

fun type_to_str :: "NetworkType \<Rightarrow> string" where
  "type_to_str Main = ''main''"
| "type_to_str Test = ''test''"
| "type_to_str Regtest = ''regtest''"

definition str_to_type :: "string \<Rightarrow> NetworkType option" where
  "str_to_type s =
     (if s = ''main'' then Some Main
      else if s = ''test'' then Some Test
      else if s = ''regtest'' then Some Regtest
      else None)"

interpretation network_type: string_codec type_to_str str_to_type
proof
  show "str_to_type (type_to_str x) = Some x" for x
    by (cases x) (simp_all add: str_to_type_def)
  show "str_to_type s = Some x \<Longrightarrow> s = type_to_str x" for s x
    by (auto simp: str_to_type_def split: if_splits)
qed

record RegTestNuParam =
  consensus_branch_id :: BranchId
  nu_activation_height :: BlockHeight

record LocalNetwork =
  ln_overwinter :: "BlockHeight option"
  ln_sapling :: "BlockHeight option"
  ln_blossom :: "BlockHeight option"
  ln_heartwood :: "BlockHeight option"
  ln_canopy :: "BlockHeight option"
  ln_nu5 :: "BlockHeight option"
  ln_nu6 :: "BlockHeight option"
  ln_nu6_1 :: "BlockHeight option"
  ln_nu6_2 :: "BlockHeight option"
  ln_nu6_3 :: "BlockHeight option"

datatype Network = MainNetwork | TestNetwork | RegTest LocalNetwork

text \<open>The closure \<open>find_nu\<close> and the walk from the latest upgrade back to the earliest that
  carries the next specified height.\<close>

definition find_nu :: "RegTestNuParam list \<Rightarrow> BranchId \<Rightarrow> BlockHeight option" where
  "find_nu nuparams nu =
     map_option nu_activation_height (find (\<lambda>p. consensus_branch_id p = nu) nuparams)"

fun carry_back ::
    "(BranchId \<Rightarrow> BlockHeight option) \<Rightarrow> BlockHeight option \<Rightarrow> BranchId list \<Rightarrow>
     (BranchId \<times> BlockHeight option) list" where
  "carry_back lookup next [] = []"
| "carry_back lookup next (nu # nus) =
     (let next' = (case lookup nu of Some h \<Rightarrow> Some h | None \<Rightarrow> next)
      in (nu, next') # carry_back lookup next' nus)"

definition regtest_height :: "RegTestNuParam list \<Rightarrow> BranchId \<Rightarrow> BlockHeight option" where
  "regtest_height nuparams nu =
     (case find (\<lambda>(branch, _). branch = nu)
             (carry_back (find_nu nuparams) None (rev NETWORK_UPGRADES)) of
        None \<Rightarrow> None
      | Some (_, h) \<Rightarrow> h)"

definition from_type :: "NetworkType \<Rightarrow> RegTestNuParam list \<Rightarrow> Network" where
  "from_type network_type nuparams =
     (case network_type of
        Main \<Rightarrow> MainNetwork
      | Test \<Rightarrow> TestNetwork
      | Regtest \<Rightarrow>
          (let height = regtest_height nuparams
           in RegTest
             \<lparr>ln_overwinter = height Overwinter, ln_sapling = height Sapling,
              ln_blossom = height Blossom, ln_heartwood = height Heartwood,
              ln_canopy = height Canopy, ln_nu5 = height Nu5, ln_nu6 = height Nu6,
              ln_nu6_1 = height Nu6_1, ln_nu6_2 = height Nu6_2, ln_nu6_3 = height Nu6_3\<rparr>))"

lemma carry_back_height:
  "nu \<in> set nus \<Longrightarrow> distinct nus \<Longrightarrow>
   find (\<lambda>(branch, _). branch = nu) (carry_back f next nus) =
     Some (nu, case find_map f (rev (takeWhile (\<lambda>x. x \<noteq> nu) nus @ [nu])) of
                 Some h \<Rightarrow> Some h | None \<Rightarrow> next)"
proof (induction nus arbitrary: "next")
  case Nil
  then show ?case by simp
next
  case (Cons a nus)
  have snoc: "find_map f (xs @ [a]) = (case find_map f xs of Some h \<Rightarrow> Some h | None \<Rightarrow> f a)" for xs
    by (induction xs) (auto split: option.splits)
  show ?case
  proof (cases "a = nu")
    case True
    then show ?thesis by (auto simp: Let_def split: option.splits)
  next
    case False
    with Cons show ?thesis
      by (auto simp: Let_def snoc split: option.splits)
  qed
qed

text \<open>An upgrade omitted from the regtest configuration activates with the next configured
  one: the height of \<open>nu\<close> is the first configured height at or after \<open>nu\<close> in activation
  order.\<close>

lemma regtest_height_next:
  assumes "NETWORK_UPGRADES = pre @ nu # post"
  shows "regtest_height nuparams nu = find_map (find_nu nuparams) (nu # post)"
proof -
  have d: "distinct (rev NETWORK_UPGRADES)" by (simp add: NETWORK_UPGRADES_def)
  then have "distinct (pre @ nu # post)" by (simp only: assms distinct_rev)
  then have "nu \<notin> set post" by simp
  then have tw: "takeWhile (\<lambda>x. x \<noteq> nu) (rev NETWORK_UPGRADES) = rev post"
    using takeWhile_append2 [of "rev post" "\<lambda>x. x \<noteq> nu" "nu # rev pre"] by (auto simp: assms)
  have "nu \<in> set (rev NETWORK_UPGRADES)" by (simp add: assms)
  from carry_back_height [OF this d, of "find_nu nuparams" None, unfolded tw] show ?thesis
    by (simp add: regtest_height_def split: option.splits)
qed

section \<open>Parameters of the consensus crate\<close>

record consensus_params =
  branch_code :: "BranchId \<Rightarrow> u32"
  branch_try_from :: "u32 \<Rightarrow> BranchId option"
  height_bounds :: "BranchId \<Rightarrow> (BlockHeight \<times> BlockHeight option) option"
  show_branch :: "BranchId \<Rightarrow> string"

text \<open>\<open>RegTestNuParam\<close>'s \<open>TryFrom<String>\<close> and \<open>Into<String>\<close>.\<close>

definition nuparam_try_from :: "consensus_params \<Rightarrow> string \<Rightarrow> string + RegTestNuParam" where
  "nuparam_try_from cp value =
     rbind (ok_or ''Invalid `regtest_nuparam`'' (split_once (CHR '':'') value)) (\<lambda>(branch_id, height).
     rbind (ok_or ''Invalid `regtest_nuparam`''
              (Option.bind (from_str_radix 16 branch_id) (branch_try_from cp))) (\<lambda>b.
     rbind (ok_or ''Invalid `regtest_nuparam`'' (from_str_radix 10 height)) (\<lambda>h.
     Inr \<lparr>consensus_branch_id = b, nu_activation_height = h\<rparr>)))"

definition nuparam_to_string ::
    "consensus_params \<Rightarrow> (BlockHeight \<Rightarrow> string) \<Rightarrow> RegTestNuParam \<Rightarrow> string" where
  "nuparam_to_string cp show_height p =
     show_hex8 (branch_code cp (consensus_branch_id p)) @ '':'' @ show_height (nu_activation_height p)"

lemma hex8_no_colon: "CHR '':'' \<notin> set (show_hex8 w)"
proof
  assume "CHR '':'' \<in> set (show_hex8 w)"
  then have "CHR '':'' \<in> set (show_radix 16 (unat w))" by (auto simp: pad_zeros_def)
  then obtain d where "d < 16" "CHR '':'' = digit_char d"
    using show_radix_digits [of 16] by (metis one_less_numeral_iff semiring_norm(76))
  with digit_char_neq_colon [of d] show False by simp
qed

lemma nuparam_round_trip:
  assumes "branch_try_from cp (branch_code cp (consensus_branch_id p)) = Some (consensus_branch_id p)"
    and "show_height = (\<lambda>h. show_nat (unat h))"
  shows "nuparam_try_from cp (nuparam_to_string cp show_height p) = Inr p"
proof -
  let ?code = "branch_code cp (consensus_branch_id p)"
  have "split_once (CHR '':'') (nuparam_to_string cp show_height p) =
      Some (show_hex8 ?code, show_nat (unat (nu_activation_height p)))"
    using split_once_append [OF hex8_no_colon] assms(2) by (simp add: nuparam_to_string_def)
  then show ?thesis
    using assms(1) by (simp add: nuparam_try_from_def from_str_radix_padded from_str_radix_show)
qed

section \<open>The compatibility check\<close>

datatype UpgradeStatus = Active | Pending | Disabled

record ReportedUpgrade =
  ru_branch_id :: u32
  ru_name :: string
  ru_activation_height :: u32
  ru_status :: UpgradeStatus

datatype Incompatibility =
    UnknownUpgrade u32 string u32
  | ActivationHeightMismatch u32 string "u32 option" "u32 option" u32

fun divergence_height :: "Incompatibility \<Rightarrow> u32" where
  "divergence_height (UnknownUpgrade _ _ activation_height) = activation_height"
| "divergence_height (ActivationHeightMismatch _ _ _ _ d) = d"

fun describe_side :: "u32 option \<Rightarrow> string" where
  "describe_side (Some height) = ''activates it at height '' @ show_nat (unat height)"
| "describe_side None = ''does not schedule it''"

fun describe :: "Incompatibility \<Rightarrow> string" where
  "describe (UnknownUpgrade branch_id name activation_height) =
     name @ '' (branch ID '' @ show_hex8 branch_id @ '', unrecognized, activates at height '' @
     show_nat (unat activation_height) @ '')''"
| "describe (ActivationHeightMismatch branch_id name expected node _) =
     name @ '' (branch ID '' @ show_hex8 branch_id @ ''): full node '' @ describe_side node @
     '', but this Zallet build '' @ describe_side expected"

definition branch_incompatibility ::
    "consensus_params \<Rightarrow> u32 \<Rightarrow> ReportedUpgrade option \<Rightarrow> Incompatibility option" where
  "branch_incompatibility cp branch_id reported =
     (let node = (case reported of
                    None \<Rightarrow> None
                  | Some upgrade \<Rightarrow>
                      (case ru_status upgrade of
                         Disabled \<Rightarrow> None
                       | Active \<Rightarrow> Some (ru_activation_height upgrade)
                       | Pending \<Rightarrow> Some (ru_activation_height upgrade)))
      in case branch_try_from cp branch_id of
           Some branch \<Rightarrow>
             (let expected = map_option fst (height_bounds cp branch)
              in map_option
                   (\<lambda>d. ActivationHeightMismatch branch_id
                          (case reported of None \<Rightarrow> show_branch cp branch | Some u \<Rightarrow> ru_name u)
                          expected node d)
                   (case (expected, node) of
                      (Some e, Some n) \<Rightarrow> if e = n then None else Some (min e n)
                    | (Some h, None) \<Rightarrow> Some h
                    | (None, mheight) \<Rightarrow> mheight))
         | None \<Rightarrow>
             map_option
               (\<lambda>h. UnknownUpgrade branch_id
                      (case reported of None \<Rightarrow> [] | Some u \<Rightarrow> ru_name u) h)
               node)"

text \<open>The node's upgrades indexed by branch ID; a later report of the same branch replaces an
  earlier one, as collecting into a map does.\<close>

definition reported_by_branch :: "ReportedUpgrade list \<Rightarrow> u32 \<Rightarrow> ReportedUpgrade option" where
  "reported_by_branch upgrades = map_of (rev (map (\<lambda>u. (ru_branch_id u, u)) upgrades))"

definition examined_branches :: "consensus_params \<Rightarrow> ReportedUpgrade list \<Rightarrow> u32 list" where
  "examined_branches cp upgrades =
     sort (remdups (map ru_branch_id upgrades @ map (branch_code cp) NETWORK_UPGRADES))"

definition detect_incompatibilities ::
    "consensus_params \<Rightarrow> ReportedUpgrade list \<Rightarrow> Incompatibility list" where
  "detect_incompatibilities cp upgrades =
     List.map_filter
       (\<lambda>branch_id. branch_incompatibility cp branch_id (reported_by_branch upgrades branch_id))
       (examined_branches cp upgrades)"

datatype Decision = Diverged "Incompatibility list" | PendingAt u32 "Incompatibility list"

text \<open>\<open>classify\<close> takes a non-empty list; its caller is the only one and checks that.\<close>

definition classify :: "Incompatibility list \<Rightarrow> u32 \<Rightarrow> Decision" where
  "classify incompatibilities tip =
     (let earliest = Min (set (map divergence_height incompatibilities));
          (active, pending) = partition (\<lambda>i. divergence_height i \<le> tip) incompatibilities
      in if active = [] then PendingAt earliest pending else Diverged active)"

datatype compat_error =
    ReportedUpgradesFailed string
  | CompatChain ChainError
  | IncompatibleConsensus string

definition join_descriptions :: "Incompatibility list \<Rightarrow> string" where
  "join_descriptions upgrades =
     (case map describe upgrades of
        [] \<Rightarrow> []
      | d # ds \<Rightarrow> d @ concat (map (\<lambda>x. '', '' @ x) ds))"

text \<open>The arguments are what \<open>chain.reported_upgrades()\<close> and
  \<open>chain.snapshot().tip().height\<close> give.\<close>

definition check_consensus_compatibility ::
    "consensus_params \<Rightarrow> string + ReportedUpgrade list \<Rightarrow> ChainError + BlockHeight \<Rightarrow>
     compat_error + BlockHeight option" where
  "check_consensus_compatibility cp reported_upgrades tip_height =
     rbind (map_err ReportedUpgradesFailed reported_upgrades) (\<lambda>upgrades.
     (case detect_incompatibilities cp upgrades of
        [] \<Rightarrow> Inr None
      | incompatibilities \<Rightarrow>
          rbind (map_err CompatChain tip_height) (\<lambda>tip.
          (case classify incompatibilities tip of
             Diverged active \<Rightarrow> Inl (IncompatibleConsensus (join_descriptions active))
           | PendingAt height upgrades \<Rightarrow> Inr (Some height)))))"

section \<open>What the check means\<close>

text \<open>The height at which a side switches to a branch's rules, if it does.\<close>

definition node_schedule :: "ReportedUpgrade list \<Rightarrow> u32 \<Rightarrow> u32 option" where
  "node_schedule upgrades b =
     (case reported_by_branch upgrades b of
        None \<Rightarrow> None
      | Some u \<Rightarrow> if ru_status u = Disabled then None else Some (ru_activation_height u))"

definition our_schedule :: "consensus_params \<Rightarrow> u32 \<Rightarrow> u32 option" where
  "our_schedule cp b = Option.bind (branch_try_from cp b) (\<lambda>br. map_option fst (height_bounds cp br))"

text \<open>The rule changes in force at a height, among the branches either side knows.\<close>

definition rules_at :: "(u32 \<Rightarrow> u32 option) \<Rightarrow> u32 set \<Rightarrow> u32 \<Rightarrow> u32 set" where
  "rules_at sched B x = {b \<in> B. \<exists>h. sched b = Some h \<and> h \<le> x}"

fun first_difference :: "u32 option \<Rightarrow> u32 option \<Rightarrow> u32 option" where
  "first_difference None n = n"
| "first_difference (Some e) None = Some e"
| "first_difference (Some e) (Some n) = (if e = n then None else Some (min e n))"

lemma branch_incompatibility_divergence:
  "map_option divergence_height (branch_incompatibility cp b (reported_by_branch ups b)) =
     first_difference (our_schedule cp b) (node_schedule ups b)"
  by (cases "reported_by_branch ups b"; cases "branch_try_from cp b";
      cases "map_option fst (height_bounds cp (the (branch_try_from cp b)))")
     (auto simp: branch_incompatibility_def our_schedule_def node_schedule_def option.map_comp
       comp_def Let_def split: UpgradeStatus.splits)

lemma set_examined_branches:
  "set (examined_branches cp ups) = ru_branch_id ` set ups \<union> branch_code cp ` set NETWORK_UPGRADES"
  by (auto simp: examined_branches_def)

lemma divergences_detected:
  "divergence_height ` set (detect_incompatibilities cp ups) =
     {d. \<exists>b \<in> set (examined_branches cp ups).
           first_difference (our_schedule cp b) (node_schedule ups b) = Some d}"
  unfolding detect_incompatibilities_def set_map_filter_eq
    branch_incompatibility_divergence [symmetric] by force

lemma rules_agree_below:
  assumes "\<And>b d. b \<in> B \<Longrightarrow> first_difference (ours b) (node b) = Some d \<Longrightarrow> x < d"
  shows "rules_at node B x = rules_at ours B x"
proof -
  have "(\<exists>h. node b = Some h \<and> h \<le> x) = (\<exists>h. ours b = Some h \<and> h \<le> x)" if "b \<in> B" for b
    using assms [OF that]
    by (cases "ours b"; cases "node b"; cases "ours b = node b") (auto simp: min_def split: if_splits)
  then show ?thesis by (auto simp: rules_at_def)
qed

lemma rules_differ_at:
  assumes "b \<in> B" and "first_difference (ours b) (node b) = Some d"
  shows "rules_at node B d \<noteq> rules_at ours B d"
proof -
  have "(\<exists>h. node b = Some h \<and> h \<le> d) \<noteq> (\<exists>h. ours b = Some h \<and> h \<le> d)"
    using assms(2) by (cases "ours b"; cases "node b") (auto split: if_splits simp: min_def)
  with assms(1) show ?thesis by (auto simp: rules_at_def)
qed

lemma classify_cases:
  "is \<noteq> [] \<Longrightarrow>
   (case classify is tip of
      Diverged active \<Rightarrow> active = filter (\<lambda>i. divergence_height i \<le> tip) is \<and> active \<noteq> []
    | PendingAt h pending \<Rightarrow>
        h = Min (divergence_height ` set is) \<and> pending = is \<and> (\<forall>i \<in> set is. tip < divergence_height i))"
  by (auto simp: classify_def Let_def filter_empty_conv not_le filter_id_conv)

section \<open>Properties\<close>

abbreviation known_branches :: "consensus_params \<Rightarrow> ReportedUpgrade list \<Rightarrow> u32 set" where
  "known_branches cp ups \<equiv> set (examined_branches cp ups)"

abbreviation node_rules_at :: "consensus_params \<Rightarrow> ReportedUpgrade list \<Rightarrow> u32 \<Rightarrow> u32 set" where
  "node_rules_at cp ups \<equiv> rules_at (node_schedule ups) (known_branches cp ups)"

abbreviation our_rules_at :: "consensus_params \<Rightarrow> ReportedUpgrade list \<Rightarrow> u32 \<Rightarrow> u32 set" where
  "our_rules_at cp ups \<equiv> rules_at (our_schedule cp) (known_branches cp ups)"

lemma rules_differ_iff:
  "node_rules_at cp ups x \<noteq> our_rules_at cp ups x \<Longrightarrow>
   \<exists>i \<in> set (detect_incompatibilities cp ups). divergence_height i \<le> x"
proof (rule ccontr)
  assume neq: "node_rules_at cp ups x \<noteq> our_rules_at cp ups x"
    and no: "\<not> (\<exists>i \<in> set (detect_incompatibilities cp ups). divergence_height i \<le> x)"
  have "x < d" if "d \<in> divergence_height ` set (detect_incompatibilities cp ups)" for d
    using no that by (auto simp: not_le)
  then have "node_rules_at cp ups x = our_rules_at cp ups x"
    by (intro rules_agree_below) (auto simp: divergences_detected)
  with neq show False by contradiction
qed

lemma rules_differ_at_divergence:
  "i \<in> set (detect_incompatibilities cp ups) \<Longrightarrow>
   node_rules_at cp ups (divergence_height i) \<noteq> our_rules_at cp ups (divergence_height i)"
proof -
  assume "i \<in> set (detect_incompatibilities cp ups)"
  then have "divergence_height i \<in> divergence_height ` set (detect_incompatibilities cp ups)"
    by simp
  then show ?thesis unfolding divergences_detected by (blast dest: rules_differ_at)
qed

lemma check_compatibility_cases:
  "check_consensus_compatibility cp (Inr ups) (Inr tip) =
     (let is = detect_incompatibilities cp ups
      in if is = [] then Inr None
         else if \<exists>i \<in> set is. divergence_height i \<le> tip
         then Inl (IncompatibleConsensus
                     (join_descriptions (filter (\<lambda>i. divergence_height i \<le> tip) is)))
         else Inr (Some (Min (divergence_height ` set is))))"
proof (cases "detect_incompatibilities cp ups")
  case Nil
  then show ?thesis by (simp add: check_consensus_compatibility_def)
next
  case (Cons i incs)
  have "detect_incompatibilities cp ups \<noteq> []" using Cons by simp
  from classify_cases [OF this, of tip] Cons show ?thesis
    unfolding check_consensus_compatibility_def
    by (auto simp: Let_def filter_empty_conv not_le split: Decision.splits if_splits)
qed

text \<open>C4: When startup is allowed with a shutdown height, that height is above the node's tip
  and is the first height at which the node and this build would follow different consensus
  rules: they agree at every height below it and disagree at it.\<close>

theorem compat_pending_is_first_divergence:
  assumes "check_consensus_compatibility cp (Inr ups) (Inr tip) = Inr (Some h)"
  shows "tip < h \<and> (\<forall>x. x < h \<longrightarrow> node_rules_at cp ups x = our_rules_at cp ups x)
         \<and> node_rules_at cp ups h \<noteq> our_rules_at cp ups h"
proof -
  let ?D = "divergence_height ` set (detect_incompatibilities cp ups)"
  from assms have ne: "?D \<noteq> {}" and later: "\<forall>d \<in> ?D. tip < d" and h: "h = Min ?D"
    by (auto simp: check_compatibility_cases Let_def not_le split: if_splits)
  have fin: "finite ?D" by simp
  have "h \<in> ?D" using Min_in [OF fin ne] h by simp
  then obtain i where i: "i \<in> set (detect_incompatibilities cp ups)" "h = divergence_height i"
    by blast
  have "node_rules_at cp ups x = our_rules_at cp ups x" if "x < h" for x
  proof (rule ccontr)
    assume "\<not> ?thesis"
    from rules_differ_iff [OF this] obtain d where "d \<in> ?D" "d \<le> x" by blast
    with h fin that show False by (meson Min_le leD order_trans)
  qed
  with \<open>h \<in> ?D\<close> later i rules_differ_at_divergence show ?thesis by blast
qed

text \<open>A build that knows NU5 at height 10, against a node that agrees on it and schedules a
  further upgrade at height 100.\<close>

definition example_params :: consensus_params where
  "example_params =
     \<lparr>branch_code = (\<lambda>b. if b = Nu5 then 5 else 1),
      branch_try_from = (\<lambda>n. if n = 5 then Some Nu5 else None),
      height_bounds = (\<lambda>b. if b = Nu5 then Some (10, None) else None),
      show_branch = (\<lambda>b. ''Nu5'')\<rparr>"

definition example_upgrades :: "ReportedUpgrade list" where
  "example_upgrades =
     [\<lparr>ru_branch_id = 5, ru_name = ''NU5'', ru_activation_height = 10, ru_status = Active\<rparr>,
      \<lparr>ru_branch_id = 7, ru_name = ''NU7'', ru_activation_height = 100, ru_status = Pending\<rparr>]"

lemma example_pending:
  "check_consensus_compatibility example_params (Inr example_upgrades) (Inr 50) = Inr (Some 100)"
  by code_simp

theorem compat_pending_is_first_divergence_witness:
  "check_consensus_compatibility example_params (Inr example_upgrades) (Inr 50) = Inr (Some 100)
   \<and> (50 :: u32) < 100
   \<and> node_rules_at example_params example_upgrades 99 = our_rules_at example_params example_upgrades 99
   \<and> node_rules_at example_params example_upgrades 100 \<noteq> our_rules_at example_params example_upgrades 100"
  using compat_pending_is_first_divergence [OF example_pending] example_pending by simp

text \<open>Startup is refused exactly when the node already follows rules this build does not,
  or the reverse, at some height up to its current tip.\<close>

theorem compat_refuses_iff_diverged:
  "(\<exists>msg. check_consensus_compatibility cp (Inr ups) (Inr tip) = Inl (IncompatibleConsensus msg))
   = (\<exists>x. x \<le> tip \<and> node_rules_at cp ups x \<noteq> our_rules_at cp ups x)"
  (is "?L = ?R")
proof
  assume ?L
  then obtain i where "i \<in> set (detect_incompatibilities cp ups)" "divergence_height i \<le> tip"
    by (auto simp: check_compatibility_cases Let_def split: if_splits)
  with rules_differ_at_divergence show ?R by blast
next
  assume ?R
  then obtain x where "x \<le> tip" "node_rules_at cp ups x \<noteq> our_rules_at cp ups x" by blast
  with rules_differ_iff obtain i
    where "i \<in> set (detect_incompatibilities cp ups)" "divergence_height i \<le> tip"
    by (meson order_trans)
  then show ?L by (auto simp: check_compatibility_cases Let_def)
qed

text \<open>An unconditional start (no shutdown height) is granted exactly when the two sides
  follow the same rules at every height.\<close>

theorem compat_unconditional_iff_agree:
  "check_consensus_compatibility cp (Inr ups) (Inr tip) = Inr None
   \<longleftrightarrow> (\<forall>x. node_rules_at cp ups x = our_rules_at cp ups x)"
  (is "?L \<longleftrightarrow> ?R")
proof
  assume ?L
  then have "detect_incompatibilities cp ups = []"
    by (auto simp: check_compatibility_cases Let_def split: if_splits)
  then show ?R using rules_differ_iff by fastforce
next
  assume ?R
  then have "detect_incompatibilities cp ups = []"
    using rules_differ_at_divergence by (metis list.set_intros(1) neq_Nil_conv)
  then show ?L by (simp add: check_compatibility_cases)
qed

end
