(* ===== verification/Sync_Recovery.thy ===== *)
theory Sync_Recovery
  imports Chain_Types Numerals
begin

text \<open>
  Recovery of a wallet whose recorded history or note commitment tree disagrees with the chain
  (\<open>sync/error.rs\<close> and the recovery half of \<open>sync.rs\<close>): error classification, the ladder of
  rollback depths and its bookkeeping, truncation to a wallet checkpoint, and the step-back
  search for a block still on the best chain.

  The wallet database is the crate \<open>zcash_client_sqlite\<close>. Its state is the type \<open>'db\<close> and the
  operations used here are the fields of \<^emph>\<open>rewind_db\<close>; what they do to the state is arbitrary.
\<close>

section \<open>Errors\<close>

text \<open>The variants of \<open>SqliteClientError\<close> the engine tells apart; the others are one.\<close>

datatype SqliteClientError =
    BlockConflict BlockHeight
  | RequestedRewindInvalid "BlockHeight option" BlockHeight
  | PutBlocksCommitmentTree string
  | CommitmentTree string
  | TruncateCommitmentTree string
  | OtherSqlite string

datatype SyncError =
    BatchDecryptorUnavailable
  | ChainFailed ChainError
  | ScanFailed string
  | Tree string
  | Other SqliteClientError
  | WalletDivergedBelowBirthday BlockHeight
  | WalletTreeDiverged BlockHeight BlockHeight BlockHeight

fun is_retryable :: "SyncError \<Rightarrow> bool" where
  "is_retryable (ChainFailed (Unavailable _)) = True"
| "is_retryable _ = False"

fun is_tree_divergence :: "SyncError \<Rightarrow> bool" where
  "is_tree_divergence (Tree _) = True"
| "is_tree_divergence (Other (PutBlocksCommitmentTree _)) = True"
| "is_tree_divergence (Other (CommitmentTree _)) = True"
| "is_tree_divergence (Other (TruncateCommitmentTree _)) = True"
| "is_tree_divergence _ = False"

section \<open>The recovery ladder\<close>

definition TREE_RECOVERY_LADDER :: "u32 list" where
  "TREE_RECOVERY_LADDER = [1, 100, 288, 288 * 4, 288 * 16, 288 * 64]"

record TreeRecovery =
  attempts :: nat
  high_water :: "BlockHeight option"

definition default_recovery :: TreeRecovery where
  "default_recovery = \<lparr>attempts = 0, high_water = None\<rparr>"

definition next_depth :: "BlockHeight \<Rightarrow> TreeRecovery \<Rightarrow> u32 option \<times> TreeRecovery" where
  "next_depth wallet_tip r =
     (let r = (case high_water r of None \<Rightarrow> r\<lparr>high_water := Some wallet_tip\<rparr> | Some _ \<Rightarrow> r)
      in if attempts r < length TREE_RECOVERY_LADDER
         then (Some (TREE_RECOVERY_LADDER ! attempts r), r\<lparr>attempts := attempts r + 1\<rparr>)
         else (None, r))"

definition note_progress :: "BlockHeight \<Rightarrow> TreeRecovery \<Rightarrow> bool \<times> TreeRecovery" where
  "note_progress wallet_tip r =
     (case high_water r of
        Some hw \<Rightarrow> if wallet_tip > hw then (True, default_recovery) else (False, r)
      | None \<Rightarrow> (False, r))"

definition observed_at :: "BlockHeight \<Rightarrow> TreeRecovery \<Rightarrow> BlockHeight" where
  "observed_at wallet_tip r = (case high_water r of Some hw \<Rightarrow> hw | None \<Rightarrow> wallet_tip)"

definition tree_recovery_target ::
    "BlockHeight \<Rightarrow> u32 \<Rightarrow> BlockHeight \<Rightarrow> BlockHeight option" where
  "tree_recovery_target wallet_tip depth birthday =
     (let target = max (saturating_sub wallet_tip depth) birthday
      in if target < wallet_tip then Some target else None)"

section \<open>Rewinding the wallet\<close>

record 'db rewind_db =
  get_block_hash :: "'db \<Rightarrow> BlockHeight \<Rightarrow> SqliteClientError + BlockHash option"
  get_wallet_birthday :: "'db \<Rightarrow> SqliteClientError + BlockHeight option"
  truncate_to_height :: "BlockHeight \<Rightarrow> ('db, SqliteClientError, BlockHeight) sr"

definition resume_point ::
    "BlockHeight \<Rightarrow> (BlockHeight \<times> BlockHash) option \<Rightarrow> SyncError + ChainBlock" where
  "resume_point requested actual =
     rbind (ok_or (ChainFailed (Backend
              (''the wallet has no block recorded at '' @ show_nat (unat requested) @
               '' after truncating to it''))) actual)
       (\<lambda>(height, hash). Inr (chain_block height hash))"

text \<open>A database operation inside a function whose error type is \<open>SyncError\<close>: the \<open>?\<close>
  operator converts the error.\<close>

definition db_op :: "('db, SqliteClientError, 'a) sr \<Rightarrow> ('db, SyncError, 'a) sr" where
  "db_op m = (\<lambda>db. case m db of (r, db') \<Rightarrow> (map_err Other r, db'))"

definition db_read :: "('db \<Rightarrow> SqliteClientError + 'a) \<Rightarrow> ('db, SyncError, 'a) sr" where
  "db_read f = (\<lambda>db. (map_err Other (f db), db))"

definition truncate_to_wallet_checkpoint ::
    "'db rewind_db \<Rightarrow> BlockHeight \<Rightarrow> ('db, SyncError, ChainBlock) sr" where
  "truncate_to_wallet_checkpoint D target =
     sbind
       (\<lambda>db. case truncate_to_height D target db of
               (Inr height, db') \<Rightarrow> (Inr height, db')
             | (Inl (RequestedRewindInvalid (Some safe) requested_height), db') \<Rightarrow>
                 db_op (truncate_to_height D safe) db'
             | (Inl e, db') \<Rightarrow> (Inl (Other e), db'))
       (\<lambda>actual. sbind (db_read (\<lambda>db. get_block_hash D db actual))
       (\<lambda>hash. slift (resume_point actual (map_option (\<lambda>h. (actual, h)) hash))))"

text \<open>\<open>recover_from_tree_divergence\<close> mutates the database and the recovery bookkeeping.\<close>

definition on_db :: "('db, 'e, 'a) sr \<Rightarrow> ('db \<times> 'r, 'e, 'a) sr" where
  "on_db m = (\<lambda>(db, r). case m db of (x, db') \<Rightarrow> (x, (db', r)))"

definition on_recovery :: "(TreeRecovery \<Rightarrow> 'a \<times> TreeRecovery) \<Rightarrow> ('db \<times> TreeRecovery, 'e, 'a) sr" where
  "on_recovery f = (\<lambda>(db, r). case f r of (x, r') \<Rightarrow> (Inr x, (db, r')))"

definition recover_from_tree_divergence ::
    "'db rewind_db \<Rightarrow> ChainBlock \<Rightarrow> ('db \<times> TreeRecovery, SyncError, ChainBlock) sr" where
  "recover_from_tree_divergence D prev_tip =
     sbind (on_db (db_read (get_wallet_birthday D))) (\<lambda>birthday_opt.
     let birthday = (case birthday_opt of None \<Rightarrow> 0 | Some b \<Rightarrow> b) in
     sbind (on_recovery (next_depth (cb_height prev_tip))) (\<lambda>depth.
     sbind (sget (\<lambda>(db, r). observed_at (cb_height prev_tip) r)) (\<lambda>observed.
     let give_up = (\<lambda>rolled_back_to. WalletTreeDiverged observed rolled_back_to birthday) in
     sbind (slift (ok_or (give_up (cb_height prev_tip))
              (Option.bind depth (\<lambda>d. tree_recovery_target (cb_height prev_tip) d birthday))))
     (\<lambda>target.
     sbind (on_db (truncate_to_wallet_checkpoint D target)) (\<lambda>resume_from.
     if cb_height resume_from \<ge> cb_height prev_tip
     then sfail (give_up (cb_height resume_from))
     else sret resume_from)))))"

section \<open>Stepping back along the wallet's own chain\<close>

definition FORK_SEARCH_STEP :: u32 where
  "FORK_SEARCH_STEP = 10"

definition rewind_step :: "BlockHeight \<Rightarrow> BlockHeight \<Rightarrow> BlockHeight \<times> bool" where
  "rewind_step height birthday =
     (let next = max (saturating_sub height FORK_SEARCH_STEP) birthday
      in (next, next \<le> birthday))"

lemma rewind_step_decreases:
  "rewind_step height birthday = (next, False) \<Longrightarrow> next < height \<and> birthday < next"
  by (auto simp: rewind_step_def Let_def FORK_SEARCH_STEP_def word_nat_simps)

lemma rewind_step_last: "rewind_step height birthday = (next, True) \<Longrightarrow> next = birthday"
  by (auto simp: rewind_step_def Let_def)

lemma rewind_step_floor: "rewind_step height birthday = (next, b) \<Longrightarrow> birthday \<le> next"
  by (auto simp: rewind_step_def Let_def)

text \<open>\<open>get_header_hash\<close> is \<open>chain_view.get_block_header(height)\<close> followed by
  \<open>header.hash()\<close>; \<open>wallet_hash\<close> is the closure argument. The loop variable is the height.\<close>

function step_back_to_best_chain ::
    "(BlockHeight \<Rightarrow> ChainError + BlockHash option) \<Rightarrow> BlockHeight \<Rightarrow> BlockHeight \<Rightarrow>
     (BlockHeight \<Rightarrow> SyncError + BlockHash option) \<Rightarrow> SyncError + ChainBlock" where
  "step_back_to_best_chain get_header_hash height birthday wallet_hash =
     (case rewind_step height birthday of
        (next, reached_birthday) \<Rightarrow>
          rbind (wallet_hash next) (\<lambda>wh.
          rbind (case wh of
                   None \<Rightarrow> Inr None
                 | Some w \<Rightarrow>
                     rbind (map_err ChainFailed (get_header_hash next)) (\<lambda>best_chain_hash.
                     Inr (if best_chain_hash = Some w then Some (chain_block next w) else None)))
          (\<lambda>found. case found of
             Some b \<Rightarrow> Inr b
           | None \<Rightarrow>
               if reached_birthday then Inl (WalletDivergedBelowBirthday birthday)
               else step_back_to_best_chain get_header_hash next birthday wallet_hash)))"
  by pat_completeness auto
termination
proof (relation "measure (\<lambda>(g, h, b, w). unat h)", goal_cases)
  case 1
  then show ?case by simp
next
  case 2
  then show ?case by (auto simp: word_less_nat_alt [symmetric] dest: rewind_step_decreases [OF sym])
qed

declare step_back_to_best_chain.simps [simp del]

section \<open>The step-back search, specified\<close>

text \<open>The heights the search probes, in order: down by the step, ending at the birthday.\<close>

function probes :: "BlockHeight \<Rightarrow> BlockHeight \<Rightarrow> BlockHeight list" where
  "probes height birthday =
     (case rewind_step height birthday of
        (next, reached_birthday) \<Rightarrow> next # (if reached_birthday then [] else probes next birthday))"
  by pat_completeness auto
termination
  by (relation "measure (\<lambda>(h, b). unat h)")
     (auto simp: word_less_nat_alt [symmetric] dest: rewind_step_decreases [OF sym])

declare probes.simps [simp del]

lemma probes_last: "last (probes height birthday) = birthday"
proof (induction height birthday rule: probes.induct)
  case (1 height birthday)
  obtain n b where s: "rewind_step height birthday = (n, b)" by fastforce
  show ?case
  proof (cases b)
    case True
    with s have "n = birthday" by (auto dest: rewind_step_last)
    with True s show ?thesis by (subst probes.simps) simp
  next
    case False
    from "1" [OF s [symmetric] False] s False show ?thesis
      by (subst probes.simps) (auto simp: probes.simps [of n birthday] split: prod.splits)
  qed
qed

lemma probes_range:
  "x \<in> set (probes height birthday) \<Longrightarrow> birthday \<le> x \<and> (birthday \<le> height \<longrightarrow> x \<le> height)"
proof (induction height birthday rule: probes.induct)
  case (1 height birthday)
  obtain n b where s: "rewind_step height birthday = (n, b)" by fastforce
  have n: "birthday \<le> n" "birthday \<le> height \<Longrightarrow> n \<le> height"
    using s by (auto simp: rewind_step_def Let_def saturating_sub_le)
  from "1.prems" s have "x = n \<or> \<not> b \<and> x \<in> set (probes n birthday)"
    by (subst (asm) probes.simps) (auto split: if_splits)
  then show ?case
  proof
    assume "x = n"
    with n show ?thesis by simp
  next
    assume "\<not> b \<and> x \<in> set (probes n birthday)"
    with "1.IH" [OF s [symmetric]] n show ?thesis by (meson order_trans)
  qed
qed

lemma step_back_eq_find:
  "step_back_to_best_chain (\<lambda>h. Inr (best h)) height birthday (\<lambda>h. Inr (w h)) =
     (case find (\<lambda>h. w h \<noteq> None \<and> best h = w h) (probes height birthday) of
        Some h \<Rightarrow> Inr (chain_block h (the (w h)))
      | None \<Rightarrow> Inl (WalletDivergedBelowBirthday birthday))"
proof (induction height birthday rule: probes.induct)
  case (1 height birthday)
  obtain n b where s: "rewind_step height birthday = (n, b)" by fastforce
  show ?case
  proof (cases "w n \<noteq> None \<and> best n = w n")
    case True
    with s show ?thesis
      by (subst probes.simps, subst step_back_to_best_chain.simps) auto
  next
    case False
    show ?thesis
    proof (cases b)
      case True
      with False s show ?thesis
        by (subst probes.simps, subst step_back_to_best_chain.simps) (auto split: option.splits)
    next
      case nb: False
      from "1" [OF s [symmetric] nb] False s nb show ?thesis
        by (subst probes.simps, subst step_back_to_best_chain.simps) (auto split: option.splits)
    qed
  qed
qed

lemma step_back_sound_aux:
  "step_back_to_best_chain g height birthday w = Inr b \<Longrightarrow>
   cb_height b \<in> set (probes height birthday) \<and>
   w (cb_height b) = Inr (Some (cb_hash b)) \<and> g (cb_height b) = Inr (Some (cb_hash b))"
proof (induction g height birthday w rule: step_back_to_best_chain.induct)
  case (1 g height birthday w)
  obtain n l where s: "rewind_step height birthday = (n, l)" by fastforce
  let ?found = "\<lambda>wh. case wh of None \<Rightarrow> Inr None
     | Some x \<Rightarrow> rbind (map_err ChainFailed (g n)) (\<lambda>h.
         Inr (if h = Some x then Some (chain_block n x) else None))"
  from "1.prems" s obtain wh found where wh: "w n = Inr wh" and found: "?found wh = Inr found"
    and rest: "(case found of Some b \<Rightarrow> Inr b
       | None \<Rightarrow> if l then Inl (WalletDivergedBelowBirthday birthday)
                 else step_back_to_best_chain g n birthday w) = Inr b"
    by (subst (asm) step_back_to_best_chain.simps) (auto simp: result_simps)
  show ?case
  proof (cases found)
    case (Some c)
    with rest have "c = b" by simp
    with Some found wh have "cb_height b = n \<and> w n = Inr (Some (cb_hash b)) \<and>
        g n = Inr (Some (cb_hash b))"
      by (auto simp: result_simps split: option.splits if_splits)
    with s show ?thesis by (subst probes.simps) simp
  next
    case None
    with rest have "\<not> l" and r: "step_back_to_best_chain g n birthday w = Inr b"
      by (auto split: if_splits)
    from "1.IH" [OF s [symmetric] this(1) r] \<open>\<not> l\<close> s show ?thesis
      by (subst probes.simps) simp
  qed
qed

text \<open>Probes are at most a step apart, so from a height shared with the chain the search stops
  within one step of it.\<close>

lemma probes_find_close:
  assumes "birthday \<le> k" and "k < height" and "\<And>h. h \<le> k \<Longrightarrow> P h"
  shows "\<exists>r. find P (probes height birthday) = Some r \<and> unat k < unat r + 10"
  using assms
proof (induction height birthday rule: probes.induct)
  case (1 height birthday)
  obtain n b where s: "rewind_step height birthday = (n, b)" by fastforce
  have n: "n = max (saturating_sub height 10) birthday"
    using s by (auto simp: rewind_step_def Let_def FORK_SEARCH_STEP_def)
  have near: "unat k < unat n + 10" using "1.prems"(2) n by (auto simp: word_nat_simps)
  show ?case
  proof (cases "P n")
    case True
    with near s show ?thesis by (subst probes.simps) simp
  next
    case False
    with "1.prems"(3) have "k < n" by (meson linorder_not_less)
    have "\<not> b"
    proof
      assume b
      with s have "n = birthday" by (auto dest: rewind_step_last)
      with \<open>k < n\<close> "1.prems"(1) show False by simp
    qed
    from "1.IH" [OF s [symmetric] this "1.prems"(1) \<open>k < n\<close>] "1.prems"(3) False s \<open>\<not> b\<close>
    show ?thesis by (subst probes.simps) auto
  qed
qed

section \<open>The recovery budget\<close>

text \<open>What steady-state sync does to the bookkeeping: a divergence asks for the next rung, a
  completed pass reports progress. A run returns the rungs handed out.\<close>

datatype recovery_event = Divergence BlockHeight | Progress BlockHeight

fun run_recovery :: "TreeRecovery \<Rightarrow> recovery_event list \<Rightarrow> u32 option list" where
  "run_recovery r [] = []"
| "run_recovery r (Divergence tip # es) =
     (case next_depth tip r of (d, r') \<Rightarrow> d # run_recovery r' es)"
| "run_recovery r (Progress tip # es) = run_recovery (snd (note_progress tip r)) es"

fun below_mark :: "BlockHeight \<Rightarrow> recovery_event \<Rightarrow> bool" where
  "below_mark hw (Progress tip) = (tip \<le> hw)"
| "below_mark hw (Divergence tip) = True"

fun is_divergence_event :: "recovery_event \<Rightarrow> bool" where
  "is_divergence_event (Divergence _) = True"
| "is_divergence_event (Progress _) = False"

definition rung :: "nat \<Rightarrow> u32 option" where
  "rung n = (if n < length TREE_RECOVERY_LADDER then Some (TREE_RECOVERY_LADDER ! n) else None)"

lemma run_recovery_below_mark:
  "high_water r = Some hw \<Longrightarrow> attempts r \<le> length TREE_RECOVERY_LADDER \<Longrightarrow>
   list_all (below_mark hw) es \<Longrightarrow>
   run_recovery r es = map (\<lambda>i. rung (attempts r + i)) [0..<length (filter is_divergence_event es)]"
proof (induction es arbitrary: r)
  case Nil
  then show ?case by simp
next
  case (Cons e es)
  show ?case
  proof (cases e)
    case (Progress tip)
    with Cons.prems have "note_progress tip r = (False, r)"
      by (auto simp: note_progress_def)
    with Cons Progress show ?thesis by simp
  next
    case (Divergence tip)
    let ?n = "length (filter is_divergence_event es)"
    show ?thesis
    proof (cases "attempts r < length TREE_RECOVERY_LADDER")
      case True
      let ?r = "r\<lparr>attempts := attempts r + 1\<rparr>"
      have "next_depth tip r = (rung (attempts r), ?r)"
        using True Cons.prems(1) by (simp add: next_depth_def rung_def)
      moreover have "run_recovery ?r es = map (\<lambda>i. rung (attempts ?r + i)) [0..<?n]"
        using True Cons.prems by (intro Cons.IH) simp_all
      ultimately show ?thesis using Divergence by (simp add: upt_Suc_shift del: upt_Suc)
    next
      case False
      have "next_depth tip r = (None, r)"
        using False Cons.prems(1) by (simp add: next_depth_def)
      moreover have "run_recovery r es = map (\<lambda>i. rung (attempts r + i)) [0..<?n]"
        using Cons.prems by (intro Cons.IH) simp_all
      moreover have "rung (attempts r + i) = None" for i using False by (simp add: rung_def)
      ultimately show ?thesis using Divergence by (simp add: upt_Suc_shift del: upt_Suc)
    qed
  qed
qed

lemma truncate_cases:
  assumes "truncate_to_wallet_checkpoint D target db = (Inr b, db')"
  obtains (direct) "truncate_to_height D target db = (Inr (cb_height b), db')"
      "get_block_hash D db' (cb_height b) = Inr (Some (cb_hash b))"
  | (fallback) safe req db1 where
      "truncate_to_height D target db = (Inl (RequestedRewindInvalid (Some safe) req), db1)"
      "truncate_to_height D safe db1 = (Inr (cb_height b), db')"
      "get_block_hash D db' (cb_height b) = Inr (Some (cb_hash b))"
proof -
  have last: "get_block_hash D db' (cb_height b) = Inr (Some (cb_hash b)) \<and> h = cb_height b \<and> db1 = db'"
    if "sbind (db_read (\<lambda>db. get_block_hash D db h))
       (\<lambda>hash. slift (resume_point h (map_option (\<lambda>x. (h, x)) hash))) db1 = (Inr b, db')" for h db1
    using that
    by (auto simp: sbind_def db_read_def slift_def resume_point_def result_simps split: sum.splits)
  obtain r db1 where r: "truncate_to_height D target db = (r, db1)" by fastforce
  show thesis
  proof (cases r)
    case (Inr h)
    with r assms have "sbind (db_read (\<lambda>db. get_block_hash D db h))
       (\<lambda>hash. slift (resume_point h (map_option (\<lambda>x. (h, x)) hash))) db1 = (Inr b, db')"
      by (simp add: truncate_to_wallet_checkpoint_def sbind_def)
    from last [OF this] Inr r show thesis by (intro direct) auto
  next
    case (Inl e)
    with r assms obtain safe req where e: "e = RequestedRewindInvalid (Some safe) req"
      by (cases e) (auto simp: truncate_to_wallet_checkpoint_def sbind_def split: option.splits)
    obtain r2 db2 where r2: "truncate_to_height D safe db1 = (r2, db2)" by fastforce
    with e Inl r assms obtain h where "r2 = Inr h"
      by (cases r2) (auto simp: truncate_to_wallet_checkpoint_def sbind_def db_op_def)
    with r2 e Inl r assms have "sbind (db_read (\<lambda>db. get_block_hash D db h))
       (\<lambda>hash. slift (resume_point h (map_option (\<lambda>x. (h, x)) hash))) db2 = (Inr b, db')"
      by (simp add: truncate_to_wallet_checkpoint_def sbind_def db_op_def)
    from last [OF this] \<open>r2 = Inr h\<close> r2 e Inl r show thesis by (intro fallback) auto
  qed
qed

lemma next_depth_Some:
  "next_depth tip r = (Some d, r') \<Longrightarrow>
   attempts r' = attempts r + 1 \<and> attempts r' \<le> length TREE_RECOVERY_LADDER \<and>
   d = TREE_RECOVERY_LADDER ! attempts r \<and>
   high_water r' = Some (case high_water r of None \<Rightarrow> tip | Some hw \<Rightarrow> hw)"
  by (auto simp: next_depth_def Let_def split: option.splits if_splits)

lemma tree_recovery_target_Some:
  "tree_recovery_target tip depth birthday = Some t \<longleftrightarrow>
     t = max (saturating_sub tip depth) birthday \<and> t < tip"
  by (auto simp: tree_recovery_target_def Let_def)

lemma recover_cases:
  assumes "recover_from_tree_divergence D prev_tip (db, r) = (Inr b, (db', r'))"
  obtains birthday_opt birthday d target where
    "get_wallet_birthday D db = Inr birthday_opt"
    "birthday = (case birthday_opt of None \<Rightarrow> 0 | Some x \<Rightarrow> x)"
    "next_depth (cb_height prev_tip) r = (Some d, r')"
    "tree_recovery_target (cb_height prev_tip) d birthday = Some target"
    "truncate_to_wallet_checkpoint D target db = (Inr b, db')"
    "cb_height b < cb_height prev_tip"
proof -
  from assms obtain birthday_opt where bo: "get_wallet_birthday D db = Inr birthday_opt"
    by (cases "get_wallet_birthday D db")
       (auto simp: recover_from_tree_divergence_def sbind_def on_db_def db_read_def)
  define birthday where "birthday = (case birthday_opt of None \<Rightarrow> 0 | Some x \<Rightarrow> x)"
  obtain depth r1 where nd: "next_depth (cb_height prev_tip) r = (depth, r1)" by fastforce
  let ?t = "Option.bind depth (\<lambda>d. tree_recovery_target (cb_height prev_tip) d birthday)"
  from assms bo nd obtain target where t: "?t = Some target"
    by (cases ?t) (auto simp: recover_from_tree_divergence_def sbind_def on_db_def db_read_def
        on_recovery_def sget_def slift_def Let_def birthday_def)
  then obtain d where d: "depth = Some d" "tree_recovery_target (cb_height prev_tip) d birthday = Some target"
    by (cases depth) auto
  obtain x db2 where tr: "truncate_to_wallet_checkpoint D target db = (x, db2)" by fastforce
  with assms bo nd t have "x = Inr b \<and> db2 = db' \<and> r1 = r' \<and> cb_height b < cb_height prev_tip"
    by (cases x)
       (auto simp: recover_from_tree_divergence_def sbind_def on_db_def db_read_def
        on_recovery_def sget_def slift_def Let_def birthday_def sfail_def sret_def not_le
        split: if_splits)
  with that bo nd d tr birthday_def show thesis by blast
qed

section \<open>Properties\<close>

text \<open>Within one divergence (until the wallet scans past the tip at which it was first
  seen) the rollback depths handed out are the ladder's rungs in order and then nothing, whatever
  the tips at which the divergence recurs and however much progress below that mark is
  reported: at most six rollbacks happen and none is repeated.\<close>

theorem recovery_budget:
  assumes "list_all (below_mark tip) es"
  shows "run_recovery default_recovery (Divergence tip # es) =
           map rung [0..<Suc (length (filter is_divergence_event es))]"
proof -
  let ?r = "\<lparr>attempts = 1, high_water = Some tip\<rparr>"
  have "next_depth tip default_recovery = (rung 0, ?r)"
    by (simp add: next_depth_def default_recovery_def rung_def TREE_RECOVERY_LADDER_def)
  moreover have "run_recovery ?r es =
      map (\<lambda>i. rung (attempts ?r + i)) [0..<length (filter is_divergence_event es)]"
    using assms by (intro run_recovery_below_mark) (simp_all add: TREE_RECOVERY_LADDER_def)
  ultimately show ?thesis by (simp add: upt_Suc_shift del: upt_Suc)
qed

theorem recovery_budget_witness:
  "run_recovery default_recovery
     (Divergence 1000 # [Progress 999, Divergence 999, Progress 1000, Divergence 900]) =
   map rung [0..<Suc (length (filter is_divergence_event
     [Progress 999, Divergence 999, Progress 1000, Divergence 900]))]"
  by (rule recovery_budget) simp

text \<open>A successful rollback leaves the wallet strictly below where it was, consumes one
  rung of the ladder, aims no lower than the wallet's birthday, and reports a block the wallet
  still holds: scanning resumes from the wallet's real position, not from the height asked
  for.\<close>

theorem recover_from_tree_divergence_progress:
  assumes "recover_from_tree_divergence D prev_tip (db, r) = (Inr b, (db', r'))"
  shows "cb_height b < cb_height prev_tip \<and>
         get_block_hash D db' (cb_height b) = Inr (Some (cb_hash b)) \<and>
         attempts r' = attempts r + 1 \<and> attempts r' \<le> 6 \<and>
         (\<exists>birthday target. get_wallet_birthday D db = Inr birthday \<and>
            (case birthday of None \<Rightarrow> 0 | Some x \<Rightarrow> x) \<le> target \<and> target < cb_height prev_tip \<and>
            truncate_to_wallet_checkpoint D target db = (Inr b, db'))"
proof -
  from assms obtain bo birthday d target where
    bd: "get_wallet_birthday D db = Inr bo" "birthday = (case bo of None \<Rightarrow> 0 | Some x \<Rightarrow> x)"
    and nd: "next_depth (cb_height prev_tip) r = (Some d, r')"
    and t: "tree_recovery_target (cb_height prev_tip) d birthday = Some target"
    and tr: "truncate_to_wallet_checkpoint D target db = (Inr b, db')"
    and lt: "cb_height b < cb_height prev_tip"
    by (rule recover_cases)
  from tr have "get_block_hash D db' (cb_height b) = Inr (Some (cb_hash b))"
    by (rule truncate_cases) simp_all
  moreover from next_depth_Some [OF nd] have "attempts r' = attempts r + 1 \<and> attempts r' \<le> 6"
    by (simp add: TREE_RECOVERY_LADDER_def)
  moreover from t have "birthday \<le> target \<and> target < cb_height prev_tip"
    by (auto simp: tree_recovery_target_Some)
  ultimately show ?thesis using bd tr lt by blast
qed

text \<open>A wallet that is its tip's height, whose checkpoints lie one block below the height
  asked for, born at height 2.\<close>

definition example_rewind_db :: "BlockHeight rewind_db" where
  "example_rewind_db =
     \<lparr>get_block_hash = (\<lambda>db h. Inr (if h \<le> db then Some [ucast h] else None)),
      get_wallet_birthday = (\<lambda>db. Inr (Some 2)),
      truncate_to_height = (\<lambda>h db. (Inr (h - 1), h - 1))\<rparr>"

lemma example_recover:
  "recover_from_tree_divergence example_rewind_db (chain_block 8 [8]) (8, default_recovery) =
     (Inr (chain_block 6 [6]), (6, \<lparr>attempts = 1, high_water = Some 8\<rparr>))"
  by (simp add: recover_from_tree_divergence_def sbind_def on_db_def db_read_def on_recovery_def
      sget_def slift_def truncate_to_wallet_checkpoint_def resume_point_def next_depth_def
      default_recovery_def observed_at_def TREE_RECOVERY_LADDER_def tree_recovery_target_def
      saturating_sub_def example_rewind_db_def sret_def max_def)

theorem recover_from_tree_divergence_progress_witness:
  "recover_from_tree_divergence example_rewind_db (chain_block 8 [8]) (8, default_recovery) =
     (Inr (chain_block 6 [6]), (6, \<lparr>attempts = 1, high_water = Some 8\<rparr>)) \<and>
   cb_height (chain_block 6 [6]) < cb_height (chain_block 8 [8])"
  using recover_from_tree_divergence_progress [OF example_recover] example_recover by blast

text \<open>When the chain's and the wallet's reads succeed, the step-back search returns the
  first probed height, going down by ten towards the birthday, at which the wallet's recorded
  block is on the best chain, and reports a divergence below the birthday exactly when there is
  none.\<close>

theorem step_back_first_match:
  "step_back_to_best_chain (\<lambda>h. Inr (best h)) height birthday (\<lambda>h. Inr (w h)) =
     (case find (\<lambda>h. w h \<noteq> None \<and> best h = w h) (probes height birthday) of
        Some h \<Rightarrow> Inr (chain_block h (the (w h)))
      | None \<Rightarrow> Inl (WalletDivergedBelowBirthday birthday))"
  by (rule step_back_eq_find)

text \<open>Whatever fails along the way, a block the step-back search does return is both the
  wallet's recorded block at its height and the best chain's block there, and lies between the
  birthday and the starting height.\<close>

theorem step_back_sound:
  assumes "step_back_to_best_chain g height birthday w = Inr b" and "birthday \<le> height"
  shows "w (cb_height b) = Inr (Some (cb_hash b)) \<and> g (cb_height b) = Inr (Some (cb_hash b)) \<and>
         birthday \<le> cb_height b \<and> cb_height b \<le> height"
  using step_back_sound_aux [OF assms(1)] probes_range assms(2) by blast

lemma example_step_back:
  "step_back_to_best_chain (\<lambda>h. Inr (if h \<le> 80 then Some [1] else Some [2])) 100 60
     (\<lambda>h. Inr (Some [1])) = Inr (chain_block 80 [1])"
  by (simp add: step_back_to_best_chain.simps rewind_step_def FORK_SEARCH_STEP_def saturating_sub_def
      max_def)

theorem step_back_sound_witness:
  "step_back_to_best_chain (\<lambda>h. Inr (if h \<le> 80 then Some [1] else Some [2])) 100 60
     (\<lambda>h. Inr (Some [1])) = Inr (chain_block 80 [1]) \<and>
   (60 :: BlockHeight) \<le> cb_height (chain_block 80 [1]) \<and> cb_height (chain_block 80 [1]) \<le> 100"
  using step_back_sound [OF example_step_back] example_step_back by simp

text \<open>If the wallet and the best chain share their history up to height \<open>k\<close>, at or above
  the birthday and below the starting height, the search succeeds and gives up fewer than ten of
  the shared blocks.\<close>

theorem step_back_loses_less_than_a_step:
  assumes "birthday \<le> k" and "k < height" and "\<And>h. h \<le> k \<Longrightarrow> w h \<noteq> None \<and> best h = w h"
  shows "\<exists>b. step_back_to_best_chain (\<lambda>h. Inr (best h)) height birthday (\<lambda>h. Inr (w h)) = Inr b
           \<and> unat k < unat (cb_height b) + 10"
proof -
  from probes_find_close [OF assms(1,2), of "\<lambda>h. w h \<noteq> None \<and> best h = w h"] assms(3)
  obtain r where "find (\<lambda>h. w h \<noteq> None \<and> best h = w h) (probes height birthday) = Some r"
    and "unat k < unat r + 10" by blast
  then show ?thesis by (simp add: step_back_eq_find)
qed

theorem step_back_loses_less_than_a_step_witness:
  "\<exists>b. step_back_to_best_chain (\<lambda>h. Inr (if h \<le> 85 then Some [1] else Some [2])) 100 60
         (\<lambda>h. Inr (Some [1])) = Inr b \<and> unat (85 :: u32) < unat (cb_height b) + 10"
  by (rule step_back_loses_less_than_a_step [where k = 85 and w = "\<lambda>_. Some [1]"]) simp_all

text \<open>When the wallet has no checkpoint at or below the target and names the lowest height it
  can reach, which is then above the target, truncation goes to that height: the wallet is
  rewound less far than the caller asked, and the block reported lies above the target.\<close>

theorem truncate_fallback_can_stay_above_target:
  assumes "truncate_to_height D target db = (Inl (RequestedRewindInvalid (Some safe) req), db1)"
    and "target < safe" and "truncate_to_height D safe db1 = (Inr safe, db')"
    and "get_block_hash D db' safe = Inr (Some x)"
  shows "truncate_to_wallet_checkpoint D target db = (Inr (chain_block safe x), db') \<and>
         target < cb_height (chain_block safe x)"
  using assms
  by (simp add: truncate_to_wallet_checkpoint_def sbind_def db_op_def db_read_def slift_def
      resume_point_def)

text \<open>A wallet whose lowest checkpoint is at height 7.\<close>

definition example_pruned_db :: "BlockHeight rewind_db" where
  "example_pruned_db =
     \<lparr>get_block_hash = (\<lambda>db h. Inr (if h \<le> db then Some [ucast h] else None)),
      get_wallet_birthday = (\<lambda>db. Inr (Some 2)),
      truncate_to_height = (\<lambda>h db. if h < 7 then (Inl (RequestedRewindInvalid (Some 7) h), db)
                                   else (Inr h, h))\<rparr>"

theorem truncate_fallback_can_stay_above_target_witness:
  "truncate_to_wallet_checkpoint example_pruned_db 5 10 = (Inr (chain_block 7 [7]), 7) \<and>
   (5 :: BlockHeight) < cb_height (chain_block 7 [7])"
  by (rule truncate_fallback_can_stay_above_target [where req = 5 and ?db1.0 = 10])
     (simp_all add: example_pruned_db_def)

end
