(* ===== verification/Sync_Steps.thy ===== *)
theory Sync_Steps
  imports Sync_Recovery
begin

text \<open>
  The scanning steps of the sync engine (\<open>sync/steps.rs\<close>): the note commitment subtree roots,
  the index of the wallet's transparent receivers, and the two functions that scan blocks into
  the wallet database, with the clamp that keeps them below a known consensus divergence.

  Code outside the repository is an argument. \<^emph>\<open>scan_db\<close> holds the wallet database operations,
  over an arbitrary database state; \<^emph>\<open>scanner\<close> holds the accessors of a block and of a scanned
  block, the batch decryptor's handle (the outer \<open>None\<close> is a closed queue, the inner one a
  result that never arrives) and \<open>full::scan_block\<close> with its key and nullifier sets;
  \<^emph>\<open>range_ops\<close> holds the operations of \<open>ScanRange\<close> and the two priorities the code names.
\<close>

section \<open>Interfaces\<close>

datatype ('b, 'c) ControlFlow = Break 'b | Continue 'c

record 'p ScanRange =
  range_start :: BlockHeight
  range_end :: BlockHeight
  priority :: 'p

abbreviation block_range :: "'p ScanRange \<Rightarrow> BlockHeight \<times> BlockHeight" where
  "block_range r \<equiv> (range_start r, range_end r)"

record BlockMetadata =
  md_height :: BlockHeight
  md_hash :: BlockHash
  md_sapling :: "u32 option"
  md_orchard :: "u32 option"
  md_ironwood :: "u32 option"

type_synonym AccountUuid = "u8 list"
type_synonym TransparentKeyScope = u32
type_synonym TransparentAddressIndex =
  "TransparentAddress \<Rightarrow> (AccountUuid \<times> TransparentKeyScope option) option"

datatype ScanBlockError = Scan string | OtherScanBlock string

record ('blk, 'ts, 'd, 'nf, 'sb) scanner =
  claimed_height :: "'blk \<Rightarrow> BlockHeight"
  header_hash :: "'blk \<Rightarrow> BlockHash"
  ts_height :: "'ts \<Rightarrow> BlockHeight"
  ts_hash :: "'ts \<Rightarrow> BlockHash"
  ts_tree_size :: "TreePool \<Rightarrow> 'ts \<Rightarrow> nat"
  queue_block :: "'blk \<Rightarrow> 'd option option"
  full_scan_block :: "BlockHeight \<Rightarrow> 'd \<Rightarrow> 'nf \<Rightarrow> BlockMetadata option \<Rightarrow>
    TransparentAddressIndex \<Rightarrow> ScanBlockError + 'sb"
  update_with :: "'sb \<Rightarrow> 'nf \<Rightarrow> 'nf"
  to_block_metadata :: "'sb \<Rightarrow> BlockMetadata"

record ('db, 'ts, 'nf, 'sb) scan_db =
  unspent_nullifiers :: "'db \<Rightarrow> SqliteClientError + 'nf"
  get_account_ids :: "'db \<Rightarrow> SqliteClientError + AccountUuid list"
  get_transparent_receivers ::
    "'db \<Rightarrow> AccountUuid \<Rightarrow> SqliteClientError + (TransparentAddress \<times> TransparentKeyScope option) list"
  put_blocks :: "'ts \<Rightarrow> 'sb list \<Rightarrow> ('db, SqliteClientError, unit) sr"

record ('db, 'sroot, 'oroot) roots_db =
  put_sapling_subtree_roots :: "nat \<Rightarrow> 'sroot list \<Rightarrow> ('db, string, unit) sr"
  put_orchard_subtree_roots :: "nat \<Rightarrow> 'oroot list \<Rightarrow> ('db, string, unit) sr"
  put_ironwood_subtree_roots :: "nat \<Rightarrow> 'oroot list \<Rightarrow> ('db, string, unit) sr"

record ('sroot, 'oroot) chain_roots =
  get_sapling_subtree_roots :: "ChainError + 'sroot list"
  get_orchard_subtree_roots :: "ChainError + 'oroot list"
  get_ironwood_subtree_roots :: "ChainError + 'oroot list"

text \<open>A chain read inside a function whose error type is \<open>SyncError\<close>
  (\<open>map_err(SyncError::Chain)?\<close>), and a commitment tree write (\<open>?\<close> on a \<open>ShardTreeError\<close>).\<close>

definition chain_op :: "ChainError + 'a \<Rightarrow> ('s, SyncError, 'a) sr" where
  "chain_op r = slift (map_err ChainFailed r)"

definition tree_op :: "('db, string, 'a) sr \<Rightarrow> ('db, SyncError, 'a) sr" where
  "tree_op m = (\<lambda>db. case m db of (r, db') \<Rightarrow> (map_err Tree r, db'))"

section \<open>Subtree roots\<close>

definition update_subtree_roots ::
    "('sroot, 'oroot) chain_roots \<Rightarrow> ('db, 'sroot, 'oroot) roots_db \<Rightarrow> ('db, SyncError, unit) sr" where
  "update_subtree_roots chain D =
     sbind (chain_op (get_sapling_subtree_roots chain)) (\<lambda>sapling_roots.
     sbind (tree_op (put_sapling_subtree_roots D 0 sapling_roots)) (\<lambda>_.
     sbind (chain_op (get_orchard_subtree_roots chain)) (\<lambda>orchard_roots.
     sbind (tree_op (put_orchard_subtree_roots D 0 orchard_roots)) (\<lambda>_.
     sbind (chain_op (get_ironwood_subtree_roots chain)) (\<lambda>ironwood_roots.
     tree_op (put_ironwood_subtree_roots D 0 ironwood_roots))))))"

section \<open>The transparent address index\<close>

fun insert_receivers ::
    "AccountUuid \<Rightarrow> (TransparentAddress \<times> TransparentKeyScope option) list \<Rightarrow>
     TransparentAddressIndex \<Rightarrow> TransparentAddressIndex" where
  "insert_receivers account [] index = index"
| "insert_receivers account ((address, scope) # rest) index =
     insert_receivers account rest (index(address \<mapsto> (account, scope)))"

fun index_accounts ::
    "(AccountUuid \<Rightarrow> SqliteClientError + (TransparentAddress \<times> TransparentKeyScope option) list) \<Rightarrow>
     AccountUuid list \<Rightarrow> TransparentAddressIndex \<Rightarrow> SyncError + TransparentAddressIndex" where
  "index_accounts receivers [] index = Inr index"
| "index_accounts receivers (account # accounts) index =
     rbind (map_err Other (receivers account)) (\<lambda>rs.
     index_accounts receivers accounts (insert_receivers account rs index))"

definition transparent_address_index ::
    "('db, 'ts, 'nf, 'sb) scan_db \<Rightarrow> 'db \<Rightarrow> SyncError + TransparentAddressIndex" where
  "transparent_address_index D db =
     rbind (map_err Other (get_account_ids D db)) (\<lambda>accounts.
     index_accounts (get_transparent_receivers D db) accounts (\<lambda>_. None))"

fun scan_block_error :: "ScanBlockError \<Rightarrow> SyncError" where
  "scan_block_error (Scan e) = ScanFailed e"
| "scan_block_error (OtherScanBlock other) = ChainFailed (Backend other)"

section \<open>The divergence boundary\<close>

definition clamp_to_boundary ::
    "BlockHeight \<times> BlockHeight \<Rightarrow> BlockHeight option \<Rightarrow> (BlockHeight, BlockHeight option) ControlFlow" where
  "clamp_to_boundary rng shutdown_height =
     (let end = (case shutdown_height of None \<Rightarrow> snd rng | Some h \<Rightarrow> min h (snd rng))
      in if end \<le> fst rng then Break end
         else if end < snd rng then Continue (Some end)
         else Continue None)"

section \<open>Scanning a range\<close>

text \<open>The chain metadata the first block is scanned against; \<open>as u32\<close> truncates.\<close>

definition prior_metadata :: "('blk, 'ts, 'd, 'nf, 'sb) scanner \<Rightarrow> 'ts \<Rightarrow> BlockMetadata" where
  "prior_metadata S from_state =
     \<lparr>md_height = ts_height S from_state, md_hash = ts_hash S from_state,
      md_sapling = Some (of_nat (ts_tree_size S TreeSapling from_state)),
      md_orchard = Some (of_nat (ts_tree_size S TreeOrchard from_state)),
      md_ironwood = Some (of_nat (ts_tree_size S TreeIronwood from_state))\<rparr>"

fun queue_blocks ::
    "('blk, 'ts, 'd, 'nf, 'sb) scanner \<Rightarrow> 'blk result_stream \<Rightarrow>
     SyncError + (BlockHeight \<times> 'd option) list" where
  "queue_blocks S [] = Inr []"
| "queue_blocks S (Inl e # blocks) = Inl (ChainFailed e)"
| "queue_blocks S (Inr block # blocks) =
     rbind (ok_or BatchDecryptorUnavailable (queue_block S block)) (\<lambda>result.
     rbind (queue_blocks S blocks) (\<lambda>batch.
     Inr ((claimed_height S block, result) # batch)))"

fun scan_batch ::
    "('blk, 'ts, 'd, 'nf, 'sb) scanner \<Rightarrow> TransparentAddressIndex \<Rightarrow> 'nf \<Rightarrow> BlockMetadata option \<Rightarrow>
     (BlockHeight \<times> 'd option) list \<Rightarrow> SyncError + 'sb list" where
  "scan_batch S addresses nullifiers prior [] = Inr []"
| "scan_batch S addresses nullifiers prior ((height, result) # batch) =
     rbind (ok_or BatchDecryptorUnavailable result) (\<lambda>d.
     rbind (map_err scan_block_error (full_scan_block S height d nullifiers prior addresses))
     (\<lambda>scanned_block.
     rbind (scan_batch S addresses (update_with S scanned_block nullifiers)
              (Some (to_block_metadata S scanned_block)) batch)
     (\<lambda>scanned_blocks. Inr (scanned_block # scanned_blocks))))"

text \<open>\<open>scan_blocks\<close>. The arguments of its log messages are evaluated, so the view's tip is read
  on the path that skips the range.\<close>

definition scan_blocks ::
    "height_ops \<Rightarrow> ('blk, 'ts, 'd, 'nf, 'sb) scanner \<Rightarrow> ('db, 'ts, 'nf, 'sb) scan_db \<Rightarrow>
     ('blk, 'ts, 'tx) ChainView \<Rightarrow> 'p ScanRange \<Rightarrow> BlockHeight option \<Rightarrow>
     ('db, SyncError, (BlockHeight, unit) ControlFlow) sr" where
  "scan_blocks H S D chain_view scan_range shutdown_height =
     (case clamp_to_boundary (block_range scan_range) shutdown_height of
        Break end \<Rightarrow> sret (Break end)
      | Continue boundary \<Rightarrow>
          let scan_range =
                (case boundary of None \<Rightarrow> scan_range | Some end \<Rightarrow> scan_range\<lparr>range_end := end\<rparr>) in
          sbind (chain_op (tree_state_as_of chain_view (h_sub H (range_start scan_range) 1)))
          (\<lambda>state. case state of
             None \<Rightarrow> sbind (chain_op (view_tip chain_view)) (\<lambda>_. sret (Continue ()))
           | Some from_state \<Rightarrow>
               sbind (slift (queue_blocks S (stream_blocks chain_view (block_range scan_range)))) (\<lambda>batch.
               sbind (db_read (unspent_nullifiers D)) (\<lambda>nullifiers.
               sbind (\<lambda>db. (transparent_address_index D db, db)) (\<lambda>addresses.
               sbind (slift (scan_batch S addresses nullifiers
                        (Some (prior_metadata S from_state)) batch)) (\<lambda>scanned_blocks.
               sbind (db_op (put_blocks D from_state scanned_blocks)) (\<lambda>_.
               sret (case boundary of Some end \<Rightarrow> Break end | None \<Rightarrow> Continue ()))))))))"

section \<open>Scanning one block\<close>

definition scan_block ::
    "height_ops \<Rightarrow> ('blk, 'ts, 'd, 'nf, 'sb) scanner \<Rightarrow> ('db, 'ts, 'nf, 'sb) scan_db \<Rightarrow>
     ('blk, 'ts, 'tx) ChainView \<Rightarrow> 'blk \<Rightarrow> BlockHeight option \<Rightarrow>
     ('db, SyncError, (BlockHeight, unit) ControlFlow) sr" where
  "scan_block H S D chain_view block shutdown_height =
     (let height = claimed_height S block in
      if (case shutdown_height of None \<Rightarrow> False | Some h \<Rightarrow> height \<ge> h)
      then sret (Break height)
      else
        sbind (chain_op (tree_state_as_of chain_view (h_sub H height 1))) (\<lambda>state.
        sbind (slift (ok_or (ChainFailed (Backend
          ''Programming error: tried to scan block ahead of the chain view's tip'')) state)) (\<lambda>from_state.
        sbind (slift (ok_or BatchDecryptorUnavailable (queue_block S block))) (\<lambda>result.
        sbind (db_read (unspent_nullifiers D)) (\<lambda>nullifiers.
        sbind (\<lambda>db. (transparent_address_index D db, db)) (\<lambda>addresses.
        sbind (slift (ok_or BatchDecryptorUnavailable result)) (\<lambda>d.
        sbind (slift (map_err scan_block_error
          (full_scan_block S height d nullifiers (Some (prior_metadata S from_state)) addresses)))
        (\<lambda>scanned.
        sbind (db_op (put_blocks D from_state [scanned])) (\<lambda>_.
        sret (Continue ()))))))))))"

section \<open>What the code relies on\<close>

text \<open>A scanned block is at the height it was scanned at, and a stream over a range yields
  blocks of that range.\<close>

definition scanner_ok :: "('blk, 'ts, 'd, 'nf, 'sb) scanner \<Rightarrow> bool" where
  "scanner_ok S \<longleftrightarrow>
     (\<forall>h d nf prior addresses sb. full_scan_block S h d nf prior addresses = Inr sb \<longrightarrow>
        md_height (to_block_metadata S sb) = h)"

definition stream_ok ::
    "('blk, 'ts, 'd, 'nf, 'sb) scanner \<Rightarrow> ('blk, 'ts, 'tx) ChainView \<Rightarrow> bool" where
  "stream_ok S V \<longleftrightarrow>
     (\<forall>s e b. Inr b \<in> set (stream_blocks V (s, e)) \<longrightarrow>
        s \<le> claimed_height S b \<and> claimed_height S b < e)"

text \<open>The heights \<open>scan_blocks\<close> may scan, given what the clamp said.\<close>

definition clamped_heights :: "BlockHeight \<times> BlockHeight \<Rightarrow> BlockHeight option \<Rightarrow> BlockHeight set" where
  "clamped_heights rng shutdown_height =
     (case clamp_to_boundary rng shutdown_height of
        Break _ \<Rightarrow> {}
      | Continue None \<Rightarrow> {fst rng..<snd rng}
      | Continue (Some end) \<Rightarrow> {fst rng..<end})"

section \<open>Facts\<close>

lemma clamp_Break:
  "clamp_to_boundary (s, e) sh = Break x \<Longrightarrow> x \<le> s \<and> (x = e \<or> sh = Some x)"
  by (auto simp: clamp_to_boundary_def Let_def min_def split: if_splits option.splits)

lemma queue_blocks_heights:
  "queue_blocks S blocks = Inr batch \<Longrightarrow>
   list_all2 (\<lambda>r hd. \<exists>b. r = Inr b \<and> fst hd = claimed_height S b \<and> queue_block S b = Some (snd hd))
     blocks batch"
  by (induction S blocks arbitrary: batch rule: queue_blocks.induct) (auto simp: result_simps)

lemma scan_batch_heights:
  "scanner_ok S \<Longrightarrow> scan_batch S addresses nf prior batch = Inr sbs \<Longrightarrow>
   map (\<lambda>sb. md_height (to_block_metadata S sb)) sbs = map fst batch"
  by (induction batch arbitrary: nf prior sbs)
     (auto simp: result_simps scanner_ok_def split: prod.splits)

text \<open>A range scan writes at most once, and what it writes is the scan of the clamped range's
  stream on top of the tree state just below it.\<close>

lemma scan_blocks_writes:
  assumes "scan_blocks H S D V r sh db = (res, db')"
  shows "db' = db \<or>
    (\<exists>bd ts batch addresses nf sbs.
       clamp_to_boundary (block_range r) sh = Continue bd \<and>
       tree_state_as_of V (h_sub H (range_start r) 1) = Inr (Some ts) \<and>
       queue_blocks S (stream_blocks V
         (range_start r, case bd of None \<Rightarrow> range_end r | Some x \<Rightarrow> x)) = Inr batch \<and>
       scan_batch S addresses nf (Some (prior_metadata S ts)) batch = Inr sbs \<and>
       db' = snd (put_blocks D ts sbs db))"
proof (cases "clamp_to_boundary (block_range r) sh")
  case (Break x)
  with assms show ?thesis by (simp add: scan_blocks_def sret_def)
next
  case (Continue bd)
  let ?r = "case bd of None \<Rightarrow> r | Some x \<Rightarrow> r\<lparr>range_end := x\<rparr>"
  have r: "range_start ?r = range_start r"
    "range_end ?r = (case bd of None \<Rightarrow> range_end r | Some x \<Rightarrow> x)"
    by (simp_all split: option.splits)
  show ?thesis
  proof (cases "\<exists>ts batch nf addresses sbs.
      tree_state_as_of V (h_sub H (range_start r) 1) = Inr (Some ts) \<and>
      queue_blocks S (stream_blocks V (block_range ?r)) = Inr batch \<and>
      unspent_nullifiers D db = Inr nf \<and> transparent_address_index D db = Inr addresses \<and>
      scan_batch S addresses nf (Some (prior_metadata S ts)) batch = Inr sbs")
    case True
    then obtain ts batch nf addresses sbs where
      "tree_state_as_of V (h_sub H (range_start r) 1) = Inr (Some ts)"
      and "queue_blocks S (stream_blocks V (block_range ?r)) = Inr batch"
      and "unspent_nullifiers D db = Inr nf" and "transparent_address_index D db = Inr addresses"
      and "scan_batch S addresses nf (Some (prior_metadata S ts)) batch = Inr sbs" by blast
    moreover from this assms Continue r have "db' = snd (put_blocks D ts sbs db)"
      by (cases "put_blocks D ts sbs db", cases "fst (put_blocks D ts sbs db)")
         (auto simp: scan_blocks_def sbind_def chain_op_def slift_def db_read_def db_op_def
            sret_def Let_def)
    ultimately show ?thesis using Continue r by auto
  next
    case False
    with assms Continue r have "db' = db"
      by (auto simp: scan_blocks_def sbind_def chain_op_def slift_def db_read_def sret_def Let_def
          map_err_def split: sum.splits option.splits prod.splits if_splits)
    then show ?thesis ..
  qed
qed

lemma insert_receivers_map_of:
  "insert_receivers account rs index =
     index ++ map_of (rev (map (\<lambda>(a, s). (a, (account, s))) rs))"
  by (induction rs arbitrary: index) (auto simp: map_add_def fun_eq_iff split: option.splits)

lemma insert_receivers_dom: "dom (insert_receivers account rs index) = dom index \<union> fst ` set rs"
  by (simp add: insert_receivers_map_of dom_map_of_conv_image_fst image_image case_prod_unfold
      Un_commute)

lemma insert_receivers_source:
  "insert_receivers account rs index a = Some (acct, s) \<Longrightarrow>
   index a = Some (acct, s) \<or> acct = account \<and> (a, s) \<in> set rs"
  by (induction account rs index rule: insert_receivers.induct) (auto split: if_splits)

lemma index_accounts_source:
  "index_accounts receivers accounts index = Inr index' \<Longrightarrow> index' a = Some (acct, s) \<Longrightarrow>
   index a = Some (acct, s) \<or>
   (acct \<in> set accounts \<and> (\<exists>rs. receivers acct = Inr rs \<and> (a, s) \<in> set rs))"
proof (induction accounts arbitrary: index)
  case Nil
  then show ?case by simp
next
  case (Cons account accounts)
  from Cons.prems(1) obtain rs where rs: "receivers account = Inr rs"
    and rest: "index_accounts receivers accounts (insert_receivers account rs index) = Inr index'"
    by (auto simp: result_simps)
  from Cons.IH [OF rest Cons.prems(2)] rs show ?case
    by (auto dest: insert_receivers_source)
qed

lemma index_accounts_dom:
  "index_accounts receivers accounts index = Inr index' \<Longrightarrow>
   dom index' = dom index \<union>
     (\<Union>account \<in> set accounts. \<Union>rs \<in> {rs. receivers account = Inr rs}. fst ` set rs)"
proof (induction accounts arbitrary: index)
  case Nil
  then show ?case by simp
next
  case (Cons account accounts)
  from Cons.prems obtain rs where rs: "receivers account = Inr rs"
    and rest: "index_accounts receivers accounts (insert_receivers account rs index) = Inr index'"
    by (auto simp: result_simps)
  from Cons.IH [OF rest] rs show ?case by (auto simp: insert_receivers_dom)
qed

text \<open>Every block of the batch that a range scan writes lies below the range's end and below
  the boundary.\<close>

lemma clamped_end:
  "clamp_to_boundary (s, e) sh = Continue bd \<Longrightarrow> h < (case bd of None \<Rightarrow> e | Some x \<Rightarrow> x) \<Longrightarrow>
   h < e \<and> (\<forall>b. sh = Some b \<longrightarrow> h < b)"
  by (auto simp: clamp_to_boundary_def Let_def min_def split: if_splits option.splits)

lemma scanned_in_range:
  assumes "scanner_ok S" and "stream_ok S V"
    and "queue_blocks S (stream_blocks V (s, e)) = Inr batch"
    and "scan_batch S addresses nf prior batch = Inr sbs"
    and "sb \<in> set sbs"
  shows "md_height (to_block_metadata S sb) < e"
proof -
  from assms(5) have "md_height (to_block_metadata S sb) \<in>
      set (map (\<lambda>sb. md_height (to_block_metadata S sb)) sbs)" by simp
  then have "md_height (to_block_metadata S sb) \<in> fst ` set batch"
    unfolding scan_batch_heights [OF assms(1,4)] by simp
  then obtain hd where hd: "hd \<in> set batch" "md_height (to_block_metadata S sb) = fst hd" by auto
  from list_all2_set2_ex [OF queue_blocks_heights [OF assms(3)] hd(1)]
  obtain bl where "Inr bl \<in> set (stream_blocks V (s, e))" and "fst hd = claimed_height S bl"
    by blast
  with assms(2) hd(2) show ?thesis by (auto simp: stream_ok_def)
qed

lemma scan_blocks_keeps:
  assumes "scanner_ok S" and "stream_ok S V"
    and "\<And>ts sbs db. I db \<Longrightarrow>
      \<forall>sb \<in> set sbs. md_height (to_block_metadata S sb) < range_end r \<and>
        (\<forall>b. sh = Some b \<longrightarrow> md_height (to_block_metadata S sb) < b) \<Longrightarrow>
      I (snd (put_blocks D ts sbs db))"
  shows "sr_keeps I (scan_blocks H S D V r sh)"
  unfolding sr_keeps_iff
proof (intro allI impI)
  fix db assume "I db"
  obtain res db' where run: "scan_blocks H S D V r sh db = (res, db')" by fastforce
  from scan_blocks_writes [OF run] show "I (snd (scan_blocks H S D V r sh db))"
  proof
    assume "db' = db"
    with run \<open>I db\<close> show ?thesis by simp
  next
    assume "\<exists>bd ts batch addresses nf sbs.
       clamp_to_boundary (block_range r) sh = Continue bd \<and>
       tree_state_as_of V (h_sub H (range_start r) 1) = Inr (Some ts) \<and>
       queue_blocks S (stream_blocks V
         (range_start r, case bd of None \<Rightarrow> range_end r | Some x \<Rightarrow> x)) = Inr batch \<and>
       scan_batch S addresses nf (Some (prior_metadata S ts)) batch = Inr sbs \<and>
       db' = snd (put_blocks D ts sbs db)"
    then obtain bd ts batch addresses nf sbs where
      cl: "clamp_to_boundary (block_range r) sh = Continue bd"
      and q: "queue_blocks S (stream_blocks V
         (range_start r, case bd of None \<Rightarrow> range_end r | Some x \<Rightarrow> x)) = Inr batch"
      and sc: "scan_batch S addresses nf (Some (prior_metadata S ts)) batch = Inr sbs"
      and db': "db' = snd (put_blocks D ts sbs db)" by blast
    from clamped_end [OF cl scanned_in_range [OF assms(1,2) q sc]] db' run assms(3) \<open>I db\<close>
    show ?thesis by simp
  qed
qed

section \<open>Properties\<close>

text \<open>The heights a clamped range scan covers are exactly those of the range below the
  divergence height.\<close>

theorem clamp_exact:
  "clamped_heights (s, e) sh = {h. s \<le> h \<and> h < e \<and> (\<forall>b. sh = Some b \<longrightarrow> h < b)}"
  by (auto simp: clamped_heights_def clamp_to_boundary_def Let_def min_def
      split: option.splits if_splits)

text \<open>A range scan never stores a block at or above the known consensus-divergence height:
  any property of the database that storing blocks below that height keeps, the scan keeps,
  whether it succeeds or fails.\<close>

theorem scan_blocks_stays_below_boundary:
  assumes "scanner_ok S" and "stream_ok S V"
    and "\<And>ts sbs db. I db \<Longrightarrow> \<forall>sb \<in> set sbs. md_height (to_block_metadata S sb) < b \<Longrightarrow>
           I (snd (put_blocks D ts sbs db))"
    and "I db"
  shows "I (snd (scan_blocks H S D V r (Some b) db))"
proof -
  have "sr_keeps I (scan_blocks H S D V r (Some b))"
    using assms(3) by (intro scan_blocks_keeps [OF assms(1,2)]) simp
  with assms(4) show ?thesis by (simp add: sr_keeps_iff)
qed

text \<open>A chain of empty blocks, block \<open>h\<close> being its own height, and a wallet that stores the
  heights it was given.\<close>

definition example_scanner :: "(BlockHeight, BlockHeight, BlockHeight, unit, BlockHeight) scanner" where
  "example_scanner =
     \<lparr>claimed_height = (\<lambda>b. b), header_hash = (\<lambda>b. [ucast b]), ts_height = (\<lambda>t. t),
      ts_hash = (\<lambda>t. [ucast t]), ts_tree_size = (\<lambda>_ _. 0), queue_block = (\<lambda>b. Some (Some b)),
      full_scan_block = (\<lambda>h d nf prior addresses. Inr h), update_with = (\<lambda>_ nf. nf),
      to_block_metadata = (\<lambda>sb. \<lparr>md_height = sb, md_hash = [ucast sb], md_sapling = Some 0,
        md_orchard = Some 0, md_ironwood = Some 0\<rparr>)\<rparr>"

definition example_scan_db :: "(BlockHeight list, BlockHeight, unit, BlockHeight) scan_db" where
  "example_scan_db =
     \<lparr>unspent_nullifiers = (\<lambda>_. Inr ()), get_account_ids = (\<lambda>_. Inr []),
      get_transparent_receivers = (\<lambda>_ _. Inr []), put_blocks = (\<lambda>_ sbs db. (Inr (), db @ sbs))\<rparr>"

definition example_heights :: "BlockHeight \<Rightarrow> BlockHeight \<Rightarrow> BlockHeight list" where
  "example_heights s e = filter (\<lambda>h. s \<le> h \<and> h < e) [5, 6, 7, 8]"

definition example_stream_from :: "BlockHeight \<Rightarrow> BlockHeight result_stream" where
  "example_stream_from s =
     (if s = 5 then map Inr [5, 6, 7, 8] else if s = 6 then map Inr [6, 7, 8]
      else if s = 7 then map Inr [7, 8] else if s = 8 then map Inr [8]
      else if 8 < s then [] else [Inl (Backend ''below the first block'')])"

definition example_view :: "(BlockHeight, BlockHeight, unit) ChainView" where
  "example_view =
     \<lparr>view_tip = Inr (chain_block 8 [8]),
      find_fork_point = (\<lambda>locator. Inr (map_option (\<lambda>x. chain_block (ucast (hd x)) x)
        (find (\<lambda>x. x \<in> set [[5], [6], [7], [8]]) (hashes locator)))),
      tree_state_as_of = (\<lambda>h. Inr (if h \<le> 8 then Some h else None)),
      get_block_header = (\<lambda>h. Inr (if h \<in> set [5, 6, 7, 8] then Some [ucast h] else None)),
      get_block = (\<lambda>h. Inr (if h \<le> 8 then Some h else None)),
      stream_blocks_to_tip = example_stream_from,
      stream_blocks = (\<lambda>(s, e). map Inr (example_heights s e)),
      get_mempool_stream = Inr (Some []), get_transaction = (\<lambda>_. Inr None),
      get_transaction_status = (\<lambda>_. Inr TxidNotRecognized),
      outpoint_spend_status = (\<lambda>_. Inr Unspent),
      get_address_unspent_outpoints = (\<lambda>_. Inr []), get_address_tx_ids = (\<lambda>_ _. Inr [])\<rparr>"

lemma example_scanner_ok: "scanner_ok example_scanner"
  by (simp add: scanner_ok_def example_scanner_def)

lemma example_stream_ok: "stream_ok example_scanner example_view"
  by (auto simp: stream_ok_def example_scanner_def example_view_def example_heights_def)

theorem scan_blocks_stays_below_boundary_witness:
  "list_all (\<lambda>h. h < 8) (snd (scan_blocks saturating_heights example_scanner example_scan_db example_view
      \<lparr>range_start = 6, range_end = 9, priority = (0 :: nat)\<rparr> (Some 8) [5]))"
  by (rule scan_blocks_stays_below_boundary
        [where I = "list_all (\<lambda>h. h < 8)", OF example_scanner_ok example_stream_ok])
     (auto simp: list_all_iff example_scan_db_def example_scanner_def)

text \<open>Below the divergence height, scanning one block is scanning the range that holds just
  that block: same result, same database.\<close>

theorem scan_block_is_singleton_scan:
  assumes "stream_blocks V (claimed_height S block, e) = [Inr block]"
    and "tree_state_as_of V (h_sub H (claimed_height S block) 1) = Inr (Some ts)"
    and "claimed_height S block < e" and "case sh of None \<Rightarrow> True | Some b \<Rightarrow> e \<le> b"
  shows "scan_block H S D V block sh =
    scan_blocks H S D V \<lparr>range_start = claimed_height S block, range_end = e, priority = p\<rparr> sh"
proof -
  have cl: "clamp_to_boundary (claimed_height S block, e) sh = Continue None"
    using assms(3,4) by (auto simp: clamp_to_boundary_def Let_def min_def split: option.splits)
  have "\<not> (case sh of None \<Rightarrow> False | Some h \<Rightarrow> claimed_height S block \<ge> h)"
    using assms(3,4) by (auto split: option.splits)
  with cl assms(1,2) show ?thesis
    by (intro ext)
       (simp add: scan_block_def scan_blocks_def sbind_def chain_op_def slift_def db_read_def
          Let_def rbind_def ok_or_def map_err_def sret_def
          split: sum.splits option.splits)
qed

theorem scan_block_is_singleton_scan_witness:
  "scan_block saturating_heights example_scanner example_scan_db example_view 8 None [5, 6, 7] =
     (Inr (Continue ()), [5, 6, 7, 8]) \<and>
   scan_block saturating_heights example_scanner example_scan_db example_view 8 None =
     scan_blocks saturating_heights example_scanner example_scan_db example_view
       \<lparr>range_start = 8, range_end = 9, priority = (0 :: nat)\<rparr> None"
proof
  show "scan_block saturating_heights example_scanner example_scan_db example_view 8 None [5, 6, 7] =
     (Inr (Continue ()), [5, 6, 7, 8])"
    by (simp add: scan_block_def sbind_def chain_op_def slift_def db_read_def db_op_def sret_def
        example_scanner_def example_scan_db_def example_view_def saturating_heights_def
        saturating_sub_def transparent_address_index_def)
  show "scan_block saturating_heights example_scanner example_scan_db example_view 8 None =
     scan_blocks saturating_heights example_scanner example_scan_db example_view
       \<lparr>range_start = 8, range_end = 9, priority = (0 :: nat)\<rparr> None"
    using scan_block_is_singleton_scan
      [of example_view example_scanner 8 9 saturating_heights 7 None example_scan_db "0 :: nat"]
    by (simp add: example_view_def example_scanner_def example_heights_def saturating_heights_def
        saturating_sub_def)
qed

text \<open>The transparent address index attributes an address to an account only if the wallet
  lists it among that account's receivers, and it misses none of them.\<close>

theorem transparent_address_index_exact:
  assumes "get_account_ids D db = Inr accounts" and "transparent_address_index D db = Inr index"
  shows "(\<forall>a acct s. index a = Some (acct, s) \<longrightarrow> acct \<in> set accounts \<and>
           (\<exists>rs. get_transparent_receivers D db acct = Inr rs \<and> (a, s) \<in> set rs)) \<and>
         (\<forall>acct rs a s. acct \<in> set accounts \<and> get_transparent_receivers D db acct = Inr rs \<and>
           (a, s) \<in> set rs \<longrightarrow> index a \<noteq> None)"
proof -
  have ix: "index_accounts (get_transparent_receivers D db) accounts (\<lambda>_. None) = Inr index"
    using assms by (simp add: transparent_address_index_def)
  have "dom index = (\<Union>account \<in> set accounts.
      \<Union>rs \<in> {rs. get_transparent_receivers D db account = Inr rs}. fst ` set rs)"
    using index_accounts_dom [OF ix] by simp
  then have "a \<in> dom index" if "acct \<in> set accounts" "get_transparent_receivers D db acct = Inr rs"
    "(a, s) \<in> set rs" for acct rs a s
    using that by force
  then show ?thesis using index_accounts_source [OF ix] by blast
qed

definition example_owned_db :: "(unit, unit, unit, unit) scan_db" where
  "example_owned_db =
     \<lparr>unspent_nullifiers = (\<lambda>_. Inr ()), get_account_ids = (\<lambda>_. Inr [[1], [2]]),
      get_transparent_receivers = (\<lambda>_ acct. Inr [(PublicKeyHash acct, Some 0)]),
      put_blocks = (\<lambda>_ _ db. (Inr (), db))\<rparr>"

theorem transparent_address_index_exact_witness:
  "\<exists>index. transparent_address_index example_owned_db () = Inr index \<and>
     index (PublicKeyHash [1]) \<noteq> None \<and> index (PublicKeyHash [3]) = None"
proof -
  obtain index where ix: "transparent_address_index example_owned_db () = Inr index"
    by (simp add: transparent_address_index_def example_owned_db_def)
  have "get_account_ids example_owned_db () = Inr [[1], [2]]" by (simp add: example_owned_db_def)
  from transparent_address_index_exact [OF this ix]
  have "index (PublicKeyHash [1]) \<noteq> None \<and> index (PublicKeyHash [3]) = None"
    by (cases "index (PublicKeyHash [3])") (fastforce simp: example_owned_db_def)+
  with ix show ?thesis by blast
qed

end
