(* ===== verification/Rpc_Errors.thy ===== *)
theory Rpc_Errors
  imports Numerals
begin

text \<open>
  The JSON-RPC error values (\<open>json_rpc/server/error.rs\<close>): the legacy error codes with the
  numbers clients match on, and an error object made of a code and a message. A message is
  the text the source formats, a localised message named by its key in the
  \<open>i18n\<close> bundle together with its arguments, or two messages joined by a space.
\<close>

datatype LegacyCode =
    Misc | ForbiddenBySafeMode | Type | InvalidAddressOrKey | OutOfMemory | InvalidParameter
  | Database | Deserialization | Verify | VerifyRejected | VerifyAlreadyInChain | InWarmup
  | ClientNotConnected | ClientInInitialDownload | ClientNodeAlreadyAdded | ClientNodeNotAdded
  | ClientNodeNotConnected | ClientInvalidIpOrSubnet
  | Wallet | WalletInsufficientFunds | WalletAccountsUnsupported | WalletKeypoolRanOut
  | WalletUnlockNeeded | WalletPassphraseIncorrect | WalletWrongEncState
  | WalletEncryptionFailed | WalletAlreadyUnlocked | WalletBackupRequired

fun legacy_code :: "LegacyCode \<Rightarrow> int" where
  "legacy_code Misc = -1"
| "legacy_code ForbiddenBySafeMode = -2"
| "legacy_code Type = -3"
| "legacy_code InvalidAddressOrKey = -5"
| "legacy_code OutOfMemory = -7"
| "legacy_code InvalidParameter = -8"
| "legacy_code Database = -20"
| "legacy_code Deserialization = -22"
| "legacy_code Verify = -25"
| "legacy_code VerifyRejected = -26"
| "legacy_code VerifyAlreadyInChain = -27"
| "legacy_code InWarmup = -28"
| "legacy_code ClientNotConnected = -9"
| "legacy_code ClientInInitialDownload = -10"
| "legacy_code ClientNodeAlreadyAdded = -23"
| "legacy_code ClientNodeNotAdded = -24"
| "legacy_code ClientNodeNotConnected = -29"
| "legacy_code ClientInvalidIpOrSubnet = -30"
| "legacy_code Wallet = -4"
| "legacy_code WalletInsufficientFunds = -6"
| "legacy_code WalletAccountsUnsupported = -11"
| "legacy_code WalletKeypoolRanOut = -12"
| "legacy_code WalletUnlockNeeded = -13"
| "legacy_code WalletPassphraseIncorrect = -14"
| "legacy_code WalletWrongEncState = -15"
| "legacy_code WalletEncryptionFailed = -16"
| "legacy_code WalletAlreadyUnlocked = -17"
| "legacy_code WalletBackupRequired = -18"

datatype rpc_code = Legacy LegacyCode | InternalError | InvalidParams

datatype message = Text string | Fl string "(string \<times> string) list" | Spaced message message

record rpc_error =
  err_code :: rpc_code
  err_message :: message

abbreviation with_message :: "LegacyCode \<Rightarrow> message \<Rightarrow> rpc_error" where
  "with_message c m \<equiv> \<lparr>err_code = Legacy c, err_message = m\<rparr>"

abbreviation with_static :: "LegacyCode \<Rightarrow> string \<Rightarrow> rpc_error" where
  "with_static c m \<equiv> \<lparr>err_code = Legacy c, err_message = Text m\<rparr>"

text \<open>A JSON-RPC error from one of the standard codes, which carries no message of its own.\<close>

definition rpc_error_of :: "rpc_code \<Rightarrow> rpc_error" where
  "rpc_error_of c = \<lparr>err_code = c, err_message = Text []\<rparr>"

text \<open>Clients tell errors apart by number: the numbers are distinct.\<close>

lemma legacy_code_inj: "legacy_code a = legacy_code b \<Longrightarrow> a = b"
  by (cases a; cases b; simp)

end
