(* ===== verification/Sync_Status.thy ===== *)
theory Sync_Status
  imports Rpc_Errors Chain_Types
begin

text \<open>
  The sync engine's published status (\<open>sync/status.rs\<close>): the signals the engine writes through
  a watch channel, the status derived from them, and the gate that refuses balance and spend
  requests while the wallet's view of the chain is incomplete or under repair. The channel
  serialises the writers, so an execution is the sequence of their writes.
\<close>

section \<open>The status\<close>

datatype SyncStatus =
    CatchingUp "BlockHeight option" BlockHeight
  | Synced
  | Recovering BlockHeight

record SyncSignals =
  sig_tip :: BlockHeight
  sig_fully_synced :: "BlockHeight option"
  sig_tip_reached :: bool
  sig_recovering :: "BlockHeight option"

definition status :: "SyncSignals \<Rightarrow> u32 \<Rightarrow> SyncStatus" where
  "status s tolerance =
     (case sig_recovering s of
        Some rolled_back_to \<Rightarrow> Recovering rolled_back_to
      | None \<Rightarrow>
          (let within_tip =
                 (case sig_fully_synced s of
                    None \<Rightarrow> False
                  | Some fs \<Rightarrow> saturating_sub (sig_tip s) fs \<le> tolerance)
           in if sig_tip_reached s \<and> within_tip then Synced
              else CatchingUp (sig_fully_synced s) (sig_tip s)))"

section \<open>The writer and the reader\<close>

definition set_tip :: "BlockHeight \<Rightarrow> SyncSignals \<Rightarrow> SyncSignals" where
  "set_tip tip s = s\<lparr>sig_tip := tip\<rparr>"

definition set_fully_synced :: "BlockHeight option \<Rightarrow> SyncSignals \<Rightarrow> SyncSignals" where
  "set_fully_synced fs s = s\<lparr>sig_fully_synced := fs\<rparr>"

definition mark_tip_reached :: "SyncSignals \<Rightarrow> SyncSignals" where
  "mark_tip_reached s = s\<lparr>sig_tip_reached := True\<rparr>"

definition begin_recovery :: "BlockHeight \<Rightarrow> SyncSignals \<Rightarrow> SyncSignals" where
  "begin_recovery rolled_back_to s = s\<lparr>sig_recovering := Some rolled_back_to\<rparr>"

definition end_recovery :: "SyncSignals \<Rightarrow> SyncSignals" where
  "end_recovery s = s\<lparr>sig_recovering := None\<rparr>"

lemmas status_write_defs =
  set_tip_def set_fully_synced_def mark_tip_reached_def begin_recovery_def end_recovery_def

text \<open>\<open>channel\<close>: what the reader sees before the first write.\<close>

definition channel :: SyncSignals where
  "channel = \<lparr>sig_tip = 0, sig_fully_synced = None, sig_tip_reached = False, sig_recovering = None\<rparr>"

definition ensure_available :: "u32 \<Rightarrow> SyncSignals \<Rightarrow> rpc_error + unit" where
  "ensure_available tolerance s =
     (case status s tolerance of
        Synced \<Rightarrow> Inr ()
      | CatchingUp fully_synced tip \<Rightarrow>
          (let behind = (case fully_synced of None \<Rightarrow> tip | Some fs \<Rightarrow> saturating_sub tip fs)
           in Inl (with_message ClientInInitialDownload (Text
                (''Wallet is still catching up ('' @ show_nat (unat behind) @
                 '' blocks behind the chain tip); balance and spend operations are unavailable until it is synced''))))
      | Recovering rolled_back_to \<Rightarrow>
          Inl (with_message ForbiddenBySafeMode (Text
            (''Wallet is recovering from a chain reorganization (rolled back to '' @
             show_nat (unat rolled_back_to) @
             ''); balance and spend operations are unavailable until it has resynced''))))"

section \<open>Executions\<close>

text \<open>One write of the engine to the channel.\<close>

datatype status_write =
    SetTip BlockHeight
  | SetFullySynced "BlockHeight option"
  | MarkTipReached
  | BeginRecovery BlockHeight
  | EndRecovery

fun apply_write :: "status_write \<Rightarrow> SyncSignals \<Rightarrow> SyncSignals" where
  "apply_write (SetTip t) = set_tip t"
| "apply_write (SetFullySynced fs) = set_fully_synced fs"
| "apply_write MarkTipReached = mark_tip_reached"
| "apply_write (BeginRecovery h) = begin_recovery h"
| "apply_write EndRecovery = end_recovery"

definition published :: "status_write list \<Rightarrow> SyncSignals" where
  "published ws = fold apply_write ws channel"

lemma is_ok_ensure_available:
  "is_ok (ensure_available tol s) \<longleftrightarrow>
     sig_recovering s = None \<and> sig_tip_reached s \<and>
     (\<exists>fs. sig_fully_synced s = Some fs \<and> unat (sig_tip s) \<le> unat fs + unat tol)"
proof -
  have "saturating_sub (sig_tip s) fs \<le> tol \<longleftrightarrow> unat (sig_tip s) \<le> unat fs + unat tol" for fs
    by (simp add: word_le_nat_alt unat_saturating_sub le_diff_conv add.commute)
  then show ?thesis
    by (auto simp: ensure_available_def status_def Let_def split: option.splits SyncStatus.splits if_splits)
qed

text \<open>The last write of each kind decides the field it writes.\<close>

fun last_recovery :: "status_write list \<Rightarrow> BlockHeight option" where
  "last_recovery [] = None"
| "last_recovery (BeginRecovery h # ws) = Some h"
| "last_recovery (EndRecovery # ws) = None"
| "last_recovery (w # ws) = last_recovery ws"

fun last_tip :: "status_write list \<Rightarrow> BlockHeight" where
  "last_tip [] = 0"
| "last_tip (SetTip t # ws) = t"
| "last_tip (w # ws) = last_tip ws"

fun last_fully_synced :: "status_write list \<Rightarrow> BlockHeight option" where
  "last_fully_synced [] = None"
| "last_fully_synced (SetFullySynced fs # ws) = fs"
| "last_fully_synced (w # ws) = last_fully_synced ws"

lemma published_fields:
  "published ws =
     \<lparr>sig_tip = last_tip (rev ws), sig_fully_synced = last_fully_synced (rev ws),
      sig_tip_reached = (MarkTipReached \<in> set ws), sig_recovering = last_recovery (rev ws)\<rparr>"
proof (induction ws rule: rev_induct)
  case Nil
  then show ?case by (simp add: published_def channel_def)
next
  case (snoc w ws)
  then have "published (ws @ [w]) = apply_write w (published ws)" by (simp add: published_def)
  with snoc show ?case by (cases w) (auto simp: status_write_defs)
qed

lemma last_recovery_append:
  "EndRecovery \<notin> set ws \<Longrightarrow> last_recovery (ws @ BeginRecovery h # vs) \<noteq> None"
proof (induction ws)
  case Nil
  then show ?case by simp
next
  case (Cons w ws)
  then show ?case by (cases w) auto
qed

section \<open>Properties\<close>

text \<open>After any sequence of status writes, balance and spend requests are let through
  exactly when steady-state sync has reached the tip at least once, no recovery is open (the
  last recovery write, if any, closed it), and the last published fully-scanned height is
  within the tolerance of the last published tip.\<close>

theorem gate_open_iff:
  "is_ok (ensure_available tol (published ws)) \<longleftrightarrow>
     MarkTipReached \<in> set ws \<and> last_recovery (rev ws) = None \<and>
     (\<exists>fs. last_fully_synced (rev ws) = Some fs \<and> unat (last_tip (rev ws)) \<le> unat fs + unat tol)"
  by (auto simp: is_ok_ensure_available published_fields)

text \<open>From the moment a recovery begins, and whatever else the sync tasks publish, every
  gated request is refused with the safe-mode error until the recovery is ended.\<close>

theorem gate_closed_during_recovery:
  assumes "EndRecovery \<notin> set later"
  shows "\<exists>msg. ensure_available tol (published (earlier @ BeginRecovery h # later)) =
           Inl (with_message ForbiddenBySafeMode msg)"
proof -
  have "EndRecovery \<notin> set (rev later)" using assms by simp
  then have "last_recovery (rev later @ BeginRecovery h # rev earlier) \<noteq> None"
    by (rule last_recovery_append)
  then obtain r where "last_recovery (rev later @ BeginRecovery h # rev earlier) = Some r" by auto
  then have "status (published (earlier @ BeginRecovery h # later)) tol = Recovering r"
    by (simp add: status_def published_fields)
  then show ?thesis by (simp add: ensure_available_def)
qed

theorem gate_closed_during_recovery_witness:
  "\<exists>msg. ensure_available 10
     (published ([SetTip 1000, SetFullySynced (Some 1000), MarkTipReached] @
        BeginRecovery 900 # [SetTip 1001, MarkTipReached])) =
     Inl (with_message ForbiddenBySafeMode msg)"
  by (rule gate_closed_during_recovery) simp

end
