(* ===== verification/Sync_Locator.thy ===== *)
theory Sync_Locator
  imports Chain_Types
begin

text \<open>
  Block locator construction (\<open>sync/locator.rs\<close>): the sampled heights below the tip, and the
  locator built from the wallet's own hashes at them. The wallet database is an argument:
  \<open>get_block_hash\<close> is its lookup, which may fail.
\<close>

section \<open>Sampled heights\<close>

definition MAX_LOCATOR_DEPTH :: u32 where
  "MAX_LOCATOR_DEPTH = 1000"

text \<open>\<open>iter::successors(Some(1), |step| step.checked_mul(2))\<close>: the iterator ends when the
  doubling overflows, which the recursion measures by the distance to the overflow.\<close>

function doublings :: "u32 \<Rightarrow> u32 list" where
  "doublings step =
     (if step = 0 then [step]
      else step # (case checked_mul step 2 of None \<Rightarrow> [] | Some s \<Rightarrow> doublings s))"
  by pat_completeness auto
termination
proof (relation "measure (\<lambda>step. 2 ^ 32 - unat step)")
  fix step s :: u32
  assume nz: "step \<noteq> 0" and s: "checked_mul step 2 = Some s"
  from checked_mul_Some [OF s] have two: "unat s = 2 * unat step" by simp
  have "0 < unat step" using nz by (simp add: unat_gt_0)
  moreover have "unat s < 2 ^ LENGTH(32)" by (rule unsigned_less)
  ultimately have "2 ^ 32 - unat s < (2 :: nat) ^ 32 - unat step" using two by simp
  then show "(s, step) \<in> measure (\<lambda>step. 2 ^ 32 - unat step)" by simp
qed simp

declare doublings.simps [simp del]

definition locator_block_heights :: "BlockHeight \<Rightarrow> BlockHeight list" where
  "locator_block_heights tip =
     (let minh = saturating_sub tip MAX_LOCATOR_DEPTH;
          exponential = List.map_filter (\<lambda>step. checked_sub tip step) (doublings 1)
      in takeWhile (\<lambda>height. height > minh) (tip # exponential) @ [minh])"

section \<open>Building the locator\<close>

fun collect_locator_blocks ::
    "(BlockHeight \<Rightarrow> 'e + BlockHash option) \<Rightarrow> BlockHeight list \<Rightarrow> 'e + ChainBlock list" where
  "collect_locator_blocks get_block_hash [] = Inr []"
| "collect_locator_blocks get_block_hash (height # heights) =
     rbind (get_block_hash height) (\<lambda>hash.
     rbind (collect_locator_blocks get_block_hash heights) (\<lambda>blocks.
     Inr (case hash of Some x \<Rightarrow> chain_block height x # blocks | None \<Rightarrow> blocks)))"

definition build_block_locator ::
    "(BlockHeight \<Rightarrow> 'e + BlockHash option) \<Rightarrow> BlockHeight \<Rightarrow> 'e fault + BlockLocator" where
  "build_block_locator get_block_hash tip =
     rbind (map_err Raise (collect_locator_blocks get_block_hash (locator_block_heights tip)))
       from_blocks"

section \<open>Facts\<close>

lemma doublings_head: "doublings step = step # tl (doublings step)"
  by (subst doublings.simps) (simp add: doublings.simps [of step])

lemma doublings_increasing: "0 < step \<Longrightarrow> sorted_wrt (<) (doublings step) \<and> (\<forall>x \<in> set (doublings step). step \<le> x)"
proof (induction step rule: doublings.induct)
  case (1 step)
  show ?case
  proof (cases "checked_mul step 2")
    case None
    with "1.prems" show ?thesis by (subst (1 2) doublings.simps) simp
  next
    case (Some s)
    from checked_mul_Some [OF Some] have "unat s = 2 * unat step" by simp
    with "1.prems" have lt: "step < s" and pos: "0 < s"
      by (simp_all add: word_less_nat_alt)
    have "sorted_wrt (<) (doublings s) \<and> (\<forall>x \<in> set (doublings s). s \<le> x)"
      using "1.IH" [OF _ Some pos] "1.prems" by auto
    moreover have "doublings step = step # doublings s"
      using Some "1.prems" by (subst doublings.simps) auto
    ultimately show ?thesis using lt by (auto simp: less_le_trans)
  qed
qed

lemma map_filter_checked_sub_decreasing:
  "sorted_wrt (<) steps \<Longrightarrow> strictly_decreasing (List.map_filter (checked_sub tip) steps)"
proof (induction steps)
  case Nil
  then show ?case by (simp add: List.map_filter_simps)
next
  case (Cons a steps)
  have "y < tip - a" if "a \<le> tip" "x \<in> set steps" "checked_sub tip x = Some y" for x y
  proof -
    from that(2) Cons.prems have "a < x" by simp
    then have "unat a < unat x" by (simp add: word_less_nat_alt)
    with unat_checked_sub [OF that(3)] unat_minus_le [OF that(1)] have "unat y < unat (tip - a)"
      by linarith
    then show ?thesis by (simp add: word_less_nat_alt)
  qed
  then show ?case using Cons
    by (auto simp: List.map_filter_simps set_map_filter_eq checked_sub_def split: option.splits)
qed

lemma sampled_decreasing: "strictly_decreasing (tip # List.map_filter (checked_sub tip) (doublings 1))"
proof -
  have inc: "sorted_wrt (<) (doublings 1)" and low: "\<forall>x \<in> set (doublings 1). 1 \<le> x"
    using doublings_increasing [of 1] by auto
  have "y < tip" if "y \<in> set (List.map_filter (checked_sub tip) (doublings 1))" for y
  proof -
    from that obtain x where "x \<in> set (doublings 1)" and y: "checked_sub tip x = Some y"
      by (auto simp: List.map_filter_def)
    with low have "1 \<le> x" by blast
    with unat_checked_sub [OF y] show ?thesis
      by (simp add: word_less_nat_alt word_le_nat_alt)
  qed
  with map_filter_checked_sub_decreasing [OF inc, of tip] show ?thesis by simp
qed

lemma locator_heights_decreasing: "strictly_decreasing (locator_block_heights tip)"
proof -
  let ?m = "saturating_sub tip MAX_LOCATOR_DEPTH"
  have "strictly_decreasing (takeWhile (\<lambda>h. h > ?m) (tip # List.map_filter (checked_sub tip) (doublings 1)))"
    by (rule sorted_wrt_takeWhile [OF sampled_decreasing])
  moreover have "\<forall>h \<in> set (takeWhile (\<lambda>h. h > ?m)
      (tip # List.map_filter (checked_sub tip) (doublings 1))). \<forall>k \<in> set [?m]. h > k"
    by (auto dest: set_takeWhileD simp del: takeWhile.simps)
  moreover have "strictly_decreasing [?m]" by simp
  ultimately show ?thesis
    unfolding locator_block_heights_def Let_def sorted_wrt_append by blast
qed

lemma locator_heights_range:
  "h \<in> set (locator_block_heights tip) \<Longrightarrow> saturating_sub tip MAX_LOCATOR_DEPTH \<le> h \<and> h \<le> tip"
proof -
  let ?m = "saturating_sub tip MAX_LOCATOR_DEPTH"
  assume "h \<in> set (locator_block_heights tip)"
  then consider "h = ?m"
    | "h \<in> set (takeWhile (\<lambda>h. h > ?m) (tip # List.map_filter (checked_sub tip) (doublings 1)))"
    unfolding locator_block_heights_def Let_def by auto
  then show ?thesis
  proof cases
    case 1
    then show ?thesis by (simp add: saturating_sub_le)
  next
    case 2
    from set_takeWhileD [OF this] sampled_decreasing [of tip] show ?thesis by auto
  qed
qed

lemma locator_heights_last: "last (locator_block_heights tip) = saturating_sub tip MAX_LOCATOR_DEPTH"
  by (simp add: locator_block_heights_def Let_def)

lemma locator_heights_hd: "hd (locator_block_heights tip) = tip"
proof (cases "tip = 0")
  case True
  then show ?thesis
    by (simp add: locator_block_heights_def Let_def saturating_sub_def MAX_LOCATOR_DEPTH_def)
next
  case False
  then have "saturating_sub tip MAX_LOCATOR_DEPTH < tip"
    by (intro saturating_sub_less) (simp_all add: MAX_LOCATOR_DEPTH_def word_neq_0_conv)
  then show ?thesis by (simp add: locator_block_heights_def Let_def)
qed

lemma locator_heights_tip: "tip \<in> set (locator_block_heights tip)"
proof -
  have "locator_block_heights tip \<noteq> []" by (simp add: locator_block_heights_def Let_def)
  from hd_in_set [OF this] show ?thesis by (simp add: locator_heights_hd)
qed

lemma collect_locator_blocks_heights:
  "collect_locator_blocks get hs = Inr bs \<Longrightarrow>
   map cb_height bs = filter (\<lambda>h. \<exists>x. get h = Inr (Some x)) hs \<and>
   (\<forall>b \<in> set bs. get (cb_height b) = Inr (Some (cb_hash b)))"
  by (induction hs arbitrary: bs) (auto simp: result_simps split: option.splits)

lemma locator_block_heights_example: "locator_block_heights 10 = [10, 9, 8, 6, 2, 0]"
  by (simp add: locator_block_heights_def doublings.simps checked_mul_def checked_sub_def
      saturating_sub_def MAX_LOCATOR_DEPTH_def List.map_filter_simps)

lemma doublings_step: "0 < step \<Longrightarrow> 2 * unat step < 2 ^ 32 \<Longrightarrow> doublings step = step # doublings (2 * step)"
  by (subst doublings.simps) (auto simp: checked_mul_def mult.commute)

lemma doublings_powers:
  "0 < step \<Longrightarrow> unat step * 2 ^ k < 2 ^ 32 \<Longrightarrow> \<exists>x \<in> set (doublings step). unat x = unat step * 2 ^ k"
proof (induction k arbitrary: step)
  case 0
  then show ?case using doublings_head [of step] by (metis list.set_intros(1) mult.right_neutral power_0)
next
  case (Suc k)
  have "2 * unat step \<le> unat step * 2 ^ Suc k" by simp
  with Suc.prems(2) have lt: "2 * unat step < 2 ^ 32" by linarith
  then have u: "unat (2 * step) = 2 * unat step" by (simp add: unat_word_ariths)
  with Suc.prems have "0 < 2 * step" by (simp add: word_less_nat_alt)
  moreover have "unat (2 * step) * 2 ^ k < 2 ^ 32" using Suc.prems u by (simp add: mult.commute mult.left_commute)
  ultimately obtain x where "x \<in> set (doublings (2 * step))" "unat x = unat (2 * step) * 2 ^ k"
    using Suc.IH by blast
  with u have "unat x = unat step * 2 ^ Suc k" by simp
  with \<open>x \<in> _\<close> show ?case using doublings_step [OF Suc.prems(1) lt] by (intro bexI [of _ x]) auto
qed

lemma decreasing_takeWhile_mem:
  "strictly_decreasing xs \<Longrightarrow> x \<in> set xs \<Longrightarrow> m < x \<Longrightarrow> x \<in> set (takeWhile (\<lambda>h. m < h) xs)"
  by (induction xs) (auto dest: less_trans)

lemma power_between: "1 \<le> d \<Longrightarrow> \<exists>k. d \<le> 2 ^ k \<and> 2 ^ k < 2 * (d :: nat)"
proof -
  assume d: "1 \<le> d"
  have "\<exists>k. d \<le> 2 ^ k" by (intro exI [of _ d]) (simp add: less_imp_le)
  then obtain k where k: "d \<le> 2 ^ k" and least: "\<And>i. i < k \<Longrightarrow> \<not> d \<le> 2 ^ i"
    unfolding exists_least_iff [of "\<lambda>k. d \<le> 2 ^ k"] by blast
  have "2 ^ k < 2 * d"
  proof (cases k)
    case 0
    with d show ?thesis by simp
  next
    case (Suc i)
    with least [of i] show ?thesis by simp
  qed
  with k show ?thesis by blast
qed

text \<open>The spacing guarantee: below every height of the window there is a sampled one at most
  twice as deep.\<close>

lemma locator_heights_dense:
  assumes "saturating_sub tip MAX_LOCATOR_DEPTH \<le> h" and "h \<le> tip"
  shows "\<exists>s \<in> set (locator_block_heights tip). s \<le> h \<and> unat tip - unat s \<le> 2 * (unat tip - unat h)"
proof (cases "h = tip")
  case True
  have "tip \<in> set (locator_block_heights tip)"
    by (metis append_is_Nil_conv hd_in_set list.distinct(1) locator_block_heights_def locator_heights_hd)
  with True show ?thesis by auto
next
  case False
  let ?m = "saturating_sub tip MAX_LOCATOR_DEPTH" and ?d = "unat tip - unat h"
  have "h < tip" using False assms(2) by simp
  then have lt: "unat h < unat tip" by (simp add: word_less_nat_alt)
  have depth: "unat tip - unat ?m \<le> 1000" "?d \<le> 1000" "unat ?m \<le> unat h"
    using assms(1) by (auto simp: word_nat_simps MAX_LOCATOR_DEPTH_def)
  obtain k where k: "?d \<le> 2 ^ k" "2 ^ k < 2 * ?d" using power_between [of ?d] lt by fastforce
  then have "unat (1 :: u32) * 2 ^ k < 2 ^ 32" using depth(2) by simp
  then obtain x where x: "x \<in> set (doublings 1)" "unat x = 2 ^ k"
    using doublings_powers [of 1 k] by auto
  show ?thesis
  proof (cases "unat x \<le> unat tip \<and> unat ?m < unat tip - unat x")
    case True
    then have "checked_sub tip x = Some (tip - x)" and u: "unat (tip - x) = unat tip - unat x"
      by (simp_all add: checked_sub_def word_le_nat_alt unat_minus_le)
    with x have "tip - x \<in> set (tip # List.map_filter (checked_sub tip) (doublings 1))"
      by (auto simp: set_map_filter_eq)
    moreover have "?m < tip - x" using True u by (simp add: word_less_nat_alt)
    ultimately have "tip - x \<in> set (locator_block_heights tip)"
      using decreasing_takeWhile_mem [OF sampled_decreasing]
      by (auto simp: locator_block_heights_def Let_def simp del: takeWhile.simps)
    moreover have "unat (tip - x) \<le> unat h" "unat tip - unat (tip - x) \<le> 2 * ?d"
      using u x(2) k True lt by linarith+
    ultimately show ?thesis by (auto simp: word_le_nat_alt)
  next
    case False
    have "?m \<in> set (locator_block_heights tip)"
      by (simp add: locator_block_heights_def Let_def)
    moreover have "unat tip - unat ?m \<le> 2 * ?d" using False x(2) k by linarith
    ultimately show ?thesis using assms(1) by auto
  qed
qed

lemma collect_locator_blocks_total:
  "collect_locator_blocks (\<lambda>h. Inr (w h)) hs =
     Inr (List.map_filter (\<lambda>h. map_option (chain_block h) (w h)) hs)"
  by (induction hs) (auto simp: List.map_filter_simps split: option.splits)

lemma map_filter_chain_blocks:
  "map cb_hash (List.map_filter (\<lambda>h. map_option (chain_block h) (w h)) hs) = List.map_filter w hs"
  by (induction hs) (auto simp: List.map_filter_simps split: option.splits)

lemma collected_decreasing:
  "collect_locator_blocks get (locator_block_heights tip) = Inr bs \<Longrightarrow>
   strictly_decreasing (map cb_height bs)"
  using collect_locator_blocks_heights [of get "locator_block_heights tip" bs]
  by (simp add: sorted_wrt_filter locator_heights_decreasing)

lemma build_block_locator_eq:
  "build_block_locator get tip =
     map_err Raise (rbind (collect_locator_blocks get (locator_block_heights tip))
       (\<lambda>bs. Inr (BlockLocator (map cb_hash bs))))"
  by (cases "collect_locator_blocks get (locator_block_heights tip)")
     (auto simp: build_block_locator_def from_blocks_ok dest: collected_decreasing)

section \<open>Properties\<close>

text \<open>The locator samples the tip first and the depth floor last, in strictly decreasing
  order and never outside the window between them.\<close>

theorem locator_heights_window:
  "strictly_decreasing (locator_block_heights tip) \<and>
   hd (locator_block_heights tip) = tip \<and>
   last (locator_block_heights tip) = saturating_sub tip MAX_LOCATOR_DEPTH \<and>
   set (locator_block_heights tip) \<subseteq> {saturating_sub tip MAX_LOCATOR_DEPTH .. tip}"
  using locator_heights_decreasing locator_heights_hd locator_heights_last locator_heights_range
  by auto

text \<open>C12: The exponential spacing covers the reorganisation window: for a fork at any height of
  the window there is a sampled height at or below it that is at most twice as far from the
  tip.\<close>

theorem locator_covers_window:
  assumes "saturating_sub tip MAX_LOCATOR_DEPTH \<le> h" and "h \<le> tip"
  shows "\<exists>s. s \<in> set (locator_block_heights tip) \<and> s \<le> h \<and>
           unat tip - unat s \<le> 2 * (unat tip - unat h)"
  using locator_heights_dense [OF assms] by blast

theorem locator_covers_window_witness:
  "\<exists>s. s \<in> set (locator_block_heights 5000) \<and> s \<le> 4900 \<and>
       unat (5000 :: u32) - unat s \<le> 2 * (unat (5000 :: u32) - unat (4900 :: u32))"
  by (rule locator_covers_window) (simp_all add: saturating_sub_def MAX_LOCATOR_DEPTH_def)

text \<open>Building the locator never trips the construction invariant of \<open>BlockLocator\<close>, and
  when the wallet's lookups succeed the locator is exactly the wallet's hashes at the sampled
  heights it has, highest first.\<close>

theorem build_block_locator_correct:
  "build_block_locator get tip \<noteq> Inl (Panic msg) \<and>
   build_block_locator (\<lambda>h. Inr (w h)) tip =
     Inr (BlockLocator (List.map_filter w (locator_block_heights tip)))"
  by (auto simp: build_block_locator_eq collect_locator_blocks_total map_filter_chain_blocks
      result_simps)

end
