(* ===== verification/Sync_Engine.thy ===== *)
theory Sync_Engine
  imports Sync_Steps Sync_Status Sync_Locator
begin

text \<open>
  The steady-state and startup tasks of the sync engine (\<open>sync.rs\<close>): the fork-point search,
  one pass over a captured chain view, the loop around it with its error recovery, and the
  initial catch-up scan.

  A task observes the chain only through the snapshots it captures. The loops take the list of
  the snapshots (or errors) the chain hands out, one per capture, and stop with no result when
  the list is used up: that is a task still running. Sleeps and log messages are left out. The
  tasks' state is their own state, the wallet database and the published status.
\<close>

section \<open>State and environment\<close>

record 'db sync_base =
  st_db :: 'db
  st_status :: SyncSignals

record 'db engine = "'db sync_base" +
  prev_tip :: ChainBlock
  lower_boundary :: BlockHeight
  tip_change_signal :: bool

text \<open>\<open>tip_change_signal\<close> is whether the \<open>Notify\<close> holds a permit: \<open>notify_one\<close> stores at most
  one.\<close>

record ('db, 'tx, 'p) engine_db =
  update_chain_tip :: "BlockHeight \<Rightarrow> ('db, SqliteClientError, unit) sr"
  block_fully_scanned :: "'db \<Rightarrow> SqliteClientError + BlockMetadata option"
  block_metadata :: "'db \<Rightarrow> BlockHeight \<Rightarrow> SqliteClientError + BlockMetadata option"
  suggest_scan_ranges :: "'db \<Rightarrow> SqliteClientError + 'p ScanRange list"
  decrypt_and_store_transaction :: "'tx \<Rightarrow> BlockHeight option \<Rightarrow> ('db, SqliteClientError, unit) sr"

record 'p range_ops =
  truncate_start :: "'p ScanRange \<Rightarrow> BlockHeight \<Rightarrow> 'p ScanRange option"
  truncate_end :: "'p ScanRange \<Rightarrow> BlockHeight \<Rightarrow> 'p ScanRange option"
  split_at :: "'p ScanRange \<Rightarrow> BlockHeight \<Rightarrow> ('p ScanRange \<times> 'p ScanRange) option"
  Verify :: 'p
  Historic :: 'p

record ('db, 'blk, 'ts, 'd, 'nf, 'sb, 'tx, 'p) sync_env =
  heights :: height_ops
  scanning :: "('blk, 'ts, 'd, 'nf, 'sb) scanner"
  scan_store :: "('db, 'ts, 'nf, 'sb) scan_db"
  rewind_store :: "'db rewind_db"
  engine_store :: "('db, 'tx, 'p) engine_db"
  ranges :: "'p range_ops"

text \<open>A database operation on the task's state; its error ends the calling function.\<close>

definition on_store ::
    "('db, SyncError, 'a) sr \<Rightarrow> (('db, 'm) sync_base_scheme, SyncError fault, 'a) sr" where
  "on_store m = (\<lambda>s. case m (st_db s) of (r, db') \<Rightarrow> (map_err Raise r, s\<lparr>st_db := db'\<rparr>))"

definition write_status ::
    "(SyncSignals \<Rightarrow> SyncSignals) \<Rightarrow> (('db, 'm) sync_base_scheme, SyncError fault, unit) sr" where
  "write_status f = smodify (\<lambda>s. s\<lparr>st_status := f (st_status s)\<rparr>)"

section \<open>Boundaries and scan range selection\<close>

definition update_boundary :: "height_ops \<Rightarrow> BlockHeight \<Rightarrow> BlockHeight \<Rightarrow> BlockHeight" where
  "update_boundary H current_boundary tip_height = max current_boundary (h_sub H tip_height 100)"

definition initial_candidate ::
    "height_ops \<Rightarrow> 'p::linorder range_ops \<Rightarrow> BlockHeight \<Rightarrow> BlockHeight \<Rightarrow> 'p ScanRange \<Rightarrow>
     'p ScanRange option" where
  "initial_candidate H R current_tip starting_boundary r =
     Option.bind (truncate_end R r (h_add H current_tip 1)) (\<lambda>r.
       if priority r = Verify R then Some r
       else if priority r \<ge> Historic R then truncate_start R r starting_boundary
       else None)"

definition select_initial_scan_range ::
    "height_ops \<Rightarrow> 'p::linorder range_ops \<Rightarrow> 'p ScanRange list \<Rightarrow> BlockHeight \<Rightarrow> BlockHeight \<Rightarrow>
     'p ScanRange option" where
  "select_initial_scan_range H R suggested current_tip starting_boundary =
     find_map (initial_candidate H R current_tip starting_boundary) suggested"

section \<open>The fork point\<close>

definition locate_fork_point ::
    "'db rewind_db \<Rightarrow> ('blk, 'ts, 'tx) ChainView \<Rightarrow> 'db \<Rightarrow> ChainBlock \<Rightarrow> SyncError fault + ChainBlock" where
  "locate_fork_point W chain_view db wallet_tip =
     rbind (map_err (Raise \<circ> Other) (get_wallet_birthday W db)) (\<lambda>birthday_opt.
     let birthday = (case birthday_opt of None \<Rightarrow> 0 | Some b \<Rightarrow> b) in
     rbind (build_block_locator (\<lambda>h. map_err Other (get_block_hash W db h)) (cb_height wallet_tip)) (\<lambda>locator.
     rbind (map_err (Raise \<circ> ChainFailed) (find_fork_point chain_view locator)) (\<lambda>found.
     case found of
       Some fork_point \<Rightarrow> Inr fork_point
     | None \<Rightarrow>
         if hashes locator = [] then Inr wallet_tip
         else map_err Raise (step_back_to_best_chain (get_block_header chain_view)
                (cb_height wallet_tip) birthday (\<lambda>h. map_err Other (get_block_hash W db h))))))"

section \<open>One pass of steady state\<close>

text \<open>The loop that applies the streamed blocks.\<close>

fun apply_blocks ::
    "('db, 'blk, 'ts, 'd, 'nf, 'sb, 'tx, 'p) sync_env \<Rightarrow> ('blk, 'ts, 'tx) ChainView \<Rightarrow>
     BlockHeight option \<Rightarrow> 'blk result_stream \<Rightarrow>
     ('db engine, SyncError fault, (BlockHeight, unit) ControlFlow) sr" where
  "apply_blocks env chain_view shutdown_height [] = sret (Continue ())"
| "apply_blocks env chain_view shutdown_height (Inl e # blocks) = sfail (Raise (ChainFailed e))"
| "apply_blocks env chain_view shutdown_height (Inr block # blocks) =
     (let height = claimed_height (scanning env) block in
      sbind (sget prev_tip) (\<lambda>prev.
      sbind (sassert (height = h_add (heights env) (cb_height prev) 1) ''assert_eq'') (\<lambda>_.
      let current_block = chain_block height (header_hash (scanning env) block) in
      sbind (on_store (scan_block (heights env) (scanning env) (scan_store env) chain_view block
               shutdown_height)) (\<lambda>flow.
      case flow of
        Break boundary \<Rightarrow> sret (Break boundary)
      | Continue _ \<Rightarrow>
          sbind (on_store (db_op (update_chain_tip (engine_store env) height))) (\<lambda>_.
          sbind (smodify (\<lambda>s. s\<lparr>prev_tip := current_block\<rparr>)) (\<lambda>_.
          apply_blocks env chain_view shutdown_height blocks))))))"

text \<open>Rewinding to a fork point below the wallet's tip.\<close>

definition rewind_to ::
    "'db rewind_db \<Rightarrow> BlockHeight \<Rightarrow> ('db engine, SyncError fault, unit) sr" where
  "rewind_to W height =
     sbind (on_store (truncate_to_wallet_checkpoint W height)) (\<lambda>resume_from.
     sbind (write_status (begin_recovery (cb_height resume_from))) (\<lambda>_.
     smodify (\<lambda>s. s\<lparr>prev_tip := resume_from\<rparr>)))"

text \<open>What a pass does when the view's tip is not the wallet's.\<close>

definition apply_tip_change ::
    "('db, 'blk, 'ts, 'd, 'nf, 'sb, 'tx, 'p) sync_env \<Rightarrow> ('blk, 'ts, 'tx) ChainView \<Rightarrow>
     BlockHeight option \<Rightarrow> ChainBlock \<Rightarrow>
     ('db engine, SyncError fault, (BlockHeight, unit) ControlFlow) sr" where
  "apply_tip_change env chain_view shutdown_height current_tip =
     sbind (smodify (\<lambda>s. s\<lparr>lower_boundary :=
              update_boundary (heights env) (lower_boundary s) (cb_height current_tip)\<rparr>)) (\<lambda>_.
     sbind (smodify (\<lambda>s. s\<lparr>tip_change_signal := True\<rparr>)) (\<lambda>_.
     sbind (write_status (set_tip (cb_height current_tip))) (\<lambda>_.
     sbind (\<lambda>s. (locate_fork_point (rewind_store env) chain_view (st_db s) (prev_tip s), s)) (\<lambda>fork_point.
     sbind (sassert (cb_height fork_point \<le> cb_height current_tip) ''fork point above the tip'') (\<lambda>_.
     sbind (sget prev_tip) (\<lambda>prev.
     sbind (if fork_point \<noteq> prev
            then sbind (sassert (cb_height fork_point < cb_height prev)
                          ''fork point not below the previous tip'') (\<lambda>_.
                 rewind_to (rewind_store env) (cb_height fork_point))
            else sret ()) (\<lambda>_.
     sbind (sget prev_tip) (\<lambda>prev.
     apply_blocks env chain_view shutdown_height
       (stream_blocks_to_tip chain_view (h_add (heights env) (cb_height prev) 1))))))))))"

text \<open>Publishing that the tip is reached, and streaming the mempool into the wallet.\<close>

definition publish_tip_reached ::
    "('db, 'tx, 'p) engine_db \<Rightarrow> ('db engine, SyncError fault, unit) sr" where
  "publish_tip_reached E =
     sbind (on_store (db_read (block_fully_scanned E))) (\<lambda>m.
     sbind (write_status (set_fully_synced (map_option md_height m))) (\<lambda>_.
     sbind (write_status mark_tip_reached) (\<lambda>_.
     write_status end_recovery)))"

definition stream_mempool ::
    "('db, 'tx, 'p) engine_db \<Rightarrow> ('blk, 'ts, 'tx) ChainView \<Rightarrow> ('db engine, SyncError fault, unit) sr" where
  "stream_mempool E chain_view =
     sbind (slift (map_err (Raise \<circ> ChainFailed) (get_mempool_stream chain_view))) (\<lambda>stream.
     case stream of
       Some txs \<Rightarrow> sfor (\<lambda>tx. on_store (db_op (decrypt_and_store_transaction E tx None))) txs
     | None \<Rightarrow> sret ())"

definition steady_state_iteration ::
    "('db, 'blk, 'ts, 'd, 'nf, 'sb, 'tx, 'p) sync_env \<Rightarrow> BlockHeight option \<Rightarrow>
     ChainError + ('blk, 'ts, 'tx) ChainView \<Rightarrow>
     ('db engine, SyncError fault, (BlockHeight, unit) ControlFlow) sr" where
  "steady_state_iteration env shutdown_height snapshot =
     sbind (slift (map_err (Raise \<circ> ChainFailed) snapshot)) (\<lambda>chain_view.
     sbind (slift (map_err (Raise \<circ> ChainFailed) (view_tip chain_view))) (\<lambda>current_tip.
     sbind (sget prev_tip) (\<lambda>prev.
     let tip_changed = (current_tip \<noteq> prev) in
     sbind (if tip_changed then apply_tip_change env chain_view shutdown_height current_tip
            else sret (Continue ())) (\<lambda>flow.
     case flow of
       Break boundary \<Rightarrow> sret (Break boundary)
     | Continue _ \<Rightarrow>
        (case shutdown_height of
           Some boundary \<Rightarrow>
             if cb_height current_tip \<ge> boundary then sret (Break boundary)
             else sbind (publish_tip_reached (engine_store env)) (\<lambda>_.
                  sbind (stream_mempool (engine_store env) chain_view) (\<lambda>_. sret (Continue ())))
         | None \<Rightarrow>
             sbind (publish_tip_reached (engine_store env)) (\<lambda>_.
             sbind (stream_mempool (engine_store env) chain_view) (\<lambda>_. sret (Continue ()))))))))"

section \<open>The steady-state loop\<close>

text \<open>A block conflict at \<open>height\<close>: the candidate tip one below it, and the rewind to where it
  rejoins a fresh view of the chain.\<close>

definition conflict_candidate ::
    "height_ops \<Rightarrow> 'db rewind_db \<Rightarrow> 'db \<Rightarrow> BlockHeight \<Rightarrow> SyncError + ChainBlock" where
  "conflict_candidate H W db height =
     (let rewind_height = h_sub H height 1 in
      rbind (map_err Other (get_block_hash W db rewind_height)) (\<lambda>hash.
      rbind (ok_or (WalletDivergedBelowBirthday rewind_height) hash) (\<lambda>hash.
      Inr (chain_block rewind_height hash))))"

definition resolve_conflict ::
    "'db rewind_db \<Rightarrow> ChainError + ('blk, 'ts, 'tx) ChainView \<Rightarrow> ChainBlock \<Rightarrow>
     ('db engine, SyncError fault, unit) sr" where
  "resolve_conflict W snapshot candidate_tip =
     sbind (slift (map_err (Raise \<circ> ChainFailed) snapshot)) (\<lambda>chain_view.
     sbind (\<lambda>s. (locate_fork_point W chain_view (st_db s) candidate_tip, s)) (\<lambda>fork_point.
     rewind_to W (cb_height fork_point)))"

definition roll_back_tree ::
    "'db rewind_db \<Rightarrow> ('db engine \<times> TreeRecovery, SyncError fault, unit) sr" where
  "roll_back_tree W = (\<lambda>(s, r).
     case recover_from_tree_divergence W (prev_tip s) (st_db s, r) of
       (Inl e, (db', r')) \<Rightarrow> (Inl (Raise e), (s\<lparr>st_db := db'\<rparr>, r'))
     | (Inr resume_from, (db', r')) \<Rightarrow>
         (Inr (), (s\<lparr>st_db := db', st_status := begin_recovery (cb_height resume_from) (st_status s),
                     prev_tip := resume_from\<rparr>, r')))"

fun conflict_height :: "SyncError \<Rightarrow> BlockHeight option" where
  "conflict_height (Other (BlockConflict height)) = Some height"
| "conflict_height _ = None"

fun steady_state_loop ::
    "('db, 'blk, 'ts, 'd, 'nf, 'sb, 'tx, 'p) sync_env \<Rightarrow> BlockHeight option \<Rightarrow>
     (ChainError + ('blk, 'ts, 'tx) ChainView) list \<Rightarrow> 'db engine \<times> TreeRecovery \<Rightarrow>
     (SyncError fault + unit) option \<times> ('db engine \<times> TreeRecovery)" where
  "steady_state_loop env shutdown_height [] s = (None, s)"
| "steady_state_loop env shutdown_height (snapshot # snapshots) (s, r) =
     (case steady_state_iteration env shutdown_height snapshot s of
        (Inr (Continue _), s') \<Rightarrow>
          steady_state_loop env shutdown_height snapshots
            (s', snd (note_progress (cb_height (prev_tip s')) r))
      | (Inr (Break height), s') \<Rightarrow> (Some (Inr ()), (s', r))
      | (Inl (Panic msg), s') \<Rightarrow> (Some (Inl (Panic msg)), (s', r))
      | (Inl (Raise error), s') \<Rightarrow>
          if is_retryable error then steady_state_loop env shutdown_height snapshots (s', r)
          else
            (case conflict_height error of
               Some height \<Rightarrow>
                 (case conflict_candidate (heights env) (rewind_store env) (st_db s') height of
                    Inl e \<Rightarrow> (Some (Inl (Raise e)), (s', r))
                  | Inr candidate_tip \<Rightarrow>
                      (case snapshots of
                         [] \<Rightarrow> (None, (s', r))
                       | fresh # snapshots' \<Rightarrow>
                           (case resolve_conflict (rewind_store env) fresh candidate_tip s' of
                              (Inl e, s'') \<Rightarrow> (Some (Inl e), (s'', r))
                            | (Inr _, s'') \<Rightarrow>
                                steady_state_loop env shutdown_height snapshots' (s'', r))))
             | None \<Rightarrow>
                 if is_tree_divergence error
                 then (case roll_back_tree (rewind_store env) (s', r) of
                         (Inl e, t) \<Rightarrow> (Some (Inl e), t)
                       | (Inr _, t) \<Rightarrow> steady_state_loop env shutdown_height snapshots t)
                 else (Some (Inl (Raise error)), (s', r))))"

definition steady_state ::
    "('db, 'blk, 'ts, 'd, 'nf, 'sb, 'tx, 'p) sync_env \<Rightarrow> BlockHeight option \<Rightarrow>
     (ChainError + ('blk, 'ts, 'tx) ChainView) list \<Rightarrow> 'db engine \<Rightarrow>
     (SyncError fault + unit) option \<times> ('db engine \<times> TreeRecovery)" where
  "steady_state env shutdown_height snapshots s =
     steady_state_loop env shutdown_height snapshots (s\<lparr>tip_change_signal := True\<rparr>, default_recovery)"

section \<open>Database invariants\<close>

lemma sr_keepsD: "sr_keeps I m \<Longrightarrow> I s \<Longrightarrow> m s = (x, t) \<Longrightarrow> I t"
  unfolding sr_keeps_iff by (metis snd_conv)

definition boundary_kept ::
    "('db, 'blk, 'ts, 'd, 'nf, 'sb, 'tx, 'p) sync_env \<Rightarrow> BlockHeight \<Rightarrow> ('db \<Rightarrow> bool) \<Rightarrow> bool" where
  "boundary_kept env b I \<longleftrightarrow>
     (\<forall>ts sbs db. I db \<and> (\<forall>sb \<in> set sbs. md_height (to_block_metadata (scanning env) sb) < b) \<longrightarrow>
        I (snd (put_blocks (scan_store env) ts sbs db))) \<and>
     (\<forall>h. sr_keeps I (truncate_to_height (rewind_store env) h)) \<and>
     (\<forall>h. sr_keeps I (update_chain_tip (engine_store env) h)) \<and>
     (\<forall>tx h. sr_keeps I (decrypt_and_store_transaction (engine_store env) tx h))"

lemma keeps_on_store [wp]: "sr_keeps I m \<Longrightarrow> sr_keeps (\<lambda>s. I (st_db s)) (on_store m)"
  by (auto simp: sr_keeps_iff on_store_def case_prod_unfold)

lemma keeps_write_status [wp]: "sr_keeps (\<lambda>s. I (st_db s)) (write_status f)"
  by (simp add: write_status_def sr_keeps_iff smodify_def)

lemma keeps_reading [wp]: "sr_keeps I (\<lambda>s. (f s, s))"
  by (simp add: sr_keeps_iff)

lemma keeps_db_op [wp]: "sr_keeps I m \<Longrightarrow> sr_keeps I (db_op m)"
  by (auto simp: sr_keeps_iff db_op_def case_prod_unfold)

lemma keeps_db_read [wp]: "sr_keeps I (db_read f)"
  by (simp add: sr_keeps_iff db_read_def)

lemma keeps_chain_op [wp]: "sr_keeps I (chain_op r)"
  by (simp add: chain_op_def sr_valid_slift)

lemma keeps_flow [wp]:
  "(\<And>x. flow = Break x \<Longrightarrow> sr_keeps I (f x)) \<Longrightarrow> (\<And>x. flow = Continue x \<Longrightarrow> sr_keeps I (g x)) \<Longrightarrow>
   sr_keeps I (case flow of Break x \<Rightarrow> f x | Continue x \<Rightarrow> g x)"
  by (cases flow) auto

lemma keeps_sfor [wp]: "(\<And>x. sr_keeps I (f x)) \<Longrightarrow> sr_keeps I (sfor f xs)"
  by (rule sr_valid_sfor)

lemma keeps_sbind_slift [wp]:
  "(\<And>x. r = Inr x \<Longrightarrow> sr_keeps I (f x)) \<Longrightarrow> sr_keeps I (sbind (slift r) f)"
  by (cases r) (simp_all add: sr_keeps_iff sbind_def slift_def)

lemma scan_block_keeps:
  assumes "scanner_ok S"
    and "\<And>ts sbs db. I db \<Longrightarrow> \<forall>sb \<in> set sbs. md_height (to_block_metadata S sb) < b \<Longrightarrow>
           I (snd (put_blocks D ts sbs db))"
  shows "sr_keeps I (scan_block H S D V block (Some b))"
proof -
  have "sr_keeps I (put_blocks D ts [sb])"
    if "\<not> b \<le> claimed_height S block"
      "full_scan_block S (claimed_height S block) d nf prior addresses = Inr sb"
    for ts d nf prior addresses sb
    using that assms(1) assms(2) [of _ "[sb]" ts] by (auto simp: sr_keeps_iff scanner_ok_def)
  then show ?thesis
    by (auto simp: scan_block_def Let_def result_simps intro!: wp)
qed

lemma truncate_keeps:
  "(\<And>h. sr_keeps I (truncate_to_height W h)) \<Longrightarrow> sr_keeps I (truncate_to_wallet_checkpoint W target)"
proof -
  assume k: "\<And>h. sr_keeps I (truncate_to_height W h)"
  have "sr_keeps I (\<lambda>db. case truncate_to_height W target db of
               (Inr height, db') \<Rightarrow> (Inr height, db')
             | (Inl (RequestedRewindInvalid (Some safe) requested_height), db') \<Rightarrow>
                 db_op (truncate_to_height W safe) db'
             | (Inl e, db') \<Rightarrow> (Inl (Other e), db'))"
    using k
    by (auto simp: sr_keeps_iff db_op_def split: prod.splits sum.splits SqliteClientError.splits option.splits)
       (metis snd_conv)+
  then show ?thesis unfolding truncate_to_wallet_checkpoint_def by (auto intro!: wp)
qed

lemma boundary_keptD:
  assumes "boundary_kept env b I"
  shows "I db \<Longrightarrow> \<forall>sb \<in> set sbs. md_height (to_block_metadata (scanning env) sb) < b \<Longrightarrow>
           I (snd (put_blocks (scan_store env) ts sbs db))"
    and "sr_keeps I (truncate_to_height (rewind_store env) h)"
    and "sr_keeps I (update_chain_tip (engine_store env) h)"
    and "sr_keeps I (decrypt_and_store_transaction (engine_store env) tx h')"
  using assms by (auto simp: boundary_kept_def)

lemma keeps_engine_field [wp]:
  "sr_keeps (\<lambda>s. I (st_db s)) (smodify (\<lambda>s. s\<lparr>prev_tip := f s\<rparr>))"
  "sr_keeps (\<lambda>s. I (st_db s)) (smodify (\<lambda>s. s\<lparr>lower_boundary := g s\<rparr>))"
  "sr_keeps (\<lambda>s. I (st_db s)) (smodify (\<lambda>s. s\<lparr>tip_change_signal := k s\<rparr>))"
  by (simp_all add: sr_keeps_iff smodify_def)

lemma rewind_to_keeps:
  "(\<And>h. sr_keeps I (truncate_to_height W h)) \<Longrightarrow> sr_keeps (\<lambda>s. I (st_db s)) (rewind_to W height)"
  unfolding rewind_to_def by (intro wp truncate_keeps)

lemma apply_blocks_keeps:
  assumes "scanner_ok (scanning env)" and "boundary_kept env b I"
  shows "sr_keeps (\<lambda>s. I (st_db s)) (apply_blocks env V (Some b) blocks)"
proof (induction blocks)
  case Nil
  then show ?case by (simp add: sr_valid_sret)
next
  case (Cons r blocks)
  note put = boundary_keptD(1) [OF assms(2)]
  note scan = scan_block_keeps [OF assms(1), of I b "scan_store env", OF put]
  show ?case
    using Cons.IH by (cases r) (auto simp: Let_def intro!: wp scan boundary_keptD [OF assms(2)])
qed

lemma iteration_keeps:
  assumes "scanner_ok (scanning env)" and "boundary_kept env b I"
  shows "sr_keeps (\<lambda>s. I (st_db s)) (steady_state_iteration env (Some b) snapshot)"
proof -
  have "sr_keeps (\<lambda>s. I (st_db s)) (apply_tip_change env V (Some b) tip)" for V tip
    unfolding apply_tip_change_def
    by (auto intro!: wp rewind_to_keeps boundary_keptD [OF assms(2)] apply_blocks_keeps [OF assms])
  moreover have "sr_keeps (\<lambda>s. I (st_db s)) (publish_tip_reached (engine_store env))"
    unfolding publish_tip_reached_def by (intro wp)
  moreover have "sr_keeps (\<lambda>s. I (st_db s)) (stream_mempool (engine_store env) V)" for V
    unfolding stream_mempool_def by (intro wp boundary_keptD [OF assms(2)])
  ultimately show ?thesis
    unfolding steady_state_iteration_def Let_def by (auto intro!: wp)
qed

lemma roll_back_tree_keeps:
  assumes "\<And>h. sr_keeps I (truncate_to_height W h)"
  shows "sr_keeps (\<lambda>(s, r). I (st_db s)) (roll_back_tree W)"
proof -
  have on_db: "sr_keeps (\<lambda>(db, r). I db) (on_db m)" if "sr_keeps I m" for m :: "('a, SyncError, 'b) sr"
    using that by (auto simp: sr_keeps_iff on_db_def case_prod_unfold)
  have "sr_keeps (\<lambda>(db, r). I db) (on_recovery f)" for f :: "TreeRecovery \<Rightarrow> 'c \<times> TreeRecovery"
    by (auto simp: sr_keeps_iff on_recovery_def case_prod_unfold)
  then have "sr_keeps (\<lambda>(db, r). I db) (recover_from_tree_divergence W tip)" for tip
    unfolding recover_from_tree_divergence_def Let_def
    by (intro wp on_db truncate_keeps [OF assms]) auto
  then have "I db \<Longrightarrow> recover_from_tree_divergence W tip (db, r) = (x, db', r') \<Longrightarrow> I db'"
    for tip db r x db' r'
    using sr_keepsD [of "\<lambda>(db, r). I db" "recover_from_tree_divergence W tip" "(db, r)" x "(db', r')"]
    by simp
  then show ?thesis
    by (auto simp: sr_keeps_iff roll_back_tree_def split: prod.splits sum.splits)
qed

lemma steady_state_loop_keeps:
  assumes "scanner_ok (scanning env)" and "boundary_kept env b I"
  shows "I (st_db (fst s)) \<Longrightarrow> I (st_db (fst (snd (steady_state_loop env (Some b) snapshots s))))"
proof (induction "length snapshots" arbitrary: snapshots s rule: less_induct)
  case less
  note it = sr_keepsD [OF iteration_keeps [OF assms]]
  have "sr_keeps (\<lambda>s. I (st_db s)) (resolve_conflict (rewind_store env) snap c)" for snap c
    unfolding resolve_conflict_def by (intro wp rewind_to_keeps boundary_keptD [OF assms(2)])
  note rc = sr_keepsD [OF this]
  have rb: "I (st_db e) \<Longrightarrow> roll_back_tree (rewind_store env) (e, r) = (x, e', r') \<Longrightarrow> I (st_db e')"
    for e r x e' r'
    using sr_keepsD [OF roll_back_tree_keeps [OF boundary_keptD(2) [OF assms(2)]], of "(e, r)"] by simp
  show ?case
  proof (cases snapshots)
    case Nil
    with less.prems show ?thesis by simp
  next
    case (Cons snap rest)
    obtain e r where s: "s = (e, r)" by fastforce
    obtain x e' where run: "steady_state_iteration env (Some b) snap e = (x, e')" by fastforce
    have e': "I (st_db e')" using it less.prems s run by fastforce
    have IH: "length xs < length snapshots \<Longrightarrow> I (st_db (fst t)) \<Longrightarrow>
        I (st_db (fst (snd (steady_state_loop env (Some b) xs t))))" for xs t
      using less.hyps by blast
    show ?thesis
      using Cons s run e' IH
      by (auto split: sum.splits ControlFlow.splits fault.splits option.splits list.splits prod.splits
          intro!: IH dest: rc rb)
  qed
qed

section \<open>The tip pointer\<close>

text \<open>What the code relies on for the tip pointer: a stored block is found again under its
  hash, bookkeeping writes do not touch the stored blocks, and the scan of a block keeps its
  height and hash.\<close>

definition store_ok :: "('db, 'blk, 'ts, 'd, 'nf, 'sb, 'tx, 'p) sync_env \<Rightarrow> bool" where
  "store_ok env \<longleftrightarrow>
     (\<forall>ts sb db db'. put_blocks (scan_store env) ts [sb] db = (Inr (), db') \<longrightarrow>
        get_block_hash (rewind_store env) db' (md_height (to_block_metadata (scanning env) sb)) =
          Inr (Some (md_hash (to_block_metadata (scanning env) sb)))) \<and>
     (\<forall>h db. get_block_hash (rewind_store env) (snd (update_chain_tip (engine_store env) h db)) =
        get_block_hash (rewind_store env) db) \<and>
     (\<forall>tx h db. get_block_hash (rewind_store env)
          (snd (decrypt_and_store_transaction (engine_store env) tx h db)) =
        get_block_hash (rewind_store env) db) \<and>
     (\<forall>block d nf prior addresses sb.
        queue_block (scanning env) block = Some (Some d) \<and>
        full_scan_block (scanning env) (claimed_height (scanning env) block) d nf prior addresses = Inr sb \<longrightarrow>
        md_height (to_block_metadata (scanning env) sb) = claimed_height (scanning env) block \<and>
        md_hash (to_block_metadata (scanning env) sb) = header_hash (scanning env) block)"

definition tip_stored :: "'db rewind_db \<Rightarrow> 'db engine \<Rightarrow> bool" where
  "tip_stored W s \<longleftrightarrow>
     get_block_hash W (st_db s) (cb_height (prev_tip s)) = Inr (Some (cb_hash (prev_tip s)))"

definition transient :: "SyncError fault \<Rightarrow> bool" where
  "transient f = (case f of Raise e \<Rightarrow> is_retryable e | Panic _ \<Rightarrow> False)"

abbreviation keeps_tip :: "'db rewind_db \<Rightarrow> ('db engine, SyncError fault, 'a) sr \<Rightarrow> bool" where
  "keeps_tip W m \<equiv> sr_valid (tip_stored W) m (\<lambda>_. tip_stored W) (\<lambda>e s. transient e \<longrightarrow> tip_stored W s)"

lemma transient_simps [simp]:
  "transient (Panic m)  = False" "transient (Raise e) = is_retryable e"
  by (simp_all add: transient_def)

lemma store_okD:
  assumes "store_ok env"
  shows "put_blocks (scan_store env) ts [sb] db = (Inr (), db') \<Longrightarrow>
      get_block_hash (rewind_store env) db' (md_height (to_block_metadata (scanning env) sb)) =
        Inr (Some (md_hash (to_block_metadata (scanning env) sb)))"
    and "get_block_hash (rewind_store env) (snd (update_chain_tip (engine_store env) h db)) =
      get_block_hash (rewind_store env) db"
    and "get_block_hash (rewind_store env)
        (snd (decrypt_and_store_transaction (engine_store env) tx m db)) =
      get_block_hash (rewind_store env) db"
    and "queue_block (scanning env) block = Some (Some d) \<Longrightarrow>
      full_scan_block (scanning env) (claimed_height (scanning env) block) d nf prior addresses = Inr sb \<Longrightarrow>
      md_height (to_block_metadata (scanning env) sb) = claimed_height (scanning env) block \<and>
      md_hash (to_block_metadata (scanning env) sb) = header_hash (scanning env) block"
  using assms unfolding store_ok_def by blast+

lemma scan_block_Continue:
  assumes "scan_block H S D V block sh db = (Inr (Continue u), db')"
  obtains ts d nf prior addresses sb where
    "queue_block S block = Some (Some d)"
    "full_scan_block S (claimed_height S block) d nf prior addresses = Inr sb"
    "put_blocks D ts [sb] db = (Inr (), db')"
  using assms
  by (auto simp: scan_block_def Let_def sbind_def chain_op_def slift_def db_read_def db_op_def
      sret_def ok_or_def map_err_def split: if_splits sum.splits option.splits prod.splits)

lemma scan_block_stores:
  assumes "store_ok env"
    and "scan_block H (scanning env) (scan_store env) V block sh db = (Inr (Continue u), db')"
  shows "get_block_hash (rewind_store env) db' (claimed_height (scanning env) block) =
           Inr (Some (header_hash (scanning env) block))"
  using assms(2) by (rule scan_block_Continue) (metis assms(1) store_okD(1,4))

lemma scan_block_transient:
  assumes "scan_block H S D V block sh db = (r, db')"
    and "case r of Inl e \<Rightarrow> is_retryable e | Inr (Break _) \<Rightarrow> True | Inr (Continue _) \<Rightarrow> False"
  shows "db' = db"
  using assms
  by (auto simp: scan_block_def Let_def sbind_def chain_op_def slift_def db_read_def db_op_def
      sret_def ok_or_def map_err_def
      split: if_splits sum.splits option.splits prod.splits ControlFlow.splits)

lemma truncate_not_retryable:
  "truncate_to_wallet_checkpoint W h db = (Inl e, db') \<Longrightarrow> \<not> is_retryable e"
  by (auto simp: truncate_to_wallet_checkpoint_def sbind_def db_op_def db_read_def slift_def
      resume_point_def result_simps
      split: prod.splits sum.splits SqliteClientError.splits option.splits)

lemma rewind_to_Inr:
  assumes "rewind_to W h s = (Inr x, t)"
  obtains b db' where "truncate_to_wallet_checkpoint W h (st_db s) = (Inr b, db')"
    and "t = s\<lparr>st_db := db', st_status := begin_recovery (cb_height b) (st_status s), prev_tip := b\<rparr>"
  using assms
  by (cases "truncate_to_wallet_checkpoint W h (st_db s)")
     (auto simp: rewind_to_def sbind_def on_store_def write_status_def smodify_def map_err_def
       split: sum.splits)

lemma rewind_to_stored: "rewind_to W h s = (Inr x, t) \<Longrightarrow> tip_stored W t"
  by (auto simp: tip_stored_def elim!: rewind_to_Inr elim: truncate_cases)

lemma rewind_to_tip: "keeps_tip W (rewind_to W h)"
proof (rule sr_validI)
  fix s :: "'a engine" and e t assume "rewind_to W h s = (Inl e, t)"
  then show "transient e \<longrightarrow> tip_stored W t"
    by (cases "truncate_to_wallet_checkpoint W h (st_db s)")
       (auto simp: rewind_to_def sbind_def on_store_def write_status_def smodify_def map_err_def
         split: sum.splits dest: truncate_not_retryable)
next
  fix s :: "'a engine" and x t assume "rewind_to W h s = (Inr x, t)"
  then show "tip_stored W t" by (rule rewind_to_stored)
qed

lemma apply_blocks_tip:
  assumes "store_ok env"
  shows "keeps_tip (rewind_store env) (apply_blocks env V sh blocks)"
proof (induction blocks)
  case Nil
  then show ?case by (simp add: sr_valid_sret)
next
  case (Cons r blocks)
  let ?W = "rewind_store env"
  show ?case
  proof (cases r)
    case (Inl e)
    then show ?thesis by (simp add: sr_valid_sfail)
  next
    case (Inr block)
    let ?b = "chain_block (claimed_height (scanning env) block) (header_hash (scanning env) block)"
    let ?stored = "\<lambda>s. get_block_hash ?W (st_db s) (cb_height ?b) = Inr (Some (cb_hash ?b))"
    let ?E = "\<lambda>e s. transient e \<longrightarrow> tip_stored ?W s"
    have scan: "sr_valid (tip_stored ?W)
        (on_store (scan_block (heights env) (scanning env) (scan_store env) V block sh))
        (\<lambda>flow s. case flow of Break _ \<Rightarrow> tip_stored ?W s | Continue _ \<Rightarrow> ?stored s) ?E"
    proof (rule sr_validI)
      fix s :: "'a engine" and e t
      assume "tip_stored ?W s" and "on_store (scan_block (heights env) (scanning env) (scan_store env) V block sh) s = (Inl e, t)"
      then show "transient e \<longrightarrow> tip_stored ?W t"
        by (cases "scan_block (heights env) (scanning env) (scan_store env) V block sh (st_db s)")
           (auto simp: on_store_def tip_stored_def result_simps dest: scan_block_transient)
    next
      fix s :: "'a engine" and flow t
      assume "tip_stored ?W s" and "on_store (scan_block (heights env) (scanning env) (scan_store env) V block sh) s = (Inr flow, t)"
      then show "case flow of Break _ \<Rightarrow> tip_stored ?W t | Continue _ \<Rightarrow> ?stored t"
        by (cases "scan_block (heights env) (scanning env) (scan_store env) V block sh (st_db s)")
           (auto simp: on_store_def tip_stored_def result_simps
             split: ControlFlow.splits dest: scan_block_transient scan_block_stores [OF assms])
    qed
    have upd: "sr_valid ?stored (on_store (db_op (update_chain_tip (engine_store env) (cb_height ?b))))
        (\<lambda>_. ?stored) ?E"
      using store_okD(2) [OF assms, of "cb_height ?b"]
      by (auto simp: sr_valid_def on_store_def db_op_def map_err_def split: prod.splits sum.splits)
         (metis snd_conv)
    have set: "sr_valid ?stored (smodify (\<lambda>s. s\<lparr>prev_tip := ?b\<rparr>)) (\<lambda>_. tip_stored ?W) ?E"
      by (rule wp) (simp add: tip_stored_def)
    have tail: "sr_valid (case flow of Break _ \<Rightarrow> tip_stored ?W | Continue _ \<Rightarrow> ?stored)
        (case flow of Break b \<Rightarrow> sret (Break b) | Continue _ \<Rightarrow>
          sbind (on_store (db_op (update_chain_tip (engine_store env) (cb_height ?b)))) (\<lambda>_.
          sbind (smodify (\<lambda>s. s\<lparr>prev_tip := ?b\<rparr>)) (\<lambda>_. apply_blocks env V sh blocks)))
        (\<lambda>_. tip_stored ?W) ?E" for flow
      using sr_valid_sbind [OF upd sr_valid_sbind [OF set Cons.IH]]
      by (cases flow) (simp_all add: sr_valid_sret)
    have "(\<lambda>flow s. case flow of Break _ \<Rightarrow> tip_stored ?W s | Continue _ \<Rightarrow> ?stored s) =
        (\<lambda>flow. case flow of Break _ \<Rightarrow> tip_stored ?W | Continue _ \<Rightarrow> ?stored)"
      by (auto simp: fun_eq_iff split: ControlFlow.splits)
    note step = sr_valid_sbind [OF scan [unfolded this] tail]
    show ?thesis
      unfolding Inr apply_blocks.simps Let_def
      by (rule sr_valid_sbind [where R = "\<lambda>_. tip_stored ?W"], rule wp, assumption)
         (rule sr_valid_sbind [where R = "\<lambda>_. tip_stored ?W"],
           simp add: sassert_def sr_valid_def sret_def sfail_def, rule step [unfolded ChainBlock.select_convs])
  qed
qed
lemma keeps_tip_sbind:
  "keeps_tip W m \<Longrightarrow> (\<And>x. keeps_tip W (f x)) \<Longrightarrow> keeps_tip W (sbind m f)"
  by (rule sr_valid_sbind)

lemma keeps_tip_simps [simp]:
  "keeps_tip W (sret x)" "keeps_tip W (sfail e)" "keeps_tip W (slift r)" "keeps_tip W (sget g)"
  "keeps_tip W (\<lambda>s. (h s, s))" "keeps_tip W (write_status f)" "keeps_tip W (sassert c m)"
  "keeps_tip W (on_store (db_read q))"
  "keeps_tip W (smodify (\<lambda>s. s\<lparr>lower_boundary := k s\<rparr>))"
  "keeps_tip W (smodify (\<lambda>s. s\<lparr>tip_change_signal := j s\<rparr>))"
  by (auto simp: sr_valid_def sret_def sfail_def slift_def sget_def write_status_def smodify_def
      tip_stored_def sassert_def on_store_def db_read_def split: sum.splits)

lemma keeps_tip_store:
  "(\<And>db. get_block_hash W (snd (m db)) = get_block_hash W db) \<Longrightarrow> keeps_tip W (on_store (db_op m))"
  by (auto simp: sr_valid_def on_store_def db_op_def tip_stored_def map_err_def split: prod.splits sum.splits)
     (metis snd_conv)+

lemma apply_tip_change_tip:
  assumes "store_ok env"
  shows "keeps_tip (rewind_store env) (apply_tip_change env V sh tip)"
  unfolding apply_tip_change_def
  by (auto intro!: keeps_tip_sbind rewind_to_tip apply_blocks_tip [OF assms])

lemma keeps_tip_sfor: "(\<And>x. keeps_tip W (f x)) \<Longrightarrow> keeps_tip W (sfor f xs)"
  by (rule sr_valid_sfor)

lemma iteration_tip:
  assumes "store_ok env"
  shows "keeps_tip (rewind_store env) (steady_state_iteration env sh snapshot)"
proof -
  have mempool: "keeps_tip (rewind_store env) (stream_mempool (engine_store env) V)" for V
    unfolding stream_mempool_def
    by (auto intro!: keeps_tip_sbind keeps_tip_sfor keeps_tip_store store_okD(3) [OF assms] split: option.splits)
  have publish: "keeps_tip (rewind_store env) (publish_tip_reached (engine_store env))"
    unfolding publish_tip_reached_def by (intro keeps_tip_sbind keeps_tip_simps)
  show ?thesis
    unfolding steady_state_iteration_def Let_def
    by (intro keeps_tip_sbind)
       (auto intro!: keeps_tip_sbind mempool publish apply_tip_change_tip [OF assms]
         split: ControlFlow.splits option.splits)
qed

section \<open>Reachable states\<close>

text \<open>The loop as a transition system: one step per capture of the chain that leaves it
  running.\<close>

inductive steady_step ::
    "('db, 'blk, 'ts, 'd, 'nf, 'sb, 'tx, 'p) sync_env \<Rightarrow> BlockHeight option \<Rightarrow>
     'db engine \<times> TreeRecovery \<Rightarrow> 'db engine \<times> TreeRecovery \<Rightarrow> bool"
  for env shutdown_height where
  advance: "steady_state_iteration env shutdown_height snapshot s = (Inr (Continue u), s') \<Longrightarrow>
    steady_step env shutdown_height (s, r) (s', snd (note_progress (cb_height (prev_tip s')) r))"
| stale: "steady_state_iteration env shutdown_height snapshot s = (Inl (Raise error), s') \<Longrightarrow>
    is_retryable error \<Longrightarrow> steady_step env shutdown_height (s, r) (s', r)"
| conflict: "steady_state_iteration env shutdown_height snapshot s = (Inl (Raise error), s') \<Longrightarrow>
    conflict_height error = Some height \<Longrightarrow>
    conflict_candidate (heights env) (rewind_store env) (st_db s') height = Inr candidate_tip \<Longrightarrow>
    resolve_conflict (rewind_store env) (fresh :: ChainError + ('blk, 'ts, 'tx) ChainView)
      candidate_tip s' = (Inr (), s'') \<Longrightarrow>
    steady_step env shutdown_height (s, r) (s'', r)"
| diverged: "steady_state_iteration env shutdown_height snapshot s = (Inl (Raise error), s') \<Longrightarrow>
    is_tree_divergence error \<Longrightarrow> roll_back_tree (rewind_store env) (s', r) = (Inr (), t) \<Longrightarrow>
    steady_step env shutdown_height (s, r) t"

inductive_cases steady_stepE: "steady_step env shutdown_height (s, r) t"

lemma graceful_shutdown_reachable:
  "steady_state_loop env sh snapshots s = (Some (Inr ()), t) \<Longrightarrow>
   \<exists>u snap h. (steady_step env sh)\<^sup>*\<^sup>* s u \<and> snap \<in> set snapshots \<and> snd t = snd u \<and>
     steady_state_iteration env sh snap (fst u) = (Inr (Break h), fst t)"
proof (induction "length snapshots" arbitrary: snapshots s rule: less_induct)
  case less
  obtain snap rest where snaps: "snapshots = snap # rest" using less.prems by (cases snapshots) auto
  obtain e r where s: "s = (e, r)" by fastforce
  have goal: ?case if "steady_step env sh s u" "steady_state_loop env sh xs u = (Some (Inr ()), t)"
    "set xs \<subseteq> set snapshots" "length xs < length snapshots" for u xs
    using less.hyps [OF that(4,2)] that(1,3)
    by (meson converse_rtranclp_into_rtranclp subsetD)
  obtain x e' where run: "steady_state_iteration env sh snap e = (x, e')" by fastforce
  consider (go) u where "x = Inr (Continue u)" | (stop) h where "x = Inr (Break h)"
    | (fault) m where "x = Inl (Panic m)" | (err) error where "x = Inl (Raise error)"
    by (metis (full_types) ControlFlow.exhaust fault.exhaust sum.exhaust_sel)
  then show ?case
  proof cases
    case go
    with run s have "steady_step env sh s (e', snd (note_progress (cb_height (prev_tip e')) r))"
      by (auto intro: steady_step.advance)
    with go run s snaps less.prems show ?thesis by (intro goal) auto
  next
    case stop
    with run s snaps less.prems have "snd t = snd s"
      and "steady_state_iteration env sh snap (fst s) = (Inr (Break h), fst t)" by auto
    with snaps show ?thesis by (intro exI [of _ s] exI [of _ snap] exI [of _ h]) simp
  next
    case fault
    with run s snaps less.prems show ?thesis by auto
  next
    case err
    consider (stale) "is_retryable error"
      | (conflict) h where "\<not> is_retryable error" "conflict_height error = Some h"
      | (tree) "\<not> is_retryable error" "conflict_height error = None" by fastforce
    then show ?thesis
    proof cases
      case stale
      with err run s have "steady_step env sh s (e', r)" by (auto intro: steady_step.stale)
      with stale err run s snaps less.prems show ?thesis by (intro goal) auto
    next
      case conflict
      from conflict err run s snaps less.prems obtain c fresh rest' e''
        where c: "conflict_candidate (heights env) (rewind_store env) (st_db e') h = Inr c"
          and "rest = fresh # rest'"
          and "resolve_conflict (rewind_store env) fresh c e' = (Inr (), e'')"
        by (auto split: sum.splits list.splits prod.splits)
      moreover from this conflict err run s have "steady_step env sh s (e'', r)"
        by (auto intro: steady_step.conflict)
      ultimately show ?thesis
        using conflict err run s snaps less.prems by (intro goal) auto
    next
      case tree
      from tree err run s snaps less.prems obtain t'
        where d: "is_tree_divergence error" and "roll_back_tree (rewind_store env) (e', r) = (Inr (), t')"
        by (auto split: sum.splits prod.splits if_splits)
      moreover from this err run s have "steady_step env sh s t'"
        by (auto intro: steady_step.diverged)
      ultimately show ?thesis
        using tree err run s snaps less.prems by (intro goal) auto
    qed
  qed
qed

lemma roll_back_tree_tip:
  "roll_back_tree W (s, r) = (Inr (), (s', r')) \<Longrightarrow> tip_stored W s'"
  by (auto simp: roll_back_tree_def tip_stored_def split: prod.splits sum.splits
      elim!: recover_cases truncate_cases)

lemma resolve_conflict_tip:
  assumes "resolve_conflict W fresh c s = (Inr (), s')"
  shows "tip_stored W s'"
proof -
  from assms obtain h where "rewind_to W h s = (Inr (), s')"
    by (auto simp: resolve_conflict_def sbind_def slift_def split: sum.splits)
  then show ?thesis by (rule rewind_to_stored)
qed

lemma step_tip_stored:
  assumes "store_ok env" and "steady_step env sh x y" and "tip_stored (rewind_store env) (fst x)"
  shows "tip_stored (rewind_store env) (fst y)"
  using assms(2,3)
proof cases
  case (advance snapshot s u s' r)
  with assms(3) show ?thesis by (auto dest: sr_validD_Inr [OF iteration_tip [OF assms(1)]])
next
  case (stale snapshot s error s' r)
  with assms(3) show ?thesis by (auto dest: sr_validD_Inl [OF iteration_tip [OF assms(1)]])
next
  case (conflict snapshot s error s' height candidate_tip fresh s'' r)
  then show ?thesis by (auto dest: resolve_conflict_tip)
next
  case (diverged snapshot s error s' r)
  then show ?thesis by (cases y) (auto dest: roll_back_tree_tip)
qed

section \<open>An example engine\<close>

text \<open>The wallet of the scanning example, as an environment of the engine.\<close>

definition example_range_ops :: "nat range_ops" where
  "example_range_ops =
     \<lparr>truncate_start = (\<lambda>r h. if max (range_start r) h < range_end r
        then Some (r\<lparr>range_start := max (range_start r) h\<rparr>) else None),
      truncate_end = (\<lambda>r h. if range_start r < min (range_end r) h
        then Some (r\<lparr>range_end := min (range_end r) h\<rparr>) else None),
      split_at = (\<lambda>r p. if range_start r < p \<and> p < range_end r
        then Some (r\<lparr>range_end := p\<rparr>, r\<lparr>range_start := p\<rparr>) else None),
      Verify = 6, Historic = 2\<rparr>"

definition example_env ::
    "(BlockHeight list, BlockHeight, BlockHeight, BlockHeight, unit, BlockHeight, unit, nat) sync_env" where
  "example_env =
     \<lparr>heights = saturating_heights, scanning = example_scanner, scan_store = example_scan_db,
      rewind_store =
        \<lparr>get_block_hash = (\<lambda>db h. Inr (if h \<in> set db then Some [ucast h] else None)),
         get_wallet_birthday = (\<lambda>_. Inr (Some 5)),
         truncate_to_height = (\<lambda>h db. (Inr h, filter (\<lambda>k. k \<le> h) db))\<rparr>,
      engine_store =
        \<lparr>update_chain_tip = (\<lambda>_ db. (Inr (), db)), block_fully_scanned = (\<lambda>_. Inr None),
         block_metadata = (\<lambda>_ _. Inr None), suggest_scan_ranges = (\<lambda>_. Inr []),
         decrypt_and_store_transaction = (\<lambda>_ _ db. (Inr (), db))\<rparr>,
      ranges = example_range_ops\<rparr>"

definition example_engine :: "BlockHeight list engine" where
  "example_engine =
     \<lparr>st_db = [5, 6, 7], st_status = begin_recovery 7 channel, prev_tip = chain_block 7 [7],
      lower_boundary = 0, tip_change_signal = False\<rparr>"

lemma example_env_simps:
  "heights example_env = saturating_heights" "scanning example_env = example_scanner"
  by (simp_all add: example_env_def)

lemma example_boundary_kept: "boundary_kept example_env 8 (list_all (\<lambda>h. h < 8))"
  by (auto simp: list_all_iff boundary_kept_def example_env_def example_scan_db_def example_scanner_def sr_keeps_iff)

lemma example_store_ok: "store_ok example_env"
  by (auto simp: store_ok_def example_env_def example_scan_db_def example_scanner_def)

lemma example_tip_stored: "tip_stored (rewind_store example_env) example_engine"
  by (simp add: tip_stored_def example_env_def example_engine_def)

lemma locator_block_heights_7: "locator_block_heights 7 = [7, 6, 5, 3, 0]"
  by (simp add: locator_block_heights_def doublings.simps checked_mul_def checked_sub_def
      saturating_sub_def MAX_LOCATOR_DEPTH_def List.map_filter_simps)

definition example_synced :: "BlockHeight list engine" where
  "example_synced =
     \<lparr>st_db = [5, 6, 7, 8],
      st_status = \<lparr>sig_tip = 8, sig_fully_synced = None, sig_tip_reached = True, sig_recovering = None\<rparr>,
      prev_tip = chain_block 8 [8], lower_boundary = 0, tip_change_signal = True\<rparr>"

lemma example_iteration:
  "steady_state_iteration example_env None (Inr example_view) example_engine =
     (Inr (Continue ()), example_synced)"
  by (simp add: example_synced_def steady_state_iteration_def sbind_def slift_def sget_def sret_def smodify_def
      apply_tip_change_def locate_fork_point_def build_block_locator_eq locator_block_heights_7
      example_env_def example_engine_def example_view_def example_scan_db_def example_scanner_def
      example_stream_from_def scan_block_def chain_op_def db_read_def db_op_def on_store_def
      write_status_def status_write_defs channel_def transparent_address_index_def sassert_def
      publish_tip_reached_def stream_mempool_def update_boundary_def saturating_heights_def
      saturating_sub_def saturating_add_def)

section \<open>Properties\<close>

text \<open>C1: Steady-state sync never stores a block at or above the known consensus-divergence
  height. Whatever the chain hands out, for however long the task runs and through every kind
  of recovery, a property of the database that is kept by storing blocks below that height, by
  truncation and by bookkeeping writes is kept by the task.\<close>

theorem steady_state_stays_below_boundary:
  assumes "scanner_ok (scanning env)" and "boundary_kept env b I" and "I (st_db s)"
  shows "I (st_db (fst (snd (steady_state env (Some b) snapshots s))))"
  unfolding steady_state_def by (rule steady_state_loop_keeps [OF assms(1,2)]) (simp add: assms(3))

theorem steady_state_stays_below_boundary_witness:
  "list_all (\<lambda>h. h < 8) (st_db (fst (snd (steady_state example_env (Some 8)
     [Inl (Unavailable ''reorg''), Inr example_view] example_engine))))"
  by (rule steady_state_stays_below_boundary [OF _ example_boundary_kept])
     (simp_all add: example_env_simps example_scanner_ok example_engine_def)



end
