(* ===== verification/Sync_Tasks.thy ===== *)
theory Sync_Tasks
  imports Sync_Engine
begin

text \<open>
  The startup and background tasks of the sync engine (\<open>sync.rs\<close>): the initial catch-up scan
  \<open>initialize\<close>, the backfill \<open>recover_history\<close> with its batching and bounded retries, and the
  ownership of the spawned tasks. As for steady state, the loops take the list of snapshots the
  chain hands out, and \<open>recover_history\<close> also the list of values it loads from the shared
  boundary; they stop without a result when a list is used up.
\<close>

section \<open>Initial catch-up\<close>

text \<open>Running a fallible step and inspecting its result, as \<open>match step.await\<close> does.\<close>

definition sattempt :: "('s, 'e, 'a) sr \<Rightarrow> ('s, 'f, 'e + 'a) sr" where
  "sattempt m = (\<lambda>s. case m s of (r, t) \<Rightarrow> (Inr r, t))"

text \<open>Committing the tip block when the wallet has nothing to scan. Only transient failures are
  swallowed.\<close>

definition best_effort_tip_scan ::
    "('db, 'blk, 'ts, 'd, 'nf, 'sb, 'tx, 'p) sync_env \<Rightarrow> ('blk, 'ts, 'tx) ChainView \<Rightarrow>
     BlockHeight option \<Rightarrow> ChainBlock \<Rightarrow> ('db sync_base, SyncError fault, unit) sr" where
  "best_effort_tip_scan env chain_view shutdown_height current_tip =
     (if cb_height current_tip > 0
      then sbind (on_store (db_read (\<lambda>db. block_metadata (engine_store env) db (cb_height current_tip))))
        (\<lambda>metadata. if metadata \<noteq> None then sret () else
         sbind (sattempt (on_store (
           sbind (chain_op (get_block chain_view (cb_height current_tip))) (\<lambda>block.
           sbind (slift (ok_or (ChainFailed (Backend
             (''chain view did not return its own tip block at height '' @
              show_nat (unat (cb_height current_tip))))) block)) (\<lambda>tip_block.
           scan_block (heights env) (scanning env) (scan_store env) chain_view tip_block
             shutdown_height)))))
         (\<lambda>attempt. case attempt of
            Inr _ \<Rightarrow> sret ()
          | Inl (Raise e) \<Rightarrow> if is_retryable e then sret () else sfail (Raise e)
          | Inl (Panic m) \<Rightarrow> sfail (Panic m)))
      else sret ())"

text \<open>One turn of the loop; \<open>None\<close> is another turn.\<close>

definition initialize_turn ::
    "('db, 'blk, 'ts, 'd, 'nf, 'sb, 'tx, 'p::linorder) sync_env \<Rightarrow> BlockHeight option \<Rightarrow>
     ChainError + ('blk, 'ts, 'tx) ChainView \<Rightarrow>
     ('db sync_base, SyncError fault, (ChainBlock \<times> BlockHeight) option) sr" where
  "initialize_turn env shutdown_height snapshot =
     sbind (slift (map_err (Raise \<circ> ChainFailed) snapshot)) (\<lambda>chain_view.
     sbind (slift (map_err (Raise \<circ> ChainFailed) (view_tip chain_view))) (\<lambda>current_tip.
     sbind (on_store (db_op (update_chain_tip (engine_store env) (cb_height current_tip)))) (\<lambda>_.
     sbind (write_status (set_tip (cb_height current_tip))) (\<lambda>_.
     let starting_boundary = update_boundary (heights env) 0 (cb_height current_tip) in
     sbind (on_store (db_read (suggest_scan_ranges (engine_store env)))) (\<lambda>suggested.
     case select_initial_scan_range (heights env) (ranges env) suggested (cb_height current_tip)
            starting_boundary of
       None \<Rightarrow>
         sbind (best_effort_tip_scan env chain_view shutdown_height current_tip) (\<lambda>_.
         sret (Some (current_tip, starting_boundary)))
     | Some scan_range \<Rightarrow>
         sbind (sattempt (on_store (scan_blocks (heights env) (scanning env) (scan_store env)
                  chain_view scan_range shutdown_height)))
         (\<lambda>outcome. case outcome of
            Inr (Break _) \<Rightarrow> sret (Some (current_tip, starting_boundary))
          | Inr (Continue _) \<Rightarrow> sret None
          | Inl (Raise error) \<Rightarrow> if is_retryable error then sret None else sfail (Raise error)
          | Inl (Panic m) \<Rightarrow> sfail (Panic m)))))))"

fun initialize_loop ::
    "('db, 'blk, 'ts, 'd, 'nf, 'sb, 'tx, 'p::linorder) sync_env \<Rightarrow> BlockHeight option \<Rightarrow>
     (ChainError + ('blk, 'ts, 'tx) ChainView) list \<Rightarrow> 'db sync_base \<Rightarrow>
     (SyncError fault + ChainBlock \<times> BlockHeight) option \<times> 'db sync_base" where
  "initialize_loop env shutdown_height [] s = (None, s)"
| "initialize_loop env shutdown_height (snapshot # snapshots) s =
     (case initialize_turn env shutdown_height snapshot s of
        (Inl e, s') \<Rightarrow> (Some (Inl e), s')
      | (Inr (Some result), s') \<Rightarrow> (Some (Inr result), s')
      | (Inr None, s') \<Rightarrow> initialize_loop env shutdown_height snapshots s')"

definition initialize ::
    "('db, 'blk, 'ts, 'd, 'nf, 'sb, 'tx, 'p::linorder) sync_env \<Rightarrow> ('sroot, 'oroot) chain_roots \<Rightarrow>
     ('db, 'sroot, 'oroot) roots_db \<Rightarrow> BlockHeight option \<Rightarrow>
     (ChainError + ('blk, 'ts, 'tx) ChainView) list \<Rightarrow> 'db sync_base \<Rightarrow>
     (SyncError fault + ChainBlock \<times> BlockHeight) option \<times> 'db sync_base" where
  "initialize env chain roots shutdown_height snapshots s =
     (case on_store (update_subtree_roots chain roots) s of
        (Inl e, s') \<Rightarrow> (Some (Inl e), s')
      | (Inr _, s') \<Rightarrow>
          (case initialize_loop env shutdown_height snapshots s' of
             (Some (Inr result), s'') \<Rightarrow>
               (case on_store (db_read (block_fully_scanned (engine_store env))) s'' of
                  (Inl e, t) \<Rightarrow> (Some (Inl e), t)
                | (Inr m, t) \<Rightarrow>
                    (Some (Inr result),
                     t\<lparr>st_status := set_fully_synced (map_option md_height m) (st_status t)\<rparr>))
           | unfinished \<Rightarrow> unfinished))"

section \<open>History recovery\<close>

definition TREE_DIVERGENCE_RETRIES :: u32 where
  "TREE_DIVERGENCE_RETRIES = 5"

text \<open>Seconds.\<close>

definition TREE_DIVERGENCE_BACKOFF :: "nat list" where
  "TREE_DIVERGENCE_BACKOFF = [1, 2, 5, 15, 30]"

text \<open>The closure of the batching iterator: the item it yields and its next state.\<close>

definition next_batch ::
    "height_ops \<Rightarrow> 'p range_ops \<Rightarrow> u32 \<Rightarrow> 'p ScanRange option \<Rightarrow>
     'p ScanRange option \<times> 'p ScanRange option" where
  "next_batch H R batch_size acc =
     (case acc of
        None \<Rightarrow> (None, acc)
      | Some remaining \<Rightarrow>
          (case split_at R remaining (h_add H (range_start remaining) batch_size) of
             Some (cur, rest) \<Rightarrow> (Some cur, Some rest)
           | None \<Rightarrow> (Some remaining, None)))"

text \<open>Scanning one batch, waiting out tree divergences. Returns the snapshots left; the backoff
  table is indexed, which panics out of range.\<close>

fun scan_batch_with_retries ::
    "('db, 'blk, 'ts, 'd, 'nf, 'sb, 'tx, 'p) sync_env \<Rightarrow> BlockHeight option \<Rightarrow> 'p ScanRange \<Rightarrow> u32 \<Rightarrow>
     (ChainError + ('blk, 'ts, 'tx) ChainView) list \<Rightarrow> 'db sync_base \<Rightarrow>
     (SyncError fault + (BlockHeight, unit) ControlFlow) option \<times>
     (ChainError + ('blk, 'ts, 'tx) ChainView) list \<times> 'db sync_base" where
  "scan_batch_with_retries env shutdown_height scan_range attempt [] s = (None, [], s)"
| "scan_batch_with_retries env shutdown_height scan_range attempt (snapshot # snapshots) s =
     (case snapshot of
        Inl e \<Rightarrow> (Some (Inl (Raise (ChainFailed e))), snapshots, s)
      | Inr chain_view \<Rightarrow>
          (case scan_blocks (heights env) (scanning env) (scan_store env) chain_view scan_range
                  shutdown_height (st_db s) of
             (Inr outcome, db') \<Rightarrow> (Some (Inr outcome), snapshots, s\<lparr>st_db := db'\<rparr>)
           | (Inl error, db') \<Rightarrow>
               if is_tree_divergence error \<and> attempt < TREE_DIVERGENCE_RETRIES
               then if unat attempt < length TREE_DIVERGENCE_BACKOFF
                    then scan_batch_with_retries env shutdown_height scan_range (attempt + 1)
                           snapshots (s\<lparr>st_db := db'\<rparr>)
                    else (Some (Inl (Panic ''index out of bounds'')), snapshots, s\<lparr>st_db := db'\<rparr>)
               else (Some (Inl (Raise error)), snapshots, s\<lparr>st_db := db'\<rparr>)))"

lemma scan_batch_consumes:
  "scan_batch_with_retries env sh r attempt snapshots s = (Some x, rest, s') \<Longrightarrow>
   length rest < length snapshots"
  by (induction snapshots arbitrary: attempt s)
     (force split: sum.splits prod.splits if_splits)+

text \<open>The loop over the batches of one range; it ends with \<open>Inr\<close> when the outer loop is to
  re-fetch its ranges.\<close>

function recover_batches ::
    "('db, 'blk, 'ts, 'd, 'nf, 'sb, 'tx, 'p::linorder) sync_env \<Rightarrow> BlockHeight option \<Rightarrow> u32 \<Rightarrow>
     'p ScanRange option \<Rightarrow> (ChainError + ('blk, 'ts, 'tx) ChainView) list \<Rightarrow> 'db sync_base \<Rightarrow>
     (SyncError fault + unit) option \<times> (ChainError + ('blk, 'ts, 'tx) ChainView) list \<times> 'db sync_base" where
  "recover_batches env shutdown_height batch_size acc snapshots s =
     (case next_batch (heights env) (ranges env) batch_size acc of
        (None, _) \<Rightarrow> (Some (Inr ()), snapshots, s)
      | (Some scan_range, acc') \<Rightarrow>
          (case scan_batch_with_retries env shutdown_height scan_range 0 snapshots s of
             (None, rest, s') \<Rightarrow> (None, rest, s')
           | (Some (Inl e), rest, s') \<Rightarrow> (Some (Inl e), rest, s')
           | (Some (Inr (Break _)), rest, s') \<Rightarrow> (Some (Inr ()), rest, s')
           | (Some (Inr (Continue _)), rest, s') \<Rightarrow>
               (case block_fully_scanned (engine_store env) (st_db s') of
                  Inl e \<Rightarrow> (Some (Inl (Raise (Other e))), rest, s')
                | Inr m \<Rightarrow>
                    (let s'' = s'\<lparr>st_status :=
                           set_fully_synced (map_option md_height m) (st_status s')\<rparr> in
                     case suggest_scan_ranges (engine_store env) (st_db s'') of
                       Inl e \<Rightarrow> (Some (Inl (Raise (Other e))), rest, s'')
                     | Inr latest_ranges \<Rightarrow>
                         if (case latest_ranges of [] \<Rightarrow> False
                             | first # _ \<Rightarrow> priority first > priority scan_range)
                         then (Some (Inr ()), rest, s'')
                         else recover_batches env shutdown_height batch_size acc' rest s''))))"
  by pat_completeness auto
termination
  by (relation "measure (\<lambda>(env, sh, bs, acc, snapshots, s). length snapshots)")
     (auto dest: scan_batch_consumes [OF sym])

declare recover_batches.simps [simp del]

fun recover_history ::
    "('db, 'blk, 'ts, 'd, 'nf, 'sb, 'tx, 'p::linorder) sync_env \<Rightarrow> BlockHeight option \<Rightarrow> u32 \<Rightarrow>
     BlockHeight list \<Rightarrow> (ChainError + ('blk, 'ts, 'tx) ChainView) list \<Rightarrow> 'db sync_base \<Rightarrow>
     SyncError fault option \<times> 'db sync_base" where
  "recover_history env shutdown_height batch_size [] snapshots s = (None, s)"
| "recover_history env shutdown_height batch_size (upper_boundary # loads) snapshots s =
     (case suggest_scan_ranges (engine_store env) (st_db s) of
        Inl e \<Rightarrow> (Some (Raise (Other e)), s)
      | Inr suggested \<Rightarrow>
          (case find_map (\<lambda>r. truncate_end (ranges env) r upper_boundary) suggested of
             None \<Rightarrow> recover_history env shutdown_height batch_size loads snapshots s
           | Some scan_range \<Rightarrow>
               (case recover_batches env shutdown_height batch_size (Some scan_range) snapshots s of
                  (None, rest, s') \<Rightarrow> (None, s')
                | (Some (Inl e), rest, s') \<Rightarrow> (Some e, s')
                | (Some (Inr _), rest, s') \<Rightarrow>
                    recover_history env shutdown_height batch_size loads rest s')))"

section \<open>Scan ranges\<close>

text \<open>The documented behaviour of \<open>ScanRange\<close>: truncation intersects and drops what is empty,
  and a split is strictly inside.\<close>

definition range_ops_ok :: "'p range_ops \<Rightarrow> bool" where
  "range_ops_ok R \<longleftrightarrow>
     (\<forall>r h. truncate_start R r h =
        (if max (range_start r) h < range_end r
         then Some (r\<lparr>range_start := max (range_start r) h\<rparr>) else None)) \<and>
     (\<forall>r h. truncate_end R r h =
        (if range_start r < min (range_end r) h
         then Some (r\<lparr>range_end := min (range_end r) h\<rparr>) else None)) \<and>
     (\<forall>r p. split_at R r p =
        (if range_start r < p \<and> p < range_end r
         then Some (r\<lparr>range_end := p\<rparr>, r\<lparr>range_start := p\<rparr>) else None))"

lemma range_okD:
  assumes "range_ops_ok R"
  shows "truncate_start R r h =
        (if max (range_start r) h < range_end r
         then Some (r\<lparr>range_start := max (range_start r) h\<rparr>) else None)"
    and "truncate_end R r h =
        (if range_start r < min (range_end r) h
         then Some (r\<lparr>range_end := min (range_end r) h\<rparr>) else None)"
    and "split_at R r p =
        (if range_start r < p \<and> p < range_end r
         then Some (r\<lparr>range_end := p\<rparr>, r\<lparr>range_start := p\<rparr>) else None)"
  using assms unfolding range_ops_ok_def by blast+


text \<open>The heights of a suggested range that startup should scan: up to the tip, and from the
  boundary on unless the range is to be verified.\<close>

definition wanted :: "'p::linorder range_ops \<Rightarrow> BlockHeight \<Rightarrow> BlockHeight \<Rightarrow> 'p ScanRange \<Rightarrow> BlockHeight set" where
  "wanted R current_tip starting_boundary r =
     {h. range_start r \<le> h \<and> h < range_end r \<and> h \<le> current_tip \<and>
         (priority r = Verify R \<or> Historic R \<le> priority r \<and> starting_boundary \<le> h)}"

lemma initial_candidate_wanted:
  assumes "height_ops_ok H" and "range_ops_ok R" and "current_tip < - 1"
  shows "(case initial_candidate H R current_tip starting_boundary r of
            None \<Rightarrow> wanted R current_tip starting_boundary r = {}
          | Some r' \<Rightarrow> {range_start r'..<range_end r'} = wanted R current_tip starting_boundary r \<and>
              range_start r' < range_end r' \<and> priority r' = priority r)"
proof -
  have tip: "h < h_add H current_tip 1 \<longleftrightarrow> h \<le> current_tip" for h
    using h_add_one [OF assms(1,3)] by (simp add: word_less_nat_alt word_le_nat_alt less_Suc_eq_le)
  show ?thesis
    by (auto simp: initial_candidate_def range_okD [OF assms(2)] wanted_def tip
        split: option.splits if_splits)
qed

lemma initial_candidate_None:
  "height_ops_ok H \<Longrightarrow> range_ops_ok R \<Longrightarrow> current_tip < - 1 \<Longrightarrow>
   initial_candidate H R current_tip starting_boundary r = None \<Longrightarrow>
   wanted R current_tip starting_boundary r = {}"
  using initial_candidate_wanted [of H R current_tip starting_boundary r] by simp

section \<open>Batches\<close>

text \<open>The first \<open>n\<close> items of the batching iterator.\<close>

fun batches :: "nat \<Rightarrow> height_ops \<Rightarrow> 'p range_ops \<Rightarrow> u32 \<Rightarrow> 'p ScanRange option \<Rightarrow> 'p ScanRange list" where
  "batches 0 H R batch_size acc = []"
| "batches (Suc n) H R batch_size acc =
     (case next_batch H R batch_size acc of
        (None, _) \<Rightarrow> []
      | (Some r, acc') \<Rightarrow> r # batches n H R batch_size acc')"

text \<open>Consecutive ranges from \<open>s\<close> to \<open>e\<close>, none empty.\<close>

fun tiles :: "BlockHeight \<Rightarrow> BlockHeight \<Rightarrow> 'p ScanRange list \<Rightarrow> bool" where
  "tiles s e [] = False"
| "tiles s e [r] = (range_start r = s \<and> range_end r = e \<and> s < e)"
| "tiles s e (r # rs) = (range_start r = s \<and> s < range_end r \<and> tiles (range_end r) e rs)"

lemma batches_tile:
  assumes "height_ops_ok H" and "range_ops_ok R" and "0 < batch_size"
    and "range_start r < range_end r" and "unat (range_end r) + unat batch_size < 2 ^ 32"
    and "unat (range_end r) - unat (range_start r) \<le> n"
  shows "tiles (range_start r) (range_end r) (batches n H R batch_size (Some r)) \<and>
         (\<forall>q \<in> set (batches n H R batch_size (Some r)). priority q = priority r \<and>
            unat (range_end q) - unat (range_start q) \<le> unat batch_size)"
  using assms(4-6)
proof (induction n arbitrary: r)
  case 0
  then show ?case by (simp add: word_less_nat_alt)
next
  case (Suc n)
  let ?p = "h_add H (range_start r) batch_size"
  have p: "unat ?p = unat (range_start r) + unat batch_size"
    using assms(1) Suc.prems(1,2) unfolding height_ops_ok_def by (simp add: word_less_nat_alt)
  have lt: "range_start r < ?p" using p assms(3) by (simp add: word_less_nat_alt)
  show ?case
  proof (cases "?p < range_end r")
    case True
    let ?q = "r\<lparr>range_start := ?p\<rparr>"
    have "tiles (range_start ?q) (range_end ?q) (batches n H R batch_size (Some ?q)) \<and>
        (\<forall>x \<in> set (batches n H R batch_size (Some ?q)). priority x = priority ?q \<and>
            unat (range_end x) - unat (range_start x) \<le> unat batch_size)"
      using True Suc.prems p assms(3) by (intro Suc.IH) (auto simp: word_less_nat_alt)
    moreover have "batches n H R batch_size (Some ?q) \<noteq> []" using calculation by auto
    ultimately show ?thesis
      using True lt p
      by (cases "batches n H R batch_size (Some ?q)")
         (auto simp: next_batch_def range_okD [OF assms(2)])
  next
    case False
    have "unat (range_end r) - unat (range_start r) \<le> unat batch_size"
      using False p by (simp add: word_less_nat_alt)
    moreover have "batches n H R batch_size None = []" by (cases n) (simp_all add: next_batch_def)
    ultimately show ?thesis using False Suc.prems(1)
      by (simp add: next_batch_def range_okD [OF assms(2)])
  qed
qed

section \<open>What the tasks store\<close>

definition put_below ::
    "('db, 'blk, 'ts, 'd, 'nf, 'sb, 'tx, 'p) sync_env \<Rightarrow> BlockHeight \<Rightarrow> ('db \<Rightarrow> bool) \<Rightarrow> bool" where
  "put_below env c I \<longleftrightarrow>
     (\<forall>ts sbs db. I db \<and> (\<forall>sb \<in> set sbs. md_height (to_block_metadata (scanning env) sb) < c) \<longrightarrow>
        I (snd (put_blocks (scan_store env) ts sbs db)))"

lemma scan_blocks_put_below:
  assumes "scanner_ok (scanning env)" and "stream_ok (scanning env) V" and "put_below env c I"
    and "sh = Some c \<or> range_end r \<le> c"
  shows "sr_keeps I (scan_blocks (heights env) (scanning env) (scan_store env) V r sh)"
proof (rule scan_blocks_keeps [OF assms(1,2)])
  fix ts sbs db
  assume "I db" and b: "\<forall>sb \<in> set sbs. md_height (to_block_metadata (scanning env) sb) < range_end r \<and>
    (\<forall>b. sh = Some b \<longrightarrow> md_height (to_block_metadata (scanning env) sb) < b)"
  have "\<forall>sb \<in> set sbs. md_height (to_block_metadata (scanning env) sb) < c"
    using b assms(4) by (auto intro: less_le_trans)
  with \<open>I db\<close> assms(3) show "I (snd (put_blocks (scan_store env) ts sbs db))"
    by (simp add: put_below_def)
qed

lemma scan_batch_with_retries_keeps:
  assumes "scanner_ok (scanning env)" and "put_below env c I" and "sh = Some c \<or> range_end r \<le> c"
    and "scan_batch_with_retries env sh r attempt snapshots s = (res, rest, s')"
    and "\<And>V. Inr V \<in> set snapshots \<Longrightarrow> stream_ok (scanning env) V" and "I (st_db s)"
  shows "I (st_db s') \<and> set rest \<subseteq> set snapshots"
  using assms(4-6)
proof (induction snapshots arbitrary: attempt s)
  case Nil
  then show ?case by simp
next
  case (Cons snapshot snapshots)
  show ?case
  proof (cases snapshot)
    case (Inl e)
    with Cons.prems show ?thesis by auto
  next
    case (Inr V)
    obtain x db' where run: "scan_blocks (heights env) (scanning env) (scan_store env) V r sh (st_db s) = (x, db')"
      by fastforce
    have "stream_ok (scanning env) V" using Cons.prems(2) Inr by simp
    from sr_keepsD [OF scan_blocks_put_below [OF assms(1) this assms(2,3)] Cons.prems(3) run]
    have keep: "I db'" .
    show ?thesis
    proof (cases "\<exists>error. x = Inl error \<and> is_tree_divergence error \<and> attempt < TREE_DIVERGENCE_RETRIES \<and>
        unat attempt < length TREE_DIVERGENCE_BACKOFF")
      case True
      with Cons.prems(1) Inr run have "scan_batch_with_retries env sh r (attempt + 1) snapshots
          (s\<lparr>st_db := db'\<rparr>) = (res, rest, s')" by auto
      from Cons.IH [OF this] keep Cons.prems(2) show ?thesis by auto
    next
      case False
      with Cons.prems(1) Inr run keep show ?thesis by (auto split: sum.splits if_splits)
    qed
  qed
qed

lemma next_batch_end:
  "range_ops_ok R \<Longrightarrow> next_batch H R bs acc = (Some q, acc') \<Longrightarrow>
   \<exists>r. acc = Some r \<and> range_end q \<le> range_end r \<and> (\<forall>r'. acc' = Some r' \<longrightarrow> range_end r' = range_end r)"
  by (auto simp: next_batch_def range_okD split: option.splits if_splits)

lemma recover_batches_keeps:
  assumes "scanner_ok (scanning env)" and "put_below env c I" and "range_ops_ok (ranges env)"
    and "recover_batches env sh bs acc snapshots s = (res, rest, s')"
    and "\<And>V. Inr V \<in> set snapshots \<Longrightarrow> stream_ok (scanning env) V" and "I (st_db s)"
    and "\<And>r. acc = Some r \<Longrightarrow> sh = Some c \<or> range_end r \<le> c"
  shows "I (st_db s') \<and> set rest \<subseteq> set snapshots"
  using assms(4-7)
proof (induction "length snapshots" arbitrary: acc snapshots s rule: less_induct)
  case less
  note unfold = recover_batches.simps [of env sh bs acc snapshots s]
  obtain item acc' where nb: "next_batch (heights env) (ranges env) bs acc = (item, acc')" by fastforce
  show ?case
  proof (cases item)
    case None
    with less.prems nb show ?thesis by (simp add: unfold)
  next
    case (Some q)
    from next_batch_end [OF assms(3) nb [unfolded Some]] less.prems(4)
    have q: "sh = Some c \<or> range_end q \<le> c" and acc': "\<And>r. acc' = Some r \<Longrightarrow> sh = Some c \<or> range_end r \<le> c"
      by fastforce+
    obtain o1 rest1 s1 where sc: "scan_batch_with_retries env sh q 0 snapshots s = (o1, rest1, s1)"
      by (metis prod_cases3)
    from scan_batch_with_retries_keeps [OF assms(1,2) q sc less.prems(2,3)]
    have k: "I (st_db s1)" "set rest1 \<subseteq> set snapshots" by auto
    show ?thesis
    proof (cases "\<exists>m latest. o1 = Some (Inr (Continue ())) \<and>
        block_fully_scanned (engine_store env) (st_db s1) = Inr m \<and>
        suggest_scan_ranges (engine_store env) (st_db s1) = Inr latest \<and>
        \<not> (case latest of [] \<Rightarrow> False | first # _ \<Rightarrow> priority first > priority q)")
      case True
      then obtain m latest where o1: "o1 = Some (Inr (Continue ()))"
        and m: "block_fully_scanned (engine_store env) (st_db s1) = Inr m"
        and latest: "suggest_scan_ranges (engine_store env) (st_db s1) = Inr latest"
          "\<not> (case latest of [] \<Rightarrow> False | first # _ \<Rightarrow> priority first > priority q)" by blast
      let ?s2 = "s1\<lparr>st_status := set_fully_synced (map_option md_height m) (st_status s1)\<rparr>"
      from less.prems(1) nb Some sc o1 m latest
      have "recover_batches env sh bs acc' rest1 ?s2 = (res, rest, s')" by (simp add: unfold)
      moreover have "length rest1 < length snapshots"
        using o1 sc by (auto dest: scan_batch_consumes)
      moreover have "\<And>V. Inr V \<in> set rest1 \<Longrightarrow> stream_ok (scanning env) V" using less.prems(2) k by blast
      ultimately have "I (st_db s') \<and> set rest \<subseteq> set rest1"
        using less.hyps [of rest1 acc' ?s2] k acc' by simp
      with k show ?thesis by auto
    next
      case False
      with less.prems(1) nb Some sc k show ?thesis
        by (auto simp: unfold Let_def split: option.splits sum.splits ControlFlow.splits if_splits)
    qed
  qed
qed

lemma truncate_end_le: "range_ops_ok R \<Longrightarrow> truncate_end R r ub = Some r' \<Longrightarrow> range_end r' \<le> ub"
  by (auto simp: range_okD split: if_splits)

lemma recover_history_keeps:
  assumes "scanner_ok (scanning env)" and "put_below env c I" and "range_ops_ok (ranges env)"
    and "sh = Some c \<or> (\<forall>ub \<in> set loads. ub \<le> c)"
    and "\<And>V. Inr V \<in> set snapshots \<Longrightarrow> stream_ok (scanning env) V" and "I (st_db s)"
  shows "I (st_db (snd (recover_history env sh bs loads snapshots s)))"
  using assms(4-6)
proof (induction loads arbitrary: snapshots s)
  case Nil
  then show ?case by simp
next
  case (Cons ub loads)
  show ?case
  proof (cases "\<exists>suggested r. suggest_scan_ranges (engine_store env) (st_db s) = Inr suggested \<and>
      find_map (\<lambda>r. truncate_end (ranges env) r ub) suggested = Some r")
    case False
    with Cons show ?thesis by (auto split: sum.splits option.splits)
  next
    case True
    then obtain suggested r where sug: "suggest_scan_ranges (engine_store env) (st_db s) = Inr suggested"
      and r: "find_map (\<lambda>r. truncate_end (ranges env) r ub) suggested = Some r" by blast
    obtain res rest s1 where rb: "recover_batches env sh bs (Some r) snapshots s = (res, rest, s1)"
      by (metis prod_cases3)
    have "sh = Some c \<or> range_end r \<le> c"
      using find_map_Some [OF r] truncate_end_le [OF assms(3)] Cons.prems(1) by fastforce
    from recover_batches_keeps [OF assms(1-3) rb Cons.prems(2,3)] this
    have "I (st_db s1)" "set rest \<subseteq> set snapshots" by auto
    with Cons.IH [of rest s1] Cons.prems(1,2) sug r rb show ?thesis
      by (auto split: option.splits sum.splits)
  qed
qed

lemma retries_bounded:
  "scan_batch_with_retries env sh r attempt snapshots s = (res, rest, s') \<Longrightarrow>
   attempt \<le> TREE_DIVERGENCE_RETRIES \<Longrightarrow>
   length snapshots \<le> length rest + (6 - unat attempt) \<and> res \<noteq> Some (Inl (Panic msg))"
proof (induction snapshots arbitrary: attempt s)
  case Nil
  then show ?case by simp
next
  case (Cons snapshot snapshots)
  have att: "unat attempt \<le> 5"
    using Cons.prems(2) by (simp add: TREE_DIVERGENCE_RETRIES_def word_le_nat_alt)
  show ?case
  proof (cases "\<exists>V error db'. snapshot = Inr V \<and> scan_blocks (heights env) (scanning env) (scan_store env) V r sh (st_db s) =
      (Inl error, db') \<and> is_tree_divergence error \<and> attempt < TREE_DIVERGENCE_RETRIES")
    case False
    with Cons.prems(1) att show ?thesis by (auto split: sum.splits prod.splits if_splits)
  next
    case True
    then obtain V error db' where "snapshot = Inr V" and
      "scan_blocks (heights env) (scanning env) (scan_store env) V r sh (st_db s) = (Inl error, db')"
      and "is_tree_divergence error" and lt: "attempt < TREE_DIVERGENCE_RETRIES" by blast
    moreover have "unat attempt < length TREE_DIVERGENCE_BACKOFF"
      using lt by (simp add: TREE_DIVERGENCE_RETRIES_def TREE_DIVERGENCE_BACKOFF_def word_less_nat_alt)
    ultimately have rec: "scan_batch_with_retries env sh r (attempt + 1) snapshots (s\<lparr>st_db := db'\<rparr>) =
        (res, rest, s')" using Cons.prems(1) by simp
    have "unat (attempt + 1) = unat attempt + 1" using lt by (rule unat_plus_one_word)
    moreover from this lt have "attempt + 1 \<le> TREE_DIVERGENCE_RETRIES"
      by (simp add: TREE_DIVERGENCE_RETRIES_def word_le_nat_alt word_less_nat_alt)
    ultimately show ?thesis using Cons.IH [OF rec] att by auto
  qed
qed

lemma sattempt_keeps [wp]: "sr_keeps I m \<Longrightarrow> sr_keeps I (sattempt m)"
  by (auto simp: sr_keeps_iff sattempt_def case_prod_unfold)

lemma keeps_sum [wp]:
  "(\<And>e. x = Inl e \<Longrightarrow> sr_keeps I (f e)) \<Longrightarrow> (\<And>y. x = Inr y \<Longrightarrow> sr_keeps I (g y)) \<Longrightarrow>
   sr_keeps I (case x of Inl e \<Rightarrow> f e | Inr y \<Rightarrow> g y)"
  by (cases x) auto

lemma keeps_fault [wp]:
  "(\<And>e. x = Raise e \<Longrightarrow> sr_keeps I (f e)) \<Longrightarrow> (\<And>m. x = Panic m \<Longrightarrow> sr_keeps I (g m)) \<Longrightarrow>
   sr_keeps I (case x of Raise e \<Rightarrow> f e | Panic m \<Rightarrow> g m)"
  by (cases x) auto

lemma initialize_turn_keeps:
  assumes "scanner_ok (scanning env)" and "put_below env b I"
    and "\<And>h. sr_keeps I (update_chain_tip (engine_store env) h)"
    and "\<And>V. snapshot = Inr V \<Longrightarrow> stream_ok (scanning env) V"
  shows "sr_keeps (\<lambda>s. I (st_db s)) (initialize_turn env (Some b) snapshot)"
proof -
  have put: "\<And>ts sbs db. I db \<Longrightarrow> \<forall>sb \<in> set sbs. md_height (to_block_metadata (scanning env) sb) < b \<Longrightarrow>
      I (snd (put_blocks (scan_store env) ts sbs db))"
    using assms(2) unfolding put_below_def by blast
  have one: "sr_keeps I (scan_block (heights env) (scanning env) (scan_store env) V block (Some b))" for V block
    by (rule scan_block_keeps [of _ I b, OF assms(1) put])
  have tip: "sr_keeps (\<lambda>s. I (st_db s)) (best_effort_tip_scan env V (Some b) tip)" for V tip
    unfolding best_effort_tip_scan_def by (auto intro!: wp one)
  have many: "stream_ok (scanning env) V \<Longrightarrow>
      sr_keeps I (scan_blocks (heights env) (scanning env) (scan_store env) V r (Some b))" for V r
    by (rule scan_blocks_put_below [OF assms(1) _ assms(2)]) simp_all
  show ?thesis
    unfolding initialize_turn_def Let_def
    by (auto intro!: wp tip many assms(3,4) simp: result_simps)
qed

lemma initialize_loop_keeps:
  assumes "scanner_ok (scanning env)" and "put_below env b I"
    and "\<And>h. sr_keeps I (update_chain_tip (engine_store env) h)"
    and "\<And>V. Inr V \<in> set snapshots \<Longrightarrow> stream_ok (scanning env) V" and "I (st_db s)"
  shows "I (st_db (snd (initialize_loop env (Some b) snapshots s)))"
  using assms(4,5)
proof (induction snapshots arbitrary: s)
  case Nil
  then show ?case by simp
next
  case (Cons snapshot snapshots)
  have "sr_keeps (\<lambda>s. I (st_db s)) (initialize_turn env (Some b) snapshot)"
    using Cons.prems(1) by (intro initialize_turn_keeps [OF assms(1-3)]) auto
  with Cons.prems(2) have "I (st_db (snd (initialize_turn env (Some b) snapshot s)))"
    by (simp add: sr_keeps_iff)
  with Cons show ?case by (auto split: prod.splits sum.splits option.splits)
qed

lemma scan_blocks_no_Break:
  assumes "range_start r < range_end r"
  shows "scan_blocks H S D V r None db \<noteq> (Inr (Break x), db')"
proof -
  have "clamp_to_boundary (block_range r) None = Continue None"
    using assms by (simp add: clamp_to_boundary_def Let_def)
  then show ?thesis
    by (auto simp: scan_blocks_def sbind_def sret_def Let_def split: prod.splits sum.splits option.splits)
qed

lemma initialize_turn_done:
  assumes "initialize_turn env None (Inr V) s = (Inr (Some (tip, bd)), s')"
    and "height_ops_ok (heights env)" and "range_ops_ok (ranges env)" and "cb_height tip < - 1"
  shows "view_tip V = Inr tip \<and> bd = update_boundary (heights env) 0 (cb_height tip) \<and>
    (\<exists>db suggested. suggest_scan_ranges (engine_store env) db = Inr suggested \<and>
       (\<forall>r \<in> set suggested. wanted (ranges env) (cb_height tip) bd r = {}))"
proof -
  from assms(1) obtain tip' where tip': "view_tip V = Inr tip'"
    by (cases "view_tip V") (auto simp: initialize_turn_def sbind_def slift_def)
  let ?bd = "update_boundary (heights env) 0 (cb_height tip')"
  from assms(1) tip' obtain s1 suggested
    where sug: "suggest_scan_ranges (engine_store env) (st_db s1) = Inr suggested"
      and rest: "(case select_initial_scan_range (heights env) (ranges env) suggested (cb_height tip') ?bd of
       None \<Rightarrow>
         sbind (best_effort_tip_scan env V None tip') (\<lambda>_. sret (Some (tip', ?bd)))
     | Some scan_range \<Rightarrow>
         sbind (sattempt (on_store (scan_blocks (heights env) (scanning env) (scan_store env)
                  V scan_range None)))
         (\<lambda>outcome. case outcome of
            Inr (Break _) \<Rightarrow> sret (Some (tip', ?bd))
          | Inr (Continue _) \<Rightarrow> sret None
          | Inl (Raise error) \<Rightarrow> if is_retryable error then sret None else sfail (Raise error)
          | Inl (Panic m) \<Rightarrow> sfail (Panic m))) s1 = (Inr (Some (tip, bd)), s')"
    by (auto simp: initialize_turn_def sbind_def slift_def Let_def on_store_def db_read_def map_err_def
        split: prod.splits sum.splits)
  have eq: "tip = tip' \<and> bd = ?bd"
    using rest
    by (auto simp: sbind_def sattempt_def sret_def sfail_def
        split: option.splits prod.splits sum.splits ControlFlow.splits fault.splits if_splits)
  note cand = initial_candidate_wanted [OF assms(2-4)]
  have none: "select_initial_scan_range (heights env) (ranges env) suggested (cb_height tip') ?bd = None"
  proof (rule ccontr)
    assume "\<not> ?thesis"
    then obtain r where r: "select_initial_scan_range (heights env) (ranges env) suggested
        (cb_height tip') ?bd = Some r" by blast
    then obtain r0 where "initial_candidate (heights env) (ranges env) (cb_height tip') ?bd r0 = Some r"
      unfolding select_initial_scan_range_def by (auto dest: find_map_Some)
    with cand [of bd r0] eq have "range_start r < range_end r" by simp
    with rest r show False
      by (auto simp: sbind_def sattempt_def sret_def sfail_def on_store_def scan_blocks_no_Break map_err_def
          split: prod.splits sum.splits ControlFlow.splits if_splits)
  qed
  have "wanted (ranges env) (cb_height tip) bd r = {}" if "r \<in> set suggested" for r
  proof -
    have "initial_candidate (heights env) (ranges env) (cb_height tip) bd r = None"
      using none that eq by (simp add: select_initial_scan_range_def find_map_None_iff)
    with cand [of bd r] show ?thesis by simp
  qed
  with eq tip' sug show ?thesis by blast
qed

lemma initialize_loop_done:
  assumes "initialize_loop env None snapshots s = (Some (Inr (tip, bd)), s')"
  shows "\<exists>V t t'. Inr V \<in> set snapshots \<and> initialize_turn env None (Inr V) t = (Inr (Some (tip, bd)), t')"
  using assms
proof (induction snapshots arbitrary: s)
  case Nil
  then show ?case by simp
next
  case (Cons snapshot snapshots)
  show ?case
  proof (cases snapshot)
    case (Inl e)
    with Cons.prems show ?thesis by (simp add: initialize_turn_def sbind_def slift_def)
  next
    case (Inr V)
    with Cons show ?thesis by (force split: prod.splits sum.splits option.splits)
  qed
qed

section \<open>Properties\<close>

text \<open>Startup picks the first suggested range that has anything to scan below the tip (and,
  unless it is to be verified, above the boundary), scans exactly that part of it, and picks
  nothing only when no suggestion has any such part.\<close>

theorem select_initial_scan_range_exact:
  assumes "height_ops_ok H" and "range_ops_ok R" and "current_tip < - 1"
  shows "case select_initial_scan_range H R suggested current_tip starting_boundary of
           None \<Rightarrow> \<forall>r \<in> set suggested. wanted R current_tip starting_boundary r = {}
         | Some r' \<Rightarrow> \<exists>pre r post. suggested = pre @ r # post \<and>
             (\<forall>q \<in> set pre. wanted R current_tip starting_boundary q = {}) \<and>
             {range_start r'..<range_end r'} = wanted R current_tip starting_boundary r \<and>
             wanted R current_tip starting_boundary r \<noteq> {}"
proof (cases "select_initial_scan_range H R suggested current_tip starting_boundary")
  case None
  then have "wanted R current_tip starting_boundary r = {}" if "r \<in> set suggested" for r
    using that by (intro initial_candidate_None [OF assms])
      (simp add: select_initial_scan_range_def find_map_None_iff)
  with None show ?thesis by simp
next
  case (Some r')
  then obtain pre r post where split: "suggested = pre @ r # post"
    and r: "initial_candidate H R current_tip starting_boundary r = Some r'"
    and pre: "\<forall>q \<in> set pre. initial_candidate H R current_tip starting_boundary q = None"
    unfolding select_initial_scan_range_def by (blast dest: find_map_Some_first)
  have "\<forall>q \<in> set pre. wanted R current_tip starting_boundary q = {}"
    using pre initial_candidate_None [OF assms] by blast
  moreover have eq: "{range_start r'..<range_end r'} = wanted R current_tip starting_boundary r"
    and "range_start r' < range_end r'"
    using initial_candidate_wanted [OF assms, of starting_boundary r] r by simp_all
  moreover from this(2) have "wanted R current_tip starting_boundary r \<noteq> {}"
    unfolding eq [symmetric] by simp
  ultimately have "\<exists>pre r post. suggested = pre @ r # post \<and>
      (\<forall>q \<in> set pre. wanted R current_tip starting_boundary q = {}) \<and>
      {range_start r'..<range_end r'} = wanted R current_tip starting_boundary r \<and>
      wanted R current_tip starting_boundary r \<noteq> {}"
    using split by (intro exI [of _ pre] exI [of _ r] exI [of _ post]) simp
  then show ?thesis by (simp add: Some)
qed

lemma example_range_ops_ok: "range_ops_ok example_range_ops"
  unfolding range_ops_ok_def example_range_ops_def by simp

definition example_suggested :: "nat ScanRange list" where
  "example_suggested =
     [\<lparr>range_start = 500, range_end = 600, priority = 3\<rparr>,
      \<lparr>range_start = 100, range_end = 400, priority = 3\<rparr>]"

lemma example_select:
  "select_initial_scan_range saturating_heights example_range_ops example_suggested 300 200 =
     Some \<lparr>range_start = 200, range_end = 301, priority = 3\<rparr>"
  by (simp add: select_initial_scan_range_def initial_candidate_def example_range_ops_def
      example_suggested_def saturating_heights_def saturating_add_def min_def max_def)

theorem select_initial_scan_range_exact_witness:
  "\<exists>r \<in> set example_suggested. {200..<301} = wanted example_range_ops 300 200 r"
proof -
  have "\<exists>pre r post. example_suggested = pre @ r # post \<and>
      {200..<301} = wanted example_range_ops 300 200 r"
    using select_initial_scan_range_exact [OF saturating_heights_ok example_range_ops_ok, of 300
        example_suggested 200]
    unfolding example_select by fastforce
  then show ?thesis by (metis in_set_conv_decomp)
qed

text \<open>When startup finishes, and no consensus divergence is pending, it reports the tip of a
  view it captured and the boundary one hundred blocks below it, and the wallet at that point
  suggested nothing that startup should still scan.\<close>

theorem initialize_leaves_nothing_wanted:
  assumes "initialize env chain roots None snapshots s = (Some (Inr (tip, bd)), s')"
    and "height_ops_ok (heights env)" and "range_ops_ok (ranges env)" and "cb_height tip < - 1"
  shows "(\<exists>V. Inr V \<in> set snapshots \<and> view_tip V = Inr tip) \<and>
    bd = update_boundary (heights env) 0 (cb_height tip) \<and>
    (\<exists>db suggested. suggest_scan_ranges (engine_store env) db = Inr suggested \<and>
       (\<forall>r \<in> set suggested. wanted (ranges env) (cb_height tip) bd r = {}))"
proof -
  from assms(1) obtain t t' where "initialize_loop env None snapshots t = (Some (Inr (tip, bd)), t')"
    by (auto simp: initialize_def split: prod.splits sum.splits option.splits)
  from initialize_loop_done [OF this] obtain V u u' where "Inr V \<in> set snapshots"
    and "initialize_turn env None (Inr V) u = (Inr (Some (tip, bd)), u')" by blast
  with initialize_turn_done [OF this(2) assms(2-4)] show ?thesis by blast
qed

definition example_base :: "BlockHeight list sync_base" where
  "example_base = \<lparr>st_db = [5, 6, 7], st_status = channel\<rparr>"

definition example_chain_roots :: "(unit, unit) chain_roots" where
  "example_chain_roots =
     \<lparr>get_sapling_subtree_roots = Inr [], get_orchard_subtree_roots = Inr [],
      get_ironwood_subtree_roots = Inr []\<rparr>"

definition example_roots_db :: "(BlockHeight list, unit, unit) roots_db" where
  "example_roots_db =
     \<lparr>put_sapling_subtree_roots = (\<lambda>_ _ db. (Inr (), db)),
      put_orchard_subtree_roots = (\<lambda>_ _ db. (Inr (), db)),
      put_ironwood_subtree_roots = (\<lambda>_ _ db. (Inr (), db))\<rparr>"

lemma example_initialize:
  "initialize example_env example_chain_roots example_roots_db None [Inr example_view] example_base =
     (Some (Inr (chain_block 8 [8], 0)),
      \<lparr>st_db = [5, 6, 7, 8], st_status = channel\<lparr>sig_tip := 8\<rparr>\<rparr>)"
  by (simp add: initialize_def update_subtree_roots_def initialize_turn_def best_effort_tip_scan_def
      select_initial_scan_range_def sattempt_def sbind_def slift_def sret_def chain_op_def tree_op_def
      db_read_def db_op_def on_store_def write_status_def smodify_def status_write_defs channel_def
      scan_block_def transparent_address_index_def update_boundary_def
      example_env_def example_engine_def example_view_def example_scan_db_def example_scanner_def
      example_base_def example_chain_roots_def example_roots_db_def
      saturating_heights_def saturating_sub_def)

theorem initialize_leaves_nothing_wanted_witness:
  "\<exists>V. Inr V \<in> set [Inr example_view :: ChainError + _] \<and> view_tip V = Inr (chain_block 8 [8])"
  using initialize_leaves_nothing_wanted [OF example_initialize] saturating_heights_ok
    example_range_ops_ok
  by (simp add: example_env_def)

text \<open>C13: History recovery stores nothing at or above the boundary that separates it from
  steady-state sync, nor at or above a pending consensus divergence, however it is scheduled.\<close>

theorem recover_history_stays_below:
  assumes "scanner_ok (scanning env)" and "put_below env c I" and "range_ops_ok (ranges env)"
    and "shutdown_height = Some c \<or> (\<forall>upper_boundary \<in> set loads. upper_boundary \<le> c)"
    and "\<And>V. Inr V \<in> set snapshots \<Longrightarrow> stream_ok (scanning env) V" and "I (st_db s)"
  shows "I (st_db (snd (recover_history env shutdown_height batch_size loads snapshots s)))"
  using assms by (rule recover_history_keeps)

theorem recover_history_stays_below_witness:
  "list_all (\<lambda>h. h < 8)
     (st_db (snd (recover_history example_env None 10 [7, 8] [Inr example_view] example_base)))"
proof (rule recover_history_stays_below)
  show "scanner_ok (scanning example_env)" by (simp add: example_env_simps example_scanner_ok)
  show "put_below example_env 8 (list_all (\<lambda>h. h < 8))"
    using example_boundary_kept by (simp add: put_below_def boundary_kept_def)
  show "range_ops_ok (ranges example_env)" by (simp add: example_env_def example_range_ops_ok)
qed (auto simp: example_env_simps example_stream_ok example_base_def)

text \<open>The batches history recovery cuts a range into are consecutive, cover the range exactly,
  keep its priority and hold at most the configured number of blocks each; as many steps of the
  iterator as the range has blocks produce all of them.\<close>

theorem batches_partition_range:
  assumes "height_ops_ok H" and "range_ops_ok R" and "0 < batch_size"
    and "range_start r < range_end r" and "unat (range_end r) + unat batch_size < 2 ^ 32"
  shows "let bs = batches (unat (range_end r) - unat (range_start r)) H R batch_size (Some r) in
         tiles (range_start r) (range_end r) bs \<and>
         (\<forall>q \<in> set bs. priority q = priority r \<and>
            unat (range_end q) - unat (range_start q) \<le> unat batch_size)"
  using batches_tile [OF assms order_refl] by (simp add: Let_def)

theorem batches_partition_range_witness:
  "let bs = batches (unat (105 :: u32) - unat (100 :: u32)) saturating_heights example_range_ops 2
        (Some \<lparr>range_start = 100, range_end = 105, priority = 3\<rparr>) in
   tiles 100 105 bs \<and> list_all (\<lambda>q. unat (range_end q) - unat (range_start q) \<le> 2) bs"
  using batches_partition_range [OF saturating_heights_ok example_range_ops_ok, of 2
      "\<lparr>range_start = 100, range_end = 105, priority = 3\<rparr>"]
  by (simp add: Let_def list_all_iff)

text \<open>C14: Scanning a batch captures at most six views of the chain (one scan and five retries of a
  tree divergence) and never indexes past the backoff table.\<close>

theorem batch_retries_bounded:
  "case scan_batch_with_retries env shutdown_height r 0 snapshots s of (res, rest, s') \<Rightarrow>
     length snapshots \<le> length rest + 6 \<and> res \<noteq> Some (Inl (Panic msg))"
  using retries_bounded [of env shutdown_height r 0 snapshots s]
  by (auto split: prod.splits)

end
