(* ===== verification/Sync_Services.thy ===== *)
theory Sync_Services
  imports Sync_Engine
begin

text \<open>
  The task that services the wallet's transaction data requests, and the start of the sync tasks
  (\<open>sync.rs\<close>): status, enhancement and spend queries with their error policy, the bounds of an
  address query, and the ownership of the spawned tasks until the caller takes them over.

  The further database operations are the fields of \<^emph>\<open>request_db\<close>, over an arbitrary database
  state. The flag \<open>spend_index\<close> is the build feature of that name.
\<close>

section \<open>Requests\<close>

record address_request =
  req_address :: TransparentAddress
  block_range_start :: BlockHeight
  block_range_end :: "BlockHeight option"

datatype TransactionDataRequest =
    GetStatus TxId
  | Enhancement TxId
  | TransactionsInvolvingAddress address_request
  | GetSpendingTx OutPoint

record 'db request_db =
  is_null :: "TxId \<Rightarrow> bool"
  transaction_data_requests :: "'db \<Rightarrow> SqliteClientError + TransactionDataRequest list"
  set_transaction_status :: "TxId \<Rightarrow> TransactionStatus \<Rightarrow> ('db, SqliteClientError, unit) sr"
  notify_output_verified_unspent :: "OutPoint \<Rightarrow> BlockHeight \<Rightarrow> ('db, SqliteClientError, unit) sr"
  notify_address_checked :: "address_request \<Rightarrow> BlockHeight \<Rightarrow> ('db, SqliteClientError, unit) sr"
  get_spendable_transparent_outputs ::
    "'db \<Rightarrow> TransparentAddress \<Rightarrow> BlockHeight \<Rightarrow> SqliteClientError + OutPoint list"

definition address_request_bounds ::
    "height_ops \<Rightarrow> BlockHeight \<Rightarrow> BlockHeight option \<Rightarrow> BlockHeight \<Rightarrow>
     (BlockHeight \<times> BlockHeight) \<times> BlockHeight" where
  "address_request_bounds H from_height to_height tip_height =
     (let tip_exclusive = h_add H tip_height 1;
          end = (case to_height of Some e \<Rightarrow> min e tip_exclusive | None \<Rightarrow> tip_exclusive);
          end = max end from_height;
          as_of_height = saturating_sub end 1
      in ((from_height, end), as_of_height))"

text \<open>Storing the transactions with the given ids that the chain knows.\<close>

definition fetch_and_store ::
    "('db, 'tx, 'p) engine_db \<Rightarrow> ('blk, 'ts, 'tx) ChainView \<Rightarrow> TxId \<Rightarrow> ('db, SyncError, unit) sr" where
  "fetch_and_store E chain_view txid =
     sbind (slift (map_err ChainFailed (get_transaction chain_view txid))) (\<lambda>found.
     case found of
       Some tx \<Rightarrow> db_op (decrypt_and_store_transaction E (inner tx) (mined_height tx))
     | None \<Rightarrow> sret ())"

definition service_address_request ::
    "height_ops \<Rightarrow> ('db, 'tx, 'p) engine_db \<Rightarrow> 'db request_db \<Rightarrow> ('blk, 'ts, 'tx) ChainView \<Rightarrow>
     address_request \<Rightarrow> BlockHeight \<Rightarrow> ('db, SyncError, unit) sr" where
  "service_address_request H E Q chain_view request tip_height =
     (let address = req_address request in
      case address_request_bounds H (block_range_start request) (block_range_end request) tip_height of
        (rng, as_of_height) \<Rightarrow>
          sbind (slift (map_err ChainFailed (get_address_unspent_outpoints chain_view address))) (\<lambda>chain_unspent.
          sbind (db_read (\<lambda>db. get_spendable_transparent_outputs Q db address (h_add H tip_height 1))) (\<lambda>our_outputs.
          let any_spent = list_ex (\<lambda>outpoint. \<not> List.member chain_unspent outpoint) our_outputs in
          sbind (if any_spent
                 then sbind (slift (map_err ChainFailed (get_address_tx_ids chain_view address rng))) (\<lambda>txids.
                      sfor (fetch_and_store E chain_view) txids)
                 else sret ()) (\<lambda>_.
          db_op (notify_address_checked Q request as_of_height)))))"

text \<open>One request. A chain error other than invalid data leaves the request for a later pass.\<close>

definition tolerate ::
    "ChainError + 'a \<Rightarrow> ('a \<Rightarrow> ('db, SyncError, unit) sr) \<Rightarrow> ('db, SyncError, unit) sr" where
  "tolerate r f =
     (case r of
        Inr x \<Rightarrow> f x
      | Inl (InvalidData m) \<Rightarrow> sfail (ChainFailed (InvalidData m))
      | Inl _ \<Rightarrow> sret ())"

definition service_request ::
    "bool \<Rightarrow> height_ops \<Rightarrow> ('db, 'tx, 'p) engine_db \<Rightarrow> 'db request_db \<Rightarrow> ('blk, 'ts, 'tx) ChainView \<Rightarrow>
     BlockHeight \<Rightarrow> TransactionDataRequest \<Rightarrow> ('db, SyncError, unit) sr" where
  "service_request spend_index H E Q chain_view tip_height request =
     (case request of
        GetStatus txid \<Rightarrow>
          if is_null Q txid then sret ()
          else tolerate (get_transaction_status chain_view txid) (\<lambda>status.
                 db_op (set_transaction_status Q txid status))
      | Enhancement txid \<Rightarrow>
          if is_null Q txid then sret ()
          else tolerate (get_transaction chain_view txid) (\<lambda>found.
                 case found of
                   Some tx \<Rightarrow> db_op (decrypt_and_store_transaction E (inner tx) (mined_height tx))
                 | None \<Rightarrow> db_op (set_transaction_status Q txid TxidNotRecognized))
      | TransactionsInvolvingAddress req \<Rightarrow>
          if spend_index then sret ()
          else (\<lambda>db. case service_address_request H E Q chain_view req tip_height db of
                       (_, db') \<Rightarrow> (Inr (), db'))
      | GetSpendingTx outpoint \<Rightarrow>
          (case outpoint_spend_status chain_view outpoint of
             Inr Unspent \<Rightarrow> db_op (notify_output_verified_unspent Q outpoint tip_height)
           | Inr (SpentBy txid) \<Rightarrow> fetch_and_store E chain_view txid
           | Inr SpentSpenderUnknown \<Rightarrow> sret ()
           | Inl _ \<Rightarrow> sret ()))"

text \<open>One wake-up of the task.\<close>

definition data_requests_pass ::
    "bool \<Rightarrow> height_ops \<Rightarrow> ('db, 'tx, 'p) engine_db \<Rightarrow> 'db request_db \<Rightarrow>
     ChainError + ('blk, 'ts, 'tx) ChainView \<Rightarrow> ('db, SyncError, unit) sr" where
  "data_requests_pass spend_index H E Q snapshot =
     sbind (slift (map_err ChainFailed snapshot)) (\<lambda>chain_view.
     sbind (db_read (transaction_data_requests Q)) (\<lambda>requests.
     if requests = [] then sret ()
     else sbind (slift (map_err ChainFailed (view_tip chain_view))) (\<lambda>tip.
          sfor (service_request spend_index H E Q chain_view (cb_height tip)) requests)))"

text \<open>The task, over the snapshots it captures at its wake-ups; without a result it is still
  running.\<close>

fun data_requests ::
    "bool \<Rightarrow> height_ops \<Rightarrow> ('db, 'tx, 'p) engine_db \<Rightarrow> 'db request_db \<Rightarrow>
     (ChainError + ('blk, 'ts, 'tx) ChainView) list \<Rightarrow> 'db \<Rightarrow> SyncError option \<times> 'db" where
  "data_requests spend_index H E Q [] db = (None, db)"
| "data_requests spend_index H E Q (snapshot # snapshots) db =
     (case data_requests_pass spend_index H E Q snapshot db of
        (Inl e, db') \<Rightarrow> (Some e, db')
      | (Inr _, db') \<Rightarrow> data_requests spend_index H E Q snapshots db')"

section \<open>Starting the tasks\<close>

datatype sync_task = BatchDecryptorTask | SteadyStateTask | RecoverHistoryTask | DataRequestsTask

text \<open>\<open>PendingWalletSyncTasks\<close>: the tasks dropping it aborts.\<close>

record PendingWalletSyncTasks =
  abort_handles :: "sync_task list"

definition pending_new :: "sync_task \<Rightarrow> PendingWalletSyncTasks" where
  "pending_new first_task = \<lparr>abort_handles = [first_task]\<rparr>"

definition pending_include :: "sync_task \<Rightarrow> PendingWalletSyncTasks \<Rightarrow> PendingWalletSyncTasks" where
  "pending_include task p = p\<lparr>abort_handles := abort_handles p @ [task]\<rparr>"

definition transfer_to_caller :: "PendingWalletSyncTasks \<Rightarrow> PendingWalletSyncTasks" where
  "transfer_to_caller p = p\<lparr>abort_handles := []\<rparr>"

definition drop_pending :: "PendingWalletSyncTasks \<Rightarrow> sync_task list" where
  "drop_pending p = abort_handles p"

record spawn_outcome =
  spawned :: "sync_task list"
  aborted :: "sync_task list"
  returned :: "sync_task list"

text \<open>Each await of \<open>spawn\<close> succeeds, fails, or (\<open>None\<close>) is where its future is dropped. Leaving
  the function drops the pending tasks, once there are any.\<close>

type_synonym 'e awaited = "('e + unit) option"

fun await_ok :: "'e awaited \<Rightarrow> bool" where
  "await_ok (Some (Inr _)) = True"
| "await_ok _ = False"

definition spawn ::
    "'e awaited \<Rightarrow> 'e awaited \<Rightarrow> 'e awaited \<Rightarrow> 'e awaited \<Rightarrow> 'e awaited \<Rightarrow> spawn_outcome" where
  "spawn handle1 handle2 initialized handle3 handle4 =
     (let leave = (\<lambda>p ts. \<lparr>spawned = ts, aborted = drop_pending p, returned = []\<rparr>) in
      if \<not> await_ok handle1 then \<lparr>spawned = [], aborted = [], returned = []\<rparr>
      else
        let pending = pending_new BatchDecryptorTask; ts = [BatchDecryptorTask] in
        if \<not> await_ok handle2 then leave pending ts
        else if \<not> await_ok initialized then leave pending ts
        else
          let ts = ts @ [SteadyStateTask]; pending = pending_include SteadyStateTask pending in
          if \<not> await_ok handle3 then leave pending ts
          else
            let ts = ts @ [RecoverHistoryTask]; pending = pending_include RecoverHistoryTask pending in
            if \<not> await_ok handle4 then leave pending ts
            else
              let ts = ts @ [DataRequestsTask]; pending = pending_include DataRequestsTask pending;
                  pending = transfer_to_caller pending
              in \<lparr>spawned = ts, aborted = drop_pending pending,
                  returned = [SteadyStateTask, RecoverHistoryTask, BatchDecryptorTask, DataRequestsTask]\<rparr>)"

section \<open>Facts\<close>

lemma fetch_and_store_error:
  "fetch_and_store E V txid db = (Inl e, db') \<Longrightarrow>
   (\<exists>x. e = Other x) \<or> (\<exists>x. get_transaction V txid = Inl x \<and> e = ChainFailed x)"
  by (auto simp: fetch_and_store_def sbind_def slift_def db_op_def sret_def map_err_def
      split: sum.splits option.splits prod.splits)

lemma db_op_error: "db_op m db = (Inl e, db') \<Longrightarrow> \<exists>x. e = Other x"
  by (auto simp: db_op_def map_err_def split: prod.splits sum.splits)

lemma tolerate_error:
  assumes "tolerate r f db = (Inl e, db')" and "\<And>x. f x db = (Inl e, db') \<Longrightarrow> \<exists>y. e = Other y"
  shows "(\<exists>x. e = Other x) \<or> (\<exists>m. e = ChainFailed (InvalidData m))"
  using assms by (auto simp: tolerate_def sfail_def sret_def split: sum.splits ChainError.splits)

section \<open>Properties\<close>

text \<open>The blocks an address query covers are exactly those of the request up to the view's
  tip, and when there is one the height reported as checked is the last of them.\<close>

theorem address_request_bounds_exact:
  assumes "height_ops_ok H" and "tip_height < - 1"
    and "address_request_bounds H from_height to_height tip_height = ((s, e), as_of_height)"
  shows "{s..<e} = {h. from_height \<le> h \<and> h \<le> tip_height \<and> (\<forall>x. to_height = Some x \<longrightarrow> h < x)} \<and>
         (s < e \<longrightarrow> as_of_height \<in> {s..<e} \<and> (\<forall>h \<in> {s..<e}. h \<le> as_of_height))"
proof -
  have tip: "h < h_add H tip_height 1 \<longleftrightarrow> h \<le> tip_height" for h
    using h_add_one [OF assms(1,2)] by (simp add: word_less_nat_alt word_le_nat_alt less_Suc_eq_le)
  have e: "e = max (case to_height of Some x \<Rightarrow> min x (h_add H tip_height 1) | None \<Rightarrow> h_add H tip_height 1) from_height"
    and s: "s = from_height" and a: "as_of_height = saturating_sub e 1"
    using assms(3) by (auto simp: address_request_bounds_def Let_def)
  have last: "as_of_height \<in> {s..<e} \<and> (\<forall>h \<in> {s..<e}. h \<le> as_of_height)" if "s < e"
    using that by (auto simp: a word_less_nat_alt word_le_nat_alt unat_saturating_sub)
  have "s \<le> h \<and> h < e \<longleftrightarrow> from_height \<le> h \<and> h \<le> tip_height \<and> (\<forall>x. to_height = Some x \<longrightarrow> h < x)" for h
    by (cases to_height) (auto simp: e s tip less_max_iff_disj)
  then have "{s..<e} = {h. from_height \<le> h \<and> h \<le> tip_height \<and> (\<forall>x. to_height = Some x \<longrightarrow> h < x)}"
    by (simp add: atLeastLessThan_def atLeast_def lessThan_def Collect_conj_eq [symmetric])
  with last show ?thesis by blast
qed

lemma example_bounds:
  "address_request_bounds saturating_heights 10 (Some 15) 20 = ((10, 15), 14)"
  by (simp add: address_request_bounds_def saturating_heights_def saturating_add_def
      saturating_sub_def max_def min_def)

theorem address_request_bounds_exact_witness:
  "(14 :: BlockHeight) \<in> {10..<15}"
proof -
  have "(10 :: BlockHeight) < 15" and "(20 :: BlockHeight) < - 1" by simp_all
  with address_request_bounds_exact [OF saturating_heights_ok _ example_bounds] show ?thesis by blast
qed

text \<open>A request that starts beyond the view's tip covers nothing, yet a height above that tip
  is reported as checked.\<close>

theorem address_request_checked_beyond_tip:
  assumes "height_ops_ok H" and "tip_height < - 1" and "h_add H tip_height 1 < from_height"
  shows "\<exists>as_of_height. address_request_bounds H from_height None tip_height =
           ((from_height, from_height), as_of_height) \<and> tip_height < as_of_height"
  using assms(3) h_add_one [OF assms(1,2)]
  by (simp add: address_request_bounds_def max_def word_less_nat_alt word_le_nat_alt unat_saturating_sub)

theorem address_request_checked_beyond_tip_witness:
  "\<exists>as_of_height. address_request_bounds saturating_heights 50 None 20 = ((50, 50), as_of_height) \<and>
     (20 :: BlockHeight) < as_of_height"
  by (rule address_request_checked_beyond_tip [OF saturating_heights_ok])
     (simp_all add: saturating_heights_def saturating_add_def)

text \<open>Servicing a request ends the task only on a database error, on invalid data from the
  chain, or when the transaction that spends a tracked output cannot be fetched; every other
  chain error leaves the request for a later pass.\<close>

theorem service_request_fatal_errors:
  assumes "service_request spend_index H E Q V tip request db = (Inl e, db')"
  shows "(\<exists>x. e = Other x) \<or> (\<exists>m. e = ChainFailed (InvalidData m)) \<or>
    (\<exists>outpoint txid x. request = GetSpendingTx outpoint \<and>
       outpoint_spend_status V outpoint = Inr (SpentBy txid) \<and>
       get_transaction V txid = Inl x \<and> e = ChainFailed x)"
proof (cases request)
  case (GetStatus txid)
  let ?f = "\<lambda>status. db_op (set_transaction_status Q txid status)"
  from assms GetStatus tolerate_error [of "get_transaction_status V txid" ?f db e db', OF _ db_op_error]
  show ?thesis
    by (auto simp: service_request_def sret_def split: if_splits)
next
  case (Enhancement txid)
  let ?f = "\<lambda>found. case found of
      Some tx \<Rightarrow> db_op (decrypt_and_store_transaction E (inner tx) (mined_height tx))
    | None \<Rightarrow> db_op (set_transaction_status Q txid TxidNotRecognized)"
  have "?f x db = (Inl e, db') \<Longrightarrow> \<exists>y. e = Other y" for x
    by (auto split: option.splits dest: db_op_error)
  with assms Enhancement tolerate_error [of "get_transaction V txid" ?f db e db'] show ?thesis
    by (auto simp: service_request_def sret_def split: if_splits)
next
  case (TransactionsInvolvingAddress req)
  with assms show ?thesis
    by (auto simp: service_request_def sret_def split: if_splits prod.splits)
next
  case (GetSpendingTx outpoint)
  with assms show ?thesis
    by (auto simp: service_request_def sret_def split: sum.splits SpendStatus.splits
        dest: db_op_error fetch_and_store_error)
qed

text \<open>A view on which an output's spender is known and its transaction momentarily is not
  served.\<close>

definition example_request_db :: "unit request_db" where
  "example_request_db =
     \<lparr>is_null = (\<lambda>txid. txid = []),
      transaction_data_requests = (\<lambda>_. Inr [GetSpendingTx ([1], 0)]),
      set_transaction_status = (\<lambda>_ _ db. (Inr (), db)),
      notify_output_verified_unspent = (\<lambda>_ _ db. (Inr (), db)),
      notify_address_checked = (\<lambda>_ _ db. (Inr (), db)),
      get_spendable_transparent_outputs = (\<lambda>_ _ _. Inr [])\<rparr>"

definition example_spent_view :: "(BlockHeight, BlockHeight, unit) ChainView" where
  "example_spent_view = example_view
     \<lparr>outpoint_spend_status := \<lambda>_. Inr (SpentBy [2]),
      get_transaction := \<lambda>_. Inl (Unavailable ''stale view'')\<rparr>"

definition example_request_store :: "(unit, unit, nat) engine_db" where
  "example_request_store =
     \<lparr>update_chain_tip = (\<lambda>_ db. (Inr (), db)), block_fully_scanned = (\<lambda>_. Inr None),
      block_metadata = (\<lambda>_ _. Inr None), suggest_scan_ranges = (\<lambda>_. Inr []),
      decrypt_and_store_transaction = (\<lambda>_ _ db. (Inr (), db))\<rparr>"

lemma example_spent_request:
  "service_request True saturating_heights example_request_store example_request_db
     example_spent_view 8 (GetSpendingTx ([1], 0)) () =
     (Inl (ChainFailed (Unavailable ''stale view'')), ())"
  by (simp add: service_request_def example_spent_view_def fetch_and_store_def sbind_def slift_def)

theorem service_request_fatal_errors_witness:
  "\<exists>txid x. outpoint_spend_status example_spent_view ([1], 0) = Inr (SpentBy txid) \<and>
     get_transaction example_spent_view txid = Inl x"
  using service_request_fatal_errors [OF example_spent_request] by auto

text \<open>That exception covers errors the engine otherwise retries: a momentary unavailability
  while fetching a spending transaction ends the data request task.\<close>

theorem transient_spend_lookup_ends_task:
  assumes "view_tip V = Inr tip" and "transaction_data_requests Q db = Inr (GetSpendingTx outpoint # requests)"
    and "outpoint_spend_status V outpoint = Inr (SpentBy txid)"
    and "get_transaction V txid = Inl (Unavailable m)"
  shows "is_retryable (ChainFailed (Unavailable m)) \<and>
         data_requests True H E Q (Inr V # snapshots) db = (Some (ChainFailed (Unavailable m)), db)"
  using assms
  by (simp add: data_requests_pass_def service_request_def fetch_and_store_def sbind_def slift_def
      db_read_def)

theorem transient_spend_lookup_ends_task_witness:
  "data_requests True saturating_heights example_request_store example_request_db
     (Inr example_spent_view # []) () = (Some (ChainFailed (Unavailable ''stale view'')), ())"
  using transient_spend_lookup_ends_task [of example_spent_view "chain_block 8 [8]" example_request_db "()"
      "([1], 0)" "[]" "[2]" "''stale view''" saturating_heights example_request_store "[]"]
  by (simp add: example_spent_view_def example_view_def example_request_db_def)

text \<open>C15: No sync task outlives a failed or cancelled start: whichever await fails or is
  dropped, every task spawned so far is aborted and none is returned; on success none is aborted
  and all four are handed to the caller.\<close>

theorem spawn_orphans_no_task:
  "let r = spawn h1 h2 i h3 h4 in
   if await_ok h1 \<and> await_ok h2 \<and> await_ok i \<and> await_ok h3 \<and> await_ok h4
   then aborted r = [] \<and> set (returned r) = set (spawned r) \<and> length (returned r) = 4
   else returned r = [] \<and> aborted r = spawned r"
  by (auto simp: spawn_def Let_def pending_new_def pending_include_def transfer_to_caller_def
      drop_pending_def)

end
