(* ===== verification/Zebra_Reader.thy ===== *)
theory Zebra_Reader
  imports Chain_Compat Numerals
begin

text \<open>
  The reads of the zebra backend: the conversions between zebra's types and the wallet's
  (\<open>backends/zebra/src/chain/convert.rs\<close>), the \<open>ChainReader\<close> seam and its implementation on zebra's
  read state service (\<open>chain/reader.rs\<close>), and the JSON-RPC client of the validator
  (\<open>chain/rpc.rs\<close>). The service itself, the serialisers, the node decoders, base64 and the HTTP
  client belong to other crates and are arguments.
\<close>

section \<open>Zebra's types\<close>

text \<open>Zebra's hashes, heights and outpoints are types of their own; \<open>ZOutPoint\<close> stands for
  \<open>OutPoint::from_usize\<close>.\<close>

datatype ZBlockHash = ZBlockHash (zbh_bytes: "u8 list")
datatype ZTxHash = ZTxHash (zth_bytes: "u8 list")
datatype ZHeight = ZHeight (zh_height: u32)
datatype ZOutPoint = ZOutPoint ZTxHash nat

text \<open>The read requests of the state service that this backend sends, and the responses it
  expects. Blocks, transactions and note commitment trees stay abstract; a block header is known
  by its parent, a subtree by the height it ends at and the bytes of its root.\<close>

datatype HashOrHeight = ByHash ZBlockHash | ByHeight ZHeight

datatype ReadRequest =
    ReqTip
  | ReqBestChainBlockHash ZHeight
  | ReqAnyChainBlock HashOrHeight
  | ReqBlockHeader HashOrHeight
  | ReqSaplingTree HashOrHeight
  | ReqOrchardTree HashOrHeight
  | ReqIronwoodTree HashOrHeight
  | ReqFindForkPoint "ZBlockHash list"
  | ReqTransaction ZTxHash
  | ReqAnyChainTransaction ZTxHash
  | ReqSaplingSubtrees nat "nat option"
  | ReqOrchardSubtrees nat "nat option"
  | ReqIronwoodSubtrees nat "nat option"
  | ReqUnspentBestChainUtxo ZOutPoint
  | ReqSpendingTransactionId ZOutPoint

record 'ztx MinedTx =
  mtx_tx :: 'ztx
  mtx_height :: ZHeight
  mtx_time :: int

datatype 'ztx AnyTx = AnyMined "'ztx MinedTx" | AnySide 'ztx ZBlockHash

type_synonym zsubtrees = "(nat \<times> ZHeight \<times> u8 list) list"

datatype ('zb, 'ztx, 'ztree, 'utxo) ReadResponse =
    RespTip "(ZHeight \<times> ZBlockHash) option"
  | RespBlockHash "ZBlockHash option"
  | RespBlock "'zb option"
  | RespBlockHeader ZBlockHash ZHeight
  | RespSaplingTree "'ztree option"
  | RespOrchardTree "'ztree option"
  | RespIronwoodTree "'ztree option"
  | RespForkPoint "(ZHeight \<times> ZBlockHash) option"
  | RespTransaction "'ztx MinedTx option"
  | RespAnyChainTransaction "'ztx AnyTx option"
  | RespSaplingSubtrees zsubtrees
  | RespOrchardSubtrees zsubtrees
  | RespIronwoodSubtrees zsubtrees
  | RespUnspentBestChainUtxo "'utxo option"
  | RespTransactionId "ZTxHash option"

section \<open>Conversions\<close>

definition block_hash :: "ZBlockHash \<Rightarrow> BlockHash" where
  "block_hash h = zbh_bytes h"

definition to_zebra_hash :: "BlockHash \<Rightarrow> ZBlockHash" where
  "to_zebra_hash h = ZBlockHash h"

definition to_zebra_txid :: "TxId \<Rightarrow> ZTxHash" where
  "to_zebra_txid txid = ZTxHash txid"

definition from_zebra_tx_hash :: "ZTxHash \<Rightarrow> TxId" where
  "from_zebra_tx_hash h = zth_bytes h"

definition to_zebra_outpoint :: "OutPoint \<Rightarrow> ZOutPoint" where
  "to_zebra_outpoint outpoint = ZOutPoint (ZTxHash (fst outpoint)) (unat (snd outpoint))"

definition convert_height :: "ZHeight \<Rightarrow> BlockHeight" where
  "convert_height h = zh_height h"

definition to_zebra_height :: "BlockHeight \<Rightarrow> ZHeight" where
  "to_zebra_height h = ZHeight h"

text \<open>The serialisers of zebra's types, and the wallet's decoders with the consensus branch of a
  height, the frontiers of note commitment trees, the display form of a transaction id and
  hexadecimal text.\<close>

record ('zb, 'ztx, 'ztree) zebra_codecs =
  zblock_bytes :: "'zb \<Rightarrow> string + u8 list"
  ztx_bytes :: "'ztx \<Rightarrow> string + u8 list"
  to_rpc_bytes :: "'ztree \<Rightarrow> u8 list"

record ('blk, 'tx, 'branch, 'sf, 'orf) wallet_codecs =
  block_read :: "u8 list \<Rightarrow> string + 'blk"
  header_read :: "u8 list \<Rightarrow> string + BlockHash"
  transaction_read :: "u8 list \<Rightarrow> 'branch \<Rightarrow> string + 'tx"
  transaction_write :: "'tx \<Rightarrow> string + u8 list"
  branch_for_height :: "BlockHeight \<Rightarrow> 'branch"
  read_sapling_tree :: "u8 list \<Rightarrow> string + 'sf"
  read_orchard_tree :: "u8 list \<Rightarrow> string + 'orf"
  empty_sapling_tree :: 'sf
  empty_orchard_tree :: 'orf
  txid_display :: "TxId \<Rightarrow> string"
  hex_decode :: "string \<Rightarrow> string + u8 list"
  hex_encode :: "u8 list \<Rightarrow> string"

definition convert_block ::
    "('blk, 'tx, 'branch, 'sf, 'orf) wallet_codecs \<Rightarrow> u8 list \<Rightarrow> ChainError fault + 'blk" where
  "convert_block C bytes = map_err (Raise \<circ> InvalidData) (block_read C bytes)"

definition block_to_bytes ::
    "('zb, 'ztx, 'ztree) zebra_codecs \<Rightarrow> 'zb \<Rightarrow> ChainError fault + u8 list" where
  "block_to_bytes C block = map_err (Raise \<circ> Backend) (zblock_bytes C block)"

definition tx_to_bytes ::
    "('zb, 'ztx, 'ztree) zebra_codecs \<Rightarrow> 'ztx \<Rightarrow> ChainError fault + u8 list" where
  "tx_to_bytes C tx = map_err (Raise \<circ> Backend) (ztx_bytes C tx)"

definition convert_transaction ::
    "('blk, 'tx, 'branch, 'sf, 'orf) wallet_codecs \<Rightarrow> u8 list \<Rightarrow> BlockHeight \<Rightarrow>
     ChainError fault + 'tx" where
  "convert_transaction C bytes parse_height =
     (let branch_id = branch_for_height C parse_height
      in map_err (Raise \<circ> InvalidData) (transaction_read C bytes branch_id))"

text \<open>The conversions are exact in both directions, so no two hashes, heights or outpoints of
  either side are confused.\<close>

lemma hash_conversions [simp]:
  "block_hash (to_zebra_hash h) = h" "to_zebra_hash (block_hash z) = z"
  "from_zebra_tx_hash (to_zebra_txid t) = t" "to_zebra_txid (from_zebra_tx_hash y) = y"
  "convert_height (to_zebra_height n) = n" "to_zebra_height (convert_height m) = m"
  by (simp_all add: block_hash_def to_zebra_hash_def from_zebra_tx_hash_def to_zebra_txid_def
      convert_height_def to_zebra_height_def)

lemma to_zebra_outpoint_inj: "to_zebra_outpoint p = to_zebra_outpoint q \<longleftrightarrow> p = q"
  by (cases p; cases q) (auto simp: to_zebra_outpoint_def word_unat_eq_iff)

section \<open>The reader\<close>

record HeaderInfo =
  hi_height :: BlockHeight
  previous_block_hash :: BlockHash

record MinedTxInfo =
  mi_raw :: "u8 list"
  mi_height :: BlockHeight
  mi_block_time :: u32

record SideTxInfo =
  si_raw :: "u8 list"
  si_block_hash :: BlockHash

text \<open>The trait \<open>ChainReader\<close>: the answers of the node at one moment.\<close>

record ('snode, 'onode) ChainReader =
  rd_tip :: "ChainError fault + ChainBlock option"
  rd_best_chain_block_hash :: "BlockHeight \<Rightarrow> ChainError fault + BlockHash option"
  rd_raw_block_by_hash :: "BlockHash \<Rightarrow> ChainError fault + u8 list option"
  rd_block_header_by_hash :: "BlockHash \<Rightarrow> ChainError fault + HeaderInfo option"
  rd_sapling_tree_bytes :: "BlockHash \<Rightarrow> ChainError fault + u8 list option"
  rd_orchard_tree_bytes :: "BlockHash \<Rightarrow> ChainError fault + u8 list option"
  rd_ironwood_tree_bytes :: "BlockHash \<Rightarrow> ChainError fault + u8 list option"
  rd_find_fork_point :: "BlockLocator \<Rightarrow> ChainError fault + ChainBlock option"
  rd_transaction :: "ZTxHash \<Rightarrow> ChainError fault + MinedTxInfo option"
  rd_side_chain_transaction :: "ZTxHash \<Rightarrow> ChainError fault + SideTxInfo option"
  rd_sapling_subtree_roots :: "ChainError fault + (BlockHeight \<times> 'snode) list"
  rd_orchard_subtree_roots :: "ChainError fault + (BlockHeight \<times> 'onode) list"
  rd_ironwood_subtree_roots :: "ChainError fault + (BlockHeight \<times> 'onode) list"
  rd_is_unspent :: "ZOutPoint \<Rightarrow> ChainError fault + bool"
  rd_spending_transaction :: "ZOutPoint \<Rightarrow> ChainError fault + ZTxHash option"

section \<open>The reader on the read state service\<close>

type_synonym ('zb, 'ztx, 'ztree, 'utxo) read_state =
  "ReadRequest \<Rightarrow> string + ('zb, 'ztx, 'ztree, 'utxo) ReadResponse"

definition rs_call ::
    "('zb, 'ztx, 'ztree, 'utxo) read_state \<Rightarrow> ReadRequest \<Rightarrow>
     ChainError fault + ('zb, 'ztx, 'ztree, 'utxo) ReadResponse" where
  "rs_call rs req = map_err (Raise \<circ> Backend) (rs req)"

definition rs_tip :: "('zb, 'ztx, 'ztree, 'utxo) read_state \<Rightarrow> ChainError fault + ChainBlock option" where
  "rs_tip rs = rbind (rs_call rs ReqTip) (\<lambda>resp. case resp of
       RespTip (Some (h, hash)) \<Rightarrow> Inr (Some (chain_block (convert_height h) (block_hash hash)))
     | RespTip None \<Rightarrow> Inr None
     | _ \<Rightarrow> Inl (Panic ''unexpected response to Tip''))"

definition rs_best_chain_block_hash ::
    "('zb, 'ztx, 'ztree, 'utxo) read_state \<Rightarrow> BlockHeight \<Rightarrow> ChainError fault + BlockHash option" where
  "rs_best_chain_block_hash rs height =
     rbind (rs_call rs (ReqBestChainBlockHash (to_zebra_height height))) (\<lambda>resp. case resp of
       RespBlockHash opt \<Rightarrow> Inr (map_option block_hash opt)
     | _ \<Rightarrow> Inl (Panic ''unexpected response to BestChainBlockHash''))"

definition rs_raw_block_by_hash ::
    "('zb, 'ztx, 'ztree) zebra_codecs \<Rightarrow> ('zb, 'ztx, 'ztree, 'utxo) read_state \<Rightarrow>
     BlockHash \<Rightarrow> ChainError fault + u8 list option" where
  "rs_raw_block_by_hash C rs hash =
     rbind (rs_call rs (ReqAnyChainBlock (ByHash (to_zebra_hash hash)))) (\<lambda>resp. case resp of
       RespBlock (Some block) \<Rightarrow> rbind (block_to_bytes C block) (\<lambda>bytes. Inr (Some bytes))
     | RespBlock None \<Rightarrow> Inr None
     | _ \<Rightarrow> Inl (Panic ''unexpected response to AnyChainBlock''))"

text \<open>Every failure of this request is read as an unknown hash.\<close>

definition rs_block_header_by_hash ::
    "('zb, 'ztx, 'ztree, 'utxo) read_state \<Rightarrow> BlockHash \<Rightarrow> ChainError fault + HeaderInfo option" where
  "rs_block_header_by_hash rs hash =
     (case rs (ReqBlockHeader (ByHash (to_zebra_hash hash))) of
        Inr (RespBlockHeader prev height) \<Rightarrow>
          Inr (Some \<lparr>hi_height = convert_height height, previous_block_hash = block_hash prev\<rparr>)
      | Inr _ \<Rightarrow> Inl (Panic ''unexpected response to BlockHeader'')
      | Inl _ \<Rightarrow> Inr None)"

definition rs_sapling_tree_bytes ::
    "('zb, 'ztx, 'ztree) zebra_codecs \<Rightarrow> ('zb, 'ztx, 'ztree, 'utxo) read_state \<Rightarrow>
     BlockHash \<Rightarrow> ChainError fault + u8 list option" where
  "rs_sapling_tree_bytes C rs hash =
     rbind (rs_call rs (ReqSaplingTree (ByHash (to_zebra_hash hash)))) (\<lambda>resp. case resp of
       RespSaplingTree opt \<Rightarrow> Inr (map_option (to_rpc_bytes C) opt)
     | _ \<Rightarrow> Inl (Panic ''unexpected response to SaplingTree''))"

definition rs_orchard_tree_bytes ::
    "('zb, 'ztx, 'ztree) zebra_codecs \<Rightarrow> ('zb, 'ztx, 'ztree, 'utxo) read_state \<Rightarrow>
     BlockHash \<Rightarrow> ChainError fault + u8 list option" where
  "rs_orchard_tree_bytes C rs hash =
     rbind (rs_call rs (ReqOrchardTree (ByHash (to_zebra_hash hash)))) (\<lambda>resp. case resp of
       RespOrchardTree opt \<Rightarrow> Inr (map_option (to_rpc_bytes C) opt)
     | _ \<Rightarrow> Inl (Panic ''unexpected response to OrchardTree''))"

definition rs_ironwood_tree_bytes ::
    "('zb, 'ztx, 'ztree) zebra_codecs \<Rightarrow> ('zb, 'ztx, 'ztree, 'utxo) read_state \<Rightarrow>
     BlockHash \<Rightarrow> ChainError fault + u8 list option" where
  "rs_ironwood_tree_bytes C rs hash =
     rbind (rs_call rs (ReqIronwoodTree (ByHash (to_zebra_hash hash)))) (\<lambda>resp. case resp of
       RespIronwoodTree opt \<Rightarrow> Inr (map_option (to_rpc_bytes C) opt)
     | _ \<Rightarrow> Inl (Panic ''unexpected response to IronwoodTree''))"

definition rs_find_fork_point ::
    "('zb, 'ztx, 'ztree, 'utxo) read_state \<Rightarrow> BlockLocator \<Rightarrow> ChainError fault + ChainBlock option" where
  "rs_find_fork_point rs locator =
     rbind (rs_call rs (ReqFindForkPoint (map to_zebra_hash (hashes locator)))) (\<lambda>resp. case resp of
       RespForkPoint opt \<Rightarrow>
         Inr (map_option (\<lambda>(h, hash). chain_block (convert_height h) (block_hash hash)) opt)
     | _ \<Rightarrow> Inl (Panic ''unexpected response to FindForkPoint''))"

text \<open>\<open>u32::try_from(i64)\<close>.\<close>

definition u32_of_int :: "int \<Rightarrow> string + u32" where
  "u32_of_int i =
     (if 0 \<le> i \<and> i < 2 ^ 32 then Inr (word_of_int i)
      else Inl ''out of range integral type conversion attempted'')"

definition rs_transaction ::
    "('zb, 'ztx, 'ztree) zebra_codecs \<Rightarrow> ('zb, 'ztx, 'ztree, 'utxo) read_state \<Rightarrow>
     ZTxHash \<Rightarrow> ChainError fault + MinedTxInfo option" where
  "rs_transaction C rs txid =
     rbind (rs_call rs (ReqTransaction txid)) (\<lambda>resp. case resp of
       RespTransaction (Some mined) \<Rightarrow>
         rbind (tx_to_bytes C (mtx_tx mined)) (\<lambda>raw.
         rbind (map_err (Raise \<circ> InvalidData) (u32_of_int (mtx_time mined))) (\<lambda>time.
           Inr (Some \<lparr>mi_raw = raw, mi_height = convert_height (mtx_height mined), mi_block_time = time\<rparr>)))
     | RespTransaction None \<Rightarrow> Inr None
     | _ \<Rightarrow> Inl (Panic ''unexpected response to Transaction''))"

definition rs_side_chain_transaction ::
    "('zb, 'ztx, 'ztree) zebra_codecs \<Rightarrow> ('zb, 'ztx, 'ztree, 'utxo) read_state \<Rightarrow>
     ZTxHash \<Rightarrow> ChainError fault + SideTxInfo option" where
  "rs_side_chain_transaction C rs txid =
     rbind (rs_call rs (ReqAnyChainTransaction txid)) (\<lambda>resp. case resp of
       RespAnyChainTransaction (Some (AnySide tx hash)) \<Rightarrow>
         rbind (tx_to_bytes C tx) (\<lambda>raw.
           Inr (Some \<lparr>si_raw = raw, si_block_hash = block_hash hash\<rparr>))
     | RespAnyChainTransaction _ \<Rightarrow> Inr None
     | _ \<Rightarrow> Inl (Panic ''unexpected response to AnyChainTransaction''))"

text \<open>The subtree roots, in index order from the first; each root must decode as a node.\<close>

definition decode_roots ::
    "(u8 list \<Rightarrow> 'node option) \<Rightarrow> string \<Rightarrow> zsubtrees \<Rightarrow> ChainError fault + (BlockHeight \<times> 'node) list" where
  "decode_roots node_from_bytes msg subtrees =
     try_map (\<lambda>(_, end_height, root).
       rbind (ok_or (Raise (InvalidData msg)) (node_from_bytes root)) (\<lambda>node.
         Inr (zh_height end_height, node))) subtrees"

definition rs_sapling_subtree_roots ::
    "(u8 list \<Rightarrow> 'node option) \<Rightarrow> ('zb, 'ztx, 'ztree, 'utxo) read_state \<Rightarrow>
     ChainError fault + (BlockHeight \<times> 'node) list" where
  "rs_sapling_subtree_roots node_from_bytes rs =
     rbind (rs_call rs (ReqSaplingSubtrees 0 None)) (\<lambda>resp. case resp of
       RespSaplingSubtrees subtrees \<Rightarrow>
         decode_roots node_from_bytes ''non-canonical Sapling subtree root'' subtrees
     | _ \<Rightarrow> Inl (Panic ''unexpected response to SaplingSubtrees''))"

definition rs_orchard_subtree_roots ::
    "(u8 list \<Rightarrow> 'node option) \<Rightarrow> ('zb, 'ztx, 'ztree, 'utxo) read_state \<Rightarrow>
     ChainError fault + (BlockHeight \<times> 'node) list" where
  "rs_orchard_subtree_roots node_from_bytes rs =
     rbind (rs_call rs (ReqOrchardSubtrees 0 None)) (\<lambda>resp. case resp of
       RespOrchardSubtrees subtrees \<Rightarrow>
         decode_roots node_from_bytes ''non-canonical orchard subtree root'' subtrees
     | _ \<Rightarrow> Inl (Panic ''unexpected response to OrchardSubtrees''))"

definition rs_ironwood_subtree_roots ::
    "(u8 list \<Rightarrow> 'node option) \<Rightarrow> ('zb, 'ztx, 'ztree, 'utxo) read_state \<Rightarrow>
     ChainError fault + (BlockHeight \<times> 'node) list" where
  "rs_ironwood_subtree_roots node_from_bytes rs =
     rbind (rs_call rs (ReqIronwoodSubtrees 0 None)) (\<lambda>resp. case resp of
       RespIronwoodSubtrees subtrees \<Rightarrow>
         decode_roots node_from_bytes ''non-canonical ironwood subtree root'' subtrees
     | _ \<Rightarrow> Inl (Panic ''unexpected response to IronwoodSubtrees''))"

definition rs_is_unspent ::
    "('zb, 'ztx, 'ztree, 'utxo) read_state \<Rightarrow> ZOutPoint \<Rightarrow> ChainError fault + bool" where
  "rs_is_unspent rs outpoint =
     rbind (rs_call rs (ReqUnspentBestChainUtxo outpoint)) (\<lambda>resp. case resp of
       RespUnspentBestChainUtxo opt \<Rightarrow> Inr (opt \<noteq> None)
     | _ \<Rightarrow> Inl (Panic ''unexpected response to UnspentBestChainUtxo''))"

definition rs_spending_transaction ::
    "('zb, 'ztx, 'ztree, 'utxo) read_state \<Rightarrow> ZOutPoint \<Rightarrow> ChainError fault + ZTxHash option" where
  "rs_spending_transaction rs outpoint =
     rbind (rs_call rs (ReqSpendingTransactionId outpoint)) (\<lambda>resp. case resp of
       RespTransactionId opt \<Rightarrow> Inr opt
     | _ \<Rightarrow> Inl (Panic ''unexpected response to SpendingTransactionId''))"

definition read_state_chain_reader ::
    "('zb, 'ztx, 'ztree) zebra_codecs \<Rightarrow> (u8 list \<Rightarrow> 'snode option) \<Rightarrow>
     (u8 list \<Rightarrow> 'onode option) \<Rightarrow> ('zb, 'ztx, 'ztree, 'utxo) read_state \<Rightarrow> ('snode, 'onode) ChainReader" where
  "read_state_chain_reader C sapling_node orchard_node rs =
     \<lparr>rd_tip = rs_tip rs,
      rd_best_chain_block_hash = rs_best_chain_block_hash rs,
      rd_raw_block_by_hash = rs_raw_block_by_hash C rs,
      rd_block_header_by_hash = rs_block_header_by_hash rs,
      rd_sapling_tree_bytes = rs_sapling_tree_bytes C rs,
      rd_orchard_tree_bytes = rs_orchard_tree_bytes C rs,
      rd_ironwood_tree_bytes = rs_ironwood_tree_bytes C rs,
      rd_find_fork_point = rs_find_fork_point rs,
      rd_transaction = rs_transaction C rs,
      rd_side_chain_transaction = rs_side_chain_transaction C rs,
      rd_sapling_subtree_roots = rs_sapling_subtree_roots sapling_node rs,
      rd_orchard_subtree_roots = rs_orchard_subtree_roots orchard_node rs,
      rd_ironwood_subtree_roots = rs_ironwood_subtree_roots orchard_node rs,
      rd_is_unspent = rs_is_unspent rs,
      rd_spending_transaction = rs_spending_transaction rs\<rparr>"

section \<open>The validator's JSON-RPC client\<close>

datatype Auth = AuthBasic string | AuthCookie string

record ValidatorRpcClient =
  rpc_url :: string
  rpc_auth :: Auth

record NetworkUpgradeInfo =
  ui_name :: string
  ui_activation_height :: u32
  ui_status :: UpgradeStatus

datatype RpcParam = TextParam string | NumberParam u8

text \<open>What the client calls: base64, the file system, the header and client constructors, the
  serialisation of a parameter and the request itself, whose answer is decoded as the caller
  expects.\<close>

record ('hv, 'client) rpc_host =
  base64_encode :: "string \<Rightarrow> string"
  read_to_string :: "string \<Rightarrow> string + string"
  header_value :: "string \<Rightarrow> string + 'hv"
  http_build :: "(string \<times> 'hv) list \<Rightarrow> string \<Rightarrow> string + 'client"
  insert_param :: "RpcParam list \<Rightarrow> RpcParam \<Rightarrow> string + RpcParam list"

definition rpc_client_new ::
    "('hv, 'client) rpc_host \<Rightarrow> string \<Rightarrow> string \<Rightarrow> string \<Rightarrow> string option \<Rightarrow> ValidatorRpcClient" where
  "rpc_client_new N address user password cookie_path =
     \<lparr>rpc_url = ''http://'' @ address,
      rpc_auth = (case cookie_path of
                    Some path \<Rightarrow> AuthCookie path
                  | None \<Rightarrow> AuthBasic (base64_encode N (user @ '':'' @ password)))\<rparr>"

definition cookie_credentials :: "('hv, 'client) rpc_host \<Rightarrow> string \<Rightarrow> string" where
  "cookie_credentials N content =
     (let token = (case strip_prefix ''__cookie__:'' (trim content) of
                     Some token \<Rightarrow> token
                   | None \<Rightarrow> trim content)
      in base64_encode N (''__cookie__:'' @ token))"

definition build_client :: "('hv, 'client) rpc_host \<Rightarrow> ValidatorRpcClient \<Rightarrow> string + 'client" where
  "build_client N client =
     rbind (case rpc_auth client of
              AuthBasic encoded \<Rightarrow> Inr encoded
            | AuthCookie path \<Rightarrow>
                rbind (map_err (\<lambda>e. ''reading RPC cookie: '' @ e) (read_to_string N path)) (\<lambda>content.
                  Inr (cookie_credentials N content))) (\<lambda>credentials.
     rbind (map_err (\<lambda>e. ''invalid RPC auth header: '' @ e) (header_value N (''Basic '' @ credentials))) (\<lambda>value.
       map_err (\<lambda>e. ''building RPC client: '' @ e)
         (http_build N [(''authorization'', value)] (rpc_url client))))"

text \<open>The requests; \<open>request\<close> performs one with a client built for it.\<close>

definition send_raw_transaction ::
    "('hv, 'client) rpc_host \<Rightarrow> ('client \<Rightarrow> string \<Rightarrow> RpcParam list \<Rightarrow> string + string) \<Rightarrow>
     ValidatorRpcClient \<Rightarrow> string \<Rightarrow> string + string" where
  "send_raw_transaction N request client tx_hex =
     rbind (insert_param N [] (TextParam tx_hex)) (\<lambda>params.
     rbind (build_client N client) (\<lambda>http. request http ''sendrawtransaction'' params))"

definition get_blockchain_info ::
    "('hv, 'client) rpc_host \<Rightarrow>
     ('client \<Rightarrow> string \<Rightarrow> RpcParam list \<Rightarrow> string + (string \<times> NetworkUpgradeInfo) list) \<Rightarrow>
     ValidatorRpcClient \<Rightarrow> string + (string \<times> NetworkUpgradeInfo) list" where
  "get_blockchain_info N request client =
     rbind (build_client N client) (\<lambda>http. request http ''getblockchaininfo'' [])"

definition get_raw_mempool ::
    "('hv, 'client) rpc_host \<Rightarrow> ('client \<Rightarrow> string \<Rightarrow> RpcParam list \<Rightarrow> string + string list) \<Rightarrow>
     ValidatorRpcClient \<Rightarrow> string + string list" where
  "get_raw_mempool N request client =
     rbind (build_client N client) (\<lambda>http. request http ''getrawmempool'' [])"

definition get_raw_transaction ::
    "('hv, 'client) rpc_host \<Rightarrow> ('client \<Rightarrow> string \<Rightarrow> RpcParam list \<Rightarrow> string + string) \<Rightarrow>
     ValidatorRpcClient \<Rightarrow> string \<Rightarrow> string + string" where
  "get_raw_transaction N request client txid_hex =
     rbind (insert_param N [] (TextParam txid_hex)) (\<lambda>params.
     rbind (insert_param N params (NumberParam 0)) (\<lambda>params.
     rbind (build_client N client) (\<lambda>http. request http ''getrawtransaction'' params)))"

end
