(* ===== verification/Ordered_Map.thy ===== *)
theory Ordered_Map
  imports Prelude
begin

text \<open>
  The part of the standard library's \<open>BTreeMap\<close> the sources use: insertion, lookup and the first
  entry at or above a key (\<open>range(key..).next()\<close>). The interface is the locale \<open>ordered_map\<close>; the
  implementation is an association list in key order.
\<close>

section \<open>The interface\<close>

locale ordered_map =
  fixes lookup :: "'m \<Rightarrow> 'k::linorder \<Rightarrow> 'v option"
    and insert_entry :: "'k \<Rightarrow> 'v \<Rightarrow> 'm \<Rightarrow> 'm"
    and first_from :: "'k \<Rightarrow> 'm \<Rightarrow> ('k \<times> 'v) option"
    and well_formed :: "'m \<Rightarrow> bool"
  assumes insert_well_formed: "well_formed m \<Longrightarrow> well_formed (insert_entry k v m)"
    and lookup_insert: "well_formed m \<Longrightarrow> lookup (insert_entry k v m) j = (if j = k then Some v else lookup m j)"
    and first_from_Some: "well_formed m \<Longrightarrow> first_from k m = Some (j, v) \<Longrightarrow>
      lookup m j = Some v \<and> k \<le> j \<and> (\<forall>i. k \<le> i \<and> i < j \<longrightarrow> lookup m i = None)"
    and first_from_None: "well_formed m \<Longrightarrow> first_from k m = None \<Longrightarrow> k \<le> j \<Longrightarrow> lookup m j = None"
begin

lemma first_from_defined: "well_formed m \<Longrightarrow> lookup m j = Some v \<Longrightarrow> k \<le> j \<Longrightarrow>
    \<exists>i w. first_from k m = Some (i, w) \<and> k \<le> i \<and> i \<le> j \<and> lookup m i = Some w"
proof -
  assume wf: "well_formed m" and j: "lookup m j = Some v" "k \<le> j"
  with first_from_None obtain i w where f: "first_from k m = Some (i, w)" by fastforce
  from first_from_Some [OF wf f] j have "i \<le> j" by (metis not_le_imp_less option.distinct(1))
  with first_from_Some [OF wf f] f show ?thesis by blast
qed

lemma first_from_above: "well_formed m \<Longrightarrow> lookup m k = None \<Longrightarrow> first_from k m = Some (j, v) \<Longrightarrow> k < j"
  using first_from_Some by (metis option.distinct(1) order_neq_le_trans)

end

section \<open>The implementation\<close>

type_synonym ('k, 'v) btree_map = "('k \<times> 'v) list"

fun btm_insert :: "'k::linorder \<Rightarrow> 'v \<Rightarrow> ('k, 'v) btree_map \<Rightarrow> ('k, 'v) btree_map" where
  "btm_insert k v [] = [(k, v)]"
| "btm_insert k v ((j, w) # m) =
     (if k < j then (k, v) # (j, w) # m
      else if k = j then (k, v) # m
      else (j, w) # btm_insert k v m)"

definition btm_first_from :: "'k::linorder \<Rightarrow> ('k, 'v) btree_map \<Rightarrow> ('k \<times> 'v) option" where
  "btm_first_from k m = find (\<lambda>(j, _). k \<le> j) m"

abbreviation btm_sorted :: "('k::linorder, 'v) btree_map \<Rightarrow> bool" where
  "btm_sorted m \<equiv> sorted_wrt (<) (map fst m)"

lemma btm_insert_keys: "x \<in> set (btm_insert k v m) \<Longrightarrow> fst x = k \<or> x \<in> set m"
  by (induction k v m rule: btm_insert.induct) (auto split: if_splits)

lemma btm_insert_sorted: "btm_sorted m \<Longrightarrow> btm_sorted (btm_insert k v m)"
proof (induction k v m rule: btm_insert.induct)
  case (2 k v j w m)
  then show ?case by (auto dest: btm_insert_keys)
qed simp

lemma btm_lookup_insert: "btm_sorted m \<Longrightarrow> map_of (btm_insert k v m) j = (if j = k then Some v else map_of m j)"
  by (induction k v m rule: btm_insert.induct) auto

lemma btm_first_from_Some:
  "btm_sorted m \<Longrightarrow> btm_first_from k m = Some (j, v) \<Longrightarrow>
   map_of m j = Some v \<and> k \<le> j \<and> (\<forall>i. k \<le> i \<and> i < j \<longrightarrow> map_of m i = None)"
proof (induction m)
  case Nil
  then show ?case by (simp add: btm_first_from_def)
next
  case (Cons a m)
  obtain i w where a: "a = (i, w)" by fastforce
  have above: "map_of m l = None" if "l \<le> i" for l
    using Cons.prems(1) that by (auto simp: a map_of_eq_None_iff)
  show ?case
    using Cons above by (auto simp: a btm_first_from_def split: if_splits dest: find_Some_mem)
qed

lemma btm_first_from_None: "btm_first_from k m = None \<Longrightarrow> k \<le> j \<Longrightarrow> map_of m j = None"
  by (force simp: btm_first_from_def find_None_iff map_of_eq_None_iff)

interpretation btm: ordered_map map_of btm_insert btm_first_from btm_sorted
  by unfold_locales
    (auto simp: btm_lookup_insert dest: btm_first_from_Some btm_first_from_None intro: btm_insert_sorted)

end
