(* ===== verification/Zebra_View.thy ===== *)
theory Zebra_View
  imports Zebra_Reader Ordered_Map
begin

text \<open>
  The zebra backend's chain view (\<open>backends/zebra/src/chain.rs\<close>): capturing a view, resolving a
  height to the hash pinned by the captured tip with its memo table, tree states, headers, blocks
  and block streams, the mempool stream, transaction queries, and the operations of the chain
  handle. The node answers every read anew, so a reader and the validator's answers are functions
  of the number of reads made before.
\<close>

section \<open>The node and the view\<close>

record ('sn, 'on) zebra_env =
  ze_reader :: "nat \<Rightarrow> ('sn, 'on) ChainReader"
  ze_mempool :: "nat \<Rightarrow> string + string list"
  ze_raw_transaction :: "nat \<Rightarrow> string \<Rightarrow> string + string"

record ZebraChainView =
  zv_tip :: ChainBlock
  zv_floor :: BlockHeight
  zv_activation :: "NetworkUpgrade \<Rightarrow> BlockHeight option"

record view_state =
  zv_cache :: "(BlockHeight, BlockHash) btree_map"
  zv_clock :: nat

type_synonym 'a zv = "(view_state, ChainError fault, 'a) sr"

definition ask ::
    "('sn, 'on) zebra_env \<Rightarrow> (('sn, 'on) ChainReader \<Rightarrow> ChainError fault + 'a) \<Rightarrow> 'a zv" where
  "ask E f = (\<lambda>s. (f (ze_reader E (zv_clock s)), s\<lparr>zv_clock := Suc (zv_clock s)\<rparr>))"

definition ask_rpc :: "(nat \<Rightarrow> string + 'a) \<Rightarrow> 'a zv" where
  "ask_rpc f = (\<lambda>s. (map_err (Raise \<circ> Backend) (f (zv_clock s)), s\<lparr>zv_clock := Suc (zv_clock s)\<rparr>))"

definition cache_insert :: "BlockHeight \<Rightarrow> BlockHash \<Rightarrow> unit zv" where
  "cache_insert height hash = smodify (\<lambda>s. s\<lparr>zv_cache := btm_insert height hash (zv_cache s)\<rparr>)"

definition MAX_REORG_DEPTH :: u32 where
  "MAX_REORG_DEPTH = 1000"

definition snapshot ::
    "('sn, 'on) zebra_env \<Rightarrow> (NetworkUpgrade \<Rightarrow> BlockHeight option) \<Rightarrow> nat \<Rightarrow>
     ChainError fault + ZebraChainView \<times> view_state" where
  "snapshot E params now =
     rbind (rd_tip (ze_reader E now)) (\<lambda>tip.
     rbind (ok_or (Raise (Unavailable ''the chain state has no tip yet'')) tip) (\<lambda>tip.
       let finalized_floor = saturating_sub (cb_height tip) MAX_REORG_DEPTH;
           cache = btm_insert (cb_height tip) (cb_hash tip) []
       in Inr (\<lparr>zv_tip = tip, zv_floor = finalized_floor, zv_activation = params\<rparr>,
               \<lparr>zv_cache = cache, zv_clock = Suc now\<rparr>)))"

section \<open>Resolving a height\<close>

function resolve_walk ::
    "('sn, 'on) zebra_env \<Rightarrow> BlockHeight \<Rightarrow> BlockHeight \<Rightarrow> BlockHash \<Rightarrow> BlockHash zv" where
  "resolve_walk E height cur_height cur_hash =
     (if height < cur_height
      then sbind (ask E (\<lambda>r. rd_block_header_by_hash r cur_hash)) (\<lambda>found. case found of
             None \<Rightarrow> sfail (Raise (Unavailable ''pinned block reorged away during resolve''))
           | Some header \<Rightarrow>
               sbind (cache_insert (cur_height - 1) (previous_block_hash header)) (\<lambda>_.
                 resolve_walk E height (cur_height - 1) (previous_block_hash header)))
      else sret cur_hash)"
  by pat_completeness auto

termination
  by (relation "measure (\<lambda>(E, height, cur_height, cur_hash). unat cur_height)")
    (auto simp: word_less_nat_alt unat_minus_le word_le_nat_alt)

declare resolve_walk.simps [simp del]

definition resolve ::
    "('sn, 'on) zebra_env \<Rightarrow> ZebraChainView \<Rightarrow> BlockHeight \<Rightarrow> BlockHash option zv" where
  "resolve E v height =
     (if cb_height (zv_tip v) < height then sret None
      else if height \<le> zv_floor v then ask E (\<lambda>r. rd_best_chain_block_hash r height)
      else sbind (sget (\<lambda>s. map_of (zv_cache s) height)) (\<lambda>hit. case hit of
             Some h \<Rightarrow> sret (Some h)
           | None \<Rightarrow>
               sbind (sget (\<lambda>s. btm_first_from height (zv_cache s))) (\<lambda>start. case start of
                 None \<Rightarrow> sfail (Panic ''the tip is always cached at or above any non-finalized height'')
               | Some (cur_height, cur_hash) \<Rightarrow>
                   sbind (resolve_walk E height cur_height cur_hash) (\<lambda>hash. sret (Some hash)))))"

section \<open>Tree states, headers and blocks\<close>

record ('sf, 'orf) ChainState =
  cs_height :: BlockHeight
  cs_hash :: BlockHash
  final_sapling_tree :: 'sf
  final_orchard_tree :: 'orf
  final_ironwood_tree :: 'orf

definition missing_tree :: "bool \<Rightarrow> BlockHeight \<Rightarrow> TreePool \<Rightarrow> ChainError" where
  "missing_tree pinned_finalized height pool =
     (if pinned_finalized
      then Unavailable (''zebra reported no '' @ show_tree_pool pool @ '' treestate at finalized height ''
             @ show_nat (unat height) @ '', at or after that pool's activation; ''
             @ ''refusing to substitute an empty frontier'')
      else Unavailable (''pinned '' @ show_tree_pool pool @ '' treestate reorged away''))"

definition absent_tree_is_empty :: "ZebraChainView \<Rightarrow> BlockHeight \<Rightarrow> TreePool \<Rightarrow> bool" where
  "absent_tree_is_empty v height pool \<longleftrightarrow>
     height \<le> zv_floor v \<and> empty_tree_is_legitimate (zv_activation v) pool height"

definition pool_frontier ::
    "ZebraChainView \<Rightarrow> BlockHeight \<Rightarrow> TreePool \<Rightarrow> (u8 list \<Rightarrow> string + 'f) \<Rightarrow> 'f \<Rightarrow> u8 list option \<Rightarrow>
     ChainError fault + 'f" where
  "pool_frontier v height pool read_tree empty_tree tree_bytes =
     (case tree_bytes of
        Some bytes \<Rightarrow> map_err (Raise \<circ> InvalidData) (read_tree bytes)
      | None \<Rightarrow>
          if absent_tree_is_empty v height pool then Inr empty_tree
          else Inl (Raise (missing_tree (height \<le> zv_floor v) height pool)))"

definition zebra_tree_state_as_of ::
    "('sn, 'on) zebra_env \<Rightarrow> ('blk, 'tx, 'branch, 'sf, 'orf) wallet_codecs \<Rightarrow> ZebraChainView \<Rightarrow>
     BlockHeight \<Rightarrow> ('sf, 'orf) ChainState option zv" where
  "zebra_tree_state_as_of E W v height =
     sbind (resolve E v height) (\<lambda>resolved. case resolved of
       None \<Rightarrow> sret None
     | Some hash \<Rightarrow>
         sbind (ask E (\<lambda>r. rd_sapling_tree_bytes r hash)) (\<lambda>sapling_bytes.
         sbind (slift (pool_frontier v height TreeSapling (read_sapling_tree W) (empty_sapling_tree W) sapling_bytes)) (\<lambda>sapling.
         sbind (ask E (\<lambda>r. rd_orchard_tree_bytes r hash)) (\<lambda>orchard_bytes.
         sbind (slift (pool_frontier v height TreeOrchard (read_orchard_tree W) (empty_orchard_tree W) orchard_bytes)) (\<lambda>orchard.
         sbind (ask E (\<lambda>r. rd_ironwood_tree_bytes r hash)) (\<lambda>ironwood_bytes.
         sbind (slift (pool_frontier v height TreeIronwood (read_orchard_tree W) (empty_orchard_tree W) ironwood_bytes)) (\<lambda>ironwood.
           sret (Some \<lparr>cs_height = height, cs_hash = hash, final_sapling_tree = sapling,
                       final_orchard_tree = orchard, final_ironwood_tree = ironwood\<rparr>))))))))"

definition zebra_get_block_header ::
    "('sn, 'on) zebra_env \<Rightarrow> ('blk, 'tx, 'branch, 'sf, 'orf) wallet_codecs \<Rightarrow> ZebraChainView \<Rightarrow>
     BlockHeight \<Rightarrow> BlockHash option zv" where
  "zebra_get_block_header E W v height =
     sbind (resolve E v height) (\<lambda>resolved. case resolved of
       None \<Rightarrow> sret None
     | Some hash \<Rightarrow>
         sbind (ask E (\<lambda>r. rd_raw_block_by_hash r hash)) (\<lambda>found. case found of
           None \<Rightarrow> sret None
         | Some bytes \<Rightarrow>
             sbind (slift (map_err (Raise \<circ> InvalidData) (header_read W bytes))) (\<lambda>header. sret (Some header))))"

definition zebra_get_block ::
    "('sn, 'on) zebra_env \<Rightarrow> ('blk, 'tx, 'branch, 'sf, 'orf) wallet_codecs \<Rightarrow> ZebraChainView \<Rightarrow>
     BlockHeight \<Rightarrow> 'blk option zv" where
  "zebra_get_block E W v height =
     sbind (resolve E v height) (\<lambda>resolved. case resolved of
       None \<Rightarrow> sret None
     | Some hash \<Rightarrow>
         sbind (ask E (\<lambda>r. rd_raw_block_by_hash r hash)) (\<lambda>found. case found of
           None \<Rightarrow> sret None
         | Some bytes \<Rightarrow>
             sbind (slift (convert_block W bytes)) (\<lambda>block. sret (Some block))))"

text \<open>A stream of blocks, polled \<open>n\<close> times: the items it yields up to its end or its first
  error.\<close>

fun stream_blocks_inner ::
    "height_ops \<Rightarrow> ('sn, 'on) zebra_env \<Rightarrow> ('blk, 'tx, 'branch, 'sf, 'orf) wallet_codecs \<Rightarrow> ZebraChainView \<Rightarrow>
     nat \<Rightarrow> BlockHeight \<Rightarrow> BlockHeight \<Rightarrow> view_state \<Rightarrow> (ChainError fault + 'blk) list \<times> view_state" where
  "stream_blocks_inner H E W v 0 height last_height s = ([], s)"
| "stream_blocks_inner H E W v (Suc n) height last_height s =
     (if last_height < height then ([], s)
      else case zebra_get_block E W v height s of
        (Inl e, s) \<Rightarrow> ([Inl e], s)
      | (Inr None, s) \<Rightarrow> ([], s)
      | (Inr (Some block), s) \<Rightarrow>
          (case stream_blocks_inner H E W v n (h_add H height 1) last_height s of
             (items, s) \<Rightarrow> (Inr block # items, s)))"

definition zebra_stream_blocks_to_tip ::
    "height_ops \<Rightarrow> ('sn, 'on) zebra_env \<Rightarrow> ('blk, 'tx, 'branch, 'sf, 'orf) wallet_codecs \<Rightarrow> ZebraChainView \<Rightarrow>
     nat \<Rightarrow> BlockHeight \<Rightarrow> view_state \<Rightarrow> (ChainError fault + 'blk) list \<times> view_state" where
  "zebra_stream_blocks_to_tip H E W v n start =
     stream_blocks_inner H E W v n start (cb_height (zv_tip v))"

definition zebra_stream_blocks ::
    "height_ops \<Rightarrow> ('sn, 'on) zebra_env \<Rightarrow> ('blk, 'tx, 'branch, 'sf, 'orf) wallet_codecs \<Rightarrow> ZebraChainView \<Rightarrow>
     nat \<Rightarrow> BlockHeight \<times> BlockHeight \<Rightarrow> view_state \<Rightarrow> (ChainError fault + 'blk) list \<times> view_state" where
  "zebra_stream_blocks H E W v n heights =
     stream_blocks_inner H E W v n (fst heights) (h_sub H (snd heights) 1)"

definition zebra_tip :: "ZebraChainView \<Rightarrow> ChainBlock zv" where
  "zebra_tip v = sret (zv_tip v)"

definition zebra_find_fork_point ::
    "('sn, 'on) zebra_env \<Rightarrow> BlockLocator \<Rightarrow> ChainBlock option zv" where
  "zebra_find_fork_point E locator = ask E (\<lambda>r. rd_find_fork_point r locator)"

section \<open>Transactions\<close>

definition zebra_get_transaction ::
    "height_ops \<Rightarrow> ('sn, 'on) zebra_env \<Rightarrow> ('blk, 'tx, 'branch, 'sf, 'orf) wallet_codecs \<Rightarrow> ZebraChainView \<Rightarrow>
     TxId \<Rightarrow> 'tx ChainTx option zv" where
  "zebra_get_transaction H E W v txid =
     sbind (ask E (\<lambda>r. rd_transaction r (to_zebra_txid txid))) (\<lambda>mined. case mined of
       Some m \<Rightarrow>
         sbind (slift (convert_transaction W (mi_raw m) (mi_height m))) (\<lambda>tx.
         sbind (resolve E v (mi_height m)) (\<lambda>hash.
           sret (Some \<lparr>inner = tx, raw = mi_raw m, tx_block_hash = hash,
                       mined_height = Some (mi_height m), block_time = Some (mi_block_time m)\<rparr>)))
     | None \<Rightarrow>
         (let mempool_height = h_add H (cb_height (zv_tip v)) 1 in
          sbind (ask E (\<lambda>r. rd_side_chain_transaction r (to_zebra_txid txid))) (\<lambda>side. case side of
            Some t \<Rightarrow>
              sbind (slift (convert_transaction W (si_raw t) mempool_height)) (\<lambda>tx.
                sret (Some \<lparr>inner = tx, raw = si_raw t, tx_block_hash = Some (si_block_hash t),
                            mined_height = None, block_time = None\<rparr>))
          | None \<Rightarrow>
              sbind (ask_rpc (ze_mempool E)) (\<lambda>mempool.
              if txid_display W txid \<in> set mempool
              then sbind (ask_rpc (\<lambda>t. ze_raw_transaction E t (txid_display W txid))) (\<lambda>raw_hex.
                   sbind (slift (map_err (Raise \<circ> InvalidData) (hex_decode W raw_hex))) (\<lambda>bytes.
                   sbind (slift (convert_transaction W bytes mempool_height)) (\<lambda>tx.
                     sret (Some \<lparr>inner = tx, raw = bytes, tx_block_hash = None,
                                 mined_height = None, block_time = None\<rparr>))))
              else sret None))))"

definition zebra_get_transaction_status ::
    "('sn, 'on) zebra_env \<Rightarrow> ('blk, 'tx, 'branch, 'sf, 'orf) wallet_codecs \<Rightarrow> TxId \<Rightarrow> TransactionStatus zv" where
  "zebra_get_transaction_status E W txid =
     sbind (ask E (\<lambda>r. rd_transaction r (to_zebra_txid txid))) (\<lambda>mined. case mined of
       Some m \<Rightarrow> sret (Mined (mi_height m))
     | None \<Rightarrow>
         sbind (ask E (\<lambda>r. rd_side_chain_transaction r (to_zebra_txid txid))) (\<lambda>side.
         if side \<noteq> None then sret NotInMainChain
         else sbind (ask_rpc (ze_mempool E)) (\<lambda>mempool.
              if txid_display W txid \<in> set mempool then sret NotInMainChain
              else sret TxidNotRecognized)))"

definition zebra_outpoint_spend_status ::
    "('sn, 'on) zebra_env \<Rightarrow> OutPoint \<Rightarrow> SpendStatus zv" where
  "zebra_outpoint_spend_status E outpoint =
     sbind (ask E (\<lambda>r. rd_is_unspent r (to_zebra_outpoint outpoint))) (\<lambda>unspent.
     if unspent then sret Unspent
     else sbind (ask E (\<lambda>r. rd_spending_transaction r (to_zebra_outpoint outpoint))) (\<lambda>spender. case spender of
            Some h \<Rightarrow> sret (SpentBy (from_zebra_tx_hash h))
          | None \<Rightarrow> sret SpentSpenderUnknown))"

definition zebra_block_height :: "('sn, 'on) zebra_env \<Rightarrow> BlockHash \<Rightarrow> BlockHeight option zv" where
  "zebra_block_height E hash =
     sbind (ask E (\<lambda>r. rd_block_header_by_hash r hash)) (\<lambda>info. sret (map_option hi_height info))"

section \<open>The mempool stream\<close>

text \<open>One turn of the poll loop sees the node's tip, the mempool listing and the raw transactions.\<close>

record mempool_turn =
  mt_tip :: "ChainError fault + ChainBlock option"
  mt_mempool :: "string + string list"
  mt_raw :: "string \<Rightarrow> string + string"

record 'tx mempool_state =
  ms_seen :: "string set"
  ms_pending :: "'tx list"

fun buffer_txids ::
    "('blk, 'tx, 'branch, 'sf, 'orf) wallet_codecs \<Rightarrow> 'branch \<Rightarrow> (string \<Rightarrow> string + string) \<Rightarrow>
     string list \<Rightarrow> 'tx mempool_state \<Rightarrow> 'tx mempool_state" where
  "buffer_txids W branch fetch [] st = st"
| "buffer_txids W branch fetch (txid # txids) st =
     (if txid \<in> ms_seen st then buffer_txids W branch fetch txids st
      else let st = st\<lparr>ms_seen := insert txid (ms_seen st)\<rparr>
           in case rbind (fetch txid) (\<lambda>raw_hex. rbind (hex_decode W raw_hex) (\<lambda>bytes. transaction_read W bytes branch)) of
             Inl _ \<Rightarrow> buffer_txids W branch fetch txids st
           | Inr tx \<Rightarrow> buffer_txids W branch fetch txids (st\<lparr>ms_pending := ms_pending st @ [tx]\<rparr>))"

text \<open>One poll of the stream, against the turns still to come: an item, the end of the stream, or
  still waiting when the turns are used up.\<close>

datatype ('tx, 's) polled = Item 'tx 's "mempool_turn list" | Ended | Waiting 's

fun mempool_next ::
    "('blk, 'tx, 'branch, 'sf, 'orf) wallet_codecs \<Rightarrow> 'branch \<Rightarrow> BlockHash \<Rightarrow> mempool_turn list \<Rightarrow>
     'tx mempool_state \<Rightarrow> ('tx, 'tx mempool_state) polled" where
  "mempool_next W branch tip_hash turns st =
     (case ms_pending st of
        tx # pending \<Rightarrow> Item tx (st\<lparr>ms_pending := pending\<rparr>) turns
      | [] \<Rightarrow>
          (case turns of
             [] \<Rightarrow> Waiting st
           | turn # turns \<Rightarrow>
               (case mt_tip turn of
                  Inr (Some tip) \<Rightarrow>
                    if cb_hash tip = tip_hash
                    then (case mt_mempool turn of
                            Inl _ \<Rightarrow> mempool_next W branch tip_hash turns st
                          | Inr txids \<Rightarrow>
                              mempool_next W branch tip_hash turns (buffer_txids W branch (mt_raw turn) txids st))
                    else Ended
                | _ \<Rightarrow> Ended)))"

declare mempool_next.simps [simp del]

definition zebra_get_mempool_stream ::
    "height_ops \<Rightarrow> ('sn, 'on) zebra_env \<Rightarrow> ('blk, 'tx, 'branch, 'sf, 'orf) wallet_codecs \<Rightarrow> ZebraChainView \<Rightarrow>
     ('branch \<times> BlockHash \<times> 'tx mempool_state) option zv" where
  "zebra_get_mempool_stream H E W v =
     sbind (ask E rd_tip) (\<lambda>current_tip.
     if map_option cb_hash current_tip \<noteq> Some (cb_hash (zv_tip v)) then sret None
     else sret (Some (branch_for_height W (h_add H (cb_height (zv_tip v)) 1), cb_hash (zv_tip v),
                      \<lparr>ms_seen = {}, ms_pending = []\<rparr>)))"

section \<open>The chain handle\<close>

definition reported_upgrades ::
    "string + (string \<times> NetworkUpgradeInfo) list \<Rightarrow> string + ReportedUpgrade list" where
  "reported_upgrades info =
     rbind info (\<lambda>upgrades.
       try_map (\<lambda>(branch_id, upgrade).
         case from_str_radix 16 branch_id :: u32 option of
           None \<Rightarrow> Inl (''invalid consensus branch ID '' @ branch_id)
         | Some branch \<Rightarrow>
             Inr \<lparr>ru_branch_id = branch, ru_name = ui_name upgrade,
                  ru_activation_height = ui_activation_height upgrade, ru_status = ui_status upgrade\<rparr>) upgrades)"

definition broadcast_transaction ::
    "('blk, 'tx, 'branch, 'sf, 'orf) wallet_codecs \<Rightarrow> (string \<Rightarrow> string + string) \<Rightarrow> 'tx \<Rightarrow> ChainError + unit" where
  "broadcast_transaction W send tx =
     rbind (map_err Backend (transaction_write W tx)) (\<lambda>tx_bytes.
     rbind (map_err Backend (send (hex_encode W tx_bytes))) (\<lambda>_. Inr ()))"

section \<open>What is pinned\<close>

text \<open>The block at a height on the chain that ends at the captured tip, following parents.\<close>

definition pinned :: "(BlockHash \<Rightarrow> BlockHash) \<Rightarrow> ZebraChainView \<Rightarrow> BlockHeight \<Rightarrow> BlockHash" where
  "pinned parent v height = (parent ^^ (unat (cb_height (zv_tip v)) - unat height)) (cb_hash (zv_tip v))"

text \<open>A header names its parent, whenever it is read: a block hash commits to the previous one.\<close>

definition linked :: "(BlockHash \<Rightarrow> BlockHash) \<Rightarrow> ('sn, 'on) zebra_env \<Rightarrow> bool" where
  "linked parent E \<longleftrightarrow>
     (\<forall>t x header. rd_block_header_by_hash (ze_reader E t) x = Inr (Some header) \<longrightarrow>
        previous_block_hash header = parent x)"

definition cache_ok :: "(BlockHash \<Rightarrow> BlockHash) \<Rightarrow> ZebraChainView \<Rightarrow> view_state \<Rightarrow> bool" where
  "cache_ok parent v s \<longleftrightarrow>
     btm_sorted (zv_cache s) \<and>
     map_of (zv_cache s) (cb_height (zv_tip v)) = Some (cb_hash (zv_tip v)) \<and>
     (\<forall>h x. map_of (zv_cache s) h = Some x \<longrightarrow>
        h \<le> cb_height (zv_tip v) \<and> (zv_floor v < h \<or> h = cb_height (zv_tip v)) \<and> x = pinned parent v h)"

text \<open>A read of a pinned header that fails the resolution with \<open>e\<close>.\<close>

definition header_fails ::
    "(BlockHash \<Rightarrow> BlockHash) \<Rightarrow> ('sn, 'on) zebra_env \<Rightarrow> ZebraChainView \<Rightarrow> ChainError fault \<Rightarrow> bool" where
  "header_fails parent E v e \<longleftrightarrow>
     (\<exists>t h. zv_floor v < h \<and> h \<le> cb_height (zv_tip v) \<and>
        (rd_block_header_by_hash (ze_reader E t) (pinned parent v h) = Inl e \<or>
         rd_block_header_by_hash (ze_reader E t) (pinned parent v h) = Inr None \<and>
         e = Raise (Unavailable ''pinned block reorged away during resolve'')))"

definition fails :: "'e + 'a \<Rightarrow> bool" where
  "fails r \<longleftrightarrow> \<not> is_ok r"

lemma fails_simps [simp]: "fails (Inl e)" "\<not> fails (Inr x)"
  by (simp_all add: fails_def)

lemma pinned_tip [simp]: "pinned parent v (cb_height (zv_tip v)) = cb_hash (zv_tip v)"
  by (simp add: pinned_def)

lemma unat_pred: "h < k \<Longrightarrow> unat (k - 1) = unat k - 1" for h k :: u32
  by (simp add: unat_minus_le word_le_nat_alt word_less_nat_alt)

lemma pinned_parent:
  assumes "height < cur" and "cur \<le> cb_height (zv_tip v)"
  shows "pinned parent v (cur - 1) = parent (pinned parent v cur)"
proof -
  have "unat cur > 0" "unat cur \<le> unat (cb_height (zv_tip v))"
    using assms by (auto simp: word_less_nat_alt word_le_nat_alt)
  then have "unat (cb_height (zv_tip v)) - (unat cur - 1) = Suc (unat (cb_height (zv_tip v)) - unat cur)"
    by simp
  with assms(1) show ?thesis by (simp add: pinned_def unat_pred)
qed

lemma btm_insert_length: "map_of m k = None \<Longrightarrow> btm_sorted m \<Longrightarrow> length (btm_insert k v m) = Suc (length m)"
  by (induction k v m rule: btm_insert.induct) (auto split: if_splits)

lemma cache_ok_clock [simp]: "cache_ok parent v (s\<lparr>zv_clock := t\<rparr>) = cache_ok parent v s"
  by (simp add: cache_ok_def)

lemma cache_ok_insert:
  assumes "cache_ok parent v s" and "zv_floor v < h" and "h < cb_height (zv_tip v)"
  shows "cache_ok parent v (s\<lparr>zv_cache := btm_insert h (pinned parent v h) (zv_cache s)\<rparr>)"
  using assms by (auto simp: cache_ok_def btm.lookup_insert btm.insert_well_formed)

lemma word_pred_le: "h < k \<Longrightarrow> h \<le> k - 1" for h k :: u32
  by (simp add: word_le_nat_alt word_less_nat_alt unat_pred)

lemma word_pred_less: "h < k \<Longrightarrow> k - 1 < k" for h k :: u32
  by (simp add: word_less_nat_alt unat_pred)

text \<open>The walk from a pinned block ends at the pinned block of its target, memoizing each step, or
  fails at a read; every step but a failing last one adds an entry.\<close>

lemma resolve_walk_spec:
  assumes "linked parent E" and "zv_floor v < height"
    and "height \<le> cur" and "cur \<le> cb_height (zv_tip v)"
    and "cache_ok parent v s" and "\<And>h. height \<le> h \<Longrightarrow> h < cur \<Longrightarrow> map_of (zv_cache s) h = None"
    and "resolve_walk E height cur (pinned parent v cur) s = (r, s')"
  shows "cache_ok parent v s'" and "\<And>x. r = Inr x \<Longrightarrow> x = pinned parent v height"
    and "zv_clock s' + length (zv_cache s) = zv_clock s + length (zv_cache s') + of_bool (fails r)"
    and "\<And>e. r = Inl e \<Longrightarrow> header_fails parent E v e"
proof -
  have "cache_ok parent v s' \<and> (\<forall>x. r = Inr x \<longrightarrow> x = pinned parent v height) \<and>
    zv_clock s' + length (zv_cache s) = zv_clock s + length (zv_cache s') + of_bool (fails r) \<and>
    (\<forall>e. r = Inl e \<longrightarrow> header_fails parent E v e)"
    using assms(3-)
  proof (induction "unat cur" arbitrary: cur s rule: less_induct)
    case less
    show ?case
    proof (cases "height < cur")
      case False
      with less.prems show ?thesis by (auto simp: resolve_walk.simps [of _ _ cur] sret_def)
    next
      case True
      let ?read = "rd_block_header_by_hash (ze_reader E (zv_clock s)) (pinned parent v cur)"
      show ?thesis
      proof (cases "\<exists>header. ?read = Inr (Some header)")
        case False
        then obtain e where e: "?read = Inl e \<or>
            ?read = Inr None \<and> e = Raise (Unavailable ''pinned block reorged away during resolve'')"
          by (cases ?read) auto
        then have "(r, s') = (Inl e, s\<lparr>zv_clock := Suc (zv_clock s)\<rparr>)"
          using True less.prems(5) by (auto simp: resolve_walk.simps [of _ _ cur] sbind_def ask_def sfail_def)
        moreover have "header_fails parent E v e"
          using e less.prems(2) less_trans [OF assms(2) True] unfolding header_fails_def by blast
        ultimately show ?thesis using less.prems(3) by simp
      next
        case header: True
        then obtain header where read: "?read = Inr (Some header)" by blast
        let ?s = "s\<lparr>zv_clock := Suc (zv_clock s), zv_cache := btm_insert (cur - 1) (pinned parent v (cur - 1)) (zv_cache s)\<rparr>"
        have prev: "previous_block_hash header = pinned parent v (cur - 1)"
          using assms(1) read pinned_parent [OF True less.prems(2)] by (auto simp: linked_def)
        have step: "resolve_walk E height (cur - 1) (pinned parent v (cur - 1)) ?s = (r, s')"
          using less.prems(5) True read prev
          by (simp add: resolve_walk.simps [of _ _ cur] sbind_def ask_def cache_insert_def smodify_def)
        have lt: "cur - 1 < cur" "height \<le> cur - 1" using True by (auto intro: word_pred_less word_pred_le)
        have fresh: "map_of (zv_cache s) (cur - 1) = None" using less.prems(4) lt by blast
        have sorted: "btm_sorted (zv_cache s)" using less.prems(3) by (simp add: cache_ok_def)
        have len: "length (zv_cache ?s) = Suc (length (zv_cache s))"
          using btm_insert_length [OF fresh sorted] by simp
        have "cache_ok parent v ?s"
          using cache_ok_insert [of parent v "s\<lparr>zv_clock := Suc (zv_clock s)\<rparr>" "cur - 1"] less.prems(2,3) lt assms(2)
          by auto
        moreover have "map_of (zv_cache ?s) h = None" if "height \<le> h" "h < cur - 1" for h
          using less.prems(4) [of h] that lt by (simp add: btm.lookup_insert [OF sorted])
        moreover have "unat (cur - 1) < unat cur" using lt by (simp add: word_less_nat_alt)
        ultimately show ?thesis
          using less.hyps [of "cur - 1" ?s] lt less.prems(2) step len by auto
      qed
    qed
  qed
  then show "cache_ok parent v s'" and "\<And>x. r = Inr x \<Longrightarrow> x = pinned parent v height"
    and "zv_clock s' + length (zv_cache s) = zv_clock s + length (zv_cache s') + of_bool (fails r)"
    and "\<And>e. r = Inl e \<Longrightarrow> header_fails parent E v e"
    by blast+
qed

lemma resolve_eqs:
  "cb_height (zv_tip v) < height \<Longrightarrow> resolve E v height s = (Inr None, s)"
  "height \<le> cb_height (zv_tip v) \<Longrightarrow> height \<le> zv_floor v \<Longrightarrow>
     resolve E v height s = ask E (\<lambda>r. rd_best_chain_block_hash r height) s"
  "height \<le> cb_height (zv_tip v) \<Longrightarrow> zv_floor v < height \<Longrightarrow>
     map_of (zv_cache s) height = Some x \<Longrightarrow> resolve E v height s = (Inr (Some x), s)"
  "height \<le> cb_height (zv_tip v) \<Longrightarrow> zv_floor v < height \<Longrightarrow>
     map_of (zv_cache s) height = None \<Longrightarrow> btm_first_from height (zv_cache s) = Some (cur, y) \<Longrightarrow>
     resolve E v height s =
       (case resolve_walk E height cur y s of (Inl e, t) \<Rightarrow> (Inl e, t) | (Inr h, t) \<Rightarrow> (Inr (Some h), t))"
  by (simp_all add: resolve_def sret_def sbind_def sget_def not_less [symmetric])

lemma resolve_spec:
  assumes "linked parent E" and "cache_ok parent v s" and "resolve E v height s = (r, s')"
  shows "cache_ok parent v s'"
    and "\<And>y. zv_floor v < height \<Longrightarrow> r = Inr y \<Longrightarrow>
      y = (if height \<le> cb_height (zv_tip v) then Some (pinned parent v height) else None)"
    and "zv_floor v < height \<Longrightarrow>
      zv_clock s' + length (zv_cache s) = zv_clock s + length (zv_cache s') + of_bool (fails r)"
    and "\<And>e. zv_floor v < height \<Longrightarrow> r = Inl e \<Longrightarrow> header_fails parent E v e"
proof -
  let ?tip = "cb_height (zv_tip v)"
  consider (above) "?tip < height" | (final) "height \<le> ?tip" "height \<le> zv_floor v"
    | (hit) x where "height \<le> ?tip" "zv_floor v < height" "map_of (zv_cache s) height = Some x"
    | (miss) "height \<le> ?tip" "zv_floor v < height" "map_of (zv_cache s) height = None"
    by (meson not_le option.exhaust)
  then have "cache_ok parent v s' \<and> (zv_floor v < height \<longrightarrow>
      (\<forall>y. r = Inr y \<longrightarrow> y = (if height \<le> ?tip then Some (pinned parent v height) else None)) \<and>
      zv_clock s' + length (zv_cache s) = zv_clock s + length (zv_cache s') + of_bool (fails r) \<and>
      (\<forall>e. r = Inl e \<longrightarrow> header_fails parent E v e))"
  proof cases
    case above
    with assms show ?thesis by (auto simp: resolve_eqs)
  next
    case final
    with assms show ?thesis by (auto simp: resolve_eqs ask_def)
  next
    case hit
    with assms(2,3) show ?thesis by (auto simp: resolve_eqs cache_ok_def)
  next
    case miss
    have wf: "btm_sorted (zv_cache s)" "map_of (zv_cache s) ?tip = Some (cb_hash (zv_tip v))"
      using assms(2) by (auto simp: cache_ok_def)
    from btm.first_from_defined [OF wf miss(1)] obtain cur x
      where first: "btm_first_from height (zv_cache s) = Some (cur, x)" "height \<le> cur" "cur \<le> ?tip"
        "map_of (zv_cache s) cur = Some x" by blast
    have x: "x = pinned parent v cur" using first(4) assms(2) by (auto simp: cache_ok_def)
    have gap: "map_of (zv_cache s) h = None" if "height \<le> h" "h < cur" for h
      using btm.first_from_Some [OF wf(1) first(1)] that by blast
    obtain w s'' where walk: "resolve_walk E height cur (pinned parent v cur) s = (w, s'')" by fastforce
    note spec = resolve_walk_spec [OF assms(1) miss(2) first(2,3) assms(2) gap walk]
    have "s' = s''" "r = (case w of Inl e \<Rightarrow> Inl e | Inr y \<Rightarrow> Inr (Some y))"
      using assms(3) walk x by (auto simp: resolve_eqs(4) [OF miss first(1)] split: sum.splits)
    with spec miss show ?thesis by (auto split: sum.splits)
  qed
  then show "cache_ok parent v s'"
    and "\<And>y. zv_floor v < height \<Longrightarrow> r = Inr y \<Longrightarrow>
      y = (if height \<le> ?tip then Some (pinned parent v height) else None)"
    and "zv_floor v < height \<Longrightarrow>
      zv_clock s' + length (zv_cache s) = zv_clock s + length (zv_cache s') + of_bool (fails r)"
    and "\<And>e. zv_floor v < height \<Longrightarrow> r = Inl e \<Longrightarrow> header_fails parent E v e"
    by auto
qed

text \<open>A sequence of resolutions on one view.\<close>

fun resolves ::
    "('sn, 'on) zebra_env \<Rightarrow> ZebraChainView \<Rightarrow> BlockHeight list \<Rightarrow> view_state \<Rightarrow>
     (ChainError fault + BlockHash option) list \<times> view_state" where
  "resolves E v [] s = ([], s)"
| "resolves E v (height # heights) s =
     (case resolve E v height s of (r, s) \<Rightarrow>
      case resolves E v heights s of (rs, s) \<Rightarrow> (r # rs, s))"

lemma resolves_spec:
  assumes "linked parent E"
  shows "cache_ok parent v s \<Longrightarrow> resolves E v heights s = (rs, s') \<Longrightarrow>
    cache_ok parent v s' \<and>
    list_all2 (\<lambda>h r. zv_floor v < h \<longrightarrow>
      (\<forall>y. r = Inr y \<longrightarrow> y = (if h \<le> cb_height (zv_tip v) then Some (pinned parent v h) else None)) \<and>
      (\<forall>e. r = Inl e \<longrightarrow> header_fails parent E v e)) heights rs \<and>
    (list_all (\<lambda>h. zv_floor v < h) heights \<longrightarrow>
      zv_clock s' + length (zv_cache s) = zv_clock s + length (zv_cache s') + length (filter fails rs))"
proof (induction heights arbitrary: s rs)
  case Nil
  then show ?case by simp
next
  case (Cons h hs)
  obtain r s1 rs1 where one: "resolve E v h s = (r, s1)" and rest: "resolves E v hs s1 = (rs1, s')" "rs = r # rs1"
    using Cons.prems(2) by (auto split: prod.splits)
  note spec = resolve_spec [OF assms Cons.prems(1) one]
  from Cons.IH [OF spec(1) rest(1)] spec rest(2) show ?case by auto
qed

lemma cache_size:
  assumes "cache_ok parent v s" and "zv_floor v = saturating_sub (cb_height (zv_tip v)) MAX_REORG_DEPTH"
  shows "length (zv_cache s) \<le> 1000"
proof -
  let ?tip = "cb_height (zv_tip v)"
  have distinct: "distinct (map fst (zv_cache s))"
    using assms(1) strict_sorted_iff unfolding cache_ok_def by blast
  have "unat ` set (map fst (zv_cache s)) \<subseteq> insert (unat ?tip) {unat (zv_floor v) <.. unat ?tip}"
    using assms(1) by (force simp: cache_ok_def word_le_nat_alt word_less_nat_alt dest: map_of_is_SomeI [OF distinct])
  moreover have "insert (unat ?tip) {unat (zv_floor v) <.. unat ?tip} = (if ?tip = 0 then {0} else {unat (zv_floor v) <.. unat ?tip})"
    using assms(2) by (auto simp: unat_saturating_sub MAX_REORG_DEPTH_def unat_gt_0 split: if_splits)
  ultimately have "card (unat ` set (map fst (zv_cache s))) \<le> 1000"
    using card_mono [of "if ?tip = 0 then {0} else {unat (zv_floor v) <.. unat ?tip}" "unat ` set (map fst (zv_cache s))"] assms(2)
    by (auto simp: unat_saturating_sub MAX_REORG_DEPTH_def split: if_splits)
  moreover have "card (unat ` set (map fst (zv_cache s))) = length (zv_cache s)"
    using distinct by (metis card_image distinct_card inj_on_def length_map word_unat_eq_iff)
  ultimately show ?thesis by simp
qed

lemma snapshot_ok:
  assumes "snapshot E params now = Inr (v, s)"
  shows "cache_ok parent v s" and "zv_clock s = Suc now" and "length (zv_cache s) = 1"
    and "zv_floor v = saturating_sub (cb_height (zv_tip v)) MAX_REORG_DEPTH"
    and "rd_tip (ze_reader E now) = Inr (Some (zv_tip v))" and "zv_activation v = params"
  using assms by (auto simp: snapshot_def result_simps Let_def cache_ok_def pinned_def split: if_splits)

text \<open>C8: Whatever the node does while a view is held (blocks arriving, reorganisations, blocks
  disappearing), every height above the finalized floor resolves to the block on the chain that
  ends at the captured tip and to nothing above the tip, unless the node failed to serve the header
  of a block on that chain; in particular the expectation in \<open>resolve\<close> never trips. The memo table
  keeps the cost of any number of resolutions to at most 999 header reads, plus one for each failed
  resolution.\<close>

theorem view_is_pinned:
  assumes "linked parent E" and "snapshot E params now = Inr (v, s)"
    and "resolves E v heights s = (rs, s')"
  shows "list_all2 (\<lambda>h r. h \<le> zv_floor v \<or>
      (case r of
         Inr y \<Rightarrow> y = (if h \<le> cb_height (zv_tip v) then Some (pinned parent v h) else None)
       | Inl e \<Rightarrow> header_fails parent E v e)) heights rs \<and>
    (list_all (\<lambda>h. zv_floor v < h) heights \<longrightarrow>
       zv_clock s' - zv_clock s \<le> 999 + length (filter fails rs))"
proof -
  note start = snapshot_ok [OF assms(2)]
  note run = resolves_spec [OF assms(1) start(1) assms(3)]
  from run have "length (zv_cache s') \<le> 1000" using cache_size start(4) by blast
  with run start(3) have "list_all (\<lambda>h. zv_floor v < h) heights \<longrightarrow>
      zv_clock s' - zv_clock s \<le> 999 + length (filter fails rs)" by auto
  moreover from run have "list_all2 (\<lambda>h r. h \<le> zv_floor v \<or>
      (case r of
         Inr y \<Rightarrow> y = (if h \<le> cb_height (zv_tip v) then Some (pinned parent v h) else None)
       | Inl e \<Rightarrow> header_fails parent E v e)) heights rs"
    by (auto elim!: list_all2_mono split: sum.split fault.split)
  ultimately show ?thesis by blast
qed

text \<open>A node whose best chain is \<open>[0], [1], \<dots>\<close> up to the height given, at every time.\<close>

definition zebra_example_reader :: "nat \<Rightarrow> (unit, unit) ChainReader" where
  "zebra_example_reader n =
     \<lparr>rd_tip = Inr (Some (chain_block (of_nat n) [of_nat n])),
      rd_best_chain_block_hash = (\<lambda>h. Inr (if unat h \<le> n then Some [ucast h] else None)),
      rd_raw_block_by_hash = (\<lambda>x. Inr (Some x)),
      rd_block_header_by_hash = (\<lambda>x. Inr (Some \<lparr>hi_height = ucast (hd x), previous_block_hash = map (\<lambda>b. b - 1) x\<rparr>)),
      rd_sapling_tree_bytes = (\<lambda>_. Inr None), rd_orchard_tree_bytes = (\<lambda>_. Inr None),
      rd_ironwood_tree_bytes = (\<lambda>_. Inr None),
      rd_find_fork_point = (\<lambda>_. Inr None),
      rd_transaction = (\<lambda>_. Inr None), rd_side_chain_transaction = (\<lambda>_. Inr None),
      rd_sapling_subtree_roots = Inr [], rd_orchard_subtree_roots = Inr [], rd_ironwood_subtree_roots = Inr [],
      rd_is_unspent = (\<lambda>_. Inr True), rd_spending_transaction = (\<lambda>_. Inr None)\<rparr>"

definition zebra_example_node :: "(unit, unit) zebra_env" where
  "zebra_example_node = \<lparr>ze_reader = (\<lambda>_. zebra_example_reader 5), ze_mempool = (\<lambda>_. Inr []),
     ze_raw_transaction = (\<lambda>_ _. Inl ''unknown'')\<rparr>"

lemma zebra_example_linked: "linked (map (\<lambda>b. b - 1)) zebra_example_node"
  by (auto simp: linked_def zebra_example_node_def zebra_example_reader_def)

definition zebra_example_view :: ZebraChainView where
  "zebra_example_view = \<lparr>zv_tip = chain_block 5 [5], zv_floor = 0, zv_activation = (\<lambda>_. None)\<rparr>"

lemma zebra_example_snapshot:
  "snapshot zebra_example_node (\<lambda>_. None) 0 = Inr (zebra_example_view, \<lparr>zv_cache = [(5, [5])], zv_clock = 1\<rparr>)"
  by (simp add: snapshot_def zebra_example_node_def zebra_example_reader_def zebra_example_view_def saturating_sub_def
      MAX_REORG_DEPTH_def)

lemma zebra_example_resolves:
  "resolves zebra_example_node zebra_example_view [3, 4, 9] \<lparr>zv_cache = [(5, [5])], zv_clock = 1\<rparr> =
    ([Inr (Some [3]), Inr (Some [4]), Inr None], \<lparr>zv_cache = [(3, [3]), (4, [4]), (5, [5])], zv_clock = 3\<rparr>)"
  by (simp add: resolve_def resolve_walk.simps zebra_example_node_def zebra_example_reader_def zebra_example_view_def
      sbind_def sget_def sret_def ask_def cache_insert_def smodify_def btm_first_from_def)

theorem view_is_pinned_witness:
  "pinned (map (\<lambda>b. b - 1)) zebra_example_view 3 = [3] \<and> pinned (map (\<lambda>b. b - 1)) zebra_example_view 4 = [4]"
  using view_is_pinned [OF zebra_example_linked zebra_example_snapshot zebra_example_resolves]
  by (simp add: zebra_example_view_def)

section \<open>Tree states\<close>

text \<open>A frontier that was read: decoded from the bytes the node gave for the block, or the empty
  frontier of a pool that is not active yet at a finalized height.\<close>

definition frontier_read ::
    "ZebraChainView \<Rightarrow> BlockHeight \<Rightarrow> TreePool \<Rightarrow> (u8 list \<Rightarrow> string + 'f) \<Rightarrow> 'f \<Rightarrow>
     ChainError fault + u8 list option \<Rightarrow> 'f \<Rightarrow> bool" where
  "frontier_read v height pool read_tree empty_tree answer frontier \<longleftrightarrow>
     (\<exists>bytes. answer = Inr (Some bytes) \<and> read_tree bytes = Inr frontier) \<or>
     (answer = Inr None \<and> frontier = empty_tree \<and> height \<le> zv_floor v \<and>
        (\<forall>a. zv_activation v (activated_by pool) = Some a \<longrightarrow> height < a))"

lemma pool_frontier_Inr:
  "pool_frontier v height pool read_tree empty_tree bytes = Inr f \<longleftrightarrow>
   frontier_read v height pool read_tree empty_tree (Inr bytes) f"
  by (auto simp: pool_frontier_def frontier_read_def absent_tree_is_empty_def empty_tree_is_legitimate_def
      result_simps split: option.splits)

lemma ask_Inr [sr_simps]: "ask E f s = (Inr y, s') \<longleftrightarrow>
    f (ze_reader E (zv_clock s)) = Inr y \<and> s' = s\<lparr>zv_clock := Suc (zv_clock s)\<rparr>"
  by (auto simp: ask_def)

text \<open>A tree state is only ever made of frontiers that were read for the resolved block: a
  missing tree at or above the activation of its pool, or above the finalized floor, never becomes
  an empty frontier.\<close>

theorem tree_state_has_no_placeholder:
  assumes "linked parent E" and "cache_ok parent v s"
    and "zebra_tree_state_as_of E W v height s = (Inr (Some cs), s')"
  shows "cs_height cs = height \<and> height \<le> cb_height (zv_tip v) \<and>
    (zv_floor v < height \<longrightarrow> cs_hash cs = pinned parent v height) \<and>
    (\<exists>t. frontier_read v height TreeSapling (read_sapling_tree W) (empty_sapling_tree W)
      (rd_sapling_tree_bytes (ze_reader E t) (cs_hash cs)) (final_sapling_tree cs)) \<and>
    (\<exists>t. frontier_read v height TreeOrchard (read_orchard_tree W) (empty_orchard_tree W)
      (rd_orchard_tree_bytes (ze_reader E t) (cs_hash cs)) (final_orchard_tree cs)) \<and>
    (\<exists>t. frontier_read v height TreeIronwood (read_orchard_tree W) (empty_orchard_tree W)
      (rd_ironwood_tree_bytes (ze_reader E t) (cs_hash cs)) (final_ironwood_tree cs))"
proof -
  from assms(3) obtain y t where resolved: "resolve E v height s = (Inr y, t)"
    by (auto simp: zebra_tree_state_as_of_def sr_simps)
  with assms(3) obtain hash where y: "y = Some hash"
    by (auto simp: zebra_tree_state_as_of_def sr_simps split: option.splits)
  have "height \<le> cb_height (zv_tip v)"
    using resolved y resolve_eqs(1) [of v height E s] by (metis Pair_inject not_less option.distinct(1) sum.inject(2))
  moreover have "zv_floor v < height \<longrightarrow> hash = pinned parent v height"
    using resolve_spec(2) [OF assms(1,2) resolved] y by (auto split: if_splits)
  ultimately show ?thesis
    using assms(3) resolved y
    by (auto simp: zebra_tree_state_as_of_def sr_simps pool_frontier_Inr; metis)
qed

section \<open>Blocks and streams\<close>

text \<open>A node that keeps serving the captured chain: the headers of its blocks above the floor, and
  the finalized hashes by height. Blocks are served separately, so that one can be missing.\<close>

definition chain_served ::
    "(BlockHash \<Rightarrow> BlockHash) \<Rightarrow> ('sn, 'on) zebra_env \<Rightarrow> ZebraChainView \<Rightarrow> bool" where
  "chain_served parent E v \<longleftrightarrow> linked parent E \<and>
     (\<forall>t h. h \<le> cb_height (zv_tip v) \<longrightarrow>
        (if h \<le> zv_floor v
         then rd_best_chain_block_hash (ze_reader E t) h = Inr (Some (pinned parent v h))
         else \<exists>header. rd_block_header_by_hash (ze_reader E t) (pinned parent v h) = Inr (Some header)))"

definition block_served ::
    "(BlockHash \<Rightarrow> BlockHash) \<Rightarrow> ('sn, 'on) zebra_env \<Rightarrow> ('blk, 'tx, 'branch, 'sf, 'orf) wallet_codecs \<Rightarrow>
     ZebraChainView \<Rightarrow> (BlockHeight \<Rightarrow> 'blk) \<Rightarrow> BlockHeight \<Rightarrow> bool" where
  "block_served parent E W v block h \<longleftrightarrow>
     (\<forall>t. \<exists>bytes. rd_raw_block_by_hash (ze_reader E t) (pinned parent v h) = Inr (Some bytes) \<and>
        block_read W bytes = Inr (block h) \<and> header_read W bytes = Inr (pinned parent v h))"

lemma resolve_served:
  assumes "chain_served parent E v" and "cache_ok parent v s"
  shows "\<exists>s'. resolve E v h s =
    (Inr (if h \<le> cb_height (zv_tip v) then Some (pinned parent v h) else None), s') \<and> cache_ok parent v s'"
proof (cases "h \<le> cb_height (zv_tip v) \<and> h \<le> zv_floor v")
  case True
  with assms show ?thesis by (simp add: resolve_eqs ask_def chain_served_def)
next
  case False
  have linked: "linked parent E" using assms(1) by (simp add: chain_served_def)
  obtain r s' where run: "resolve E v h s = (r, s')" by fastforce
  note spec = resolve_spec [OF linked assms(2) run]
  show ?thesis
  proof (cases "cb_height (zv_tip v) < h")
    case True
    then have "\<not> h \<le> cb_height (zv_tip v)" by simp
    with True assms(2) show ?thesis by (simp add: resolve_eqs)
  next
    case below: False
    with False have above: "zv_floor v < h" by auto
    have no_fail: "\<not> header_fails parent E v e" for e
      using assms(1) unfolding header_fails_def chain_served_def
      by (metis Inl_Inr_False leD option.distinct(1) sum.inject(2))
    with spec(4) [OF above] obtain y where "r = Inr y" by (cases r) auto
    with spec(1) spec(2) [OF above] run show ?thesis by blast
  qed
qed

lemma get_block_served:
  assumes "chain_served parent E v" and "cache_ok parent v s" and "h \<le> cb_height (zv_tip v)"
    and "block_served parent E W v block h"
  shows "\<exists>s'. zebra_get_block E W v h s = (Inr (Some (block h)), s') \<and> cache_ok parent v s'"
    and "\<exists>s'. zebra_get_block_header E W v h s = (Inr (Some (pinned parent v h)), s') \<and> cache_ok parent v s'"
proof -
  from resolve_served [OF assms(1,2), of h] assms(3) obtain t
    where t: "resolve E v h s = (Inr (Some (pinned parent v h)), t)" "cache_ok parent v t" by auto
  from assms(4) obtain bytes where
    "rd_raw_block_by_hash (ze_reader E (zv_clock t)) (pinned parent v h) = Inr (Some bytes)"
    "block_read W bytes = Inr (block h)" "header_read W bytes = Inr (pinned parent v h)"
    by (auto simp: block_served_def)
  with t show "\<exists>s'. zebra_get_block E W v h s = (Inr (Some (block h)), s') \<and> cache_ok parent v s'"
    and "\<exists>s'. zebra_get_block_header E W v h s = (Inr (Some (pinned parent v h)), s') \<and> cache_ok parent v s'"
    by (simp_all add: zebra_get_block_def zebra_get_block_header_def sbind_def ask_def slift_def sret_def
        convert_block_def)
qed

lemma get_block_gone:
  assumes "chain_served parent E v" and "cache_ok parent v s"
    and "cb_height (zv_tip v) < h \<or> (\<forall>t. rd_raw_block_by_hash (ze_reader E t) (pinned parent v h) = Inr None)"
  shows "\<exists>s'. zebra_get_block E W v h s = (Inr None, s') \<and> cache_ok parent v s'"
    and "\<exists>s'. zebra_get_block_header E W v h s = (Inr None, s') \<and> cache_ok parent v s'"
proof -
  from resolve_served [OF assms(1,2)] obtain t
    where t: "resolve E v h s = (Inr (if h \<le> cb_height (zv_tip v) then Some (pinned parent v h) else None), t)"
      "cache_ok parent v t" by blast
  then show "\<exists>s'. zebra_get_block E W v h s = (Inr None, s') \<and> cache_ok parent v s'"
    and "\<exists>s'. zebra_get_block_header E W v h s = (Inr None, s') \<and> cache_ok parent v s'"
    using assms(3) by (auto simp: zebra_get_block_def zebra_get_block_header_def sbind_def ask_def sret_def)
qed

text \<open>A stream polled often enough yields the blocks from its start up to the first one the node no
  longer has, or to its last height, and then ends; it is not an error when it ends early.\<close>

lemma stream_spec:
  assumes "height_ops_ok H" and "chain_served parent E v"
    and "last_height \<le> cb_height (zv_tip v)" and "Suc (unat last_height) < 2 ^ 32"
    and "m \<le> Suc (unat last_height)"
    and "\<And>h. unat h < m \<Longrightarrow> unat start \<le> unat h \<Longrightarrow> block_served parent E W v block h"
    and "m \<le> unat last_height \<Longrightarrow>
      \<forall>t. rd_raw_block_by_hash (ze_reader E t) (pinned parent v (of_nat m)) = Inr None"
  shows "unat start \<le> m \<Longrightarrow> m - unat start \<le> n \<Longrightarrow> cache_ok parent v s \<Longrightarrow>
    \<exists>s'. stream_blocks_inner H E W v n start last_height s =
      (map (Inr \<circ> block \<circ> of_nat) [unat start..<m], s') \<and> cache_ok parent v s'"
  using assms(6)
proof (induction n arbitrary: start s)
  case 0
  then show ?case by simp
next
  case (Suc n)
  show ?case
  proof (cases "unat start = m")
    case True
    show ?thesis
    proof (cases "last_height < start")
      case True
      with Suc.prems \<open>unat start = m\<close> show ?thesis by simp
    next
      case False
      then have "m \<le> unat last_height" using \<open>unat start = m\<close> by (simp add: word_less_nat_alt)
      with assms(7) have "\<forall>t. rd_raw_block_by_hash (ze_reader E t) (pinned parent v start) = Inr None"
        using \<open>unat start = m\<close> by auto
      with get_block_gone(1) [OF assms(2) Suc.prems(3)] obtain s'
        where "zebra_get_block E W v start s = (Inr None, s')" "cache_ok parent v s'" by blast
      with False \<open>unat start = m\<close> show ?thesis by simp
    qed
  next
    case False
    with Suc.prems(1) have lt: "unat start < m" by simp
    with assms(5) have le: "start \<le> last_height" by (simp add: word_le_nat_alt)
    have succ: "unat (h_add H start 1) = Suc (unat start)"
      using h_add_one [OF assms(1), of start "last_height + 1"] le assms(4)
      by (simp add: word_less_nat_alt word_le_nat_alt unat_word_ariths)
    have served: "block_served parent E W v block start" using Suc.prems(4) lt by blast
    from get_block_served(1) [OF assms(2) Suc.prems(3) _ served] le assms(3) obtain t
      where t: "zebra_get_block E W v start s = (Inr (Some (block start)), t)" "cache_ok parent v t"
      by fastforce
    from Suc.IH [of "h_add H start 1" t] Suc.prems(2,4) lt t(2) succ obtain s'
      where "stream_blocks_inner H E W v n (h_add H start 1) last_height t =
          (map (Inr \<circ> block \<circ> of_nat) [Suc (unat start)..<m], s')" "cache_ok parent v s'"
      by fastforce
    with t le lt show ?thesis by (simp add: upt_conv_Cons not_less)
  qed
qed

section \<open>Panics\<close>

text \<open>The state service answers each request with a response of its kind, as its interface says;
  the reader's \<open>unreachable!\<close> arms rely on it.\<close>

fun answers_kind :: "ReadRequest \<Rightarrow> ('zb, 'ztx, 'ztree, 'utxo) ReadResponse \<Rightarrow> bool" where
  "answers_kind ReqTip resp = (\<exists>x. resp = RespTip x)"
| "answers_kind (ReqBestChainBlockHash _) resp = (\<exists>x. resp = RespBlockHash x)"
| "answers_kind (ReqAnyChainBlock _) resp = (\<exists>x. resp = RespBlock x)"
| "answers_kind (ReqBlockHeader _) resp = (\<exists>x y. resp = RespBlockHeader x y)"
| "answers_kind (ReqSaplingTree _) resp = (\<exists>x. resp = RespSaplingTree x)"
| "answers_kind (ReqOrchardTree _) resp = (\<exists>x. resp = RespOrchardTree x)"
| "answers_kind (ReqIronwoodTree _) resp = (\<exists>x. resp = RespIronwoodTree x)"
| "answers_kind (ReqFindForkPoint _) resp = (\<exists>x. resp = RespForkPoint x)"
| "answers_kind (ReqTransaction _) resp = (\<exists>x. resp = RespTransaction x)"
| "answers_kind (ReqAnyChainTransaction _) resp = (\<exists>x. resp = RespAnyChainTransaction x)"
| "answers_kind (ReqSaplingSubtrees _ _) resp = (\<exists>x. resp = RespSaplingSubtrees x)"
| "answers_kind (ReqOrchardSubtrees _ _) resp = (\<exists>x. resp = RespOrchardSubtrees x)"
| "answers_kind (ReqIronwoodSubtrees _ _) resp = (\<exists>x. resp = RespIronwoodSubtrees x)"
| "answers_kind (ReqUnspentBestChainUtxo _) resp = (\<exists>x. resp = RespUnspentBestChainUtxo x)"
| "answers_kind (ReqSpendingTransactionId _) resp = (\<exists>x. resp = RespTransactionId x)"

definition well_typed :: "('zb, 'ztx, 'ztree, 'utxo) read_state \<Rightarrow> bool" where
  "well_typed rs \<longleftrightarrow> (\<forall>req resp. rs req = Inr resp \<longrightarrow> answers_kind req resp)"

definition calm :: "ChainError fault + 'a \<Rightarrow> bool" where
  "calm r \<longleftrightarrow> (\<forall>msg. r \<noteq> Inl (Panic msg))"

definition calm_reader :: "('sn, 'on) ChainReader \<Rightarrow> bool" where
  "calm_reader r \<longleftrightarrow> calm (rd_tip r) \<and> (\<forall>h. calm (rd_best_chain_block_hash r h)) \<and>
     (\<forall>x. calm (rd_raw_block_by_hash r x) \<and> calm (rd_block_header_by_hash r x) \<and>
        calm (rd_sapling_tree_bytes r x) \<and> calm (rd_orchard_tree_bytes r x) \<and> calm (rd_ironwood_tree_bytes r x)) \<and>
     (\<forall>l. calm (rd_find_fork_point r l)) \<and>
     (\<forall>t. calm (rd_transaction r t) \<and> calm (rd_side_chain_transaction r t)) \<and>
     calm (rd_sapling_subtree_roots r) \<and> calm (rd_orchard_subtree_roots r) \<and> calm (rd_ironwood_subtree_roots r) \<and>
     (\<forall>p. calm (rd_is_unspent r p) \<and> calm (rd_spending_transaction r p))"

lemma calm_simps [simp]: "calm (Inr x)" "calm (Inl (Raise e))" "\<not> calm (Inl (Panic msg))"
  by (simp_all add: calm_def)

lemma calm_map_err [simp]: "calm (map_err (Raise \<circ> f) r)"
  by (cases r) simp_all

lemma calm_rbind: "calm m \<Longrightarrow> (\<And>x. m = Inr x \<Longrightarrow> calm (f x)) \<Longrightarrow> calm (rbind m f)"
  by (cases m) (auto simp: calm_def)

lemma calm_call: "well_typed rs \<Longrightarrow> (\<And>resp. answers_kind req resp \<Longrightarrow> calm (f resp)) \<Longrightarrow> calm (rbind (rs_call rs req) f)"
  by (rule calm_rbind) (auto simp: rs_call_def well_typed_def result_simps)

lemma calm_try_map: "(\<And>x. calm (f x)) \<Longrightarrow> calm (try_map f xs)"
  by (induction xs) (auto intro!: calm_rbind)

lemma calm_decode_roots: "calm (decode_roots node msg subtrees)"
  unfolding decode_roots_def
  by (rule calm_try_map) (auto simp: ok_or_def split: prod.split option.split)

lemma calm_codecs [simp]: "calm (tx_to_bytes C tx)" "calm (block_to_bytes C b)" "calm (convert_block W bs)"
    "calm (convert_transaction W bs h)"
  by (simp_all add: tx_to_bytes_def block_to_bytes_def convert_block_def convert_transaction_def)

lemma read_state_reader_calm:
  assumes "well_typed rs"
  shows "calm_reader (read_state_chain_reader C sapling_node orchard_node rs)"
proof -
  note defs = rs_tip_def rs_best_chain_block_hash_def rs_raw_block_by_hash_def rs_sapling_tree_bytes_def
    rs_orchard_tree_bytes_def rs_ironwood_tree_bytes_def rs_find_fork_point_def rs_transaction_def
    rs_side_chain_transaction_def rs_sapling_subtree_roots_def rs_orchard_subtree_roots_def
    rs_ironwood_subtree_roots_def rs_is_unspent_def rs_spending_transaction_def
  have "calm (rs_block_header_by_hash rs x)" for x
    using assms by (auto simp: well_typed_def rs_block_header_by_hash_def split: sum.split) fastforce+
  then show ?thesis
    unfolding calm_reader_def read_state_chain_reader_def
    by (auto simp: defs calm_decode_roots intro!: calm_call [OF assms] calm_rbind split: option.split AnyTx.split)
qed

text \<open>An operation that keeps the memo table pinned and does not panic.\<close>

abbreviation safe_op :: "(BlockHash \<Rightarrow> BlockHash) \<Rightarrow> ZebraChainView \<Rightarrow> 'a zv \<Rightarrow> bool" where
  "safe_op parent v m \<equiv>
     sr_valid (cache_ok parent v) m (\<lambda>_. cache_ok parent v) (\<lambda>e s. cache_ok parent v s \<and> (\<forall>msg. e \<noteq> Panic msg))"

lemma safe_ask: "(\<And>t. calm (f (ze_reader E t))) \<Longrightarrow> safe_op parent v (ask E f)"
  by (auto simp: sr_valid_def ask_def calm_def split: sum.split)

lemma safe_ask_rpc: "safe_op parent v (ask_rpc f)"
  by (auto simp: sr_valid_def ask_rpc_def map_err_def split: sum.split)

lemma safe_slift: "calm r \<Longrightarrow> safe_op parent v (slift r)"
  by (auto simp: sr_valid_def slift_def calm_def split: sum.split)

lemma safe_sret: "safe_op parent v (sret x)"
  by (simp add: sr_valid_def sret_def)

lemma safe_sbind: "safe_op parent v m \<Longrightarrow> (\<And>x. safe_op parent v (f x)) \<Longrightarrow> safe_op parent v (sbind m f)"
  by (rule sr_valid_sbind)

lemma calm_readerD:
  assumes "calm_reader r"
  shows "calm (rd_tip r)" "calm (rd_best_chain_block_hash r h)" "calm (rd_raw_block_by_hash r x)"
    "calm (rd_block_header_by_hash r x)" "calm (rd_sapling_tree_bytes r x)" "calm (rd_orchard_tree_bytes r x)"
    "calm (rd_ironwood_tree_bytes r x)" "calm (rd_find_fork_point r l)" "calm (rd_transaction r t)"
    "calm (rd_side_chain_transaction r t)" "calm (rd_is_unspent r p)" "calm (rd_spending_transaction r p)"
  using assms by (auto simp: calm_reader_def)

lemma resolve_safe:
  assumes "linked parent E" and "\<And>t. calm_reader (ze_reader E t)"
  shows "safe_op parent v (resolve E v h)"
proof (rule sr_validI)
  fix s e t
  assume ok: "cache_ok parent v s" and run: "resolve E v h s = (Inl e, t)"
  note spec = resolve_spec [OF assms(1) ok run]
  have "\<forall>msg. e \<noteq> Panic msg"
  proof (cases "zv_floor v < h")
    case True
    with spec(4) have "header_fails parent E v e" by blast
    then show ?thesis using calm_readerD(4) [OF assms(2)] by (auto simp: header_fails_def calm_def)
  next
    case False
    then have "resolve E v h s = ask E (\<lambda>r. rd_best_chain_block_hash r h) s \<or> resolve E v h s = (Inr None, s)"
      using resolve_eqs(1) [of v h E s] resolve_eqs(2) [of h v E s] by (meson not_le)
    with run have "rd_best_chain_block_hash (ze_reader E (zv_clock s)) h = Inl e" by (auto simp: ask_def)
    with calm_readerD(2) [OF assms(2), of "zv_clock s" h] show ?thesis by (auto simp: calm_def)
  qed
  with spec(1) show "cache_ok parent v t \<and> (\<forall>msg. e \<noteq> Panic msg)" by blast
qed (use resolve_spec(1) [OF assms(1)] in blast)

lemma pool_frontier_calm: "calm (pool_frontier v height pool read_tree empty_tree bytes)"
  by (auto simp: pool_frontier_def split: option.split)

lemma safe_option:
  "safe_op parent v m \<Longrightarrow> (\<And>y. safe_op parent v (f y)) \<Longrightarrow> safe_op parent v (case x of None \<Rightarrow> m | Some y \<Rightarrow> f y)"
  by (cases x) auto

lemma safe_if: "safe_op parent v m \<Longrightarrow> safe_op parent v m' \<Longrightarrow> safe_op parent v (if b then m else m')"
  by simp

lemmas safe_rules = safe_option safe_if safe_sbind safe_sret safe_ask safe_ask_rpc safe_slift
  pool_frontier_calm calm_codecs calm_map_err

lemma view_operations_safe:
  assumes "linked parent E" and "\<And>t. calm_reader (ze_reader E t)"
  shows "safe_op parent v (zebra_tree_state_as_of E W v h)"
    and "safe_op parent v (zebra_get_block_header E W v h)" and "safe_op parent v (zebra_get_block E W v h)"
    and "safe_op parent v (zebra_find_fork_point E locator)"
    and "safe_op parent v (zebra_get_transaction H E W v txid)"
    and "safe_op parent v (zebra_get_transaction_status E W txid)"
    and "safe_op parent v (zebra_outpoint_spend_status E outpoint)"
    and "safe_op parent v (zebra_block_height E x)" and "safe_op parent v (zebra_get_mempool_stream H E W v)"
proof -
  note reads = calm_readerD [OF assms(2)] and resolve = resolve_safe [OF assms]
  show "safe_op parent v (zebra_tree_state_as_of E W v h)"
    unfolding zebra_tree_state_as_of_def by (intro safe_rules reads resolve)
  show "safe_op parent v (zebra_get_block_header E W v h)" "safe_op parent v (zebra_get_block E W v h)"
    unfolding zebra_get_block_header_def zebra_get_block_def by (intro safe_rules reads resolve)+
  show "safe_op parent v (zebra_find_fork_point E locator)" "safe_op parent v (zebra_block_height E x)"
    "safe_op parent v (zebra_get_mempool_stream H E W v)"
    unfolding zebra_find_fork_point_def zebra_block_height_def zebra_get_mempool_stream_def
    by (intro safe_rules reads)+
  show "safe_op parent v (zebra_get_transaction H E W v txid)"
    unfolding zebra_get_transaction_def Let_def by (intro safe_rules reads resolve)
  show "safe_op parent v (zebra_get_transaction_status E W txid)" "safe_op parent v (zebra_outpoint_spend_status E outpoint)"
    unfolding zebra_get_transaction_status_def zebra_outpoint_spend_status_def by (intro safe_rules reads)+
qed

text \<open>C11: Over a state service that answers requests in kind, at every time, no operation of a view
  panics, from the state the view is captured in or any state its operations lead to: not in the
  reader's \<open>unreachable!\<close> arms and not in the expectation that the tip is cached.\<close>

theorem zebra_view_never_panics:
  assumes "\<And>t. \<exists>C sapling_node orchard_node rs. ze_reader E t = read_state_chain_reader C sapling_node orchard_node rs \<and> well_typed rs"
    and "linked parent E"
  shows "(\<forall>params now v s. snapshot E params now = Inr (v, s) \<longrightarrow> cache_ok parent v s) \<and>
    safe_op parent v (resolve E v h) \<and> safe_op parent v (zebra_tree_state_as_of E W v h) \<and>
    safe_op parent v (zebra_get_block_header E W v h) \<and> safe_op parent v (zebra_get_block E W v h) \<and>
    safe_op parent v (zebra_find_fork_point E locator) \<and> safe_op parent v (zebra_get_transaction H E W v txid) \<and>
    safe_op parent v (zebra_get_transaction_status E W txid) \<and> safe_op parent v (zebra_outpoint_spend_status E outpoint) \<and>
    safe_op parent v (zebra_block_height E x) \<and> safe_op parent v (zebra_get_mempool_stream H E W v)"
proof -
  have calm: "calm_reader (ze_reader E t)" for t
    using assms(1) [of t] read_state_reader_calm by metis
  show ?thesis
    by (intro conjI allI impI resolve_safe [OF assms(2) calm] view_operations_safe [OF assms(2) calm])
      (erule snapshot_ok(1))
qed

text \<open>A state service over the chain \<open>[0], \<dots>, [5]\<close>.\<close>

fun example_service :: "(unit, unit, unit, unit) read_state" where
  "example_service ReqTip = Inr (RespTip (Some (ZHeight 5, ZBlockHash [5])))"
| "example_service (ReqBestChainBlockHash h) = Inr (RespBlockHash (Some (ZBlockHash [ucast (zh_height h)])))"
| "example_service (ReqBlockHeader (ByHash x)) =
     Inr (RespBlockHeader (ZBlockHash (map (\<lambda>b. b - 1) (zbh_bytes x))) (ZHeight (ucast (hd (zbh_bytes x)))))"
| "example_service _ = Inl ''not available''"

definition service_node :: "(unit, unit) zebra_env" where
  "service_node =
     \<lparr>ze_reader = (\<lambda>_. read_state_chain_reader
        \<lparr>zblock_bytes = (\<lambda>_. Inr []), ztx_bytes = (\<lambda>_. Inr []), to_rpc_bytes = (\<lambda>_. [])\<rparr>
        (\<lambda>_. Some ()) (\<lambda>_. Some ()) example_service),
      ze_mempool = (\<lambda>_. Inr []), ze_raw_transaction = (\<lambda>_ _. Inl ''unknown'')\<rparr>"

lemma example_service_well_typed: "well_typed example_service"
  unfolding well_typed_def
proof (intro allI impI)
  fix req resp assume "example_service req = Inr resp"
  then show "answers_kind req resp" by (cases req rule: example_service.cases) auto
qed

lemma service_linked: "linked (map (\<lambda>b. b - 1)) service_node"
  by (auto simp: linked_def service_node_def read_state_chain_reader_def rs_block_header_by_hash_def
      to_zebra_hash_def block_hash_def)

theorem zebra_view_never_panics_witness:
  "safe_op (map (\<lambda>b. b - 1)) zebra_example_view (resolve service_node zebra_example_view 3) \<and>
   fst (resolve service_node zebra_example_view 4 \<lparr>zv_cache = [(5, [5])], zv_clock = 1\<rparr>) = Inr (Some [4])"
proof
  have "\<exists>(C :: (unit, unit, unit) zebra_codecs) sapling_node orchard_node (rs :: (unit, unit, unit, unit) read_state).
      ze_reader service_node t = read_state_chain_reader C sapling_node orchard_node rs \<and> well_typed rs" for t
    using example_service_well_typed by (auto simp: service_node_def)
  from zebra_view_never_panics [OF this service_linked]
  show "safe_op (map (\<lambda>b. b - 1)) zebra_example_view (resolve service_node zebra_example_view 3)" by blast
  show "fst (resolve service_node zebra_example_view 4 \<lparr>zv_cache = [(5, [5])], zv_clock = 1\<rparr>) = Inr (Some [4])"
    by (simp add: resolve_def resolve_walk.simps service_node_def zebra_example_view_def read_state_chain_reader_def
        rs_block_header_by_hash_def to_zebra_hash_def block_hash_def
        sbind_def sget_def sret_def ask_def cache_insert_def smodify_def btm_first_from_def)
qed

text \<open>Bytes are served for Sapling at height 0, where the other pools are not active.\<close>

definition sapling_node :: "(unit, unit) zebra_env" where
  "sapling_node = zebra_example_node\<lparr>ze_reader := (\<lambda>t. (zebra_example_reader 5)\<lparr>
     rd_sapling_tree_bytes := (\<lambda>x. Inr (Some (7 # x)))\<rparr>)\<rparr>"

definition tree_codecs :: "(unit, unit, unit, u8 list, u8 list) wallet_codecs" where
  "tree_codecs =
     \<lparr>block_read = (\<lambda>_. Inr ()), header_read = Inr, transaction_read = (\<lambda>_ _. Inr ()),
      transaction_write = (\<lambda>_. Inr []), branch_for_height = (\<lambda>_. ()), read_sapling_tree = Inr,
      read_orchard_tree = Inr, empty_sapling_tree = [], empty_orchard_tree = [],
      txid_display = (\<lambda>_. []), hex_decode = (\<lambda>_. Inr []), hex_encode = (\<lambda>_. [])\<rparr>"

theorem tree_state_has_no_placeholder_witness:
  "\<exists>cs s'. zebra_tree_state_as_of sapling_node tree_codecs zebra_example_view 0 \<lparr>zv_cache = [(5, [5])], zv_clock = 1\<rparr> =
      (Inr (Some cs), s') \<and> final_sapling_tree cs = [7, 0] \<and> final_orchard_tree cs = [] \<and>
      frontier_read zebra_example_view 0 TreeOrchard Inr [] (Inr None) (final_orchard_tree cs)"
proof -
  let ?cs = "\<lparr>cs_height = 0, cs_hash = [0], final_sapling_tree = [7, 0], final_orchard_tree = [], final_ironwood_tree = []\<rparr>"
  have linked: "linked (map (\<lambda>b. b - 1)) sapling_node"
    by (auto simp: linked_def sapling_node_def zebra_example_reader_def)
  have cache: "cache_ok (map (\<lambda>b. b - 1)) zebra_example_view \<lparr>zv_cache = [(5, [5])], zv_clock = 1\<rparr>"
    by (rule snapshot_ok(1) [OF zebra_example_snapshot])
  have run: "zebra_tree_state_as_of sapling_node tree_codecs zebra_example_view 0 \<lparr>zv_cache = [(5, [5])], zv_clock = 1\<rparr> =
      (Inr (Some ?cs), \<lparr>zv_cache = [(5, [5])], zv_clock = 5\<rparr>)"
    by (simp add: zebra_tree_state_as_of_def resolve_eqs zebra_example_view_def sapling_node_def zebra_example_reader_def
        sbind_def ask_def sret_def slift_def pool_frontier_def tree_codecs_def absent_tree_is_empty_def
        empty_tree_is_legitimate_def)
  from tree_state_has_no_placeholder [OF linked cache run] run show ?thesis
    by (simp add: sapling_node_def zebra_example_reader_def tree_codecs_def)
qed

end
