(* ===== verification/Zebra_Mempool.thy ===== *)
theory Zebra_Mempool
  imports Zebra_View
begin

text \<open>
  What the zebra backend's mempool stream (\<open>get_mempool_stream\<close> in \<open>backends/zebra/src/chain.rs\<close>)
  yields, against a specification over the sequence of the validator's answers.
\<close>

section \<open>The mempool stream\<close>

text \<open>What the stream should yield: for each turn until the tip changes, the transactions of the ids
  listed for the first time, in the order they are listed, that can be fetched and decoded.\<close>

fun fresh_ids :: "string set \<Rightarrow> string list \<Rightarrow> string list" where
  "fresh_ids seen [] = []"
| "fresh_ids seen (txid # txids) =
     (if txid \<in> seen then fresh_ids seen txids else txid # fresh_ids (insert txid seen) txids)"

definition fetched ::
    "('blk, 'tx, 'branch, 'sf, 'orf) wallet_codecs \<Rightarrow> 'branch \<Rightarrow> (string \<Rightarrow> string + string) \<Rightarrow> string \<Rightarrow> 'tx option" where
  "fetched W branch fetch txid =
     (case rbind (fetch txid) (\<lambda>raw_hex. rbind (hex_decode W raw_hex) (\<lambda>bytes. transaction_read W bytes branch)) of
        Inl _ \<Rightarrow> None | Inr tx \<Rightarrow> Some tx)"

definition tip_unchanged :: "BlockHash \<Rightarrow> mempool_turn \<Rightarrow> bool" where
  "tip_unchanged tip_hash turn \<longleftrightarrow> (\<exists>tip. mt_tip turn = Inr (Some tip) \<and> cb_hash tip = tip_hash)"

definition listed :: "mempool_turn \<Rightarrow> string list" where
  "listed turn = (case mt_mempool turn of Inl _ \<Rightarrow> [] | Inr txids \<Rightarrow> txids)"

fun mempool_spec ::
    "('blk, 'tx, 'branch, 'sf, 'orf) wallet_codecs \<Rightarrow> 'branch \<Rightarrow> BlockHash \<Rightarrow> string set \<Rightarrow> mempool_turn list \<Rightarrow>
     (string \<times> 'tx option) list" where
  "mempool_spec W branch tip_hash seen [] = []"
| "mempool_spec W branch tip_hash seen (turn # turns) =
     (if tip_unchanged tip_hash turn
      then map (\<lambda>txid. (txid, fetched W branch (mt_raw turn) txid)) (fresh_ids seen (listed turn))
             @ mempool_spec W branch tip_hash (seen \<union> set (listed turn)) turns
      else [])"

definition spec_items :: "(string \<times> 'tx option) list \<Rightarrow> 'tx list" where
  "spec_items = List.map_filter snd"

text \<open>Polling the stream \<open>n\<close> times.\<close>

fun mempool_polls ::
    "('blk, 'tx, 'branch, 'sf, 'orf) wallet_codecs \<Rightarrow> 'branch \<Rightarrow> BlockHash \<Rightarrow> nat \<Rightarrow> mempool_turn list \<Rightarrow>
     'tx mempool_state \<Rightarrow> 'tx list" where
  "mempool_polls W branch tip_hash 0 turns st = []"
| "mempool_polls W branch tip_hash (Suc n) turns st =
     (case mempool_next W branch tip_hash turns st of
        Item tx st turns \<Rightarrow> tx # mempool_polls W branch tip_hash n turns st
      | _ \<Rightarrow> [])"

lemma spec_items_Nil [simp]: "spec_items [] = []"
  by (simp add: spec_items_def List.map_filter_simps)

lemma spec_items_append: "spec_items (xs @ ys) = spec_items xs @ spec_items ys"
  by (induction xs) (simp_all add: spec_items_def List.map_filter_simps split: option.split)

lemma buffer_txids_spec:
  "buffer_txids W branch fetch txids st =
     st\<lparr>ms_seen := ms_seen st \<union> set txids,
        ms_pending := ms_pending st @
          spec_items (map (\<lambda>txid. (txid, fetched W branch fetch txid)) (fresh_ids (ms_seen st) txids))\<rparr>"
proof (induction txids arbitrary: st)
  case Nil
  then show ?case by (simp add: spec_items_def List.map_filter_simps)
next
  case (Cons txid txids)
  then show ?case
    by (auto simp: Let_def fetched_def spec_items_def List.map_filter_simps insert_absorb split: sum.split)
qed

text \<open>The stream's remaining items.\<close>

definition mempool_rest ::
    "('blk, 'tx, 'branch, 'sf, 'orf) wallet_codecs \<Rightarrow> 'branch \<Rightarrow> BlockHash \<Rightarrow> mempool_turn list \<Rightarrow> 'tx mempool_state \<Rightarrow> 'tx list" where
  "mempool_rest W branch tip_hash turns st =
     ms_pending st @ spec_items (mempool_spec W branch tip_hash (ms_seen st) turns)"

lemma mempool_next_rest:
  "case mempool_next W branch tip_hash turns st of
     Item tx st' turns' \<Rightarrow> mempool_rest W branch tip_hash turns st = tx # mempool_rest W branch tip_hash turns' st'
   | _ \<Rightarrow> mempool_rest W branch tip_hash turns st = []"
proof (induction turns arbitrary: st)
  case Nil
  then show ?case
    by (cases "ms_pending st") (simp_all add: mempool_next.simps mempool_rest_def spec_items_def List.map_filter_simps)
next
  case (Cons turn turns)
  show ?case
  proof (cases "ms_pending st")
    case (Cons tx pending)
    then show ?thesis by (simp add: mempool_next.simps mempool_rest_def)
  next
    case Nil
    show ?thesis
    proof (cases "tip_unchanged tip_hash turn")
      case False
      with Nil have "mempool_next W branch tip_hash (turn # turns) st = Ended"
        by (auto simp: mempool_next.simps [of _ _ _ "turn # turns"] tip_unchanged_def split: sum.split option.split)
      with False Nil show ?thesis by (simp add: mempool_rest_def spec_items_def List.map_filter_simps)
    next
      case True
      let ?st = "case mt_mempool turn of Inl _ \<Rightarrow> st | Inr txids \<Rightarrow> buffer_txids W branch (mt_raw turn) txids st"
      have step: "mempool_next W branch tip_hash (turn # turns) st = mempool_next W branch tip_hash turns ?st"
        using True Nil by (auto simp: mempool_next.simps [of _ _ _ "turn # turns"] tip_unchanged_def split: sum.split)
      have "mempool_rest W branch tip_hash turns ?st = mempool_rest W branch tip_hash (turn # turns) st"
        using True Nil
        by (auto simp: mempool_rest_def listed_def buffer_txids_spec spec_items_append split: sum.split)
      with Cons.IH [of ?st] show ?thesis unfolding step by (auto split: polled.splits)
    qed
  qed
qed

lemma fresh_ids_set: "set (fresh_ids seen txids) = set txids - seen"
  by (induction seen txids rule: fresh_ids.induct) auto

lemma fresh_ids_distinct: "distinct (fresh_ids seen txids)"
  by (induction seen txids rule: fresh_ids.induct) (auto simp: fresh_ids_set)

lemma mempool_spec_ids:
  "fst ` set (mempool_spec W branch tip_hash seen turns) =
     \<Union> (set ` listed ` set (takeWhile (tip_unchanged tip_hash) turns)) - seen"
proof (induction turns arbitrary: seen)
  case Nil
  then show ?case by simp
next
  case (Cons turn turns)
  show ?case
  proof (cases "tip_unchanged tip_hash turn")
    case True
    then have "fst ` set (mempool_spec W branch tip_hash seen (turn # turns)) = (set (listed turn) - seen) \<union>
        fst ` set (mempool_spec W branch tip_hash (seen \<union> set (listed turn)) turns)"
      by (simp add: image_Un image_image fresh_ids_set del: Un_iff)
    with True show ?thesis by (simp only: Cons.IH) auto
  qed simp
qed

lemma mempool_spec_distinct: "distinct (map fst (mempool_spec W branch tip_hash seen turns))"
proof (induction turns arbitrary: seen)
  case Nil
  then show ?case by simp
next
  case (Cons turn turns)
  then show ?case
    using mempool_spec_ids [of W branch tip_hash "seen \<union> set (listed turn)" turns]
    by (auto simp: comp_def fresh_ids_distinct fresh_ids_set)
qed

text \<open>Polling a mempool stream yields the transactions of the ids the validator lists while the tip
  is the captured one, in order: each id is fetched once, when it is first listed, and nothing is
  yielded once the tip has changed.\<close>

theorem mempool_stream_exact:
  "mempool_polls W branch tip_hash n turns \<lparr>ms_seen = {}, ms_pending = []\<rparr> =
     take n (spec_items (mempool_spec W branch tip_hash {} turns)) \<and>
   distinct (map fst (mempool_spec W branch tip_hash {} turns)) \<and>
   fst ` set (mempool_spec W branch tip_hash {} turns) =
     \<Union> (set ` listed ` set (takeWhile (tip_unchanged tip_hash) turns))"
proof (intro conjI)
  have "mempool_polls W branch tip_hash n turns st = take n (mempool_rest W branch tip_hash turns st)" for st
  proof (induction n arbitrary: turns st)
    case 0
    then show ?case by simp
  next
    case (Suc n)
    then show ?case using mempool_next_rest [of W branch tip_hash turns st] by (auto split: polled.splits)
  qed
  then show "mempool_polls W branch tip_hash n turns \<lparr>ms_seen = {}, ms_pending = []\<rparr> =
     take n (spec_items (mempool_spec W branch tip_hash {} turns))"
    by (simp add: mempool_rest_def)
  show "fst ` set (mempool_spec W branch tip_hash {} turns) =
     \<Union> (set ` listed ` set (takeWhile (tip_unchanged tip_hash) turns))" by (simp add: mempool_spec_ids)
qed (rule mempool_spec_distinct)

end
