(* ===== verification/Sync_Progress.thy ===== *)
theory Sync_Progress
  imports Sync_Engine
begin

text \<open>
  What a pass of steady state achieves over a chain view that behaves as the trait \<open>ChainView\<close>
  documents: it ends at the view's tip, leaves the recovering state only there, and never trips
  the assertions in its code.
\<close>

section \<open>Reaching the tip\<close>

text \<open>What the trait \<open>ChainView\<close> documents, for a view with the given tip. The heights of a
  stream count up by one from its start.\<close>

fun counts_up :: "height_ops \<Rightarrow> ('blk, 'ts, 'd, 'nf, 'sb) scanner \<Rightarrow> BlockHeight \<Rightarrow>
    'blk result_stream \<Rightarrow> bool" where
  "counts_up H S start [] = True"
| "counts_up H S start (Inl e # blocks) = True"
| "counts_up H S start (Inr block # blocks) \<longleftrightarrow>
     claimed_height S block = start \<and> counts_up H S (h_add H start 1) blocks"

definition view_ok ::
    "height_ops \<Rightarrow> ('blk, 'ts, 'd, 'nf, 'sb) scanner \<Rightarrow> ('blk, 'ts, 'tx) ChainView \<Rightarrow> ChainBlock \<Rightarrow> bool" where
  "view_ok H S V tip \<longleftrightarrow>
     view_tip V = Inr tip \<and>
     (\<forall>locator b. find_fork_point V locator = Inr (Some b) \<longrightarrow>
        cb_hash b \<in> set (hashes locator) \<and>
        get_block_header V (cb_height b) = Inr (Some (cb_hash b))) \<and>
     (\<forall>h x. get_block_header V h = Inr (Some x) \<longrightarrow>
        h \<le> cb_height tip \<and> (h = cb_height tip \<longrightarrow> x = cb_hash tip)) \<and>
     (\<forall>start. counts_up H S start (stream_blocks_to_tip V start)) \<and>
     (\<forall>start bs. stream_blocks_to_tip V start = map Inr bs \<longrightarrow>
        (if bs = [] then cb_height tip < start
         else chain_block (claimed_height S (last bs)) (header_hash S (last bs)) = tip))"

text \<open>A block hash identifies one height, and truncation lands at or below its target, keeping
  the blocks it does not remove.\<close>

definition hashes_identify :: "'db rewind_db \<Rightarrow> 'db \<Rightarrow> ('blk, 'ts, 'tx) ChainView \<Rightarrow> bool" where
  "hashes_identify W db V \<longleftrightarrow>
     (\<forall>h k x. get_block_hash W db h = Inr (Some x) \<and> get_block_header V k = Inr (Some x) \<longrightarrow> h = k)"

definition rewind_ok :: "'db rewind_db \<Rightarrow> bool" where
  "rewind_ok W \<longleftrightarrow>
     (\<forall>target db h db'. truncate_to_height W target db = (Inr h, db') \<longrightarrow>
        h \<le> target \<and> (\<forall>k \<le> h. get_block_hash W db' k = get_block_hash W db k)) \<and>
     (\<forall>target db safe req db'.
        truncate_to_height W target db = (Inl (RequestedRewindInvalid (Some safe) req), db') \<longrightarrow>
        safe \<le> target \<and> db' = db)"

lemma view_okD:
  assumes "view_ok H S V tip"
  shows "view_tip V = Inr tip"
    and "find_fork_point V locator = Inr (Some b) \<Longrightarrow>
      cb_hash b \<in> set (hashes locator) \<and> get_block_header V (cb_height b) = Inr (Some (cb_hash b))"
    and "get_block_header V h = Inr (Some x) \<Longrightarrow> h \<le> cb_height tip"
    and "get_block_header V (cb_height tip) = Inr (Some x) \<Longrightarrow> x = cb_hash tip"
    and "counts_up H S start (stream_blocks_to_tip V start)"
    and "stream_blocks_to_tip V start = [] \<Longrightarrow> cb_height tip < start"
    and "stream_blocks_to_tip V start = map Inr bs \<Longrightarrow> bs \<noteq> [] \<Longrightarrow>
      chain_block (claimed_height S (last bs)) (header_hash S (last bs)) = tip"
  using assms unfolding view_ok_def
  by (blast, blast, blast, blast, blast, force, meson)

lemma rewind_okD:
  assumes "rewind_ok W" and "truncate_to_wallet_checkpoint W target db = (Inr b, db')"
  shows "cb_height b \<le> target \<and> get_block_hash W db (cb_height b) = Inr (Some (cb_hash b))"
  using assms(2)
proof (cases rule: truncate_cases)
  case direct
  with assms(1) show ?thesis unfolding rewind_ok_def by (metis order_refl)
next
  case (fallback safe req db1)
  from assms(1) fallback(1) have "safe \<le> target" and "db1 = db" unfolding rewind_ok_def by blast+
  with assms(1) fallback(2,3) show ?thesis unfolding rewind_ok_def by (metis order_refl order_trans)
qed

text \<open>The three ways the fork-point search succeeds.\<close>

lemma locate_fork_point_cases:
  assumes "locate_fork_point W V db p = Inr f"
  obtains (located) bs where
      "collect_locator_blocks (\<lambda>h. map_err Other (get_block_hash W db h))
         (locator_block_heights (cb_height p)) = Inr bs"
      "find_fork_point V (BlockLocator (map cb_hash bs)) = Inr (Some f)"
  | (fresh) "collect_locator_blocks (\<lambda>h. map_err Other (get_block_hash W db h))
         (locator_block_heights (cb_height p)) = Inr []" "f = p"
  | (stepped) bo where "get_wallet_birthday W db = Inr bo"
      "step_back_to_best_chain (get_block_header V) (cb_height p)
         (case bo of None \<Rightarrow> 0 | Some b \<Rightarrow> b) (\<lambda>h. map_err Other (get_block_hash W db h)) = Inr f"
proof -
  let ?get = "\<lambda>h. map_err Other (get_block_hash W db h)"
  from assms obtain bo bs found where bo: "get_wallet_birthday W db = Inr bo"
    and bs: "collect_locator_blocks ?get (locator_block_heights (cb_height p)) = Inr bs"
    and found: "find_fork_point V (BlockLocator (map cb_hash bs)) = Inr found"
    and rest: "(case found of Some f \<Rightarrow> Inr f | None \<Rightarrow>
      if hashes (BlockLocator (map cb_hash bs)) = [] then Inr p
      else map_err Raise (step_back_to_best_chain (get_block_header V) (cb_height p)
        (case bo of None \<Rightarrow> 0 | Some b \<Rightarrow> b) ?get)) = Inr f"
    by (auto simp: locate_fork_point_def build_block_locator_eq result_simps Let_def)
  show thesis
  proof (cases found)
    case (Some b)
    with rest found bs show thesis by (intro located) simp_all
  next
    case None
    with rest bo bs show thesis
      by (cases "bs = []") (simp_all add: fresh stepped map_err_Inr_iff)
  qed
qed

lemma located_fork_point:
  assumes "view_ok H S V tip" and "hashes_identify W db V"
    and "collect_locator_blocks (\<lambda>h. map_err Other (get_block_hash W db h)) hs = Inr bs"
    and "find_fork_point V (BlockLocator (map cb_hash bs)) = Inr (Some f)"
  shows "cb_height f \<in> set hs \<and> get_block_hash W db (cb_height f) = Inr (Some (cb_hash f)) \<and>
         get_block_header V (cb_height f) = Inr (Some (cb_hash f))"
proof -
  from view_okD(2) [OF assms(1,4)] obtain c where c: "c \<in> set bs" "cb_hash f = cb_hash c"
    and hd: "get_block_header V (cb_height f) = Inr (Some (cb_hash f))"
    by auto
  note collected = collect_locator_blocks_heights [OF assms(3)]
  with c have hash: "get_block_hash W db (cb_height c) = Inr (Some (cb_hash f))"
    by (auto simp: result_simps)
  with hd assms(2) have "cb_height c = cb_height f" unfolding hashes_identify_def by blast
  moreover have "cb_height c \<in> set (map cb_height bs)" using c by simp
  then have "cb_height c \<in> set hs" using collected by simp
  ultimately show ?thesis using hash hd by simp
qed

text \<open>The fork point is the wallet's and the chain's block at its height.\<close>

lemma locate_fork_point_sound:
  assumes "view_ok H S V tip" and "hashes_identify W db V"
    and "get_block_hash W db (cb_height p) = Inr (Some (cb_hash p))"
    and "locate_fork_point W V db p = Inr f"
  shows "get_block_hash W db (cb_height f) = Inr (Some (cb_hash f)) \<and>
         get_block_header V (cb_height f) = Inr (Some (cb_hash f))"
  using assms(4)
proof (cases rule: locate_fork_point_cases)
  case (located bs)
  from located_fork_point [OF assms(1,2) this] show ?thesis by simp
next
  case fresh
  from collect_locator_blocks_heights [OF fresh(1)] locator_heights_tip [of "cb_height p"] assms(3)
  show ?thesis by (auto simp: result_simps empty_filter_conv)
next
  case (stepped bo)
  from step_back_sound_aux [OF stepped(2)] show ?thesis by (auto simp: result_simps)
qed

lemma locate_fork_point_below:
  assumes "view_ok H S V tip" and "hashes_identify W db V"
    and "locate_fork_point W V db p = Inr f"
    and "\<And>b. get_wallet_birthday W db = Inr (Some b) \<Longrightarrow> b \<le> cb_height p"
  shows "cb_height f \<le> cb_height p"
  using assms(3)
proof (cases rule: locate_fork_point_cases)
  case (located bs)
  from located_fork_point [OF assms(1,2) this] show ?thesis by (auto dest: locator_heights_range)
next
  case fresh
  then show ?thesis by simp
next
  case (stepped bo)
  have "(case bo of None \<Rightarrow> 0 | Some b \<Rightarrow> b) \<le> cb_height p"
    using assms(4) stepped(1) by (auto split: option.splits)
  with step_back_sound_aux [OF stepped(2)] show ?thesis by (auto dest: probes_range)
qed

lemma locate_fork_point_no_panic: "locate_fork_point W V db p \<noteq> Inl (Panic msg)"
  by (auto simp: locate_fork_point_def build_block_locator_eq result_simps Let_def
      split: option.splits)

lemma apply_blocks_Continue:
  "apply_blocks env V sh blocks s = (Inr (Continue u), s') \<Longrightarrow>
   \<exists>bs. blocks = map Inr bs \<and>
     (if bs = [] then s' = s
      else prev_tip s' = chain_block (claimed_height (scanning env) (last bs))
             (header_hash (scanning env) (last bs)))"
proof (induction blocks arbitrary: s)
  case Nil
  then show ?case by (simp add: sret_def)
next
  case (Cons r blocks)
  from Cons.prems obtain block s1 where r: "r = Inr block"
    and rest: "apply_blocks env V sh blocks
      (s1\<lparr>prev_tip := chain_block (claimed_height (scanning env) block) (header_hash (scanning env) block)\<rparr>)
        = (Inr (Continue u), s')"
    by (cases r)
       (auto simp: Let_def sbind_def sget_def sassert_def sfail_def sret_def smodify_def
         split: prod.splits sum.splits ControlFlow.splits if_splits)
  from Cons.IH [OF rest] obtain bs where "blocks = map Inr bs"
    and "if bs = [] then s' = s1\<lparr>prev_tip := chain_block (claimed_height (scanning env) block)
           (header_hash (scanning env) block)\<rparr>
         else prev_tip s' = chain_block (claimed_height (scanning env) (last bs))
           (header_hash (scanning env) (last bs))" by blast
  with r show ?case by (intro exI [of _ "block # bs"]) (auto split: if_splits)
qed

lemma stream_empty_height:
  assumes "height_ops_ok H" and "view_ok H S V tip" and "stream_blocks_to_tip V (h_add H h 1) = []"
  shows "cb_height tip \<le> h"
proof (cases "h = - 1")
  case True
  then show ?thesis by (simp add: word_order.extremum)
next
  case False
  then have "h < - 1" by (metis word_order.not_eq_extremum)
  from h_add_one [OF assms(1) this] view_okD(6) [OF assms(2,3)] show ?thesis
    by (simp add: word_less_nat_alt word_le_nat_alt)
qed

lemma apply_tip_change_Continue:
  assumes "apply_tip_change env V sh tip s = (Inr (Continue u), s')"
  obtains f s1 where
    "locate_fork_point (rewind_store env) V (st_db s) (prev_tip s) = Inr f"
    "if f = prev_tip s then prev_tip s1 = f
     else \<exists>db'. truncate_to_wallet_checkpoint (rewind_store env) (cb_height f) (st_db s) =
            (Inr (prev_tip s1), db')"
    "apply_blocks env V sh (stream_blocks_to_tip V (h_add (heights env) (cb_height (prev_tip s1)) 1)) s1
       = (Inr (Continue u), s')"
proof -
  let ?s0 = "s\<lparr>lower_boundary := update_boundary (heights env) (lower_boundary s) (cb_height tip),
      tip_change_signal := True, st_status := set_tip (cb_height tip) (st_status s)\<rparr>"
  from assms obtain f where f: "locate_fork_point (rewind_store env) V (st_db s) (prev_tip s) = Inr f"
    by (auto simp: apply_tip_change_def sbind_def smodify_def write_status_def split: sum.splits)
  show thesis
  proof (cases "f = prev_tip s")
    case True
    with assms f show thesis
      by (intro that [of f ?s0])
         (auto simp: apply_tip_change_def sbind_def smodify_def write_status_def sget_def sassert_def
           sret_def sfail_def split: if_splits)
  next
    case False
    with assms f obtain s1 where rw: "rewind_to (rewind_store env) (cb_height f) ?s0 = (Inr (), s1)"
      and "apply_blocks env V sh
          (stream_blocks_to_tip V (h_add (heights env) (cb_height (prev_tip s1)) 1)) s1
        = (Inr (Continue u), s')"
      by (auto simp: apply_tip_change_def sbind_def smodify_def write_status_def sget_def sassert_def
           sret_def sfail_def split: if_splits prod.splits sum.splits)
    with False f show thesis by (intro that [of f s1]) (auto elim!: rewind_to_Inr)
  qed
qed

lemma apply_tip_change_reaches_tip:
  assumes ok: "height_ops_ok (heights env)" and view: "view_ok (heights env) (scanning env) V tip"
    and id: "hashes_identify (rewind_store env) (st_db s) V" and rw: "rewind_ok (rewind_store env)"
    and stored: "tip_stored (rewind_store env) s" and changed: "tip \<noteq> prev_tip s"
    and run: "apply_tip_change env V sh tip s = (Inr (Continue u), s')"
  shows "prev_tip s' = tip"
  using run
proof (rule apply_tip_change_Continue)
  fix f s1
  assume f: "locate_fork_point (rewind_store env) V (st_db s) (prev_tip s) = Inr f"
    and s1: "if f = prev_tip s then prev_tip s1 = f
     else \<exists>db'. truncate_to_wallet_checkpoint (rewind_store env) (cb_height f) (st_db s) =
            (Inr (prev_tip s1), db')"
    and ap: "apply_blocks env V sh (stream_blocks_to_tip V (h_add (heights env) (cb_height (prev_tip s1)) 1)) s1
       = (Inr (Continue u), s')"
  from apply_blocks_Continue [OF ap] obtain bs
    where bs: "stream_blocks_to_tip V (h_add (heights env) (cb_height (prev_tip s1)) 1) = map Inr bs"
    and p: "if bs = [] then s' = s1
      else prev_tip s' = chain_block (claimed_height (scanning env) (last bs))
             (header_hash (scanning env) (last bs))" by blast
  show ?thesis
  proof (cases "bs = []")
    case False
    with p view_okD(7) [OF view bs] show ?thesis by simp
  next
    case True
    with bs have above: "cb_height tip \<le> cb_height (prev_tip s1)"
      by (intro stream_empty_height [OF ok view]) simp
    from locate_fork_point_sound [OF view id _ f] stored
    have fw: "get_block_hash (rewind_store env) (st_db s) (cb_height f) = Inr (Some (cb_hash f))"
      and fh: "get_block_header V (cb_height f) = Inr (Some (cb_hash f))"
      by (auto simp: tip_stored_def)
    have le: "cb_height (prev_tip s1) \<le> cb_height f \<and>
        get_block_hash (rewind_store env) (st_db s) (cb_height (prev_tip s1)) =
          Inr (Some (cb_hash (prev_tip s1)))"
      using s1 fw rewind_okD [OF rw] by (cases "f = prev_tip s") auto
    with above view_okD(3) [OF view fh] have eq: "cb_height (prev_tip s1) = cb_height tip"
      "cb_height f = cb_height tip" by auto
    with fh view_okD(4) [OF view] have "cb_hash f = cb_hash tip" by simp
    with le eq fw have "prev_tip s1 = tip" by (simp add: ChainBlock.equality)
    with p True show ?thesis by simp
  qed
qed

section \<open>The phases of a pass\<close>

definition in_recovery :: "'db engine \<Rightarrow> bool" where
  "in_recovery s \<longleftrightarrow> sig_recovering (st_status s) \<noteq> None"

lemma publish_phases:
  assumes "publish_tip_reached E s = (r, s')"
  shows "(r = Inr () \<and> (\<exists>m. s' = s\<lparr>st_status := end_recovery (mark_tip_reached (set_fully_synced m (st_status s)))\<rparr>)) \<or>
    (\<exists>e. r = Inl (Raise e) \<and> s' = s)"
  using assms
  by (auto simp: publish_tip_reached_def sbind_def on_store_def db_read_def write_status_def
      smodify_def map_err_def split: sum.splits)

lemma stream_mempool_frame:
  assumes "stream_mempool E V s = (r, s')"
  shows "prev_tip s' = prev_tip s \<and> st_status s' = st_status s \<and> (\<forall>m. r \<noteq> Inl (Panic m))"
proof -
  let ?Q = "\<lambda>t. prev_tip t = prev_tip s \<and> st_status t = st_status s"
  let ?E = "\<lambda>e t. (\<exists>d. e = Raise d) \<and> ?Q t"
  have store: "sr_valid ?Q (on_store m) (\<lambda>_. ?Q) ?E" for m :: "('a, SyncError, unit) sr"
    by (auto simp: sr_valid_def on_store_def map_err_def split: prod.splits sum.splits)
  have "sr_valid ?Q (stream_mempool E V) (\<lambda>_. ?Q) ?E"
    unfolding stream_mempool_def
    by (rule sr_valid_sbind [where R = "\<lambda>_. ?Q"])
       (auto simp: result_simps intro!: sr_valid_option sr_valid_slift sr_valid_sret
         sr_valid_sfor [where I = ?Q, OF store])
  with assms show ?thesis unfolding sr_valid_def
    by (cases r) (auto dest!: spec [of _ s] split: sum.splits)
qed

definition tip_pass ::
    "('db, 'blk, 'ts, 'd, 'nf, 'sb, 'tx, 'p) sync_env \<Rightarrow> ('blk, 'ts, 'tx) ChainView \<Rightarrow>
     BlockHeight option \<Rightarrow> ChainBlock \<Rightarrow>
     ('db engine, SyncError fault, (BlockHeight, unit) ControlFlow) sr" where
  "tip_pass env V sh tip s =
     (if tip \<noteq> prev_tip s then apply_tip_change env V sh tip s else (Inr (Continue ()), s))"

lemma iteration_phases:
  assumes "steady_state_iteration env sh (Inr V) s = (res, s')" and "view_tip V = Inr tip"
  obtains (stopped) flow where "tip_pass env V sh tip s = (flow, s')"
      "\<And>u. res \<noteq> Inr (Continue u)" "\<And>m. res = Inl (Panic m) \<Longrightarrow> flow = Inl (Panic m)"
  | (reached) s1 m where "tip_pass env V sh tip s = (Inr (Continue ()), s1)"
      "prev_tip s' = prev_tip s1" "\<And>m. res \<noteq> Inl (Panic m)"
      "st_status s' = end_recovery (mark_tip_reached (set_fully_synced m (st_status s1)))"
proof -
  obtain flow s1 where fl: "tip_pass env V sh tip s = (flow, s1)" by fastforce
  show thesis
  proof (cases "flow = Inr (Continue ()) \<and> (\<forall>b. sh = Some b \<longrightarrow> \<not> b \<le> cb_height tip)")
    case False
    with assms fl show thesis
      by (intro stopped [of flow])
         (auto simp: steady_state_iteration_def tip_pass_def sbind_def slift_def sget_def sret_def
           Let_def split: if_splits option.splits sum.splits ControlFlow.splits)
  next
    case True
    obtain r2 s2 where pub: "publish_tip_reached (engine_store env) s1 = (r2, s2)" by fastforce
    obtain r3 s3 where mem: "stream_mempool (engine_store env) V s2 = (r3, s3)" by fastforce
    have run: "(case r2 of Inl e \<Rightarrow> (Inl e, s2) | Inr _ \<Rightarrow> (case r3 of Inl e \<Rightarrow> (Inl e, s3)
        | Inr _ \<Rightarrow> (Inr (Continue ()), s3))) = (res, s')"
      using True assms fl pub mem
      by (auto simp: steady_state_iteration_def tip_pass_def sbind_def slift_def sget_def sret_def
           Let_def split: if_splits option.splits sum.splits)
    from publish_phases [OF pub] show thesis
    proof
      assume "\<exists>e. r2 = Inl (Raise e) \<and> s2 = s1"
      with run True fl show thesis by (intro stopped [of flow]) auto
    next
      assume "r2 = Inr () \<and> (\<exists>m. s2 = s1\<lparr>st_status :=
        end_recovery (mark_tip_reached (set_fully_synced m (st_status s1)))\<rparr>)"
      with run True fl stream_mempool_frame [OF mem] show thesis
        by (elim conjE exE) (rule reached [of s1], auto split: sum.splits)
    qed
  qed
qed

lemma apply_tip_change_recovering:
  "sr_keeps in_recovery (apply_tip_change env V sh tip)"
proof -
  have store: "sr_keeps in_recovery (on_store m)" for m :: "('a, SyncError, 'x) sr"
    by (auto simp: sr_keeps_iff on_store_def in_recovery_def split: prod.splits)
  have fields: "sr_keeps in_recovery (smodify (\<lambda>s. s\<lparr>prev_tip := f s\<rparr>))"
    "sr_keeps in_recovery (smodify (\<lambda>s. s\<lparr>lower_boundary := g s\<rparr>))"
    "sr_keeps in_recovery (smodify (\<lambda>s. s\<lparr>tip_change_signal := k s\<rparr>))"
    "sr_keeps in_recovery (write_status (set_tip h))" "sr_keeps in_recovery (write_status (begin_recovery h))"
    for f g k h
    by (auto simp: sr_keeps_iff smodify_def write_status_def status_write_defs in_recovery_def)
  have "sr_keeps in_recovery (apply_blocks env V sh blocks)" for blocks
  proof (induction blocks)
    case (Cons r blocks)
    then show ?case by (cases r) (auto simp: Let_def intro!: wp store fields)
  qed (simp add: sr_valid_sret)
  then show ?thesis
    unfolding apply_tip_change_def rewind_to_def by (auto intro!: wp store fields)
qed

lemma on_store_Panic [simp]: "on_store m s \<noteq> (Inl (Panic msg), s')"
  by (auto simp: on_store_def map_err_def split: prod.splits sum.splits)

lemma apply_blocks_no_panic:
  "counts_up (heights env) (scanning env) (h_add (heights env) (cb_height (prev_tip s)) 1) blocks \<Longrightarrow>
   apply_blocks env V sh blocks s \<noteq> (Inl (Panic msg), s')"
proof (induction blocks arbitrary: s)
  case Nil
  then show ?case by (simp add: sret_def)
next
  case (Cons r blocks)
  show ?case
  proof (cases r)
    case (Inl e)
    then show ?thesis by (simp add: sfail_def)
  next
    case (Inr block)
    with Cons.prems have "claimed_height (scanning env) block = h_add (heights env) (cb_height (prev_tip s)) 1"
      and "counts_up (heights env) (scanning env) (h_add (heights env) (claimed_height (scanning env) block) 1) blocks"
      by auto
    with Inr show ?thesis using Cons.IH
      by (auto simp: Let_def sbind_def sget_def sassert_def sret_def smodify_def
          split: prod.splits sum.splits ControlFlow.splits)
  qed
qed

lemma apply_tip_change_no_panic:
  assumes view: "view_ok (heights env) (scanning env) V tip"
    and id: "hashes_identify (rewind_store env) (st_db s) V"
    and stored: "tip_stored (rewind_store env) s"
    and born: "\<And>b. get_wallet_birthday (rewind_store env) (st_db s) = Inr (Some b) \<Longrightarrow>
      b \<le> cb_height (prev_tip s)"
  shows "apply_tip_change env V sh tip s \<noteq> (Inl (Panic msg), s')"
proof
  assume run: "apply_tip_change env V sh tip s = (Inl (Panic msg), s')"
  have w: "get_block_hash (rewind_store env) (st_db s) (cb_height (prev_tip s)) =
      Inr (Some (cb_hash (prev_tip s)))" using stored by (simp add: tip_stored_def)
  have rw: "rewind_to (rewind_store env) h t \<noteq> (Inl (Panic msg), s')" for h t
    by (auto simp: rewind_to_def sbind_def write_status_def smodify_def split: prod.splits sum.splits)
  have ab: "apply_blocks env V sh (stream_blocks_to_tip V (h_add (heights env) (cb_height p) 1)) t \<noteq>
      (Inl (Panic msg), s')" if "prev_tip t = p" for t p
    using that by (intro apply_blocks_no_panic) (simp add: view_okD(5) [OF view])
  from run obtain f where f: "locate_fork_point (rewind_store env) V (st_db s) (prev_tip s) = Inr f"
    by (cases "locate_fork_point (rewind_store env) V (st_db s) (prev_tip s)")
       (auto simp: apply_tip_change_def sbind_def smodify_def write_status_def
         locate_fork_point_no_panic)
  note sound = locate_fork_point_sound [OF view id w f]
  have "cb_height f \<le> cb_height tip" using sound view_okD(3) [OF view] by blast
  moreover have "cb_height f < cb_height (prev_tip s)" if "f \<noteq> prev_tip s"
  proof (rule ccontr)
    assume "\<not> cb_height f < cb_height (prev_tip s)"
    with locate_fork_point_below [OF view id f born] have "cb_height f = cb_height (prev_tip s)" by simp
    with sound w have "f = prev_tip s" by (simp add: ChainBlock.equality)
    with that show False ..
  qed
  ultimately show False using run f rw
    by (auto simp: ab apply_tip_change_def sbind_def smodify_def write_status_def sget_def sassert_def
        sret_def split: if_splits prod.splits sum.splits)
qed

lemma tip_pass_reaches_tip:
  assumes "height_ops_ok (heights env)" and "view_ok (heights env) (scanning env) V tip"
    and "hashes_identify (rewind_store env) (st_db s) V" and "rewind_ok (rewind_store env)"
    and "tip_stored (rewind_store env) s" and "tip_pass env V sh tip s = (Inr (Continue ()), s1)"
  shows "prev_tip s1 = tip"
proof (cases "tip = prev_tip s")
  case True
  with assms(6) show ?thesis by (simp add: tip_pass_def)
next
  case False
  with assms(6) have "apply_tip_change env V sh tip s = (Inr (Continue ()), s1)"
    by (simp add: tip_pass_def)
  from apply_tip_change_reaches_tip [OF assms(1-5) False this] show ?thesis .
qed

lemma example_view_ok: "view_ok saturating_heights example_scanner example_view (chain_block 8 [8])"
  unfolding view_ok_def
proof (intro conjI allI impI)
  show "view_tip example_view = Inr (chain_block 8 [8])" by (simp add: example_view_def)
next
  fix locator b assume "find_fork_point example_view locator = Inr (Some b)"
  then obtain x where "find (\<lambda>x. x \<in> set [[5], [6], [7], [8]]) (hashes locator) = Some x"
    and b: "b = chain_block (ucast (hd x)) x"
    by (auto simp only: example_view_def ChainView.select_convs sum.inject map_option_eq_Some)
  from find_Some_mem [OF this(1)] have "x \<in> set (hashes locator)" "x \<in> set [[5], [6], [7], [8]]"
    by blast+
  then show "cb_hash b \<in> set (hashes locator)"
    and "get_block_header example_view (cb_height b) = Inr (Some (cb_hash b))"
    using b by (auto simp: example_view_def)
next
  fix h x assume "get_block_header example_view h = Inr (Some x)"
  then show "h \<le> cb_height (chain_block 8 [8])"
    and "h = cb_height (chain_block 8 [8]) \<Longrightarrow> x = cb_hash (chain_block 8 [8])"
    by (auto simp: example_view_def split: if_splits)
next
  fix start show "counts_up saturating_heights example_scanner start (stream_blocks_to_tip example_view start)"
    by (auto simp: example_view_def example_stream_from_def example_scanner_def
        saturating_heights_def saturating_add_def)
next
  fix start bs assume "stream_blocks_to_tip example_view start = map Inr bs"
  then show "if bs = [] then cb_height (chain_block 8 [8]) < start
      else chain_block (claimed_height example_scanner (last bs)) (header_hash example_scanner (last bs)) =
        chain_block 8 [8]"
    by (auto simp: example_view_def example_stream_from_def example_scanner_def Cons_eq_map_conv
        split: if_splits)
qed

lemma example_hashes_identify:
  "hashes_identify (rewind_store example_env) (st_db example_engine) example_view"
  by (auto simp: hashes_identify_def example_env_def example_engine_def example_view_def split: if_splits)

lemma example_rewind_ok: "rewind_ok (rewind_store example_env)"
  by (auto simp: rewind_ok_def example_env_def)

section \<open>Properties\<close>







text \<open>The assertion on the fork point does rest on the wallet having recorded its tip: when
  none of the locator's heights is recorded, as after a startup whose best-effort tip scan
  failed, and the chain's tip has moved below the height the engine started from, the pass
  panics instead of following the chain.\<close>

theorem unrecorded_tip_above_chain_panics:
  assumes "view_tip V = Inr tip" and "cb_height tip < cb_height (prev_tip s)"
    and "\<And>h. get_block_hash (rewind_store env) (st_db s) h = Inr None"
    and "get_wallet_birthday (rewind_store env) (st_db s) = Inr birthday"
    and "find_fork_point V (BlockLocator []) = Inr None"
  shows "fst (steady_state_iteration env sh (Inr V) s) = Inl (Panic ''fork point above the tip'')"
proof -
  have "collect_locator_blocks (\<lambda>h. map_err Other (get_block_hash (rewind_store env) (st_db s) h)) hs = Inr []" for hs
    by (induction hs) (simp_all add: assms(3))
  then have "locate_fork_point (rewind_store env) V (st_db s) (prev_tip s) = Inr (prev_tip s)"
    using assms(4,5) by (simp add: locate_fork_point_def build_block_locator_eq)
  moreover have "tip \<noteq> prev_tip s" and "\<not> cb_height (prev_tip s) \<le> cb_height tip"
    using assms(2) by auto
  ultimately show ?thesis
    using assms(1)
    by (simp add: steady_state_iteration_def apply_tip_change_def sbind_def slift_def sget_def
        smodify_def write_status_def sassert_def sfail_def)
qed

theorem unrecorded_tip_above_chain_panics_witness:
  "fst (steady_state_iteration example_env None (Inr example_view)
     (example_engine\<lparr>st_db := [], prev_tip := chain_block 9 [9]\<rparr>)) =
   Inl (Panic ''fork point above the tip'')"
  by (rule unrecorded_tip_above_chain_panics [where tip = "chain_block 8 [8]" and birthday = "Some 5"])
     (simp_all add: example_env_def example_view_def)

end
