(* ===== verification/Zebra_Sync.thy ===== *)
theory Zebra_Sync
  imports Zebra_Mempool Sync_Progress
begin

text \<open>
  The zebra backend under the sync engine: the abstract chain view that a zebra view implements
  while the node keeps serving the captured chain, that this view has the behaviour the trait
  \<open>ChainView\<close> documents, and what the engine does when the node stops serving a block of it.
\<close>

section \<open>The view the engine sees\<close>

text \<open>An operation of the zebra view gives a fixed answer, from every state of its memo table and
  at every time.\<close>

definition agrees :: "(view_state \<Rightarrow> bool) \<Rightarrow> 'a zv \<Rightarrow> ChainError + 'a \<Rightarrow> bool" where
  "agrees I m r \<longleftrightarrow> (\<forall>s. I s \<longrightarrow> (\<exists>s'. m s = (map_err Raise r, s') \<and> I s'))"

definition zebra_implements ::
    "height_ops \<Rightarrow> (BlockHash \<Rightarrow> BlockHash) \<Rightarrow> ('sn, 'on) zebra_env \<Rightarrow>
     ('blk, 'tx, 'branch, 'sf, 'orf) wallet_codecs \<Rightarrow> ZebraChainView \<Rightarrow> ('blk, 'ts, 'tx) ChainView \<Rightarrow> bool" where
  "zebra_implements H parent E W v V \<longleftrightarrow>
     agrees (cache_ok parent v) (zebra_tip v) (view_tip V) \<and>
     (\<forall>locator. agrees (cache_ok parent v) (zebra_find_fork_point E locator) (find_fork_point V locator)) \<and>
     (\<forall>h. agrees (cache_ok parent v) (zebra_get_block_header E W v h) (get_block_header V h)) \<and>
     (\<forall>h. agrees (cache_ok parent v) (zebra_get_block E W v h) (get_block V h)) \<and>
     (\<forall>start n s. cache_ok parent v s \<longrightarrow> Suc (unat (cb_height (zv_tip v))) - unat start \<le> n \<longrightarrow>
        (\<exists>s'. zebra_stream_blocks_to_tip H E W v n start s =
           (map (map_err Raise) (stream_blocks_to_tip V start), s') \<and> cache_ok parent v s'))"

section \<open>The pinned view\<close>

text \<open>Where a hash lies on the captured chain.\<close>

definition pinned_position ::
    "(BlockHash \<Rightarrow> BlockHash) \<Rightarrow> ZebraChainView \<Rightarrow> BlockHash \<Rightarrow> ChainBlock option" where
  "pinned_position parent v x =
     map_option (\<lambda>h. chain_block h x)
       (find (\<lambda>h. pinned parent v h = x) (map of_nat [0..<Suc (unat (cb_height (zv_tip v)))]))"

definition pinned_view ::
    "(BlockHash \<Rightarrow> BlockHash) \<Rightarrow> ZebraChainView \<Rightarrow> (BlockHeight \<Rightarrow> 'blk) \<Rightarrow> ('blk, 'ts, 'tx) ChainView \<Rightarrow>
     ('blk, 'ts, 'tx) ChainView" where
  "pinned_view parent v block V =
     (let on_chain = (\<lambda>h. h \<le> cb_height (zv_tip v)) in
      V\<lparr>view_tip := Inr (zv_tip v),
        find_fork_point := (\<lambda>locator. Inr (find_map (pinned_position parent v) (hashes locator))),
        get_block_header := (\<lambda>h. Inr (if on_chain h then Some (pinned parent v h) else None)),
        get_block := (\<lambda>h. Inr (if on_chain h then Some (block h) else None)),
        stream_blocks_to_tip := (\<lambda>start.
          map (Inr \<circ> block \<circ> of_nat) [unat start..<Suc (unat (cb_height (zv_tip v)))])\<rparr>)"

lemma pinned_view_simps [simp]:
  "view_tip (pinned_view parent v block V) = Inr (zv_tip v)"
  "find_fork_point (pinned_view parent v block V) locator = Inr (find_map (pinned_position parent v) (hashes locator))"
  "get_block_header (pinned_view parent v block V) h =
     Inr (if h \<le> cb_height (zv_tip v) then Some (pinned parent v h) else None)"
  "get_block (pinned_view parent v block V) h = Inr (if h \<le> cb_height (zv_tip v) then Some (block h) else None)"
  "stream_blocks_to_tip (pinned_view parent v block V) start =
     map (Inr \<circ> block \<circ> of_nat) [unat start..<Suc (unat (cb_height (zv_tip v)))]"
  by (simp_all add: pinned_view_def Let_def)

text \<open>A node that serves the whole captured chain and answers fork point requests from it, as it
  does while its best chain still ends in the captured tip: \<open>FindForkPoint\<close> is documented to return
  the first of the known blocks that is on the best chain.\<close>

definition node_serves ::
    "(BlockHash \<Rightarrow> BlockHash) \<Rightarrow> ('sn, 'on) zebra_env \<Rightarrow> ('blk, 'tx, 'branch, 'sf, 'orf) wallet_codecs \<Rightarrow>
     ZebraChainView \<Rightarrow> (BlockHeight \<Rightarrow> 'blk) \<Rightarrow> bool" where
  "node_serves parent E W v block \<longleftrightarrow>
     chain_served parent E v \<and> (\<forall>h \<le> cb_height (zv_tip v). block_served parent E W v block h) \<and>
     (\<forall>t locator. rd_find_fork_point (ze_reader E t) locator =
        Inr (find_map (pinned_position parent v) (hashes locator)))"

lemma agreesI: "(\<And>s. I s \<Longrightarrow> \<exists>s'. m s = (Inr y, s') \<and> I s') \<Longrightarrow> agrees I m (Inr y)"
  by (simp add: agrees_def)

lemma pinned_position_Some:
  assumes "pinned_position parent v x = Some b"
  shows "cb_hash b = x" and "cb_height b \<le> cb_height (zv_tip v)" and "pinned parent v (cb_height b) = x"
proof -
  let ?hs = "map of_nat [0..<Suc (unat (cb_height (zv_tip v)))] :: u32 list"
  obtain h where b: "b = chain_block h x" and find: "find (\<lambda>h. pinned parent v h = x) ?hs = Some h"
    using assms by (auto simp: pinned_position_def simp del: upt_Suc)
  from find_Some_mem [OF find] obtain n where "n \<le> unat (cb_height (zv_tip v))" "h = of_nat n" "pinned parent v h = x"
    by (auto simp: less_Suc_eq_le simp del: upt_Suc)
  then show "cb_hash b = x" and "cb_height b \<le> cb_height (zv_tip v)" and "pinned parent v (cb_height b) = x"
    using b of_nat_le_word [of n "cb_height (zv_tip v)"] by simp_all
qed

lemma pinned_stream_counts_up:
  assumes "height_ops_ok H" and "\<And>h. h \<le> tip \<Longrightarrow> claimed_height S (block h) = h"
  shows "counts_up H S start (map (Inr \<circ> block \<circ> of_nat) [unat start..<Suc (unat tip)])"
proof (induction "Suc (unat tip) - unat start" arbitrary: start)
  case 0
  then show ?case by simp
next
  case (Suc n)
  then have le: "start \<le> tip" by (simp add: word_le_nat_alt)
  show ?case
  proof (cases "start = tip")
    case True
    with assms(2) [of tip] show ?thesis by simp
  next
    case False
    with le have "start < tip" by simp
    then have succ: "unat (h_add H start 1) = Suc (unat start)"
      using h_add_one [OF assms(1)] by fastforce
    with Suc have "counts_up H S (h_add H start 1) (map (Inr \<circ> block \<circ> of_nat) [Suc (unat start)..<Suc (unat tip)])"
      using Suc.hyps(1) [of "h_add H start 1"] by simp
    moreover have "[unat start..<Suc (unat tip)] = unat start # [Suc (unat start)..<Suc (unat tip)]"
      using le by (simp add: upt_conv_Cons word_le_nat_alt del: upt_Suc)
    ultimately show ?thesis using assms(2) [OF le] by (simp del: upt_Suc)
  qed
qed

text \<open>The pinned view behaves as the trait documents.\<close>

lemma pinned_view_ok:
  assumes "height_ops_ok H"
    and "\<And>h. h \<le> cb_height (zv_tip v) \<Longrightarrow> claimed_height S (block h) = h \<and> header_hash S (block h) = pinned parent v h"
  shows "view_ok H S (pinned_view parent v block V) (zv_tip v)"
  unfolding view_ok_def
proof (intro conjI allI impI)
  fix locator b
  assume "find_fork_point (pinned_view parent v block V) locator = Inr (Some b)"
  then obtain x where x: "x \<in> set (hashes locator)" "pinned_position parent v x = Some b"
    by (auto dest: find_map_Some)
  from pinned_position_Some [OF x(2)] x(1)
  show "cb_hash b \<in> set (hashes locator)"
    and "get_block_header (pinned_view parent v block V) (cb_height b) = Inr (Some (cb_hash b))" by simp_all
next
  fix start
  show "counts_up H S start (stream_blocks_to_tip (pinned_view parent v block V) start)"
    using pinned_stream_counts_up [OF assms(1), of "cb_height (zv_tip v)" S block] assms(2) by simp
next
  fix start bs
  assume bs: "stream_blocks_to_tip (pinned_view parent v block V) start = map Inr bs"
  let ?ns = "[unat start..<Suc (unat (cb_height (zv_tip v)))]"
  have "map (Inr :: _ \<Rightarrow> ChainError + _) (map (block \<circ> of_nat) ?ns) = map Inr bs"
    using bs by (simp add: comp_assoc del: upt_Suc)
  then have "bs = map (block \<circ> of_nat) ?ns" by (simp only: inj_map_eq_map [OF inj_Inr])
  then show "if bs = [] then cb_height (zv_tip v) < start
      else chain_block (claimed_height S (last bs)) (header_hash S (last bs)) = zv_tip v"
    using assms(2) [of "cb_height (zv_tip v)"] by (auto simp: word_less_nat_alt)
qed (use assms(2) in \<open>auto split: if_splits\<close>)

section \<open>Refinement\<close>

lemma stream_stops:
  assumes "chain_served parent E v" and "cache_ok parent v s" and "start \<le> last_height"
    and "\<forall>t. rd_raw_block_by_hash (ze_reader E t) (pinned parent v start) = Inr None"
  shows "\<exists>s'. stream_blocks_inner H E W v n start last_height s = ([], s') \<and> cache_ok parent v s'"
proof (cases n)
  case (Suc k)
  from get_block_gone(1) [OF assms(1,2) disjI2 [OF assms(4)]] obtain s'
    where "zebra_get_block E W v start s = (Inr None, s')" "cache_ok parent v s'" by blast
  with Suc assms(3) show ?thesis by auto
qed (use assms(2) in simp)

lemma map_err_Raise_inject: "map_err Raise r = map_err Raise r' \<longleftrightarrow> r = r'"
  by (cases r; cases r') auto

lemma agrees_unique: "agrees I m r \<Longrightarrow> agrees I m r' \<Longrightarrow> I s \<Longrightarrow> r = r'"
  unfolding agrees_def by (metis Pair_inject map_err_Raise_inject)

lemma pinned_view_implemented:
  assumes "height_ops_ok H" and "node_serves parent E W v block"
    and "Suc (unat (cb_height (zv_tip v))) < 2 ^ 32"
  shows "zebra_implements H parent E W v (pinned_view parent v block V)"
proof -
  let ?tip = "cb_height (zv_tip v)"
  have served: "chain_served parent E v" "\<And>h. h \<le> ?tip \<Longrightarrow> block_served parent E W v block h"
    using assms(2) by (auto simp: node_serves_def)
  have block: "agrees (cache_ok parent v) (zebra_get_block E W v h) (Inr (if h \<le> ?tip then Some (block h) else None))"
    and header: "agrees (cache_ok parent v) (zebra_get_block_header E W v h)
      (Inr (if h \<le> ?tip then Some (pinned parent v h) else None))" for h
    using get_block_served [OF served(1) _ _ served(2), of _ h] get_block_gone [OF served(1) _ disjI1, of _ h]
    by (auto intro!: agreesI simp: not_le)
  have fork: "agrees (cache_ok parent v) (zebra_find_fork_point E locator)
      (Inr (find_map (pinned_position parent v) (hashes locator)))" for locator
    using assms(2) by (auto intro!: agreesI simp: node_serves_def zebra_find_fork_point_def ask_def)
  have tip: "agrees (cache_ok parent v) (zebra_tip v) (Inr (zv_tip v))"
    by (auto intro!: agreesI simp: zebra_tip_def sret_def)
  have "\<exists>s'. zebra_stream_blocks_to_tip H E W v n start s =
      (map (map_err Raise) (map (Inr \<circ> block \<circ> of_nat) [unat start..<Suc (unat ?tip)]), s') \<and> cache_ok parent v s'"
    if s: "cache_ok parent v s" and n: "Suc (unat ?tip) - unat start \<le> n" for start n s
  proof (cases "unat start \<le> Suc (unat ?tip)")
    case True
    have "\<exists>s'. stream_blocks_inner H E W v n start ?tip s =
        (map (Inr \<circ> block \<circ> of_nat) [unat start..<Suc (unat ?tip)], s') \<and> cache_ok parent v s'"
      by (rule stream_spec [OF assms(1) served(1) order_refl assms(3) order_refl _ _ True n s])
        (use served(2) in \<open>auto simp: word_le_nat_alt\<close>)
    then show ?thesis by (simp add: zebra_stream_blocks_to_tip_def comp_def del: upt_Suc)
  next
    case False
    then have "?tip < start" by (simp add: word_less_nat_alt)
    with False s show ?thesis by (cases n) (simp_all add: zebra_stream_blocks_to_tip_def)
  qed
  with block header fork tip show ?thesis
    unfolding zebra_implements_def pinned_view_simps by blast
qed

text \<open>So any view that the engine can see through the backend is as documented.\<close>

lemma implemented_view_ok:
  assumes "height_ops_ok H" and "node_serves parent E W v block"
    and "Suc (unat (cb_height (zv_tip v))) < 2 ^ 32" and "zebra_implements H parent E W v V"
    and "cache_ok parent v s"
    and "\<And>h. h \<le> cb_height (zv_tip v) \<Longrightarrow> claimed_height S (block h) = h \<and> header_hash S (block h) = pinned parent v h"
  shows "view_ok H S V (zv_tip v)"
proof -
  let ?P = "pinned_view parent v block V"
  note impl = pinned_view_implemented [OF assms(1-3), of V]
  have same: "view_tip V = view_tip ?P" "find_fork_point V locator = find_fork_point ?P locator"
    "get_block_header V h = get_block_header ?P h" for locator h
    using impl assms(4,5) agrees_unique unfolding zebra_implements_def by blast+
  have "map (map_err Raise) (stream_blocks_to_tip V start) = map (map_err Raise) (stream_blocks_to_tip ?P start)" for start
    using impl assms(4,5) unfolding zebra_implements_def by (metis (no_types) Pair_inject order_refl)
  then have "stream_blocks_to_tip V start = stream_blocks_to_tip ?P start" for start
    by (metis inj_map_eq_map inj_def map_err_Raise_inject)
  with same pinned_view_ok [OF assms(1,6), where V = V] show ?thesis
    unfolding view_ok_def by metis
qed

text \<open>C7: While the node serves the captured chain, the zebra view implements the pinned view, whatever
  the memo table holds and whenever it is asked; and the pinned view keeps the contract of the
  trait \<open>ChainView\<close> that the engine relies on.\<close>

theorem zebra_view_implements_pinned_view:
  assumes "height_ops_ok H" and "node_serves parent E W v block"
    and "Suc (unat (cb_height (zv_tip v))) < 2 ^ 32"
    and "\<And>h. h \<le> cb_height (zv_tip v) \<Longrightarrow> claimed_height S (block h) = h \<and> header_hash S (block h) = pinned parent v h"
  shows "zebra_implements H parent E W v (pinned_view parent v block V) \<and>
    view_ok H S (pinned_view parent v block V) (zv_tip v)"
  using pinned_view_implemented [OF assms(1-3)] pinned_view_ok [OF assms(1,4)] by blast

text \<open>The zebra backend under the sync engine: if a view is captured, the node keeps serving its
  chain during a pass and the pass keeps the engine running, the wallet ends at the captured
  tip, with the recovering state cleared.\<close>

theorem zebra_pass_reaches_tip:
  assumes "height_ops_ok (heights env)" and "snapshot E params now = Inr (v, s0)"
    and "node_serves parent E W v block" and "Suc (unat (cb_height (zv_tip v))) < 2 ^ 32"
    and "\<And>h. h \<le> cb_height (zv_tip v) \<Longrightarrow> claimed_height (scanning env) (block h) = h \<and>
      header_hash (scanning env) (block h) = pinned parent v h"
    and "zebra_implements (heights env) parent E W v V"
    and "hashes_identify (rewind_store env) (st_db s) V" and "rewind_ok (rewind_store env)"
    and "tip_stored (rewind_store env) s"
    and "steady_state_iteration env sh (Inr V) s = (Inr (Continue u), s')"
  shows "prev_tip s' = zv_tip v \<and> rd_tip (ze_reader E now) = Inr (Some (prev_tip s')) \<and>
    sig_recovering (st_status s') = None"
proof -
  have ok: "view_ok (heights env) (scanning env) V (zv_tip v)"
    using implemented_view_ok [OF assms(1,3,4,6) snapshot_ok(1) [OF assms(2)] assms(5)] .
  from assms(10) view_okD(1) [OF ok] show ?thesis
  proof (cases rule: iteration_phases)
    case (stopped flow)
    then show ?thesis by simp
  next
    case (reached s1 m)
    with tip_pass_reaches_tip [OF assms(1) ok assms(7-9)] snapshot_ok(5) [OF assms(2)]
    show ?thesis by (simp add: status_write_defs)
  qed
qed



section \<open>Instances\<close>

text \<open>A chain of nine blocks served by a node that does not change, and the codecs for it.\<close>

definition pred_hash :: "BlockHash \<Rightarrow> BlockHash" where
  "pred_hash = map (\<lambda>b. b - 1)"

definition nine_blocks :: ZebraChainView where
  "nine_blocks = \<lparr>zv_tip = chain_block 8 [8], zv_floor = 0, zv_activation = (\<lambda>_. None)\<rparr>"

definition serving_node :: "(unit, unit) zebra_env" where
  "serving_node =
     \<lparr>ze_reader = (\<lambda>_. (zebra_example_reader 8)\<lparr>rd_find_fork_point := (\<lambda>locator.
        Inr (find_map (pinned_position pred_hash nine_blocks) (hashes locator)))\<rparr>),
      ze_mempool = (\<lambda>_. Inr []), ze_raw_transaction = (\<lambda>_ _. Inl ''unknown'')\<rparr>"

definition height_codecs :: "(BlockHeight, unit, unit, unit, unit) wallet_codecs" where
  "height_codecs =
     \<lparr>block_read = (\<lambda>b. Inr (ucast (hd b))), header_read = Inr, transaction_read = (\<lambda>_ _. Inr ()),
      transaction_write = (\<lambda>_. Inr []), branch_for_height = (\<lambda>_. ()), read_sapling_tree = (\<lambda>_. Inr ()),
      read_orchard_tree = (\<lambda>_. Inr ()), empty_sapling_tree = (), empty_orchard_tree = (),
      txid_display = (\<lambda>_. []), hex_decode = (\<lambda>_. Inr []), hex_encode = (\<lambda>_. [])\<rparr>"

lemma u32_le_8: "h \<le> (8 :: u32) \<Longrightarrow> h = 0 \<or> h = 1 \<or> h = 2 \<or> h = 3 \<or> h = 4 \<or> h = 5 \<or> h = 6 \<or> h = 7 \<or> h = 8"
proof -
  assume "h \<le> (8 :: u32)"
  then have "unat h \<le> 8" by (simp add: word_le_nat_alt)
  then have "unat h \<in> {0, 1, 2, 3, 4, 5, 6, 7, 8}" by auto
  then show ?thesis by (auto simp: word_unat_eq_iff)
qed

lemma pred_hash_funpow: "(pred_hash ^^ k) [b] = [b - of_nat k]"
  by (induction k) (simp_all add: pred_hash_def algebra_simps)

lemma pinned_nine: "h \<le> 8 \<Longrightarrow> pinned pred_hash nine_blocks h = [ucast h]"
  by (drule u32_le_8, elim disjE) (simp_all add: pinned_def nine_blocks_def pred_hash_funpow, simp add: pred_hash_def)

lemma nine_snapshot:
  "snapshot serving_node (\<lambda>_. None) 0 = Inr (nine_blocks, \<lparr>zv_cache = [(8, [8])], zv_clock = 1\<rparr>)"
  by (simp add: snapshot_def serving_node_def zebra_example_reader_def nine_blocks_def saturating_sub_def
      MAX_REORG_DEPTH_def)

lemma nine_served: "node_serves pred_hash serving_node height_codecs nine_blocks (\<lambda>h. h)"
  unfolding node_serves_def
proof (intro conjI allI impI)
  show "chain_served pred_hash serving_node nine_blocks"
    using pinned_nine
    by (auto simp: chain_served_def linked_def serving_node_def zebra_example_reader_def nine_blocks_def pred_hash_def)
next
  fix h assume "h \<le> cb_height (zv_tip nine_blocks)"
  then show "block_served pred_hash serving_node height_codecs nine_blocks (\<lambda>h. h) h"
    using u32_le_8 [of h] pinned_nine [of h]
    by (auto simp: block_served_def serving_node_def zebra_example_reader_def nine_blocks_def height_codecs_def)
qed (simp add: serving_node_def)


definition nine_view :: "(BlockHeight, BlockHeight, unit) ChainView" where
  "nine_view = pinned_view pred_hash nine_blocks (\<lambda>h. h) example_view"

lemma ucast_le_8: "h \<le> (8 :: u32) \<Longrightarrow> unat (ucast h :: u8) = unat h"
  by (drule u32_le_8, elim disjE) simp_all

lemma ucast_inj_8: "h \<le> (8 :: u32) \<Longrightarrow> k \<le> 8 \<Longrightarrow> (ucast h :: u8) = ucast k \<Longrightarrow> h = k"
  by (metis ucast_le_8 word_unat_eq_iff)

lemma position_nine:
  assumes "h \<le> 8"
  shows "pinned_position pred_hash nine_blocks [ucast h] = Some (chain_block h [ucast h])"
proof -
  have "h = of_nat (unat h)" "unat h \<in> set [0..<Suc 8]" using assms by (simp_all add: word_le_nat_alt less_Suc_eq_le)
  then have "h \<in> set (map of_nat [0..<Suc 8])" by (metis image_eqI list.set_map)
  then have "pinned_position pred_hash nine_blocks [ucast h] \<noteq> None"
    using pinned_nine [OF assms] by (auto simp: pinned_position_def find_None_iff nine_blocks_def simp del: upt_Suc)
  then obtain b where b: "pinned_position pred_hash nine_blocks [ucast h] = Some b" by blast
  note at = pinned_position_Some [OF this]
  have le: "cb_height b \<le> 8" using at(2) by (simp add: nine_blocks_def)
  then have "(ucast (cb_height b) :: u8) = ucast h" using at(3) pinned_nine [OF le] by simp
  then have "cb_height b = h" using ucast_inj_8 [OF le assms] by blast
  with at(1) b show ?thesis by simp
qed

lemma nine_view_answers:
  "view_tip nine_view = Inr (chain_block 8 [8])"
  "find_fork_point nine_view (BlockLocator ([7] # hs)) = Inr (Some (chain_block 7 [7]))"
  "stream_blocks_to_tip nine_view 8 = [Inr 8]"
  "tree_state_as_of nine_view h = Inr (if h \<le> 8 then Some h else None)"
  "get_mempool_stream nine_view = Inr (Some [])"
  using position_nine [of 7]
  by (simp_all add: nine_view_def nine_blocks_def) (simp_all add: pinned_view_def Let_def example_view_def)

lemma nine_iteration:
  "steady_state_iteration example_env None (Inr nine_view) example_engine = (Inr (Continue ()), example_synced)"
  by (simp add: nine_view_answers example_synced_def steady_state_iteration_def sbind_def slift_def sget_def sret_def smodify_def
      apply_tip_change_def locate_fork_point_def build_block_locator_eq locator_block_heights_7
      example_env_def example_engine_def example_scan_db_def example_scanner_def
      scan_block_def chain_op_def db_read_def db_op_def on_store_def
      write_status_def status_write_defs channel_def transparent_address_index_def sassert_def
      publish_tip_reached_def stream_mempool_def update_boundary_def saturating_heights_def
      saturating_sub_def saturating_add_def)

lemma nine_tip: "zv_tip nine_blocks = chain_block 8 [8]"
  by (simp add: nine_blocks_def)

lemma nine_hashes_identify: "hashes_identify (rewind_store example_env) (st_db example_engine) nine_view"
  unfolding hashes_identify_def
proof (intro allI impI, elim conjE)
  fix h k x
  assume "get_block_hash (rewind_store example_env) (st_db example_engine) h = Inr (Some x)"
    and "get_block_header nine_view k = Inr (Some x)"
  then have "h \<le> 8" "x = [ucast h]" "k \<le> 8" "x = pinned pred_hash nine_blocks k"
    by (auto simp: example_env_def example_engine_def nine_view_def nine_tip split: if_splits)
  with pinned_nine [of k] ucast_inj_8 [of h k] show "h = k" by simp
qed

lemma nine_scanned:
  "h \<le> cb_height (zv_tip nine_blocks) \<Longrightarrow>
   claimed_height (scanning example_env) h = h \<and> header_hash (scanning example_env) h = pinned pred_hash nine_blocks h"
  using pinned_nine [of h] by (simp add: example_env_simps example_scanner_def nine_blocks_def)

lemma nine_implemented: "zebra_implements (heights example_env) pred_hash serving_node height_codecs nine_blocks nine_view"
  unfolding nine_view_def
  by (rule pinned_view_implemented [OF _ nine_served])
    (simp_all add: example_env_simps saturating_heights_ok nine_blocks_def)

lemma nine_bounded: "Suc (unat (cb_height (zv_tip nine_blocks))) < 2 ^ 32"
  by (simp add: nine_tip)

theorem zebra_view_implements_pinned_view_witness:
  "view_ok (heights example_env) (scanning example_env) nine_view (chain_block 8 [8])"
  using zebra_view_implements_pinned_view [OF _ nine_served nine_bounded nine_scanned, of "heights example_env" example_view]
    saturating_heights_ok
  by (simp add: example_env_simps nine_view_def) (simp add: nine_blocks_def)

theorem zebra_pass_reaches_tip_witness:
  "snapshot serving_node (\<lambda>_. None) 0 = Inr (nine_blocks, \<lparr>zv_cache = [(8, [8])], zv_clock = 1\<rparr>) \<and>
   steady_state_iteration example_env None (Inr nine_view) example_engine = (Inr (Continue ()), example_synced) \<and>
   prev_tip example_synced = zv_tip nine_blocks"
  using zebra_pass_reaches_tip [OF _ nine_snapshot nine_served nine_bounded nine_scanned nine_implemented
      nine_hashes_identify example_rewind_ok example_tip_stored nine_iteration] nine_snapshot nine_iteration
    saturating_heights_ok
  by (simp add: example_env_simps)

text \<open>The same node after it dropped the block at height 8.\<close>

definition dropping_node :: "(unit, unit) zebra_env" where
  "dropping_node = serving_node\<lparr>ze_reader := (\<lambda>t. (ze_reader serving_node t)\<lparr>rd_raw_block_by_hash :=
     (\<lambda>x. Inr (if x = [8] then None else Some x))\<rparr>)\<rparr>"


text \<open>C10: Fork points are not pinned: they are answered from the node's best chain at the time of the
  request. If that chain has changed since the view was captured, the fork point can lie above the
  captured tip, and the pass panics on its assertion.\<close>

theorem zebra_fork_point_race_panics:
  assumes "snapshot E params now = Inr (v, s0)" and "view_tip V = Inr (zv_tip v)"
    and "get_wallet_birthday (rewind_store env) (st_db s) = Inr birthday"
    and "build_block_locator (\<lambda>h. map_err Other (get_block_hash (rewind_store env) (st_db s) h))
      (cb_height (prev_tip s)) = Inr locator"
    and "fst (zebra_find_fork_point E locator s0) = map_err Raise (find_fork_point V locator)"
    and "rd_find_fork_point (ze_reader E (Suc now)) locator = Inr (Some b)"
    and "cb_height (zv_tip v) < cb_height b" and "prev_tip s \<noteq> zv_tip v"
  shows "fst (steady_state_iteration env sh (Inr V) s) = Inl (Panic ''fork point above the tip'')"
proof -
  have "map_err Raise (find_fork_point V locator) = Inr (Some b)"
    using assms(5,6) snapshot_ok(2) [OF assms(1)] by (simp add: zebra_find_fork_point_def ask_def)
  then have "find_fork_point V locator = Inr (Some b)" by (simp add: result_simps)
  then have "locate_fork_point (rewind_store env) V (st_db s) (prev_tip s) = Inr b"
    using assms(3,4) by (simp add: locate_fork_point_def)
  moreover have "\<not> cb_height b \<le> cb_height (zv_tip v)" using assms(7) by simp
  ultimately show ?thesis
    using assms(2,8)
    by (auto simp: steady_state_iteration_def apply_tip_change_def sbind_def slift_def sget_def
        smodify_def write_status_def sassert_def sfail_def)
qed

text \<open>The node follows a chain that ends at height 6 when the view is captured, and is back on the
  wallet's chain at the next read.\<close>

definition flapping_node :: "(unit, unit) zebra_env" where
  "flapping_node = serving_node\<lparr>ze_reader := (\<lambda>t. (ze_reader serving_node t)\<lparr>
     rd_tip := Inr (Some (if t = 0 then chain_block 6 [60] else chain_block 7 [7])),
     rd_find_fork_point := (\<lambda>_. Inr (if t = 0 then None else Some (chain_block 7 [7])))\<rparr>)\<rparr>"

theorem zebra_fork_point_race_panics_witness:
  "fst (steady_state_iteration example_env None
     (Inr (example_view\<lparr>view_tip := Inr (chain_block 6 [60])\<rparr>)) example_engine) =
   Inl (Panic ''fork point above the tip'')"
proof -
  let ?v = "\<lparr>zv_tip = chain_block 6 [60], zv_floor = 0, zv_activation = (\<lambda>_. None)\<rparr>"
  let ?s = "\<lparr>zv_cache = [(6, [60])], zv_clock = 1\<rparr>"
  have "snapshot flapping_node (\<lambda>_. None) 0 = Inr (?v, ?s)"
    by (simp add: snapshot_def flapping_node_def saturating_sub_def MAX_REORG_DEPTH_def)
  then show ?thesis
    by (rule zebra_fork_point_race_panics [where locator = "BlockLocator [[7], [6], [5]]" and b = "chain_block 7 [7]"
          and birthday = "Some 5"])
      (simp_all add: example_view_def example_env_def example_engine_def build_block_locator_eq
        locator_block_heights_7 zebra_find_fork_point_def ask_def flapping_node_def)
qed

end
