(* ===== verification/Async_Op.thy ===== *)
theory Async_Op
  imports Rpc_Errors
begin

text \<open>
  Asynchronous JSON-RPC operations (\<open>json_rpc/asyncop.rs\<close>) and the methods that inspect them
  (\<open>methods/get_operation.rs\<close>, \<open>methods/list_operation_ids.rs\<close>): the life cycle of one
  operation, the bounded queue that retains finished operations until they are collected or
  evicted, and the queue under concurrent insertions as a transition system.

  JSON values are the type \<open>'v\<close>; times are nanoseconds since the Unix epoch. Parsing a UUID, and
  serialising a result, are arguments. An operation's data lives behind its own lock and is
  updated by the operation's task; here it is a field of the operation in the queue.
\<close>

section \<open>Operation ids\<close>

type_synonym OperationId = string

definition opid_try_from :: "(string \<Rightarrow> bool) \<Rightarrow> string \<Rightarrow> rpc_error + OperationId" where
  "opid_try_from uuid_parses value =
     (if take 5 value = ''opid-''
      then if uuid_parses (drop 5 value) then Inr value
           else Inl (with_static InvalidParameter ''Invalid operation ID'')
      else Inl (with_static InvalidParameter ''Invalid operation ID''))"

section \<open>Operation states\<close>

datatype OperationState = Ready | Executing | Cancelled | Failed | Success

definition parse_state :: "string \<Rightarrow> OperationState option" where
  "parse_state s =
     (if s = ''queued'' then Some Ready
      else if s = ''executing'' then Some Executing
      else if s = ''cancelled'' then Some Cancelled
      else if s = ''failed'' then Some Failed
      else if s = ''success'' then Some Success
      else None)"

fun is_finished :: "OperationState \<Rightarrow> bool" where
  "is_finished Cancelled = True"
| "is_finished Failed = True"
| "is_finished Success = True"
| "is_finished _ = False"

fun state_str :: "OperationState \<Rightarrow> string" where
  "state_str Ready = ''queued''"
| "state_str Executing = ''executing''"
| "state_str Cancelled = ''cancelled''"
| "state_str Failed = ''failed''"
| "state_str Success = ''success''"

interpretation operation_state: string_codec state_str parse_state
proof
  show "parse_state (state_str x) = Some x" for x by (cases x) (simp_all add: parse_state_def)
  show "parse_state s = Some x \<Longrightarrow> s = state_str x" for s x
    by (auto simp: parse_state_def split: if_splits)
qed

section \<open>One operation\<close>

record 'v OperationData =
  op_state :: OperationState
  start_time :: "int option"
  end_time :: "int option"
  op_result :: "(rpc_error + 'v) option"

record 'v AsyncOperation =
  operation_id :: OperationId
  op_context :: "(string \<times> 'v) option"
  creation_time :: int
  op_data :: "'v OperationData"

definition new_data :: "'v OperationData" where
  "new_data = \<lparr>op_state = Ready, start_time = None, end_time = None, op_result = None\<rparr>"

definition new_operation :: "OperationId \<Rightarrow> (string \<times> 'v) option \<Rightarrow> int \<Rightarrow> 'v AsyncOperation" where
  "new_operation opid ctx now =
     \<lparr>operation_id = opid, op_context = ctx, creation_time = now, op_data = new_data\<rparr>"

text \<open>The two critical sections of the spawned task. The first returns \<open>None\<close> when the task ends
  at once because the operation was cancelled.\<close>

definition record_start :: "int \<Rightarrow> 'v OperationData \<Rightarrow> 'v OperationData option" where
  "record_start now d =
     (if op_state d = Cancelled then None
      else Some (d\<lparr>op_state := Executing, start_time := Some now\<rparr>))"

text \<open>How the future ends: it returns, or it panics with a payload that may be a string.\<close>

datatype 'r outcome = Returned "rpc_error + 'r" | Panicked "string option"

definition task_result :: "('r \<Rightarrow> string + 'v) \<Rightarrow> 'r outcome \<Rightarrow> rpc_error + 'v" where
  "task_result to_value out =
     (case out of
        Returned r \<Rightarrow>
          rbind r (\<lambda>ret. map_err (\<lambda>e. with_message Misc
            (Text (''Failed to serialize operation result: '' @ e))) (to_value ret))
      | Panicked payload \<Rightarrow>
          (let msg = (case payload of Some s \<Rightarrow> s | None \<Rightarrow> ''unknown panic'')
           in Inl (with_message Misc (Text (''Async operation panicked: '' @ msg)))))"

definition record_result :: "int \<Rightarrow> rpc_error + 'v \<Rightarrow> 'v OperationData \<Rightarrow> 'v OperationData" where
  "record_result now res d =
     d\<lparr>op_state := (if is_ok res then Success else Failed), end_time := Some now, op_result := Some res\<rparr>"

text \<open>The whole task, when nothing else changes the operation's data.\<close>

definition run_task :: "('r \<Rightarrow> string + 'v) \<Rightarrow> int \<Rightarrow> 'r outcome \<Rightarrow> int \<Rightarrow> 'v OperationData \<Rightarrow> 'v OperationData" where
  "run_task to_value started out ended d =
     (case record_start started d of
        None \<Rightarrow> d
      | Some d' \<Rightarrow> record_result ended (task_result to_value out) d')"

section \<open>Statuses\<close>

text \<open>The server's errors carry no \<open>data\<close>, so neither does the reported error.\<close>

record OperationError =
  oe_code :: rpc_code
  oe_message :: message

record 'v OperationStatus =
  os_id :: OperationId
  os_method :: "string option"
  os_params :: "'v option"
  os_status :: OperationState
  os_creation_time :: nat
  os_error :: "OperationError option"
  os_result :: "'v option"
  os_execution_secs :: "nat option"

text \<open>\<open>duration_since\<close> fails when the time goes backwards; \<open>as_secs\<close> drops the fraction.\<close>

definition duration_secs :: "int \<Rightarrow> int \<Rightarrow> nat option" where
  "duration_secs later earlier =
     (if earlier \<le> later then Some (nat (later - earlier) div 1000000000) else None)"

definition to_status :: "'v AsyncOperation \<Rightarrow> 'v OperationStatus" where
  "to_status op =
     (let d = op_data op;
          creation = (case duration_secs (creation_time op) 0 of Some s \<Rightarrow> s | None \<Rightarrow> 0);
          (error, result, execution_secs) =
            (case op_result d of
               None \<Rightarrow> (None, None, None)
             | Some (Inl e) \<Rightarrow> (Some \<lparr>oe_code = err_code e, oe_message = err_message e\<rparr>, None, None)
             | Some (Inr v) \<Rightarrow>
                 (None, Some v,
                  case (end_time d, start_time d) of
                    (Some ended, Some started) \<Rightarrow>
                      Some (case duration_secs ended started of Some s \<Rightarrow> s | None \<Rightarrow> 0)
                  | _ \<Rightarrow> None))
      in \<lparr>os_id = operation_id op, os_method = map_option fst (op_context op),
          os_params = map_option snd (op_context op), os_status = op_state d,
          os_creation_time = creation, os_error = error, os_result = result,
          os_execution_secs = execution_secs\<rparr>)"

section \<open>The queue\<close>

record 'v OperationQueue =
  ops :: "'v AsyncOperation list"
  limit :: nat

definition queue_new :: "nat \<Rightarrow> 'v OperationQueue" where
  "queue_new lim = \<lparr>ops = [], limit = lim\<rparr>"

abbreviation op_finished :: "'v AsyncOperation \<Rightarrow> bool" where
  "op_finished op \<equiv> is_finished (op_state (op_data op))"

definition any_finished :: "'v OperationQueue \<Rightarrow> bool" where
  "any_finished q = list_ex op_finished (ops q)"

definition finished_ids :: "'v OperationQueue \<Rightarrow> OperationId list" where
  "finished_ids q = map operation_id (filter op_finished (ops q))"

definition full_error :: rpc_error where
  "full_error = with_static OutOfMemory
     ''Too many pending asynchronous operations; collect finished operations with z_getoperationresult''"

text \<open>The closure of \<open>retain\<close> in \<open>insert\<close>, with its countdown.\<close>

fun evict :: "nat \<Rightarrow> OperationId list \<Rightarrow> 'v AsyncOperation list \<Rightarrow> 'v AsyncOperation list" where
  "evict excess finished [] = []"
| "evict excess finished (op # rest) =
     (if excess > 0 \<and> operation_id op \<in> set finished
      then evict (excess - 1) finished rest
      else op # evict excess finished rest)"

text \<open>The part of \<open>insert\<close> under the write lock, given the ids found finished before it, and the
  operation it launches.\<close>

definition insert_locked ::
    "OperationId list \<Rightarrow> 'v AsyncOperation \<Rightarrow> 'v OperationQueue \<Rightarrow>
     (rpc_error + OperationId) \<times> 'v OperationQueue" where
  "insert_locked finished op q =
     (if length (ops q) \<ge> limit q
      then let excess = (length (ops q) + 1) - limit q;
               q' = q\<lparr>ops := evict excess finished (ops q)\<rparr>
           in if length (ops q') \<ge> limit q' then (Inl full_error, q')
              else (Inr (operation_id op), q'\<lparr>ops := ops q' @ [op]\<rparr>)
      else (Inr (operation_id op), q\<lparr>ops := ops q @ [op]\<rparr>))"

definition queue_insert ::
    "'v AsyncOperation \<Rightarrow> 'v OperationQueue \<Rightarrow> (rpc_error + OperationId) \<times> 'v OperationQueue" where
  "queue_insert op q = insert_locked (finished_ids q) op q"

definition check_capacity :: "'v OperationQueue \<Rightarrow> rpc_error + unit" where
  "check_capacity q =
     (if length (ops q) < limit q \<or> any_finished q then Inr () else Inl full_error)"

definition collect_finished ::
    "('v AsyncOperation \<Rightarrow> bool) \<Rightarrow> 'v OperationQueue \<Rightarrow> 'v OperationStatus list \<times> 'v OperationQueue" where
  "collect_finished flt q =
     (let collected = filter op_finished (filter flt (ops q));
          remove = map operation_id collected
      in (map to_status collected,
          q\<lparr>ops := filter (\<lambda>op. operation_id op \<notin> set remove) (ops q)\<rparr>))"

section \<open>The methods\<close>

definition id_filter :: "OperationId list \<Rightarrow> 'v AsyncOperation \<Rightarrow> bool" where
  "id_filter operationid op \<longleftrightarrow> operationid = [] \<or> operation_id op \<in> set operationid"

definition operation_status :: "'v AsyncOperation list \<Rightarrow> OperationId list \<Rightarrow> 'v OperationStatus list" where
  "operation_status async_ops operationid = map to_status (filter (id_filter operationid) async_ops)"

definition operation_result ::
    "OperationId list \<Rightarrow> 'v OperationQueue \<Rightarrow> 'v OperationStatus list \<times> 'v OperationQueue" where
  "operation_result operationid q = collect_finished (id_filter operationid) q"

definition list_operation_ids :: "'v AsyncOperation list \<Rightarrow> string option \<Rightarrow> OperationId list" where
  "list_operation_ids async_ops status =
     (let state = map_option parse_state status in
      map operation_id (filter (\<lambda>op. case state of
          None \<Rightarrow> True
        | Some f \<Rightarrow> f = Some (op_state (op_data op))) async_ops))"

section \<open>A bounded store\<close>

text \<open>What a client of a bounded store that makes room by evicting relies on: the bound, that
  nothing but an evictable item is dropped, and that an addition is refused only when there is no
  room to make, changing nothing.\<close>

locale bounded_store =
  fixes items :: "'q \<Rightarrow> 'i list"
    and cap :: "'q \<Rightarrow> nat"
    and ident :: "'i \<Rightarrow> 'k"
    and evictable :: "'i \<Rightarrow> bool"
    and add :: "'i \<Rightarrow> 'q \<Rightarrow> ('e + 'k) \<times> 'q"
  assumes add_cap: "cap (snd (add i q)) = cap q"
    and add_bound: "length (items q) \<le> cap q \<Longrightarrow> length (items (snd (add i q))) \<le> cap q"
    and add_distinct: "distinct (map ident (items q)) \<Longrightarrow> ident i \<notin> ident ` set (items q) \<Longrightarrow>
      distinct (map ident (items (snd (add i q))))"
    and add_items: "set (items (snd (add i q))) \<subseteq> insert i (set (items q))"
    and add_keeps: "distinct (map ident (items q)) \<Longrightarrow> x \<in> set (items q) \<Longrightarrow> \<not> evictable x \<Longrightarrow>
      x \<in> set (items (snd (add i q)))"
    and add_stores: "add i q = (Inr k, q') \<Longrightarrow> i \<in> set (items q')"
    and add_refuses: "length (items q) \<le> cap q \<Longrightarrow>
      (\<exists>e. fst (add i q) = Inl e) \<longleftrightarrow> length (items q) = cap q \<and> \<not> list_ex evictable (items q)"
    and refused_unchanged: "length (items q) \<le> cap q \<Longrightarrow> add i q = (Inl e, q') \<Longrightarrow> q' = q"
begin

primrec add_all :: "'i list \<Rightarrow> 'q \<Rightarrow> 'q" where
  "add_all [] q = q"
| "add_all (i # is) q = add_all is (snd (add i q))"

lemma add_all_bound:
  "length (items q) \<le> cap q \<Longrightarrow> length (items (add_all is q)) \<le> cap q \<and> cap (add_all is q) = cap q"
proof (induction "is" arbitrary: q)
  case (Cons i "is")
  from Cons.prems have "length (items (snd (add i q))) \<le> cap (snd (add i q))"
    by (simp add: add_bound add_cap)
  from Cons.IH [OF this] show ?case by (simp add: add_cap)
qed simp

lemma add_all_keeps:
  "distinct (map ident (items q)) \<Longrightarrow> distinct (map ident is) \<Longrightarrow>
   ident ` set is \<inter> ident ` set (items q) = {} \<Longrightarrow> x \<in> set (items q) \<Longrightarrow> \<not> evictable x \<Longrightarrow>
   x \<in> set (items (add_all is q))"
proof (induction "is" arbitrary: q)
  case (Cons i "is")
  let ?q = "snd (add i q)"
  have "distinct (map ident (items ?q))" using Cons.prems by (intro add_distinct) auto
  moreover have "x \<in> set (items ?q)" using Cons.prems by (intro add_keeps)
  moreover have "ident ` set is \<inter> ident ` set (items ?q) = {}"
  proof -
    have "ident ` set (items ?q) \<subseteq> insert (ident i) (ident ` set (items q))"
      using image_mono [OF add_items [of i q], of ident] by simp
    then have "ident ` set is \<inter> ident ` set (items ?q) \<subseteq>
        ident ` set is \<inter> insert (ident i) (ident ` set (items q))"
      by (rule Int_mono [OF order_refl])
    also have "\<dots> = {}" using Cons.prems(2,3) by auto
    finally show ?thesis by simp
  qed
  ultimately show ?case using Cons.IH [of ?q] Cons.prems by simp
qed simp

text \<open>A store full of items that cannot be evicted refuses everything.\<close>

lemma full_store_stuck:
  assumes "length (items q) = cap q" and "\<not> list_ex evictable (items q)"
  shows "add_all is q = q"
proof (induction "is")
  case (Cons i "is")
  from add_refuses [of q i] assms obtain e where "fst (add i q) = Inl e" by auto
  then have "add i q = (Inl e, snd (add i q))" by (simp add: prod_eq_iff)
  from refused_unchanged [OF _ this] assms(1) have "snd (add i q) = q" by simp
  with Cons.IH show ?case by simp
qed simp

end

section \<open>Eviction\<close>

lemma evict_subset: "set (evict n finished xs) \<subseteq> set xs"
  by (induction n finished xs rule: evict.induct) auto

lemma evict_keeps: "x \<in> set xs \<Longrightarrow> operation_id x \<notin> set finished \<Longrightarrow> x \<in> set (evict n finished xs)"
  by (induction n finished xs rule: evict.induct) auto

lemma evict_0 [simp]: "evict 0 finished xs = xs"
  by (induction xs) auto

lemma evict_none: "\<forall>x \<in> set xs. operation_id x \<notin> set finished \<Longrightarrow> evict n finished xs = xs"
  by (induction xs) auto

lemma evict_1_first:
  "\<forall>x \<in> set pre. operation_id x \<notin> set finished \<Longrightarrow> operation_id y \<in> set finished \<Longrightarrow>
   evict 1 finished (pre @ y # post) = pre @ post"
  by (induction pre) auto

lemma evict_length: "length xs \<le> length (evict n finished xs) + n"
  by (induction n finished xs rule: evict.induct) auto

lemma evict_distinct: "distinct (map operation_id xs) \<Longrightarrow> distinct (map operation_id (evict n finished xs))"
proof (induction n finished xs rule: evict.induct)
  case (2 n finished op rest)
  have "operation_id op \<notin> operation_id ` set (evict n finished rest)"
    using "2.prems" evict_subset [of n finished rest] by auto
  with 2 show ?case by auto
qed simp

text \<open>At the limit, an insertion evicts the oldest operation among those found finished, or is
  refused and changes nothing.\<close>

lemma insert_locked_full:
  assumes "length (ops q) = limit q"
  shows "insert_locked finished op q =
    (if list_ex (\<lambda>x. operation_id x \<in> set finished) (ops q)
     then (Inr (operation_id op), q\<lparr>ops := evict 1 finished (ops q) @ [op]\<rparr>)
     else (Inl full_error, q))"
proof (cases "list_ex (\<lambda>x. operation_id x \<in> set finished) (ops q)")
  case True
  then obtain pre y post where split: "ops q = pre @ y # post"
    and y: "operation_id y \<in> set finished" and pre: "\<forall>x \<in> set pre. operation_id x \<notin> set finished"
    using split_list_first_prop [of "ops q" "\<lambda>x. operation_id x \<in> set finished"]
    by (auto simp: list_ex_iff)
  have "evict 1 finished (ops q) = pre @ post" unfolding split by (rule evict_1_first [OF pre y])
  moreover have "length (pre @ post) < limit q" using assms split by simp
  ultimately show ?thesis using True assms by (simp add: insert_locked_def Let_def)
next
  case False
  then have "evict 1 finished (ops q) = ops q" by (intro evict_none) (auto simp: list_ex_iff)
  with False assms show ?thesis by (simp add: insert_locked_def Let_def)
qed

lemma insert_locked_room:
  "length (ops q) < limit q \<Longrightarrow>
   insert_locked finished op q = (Inr (operation_id op), q\<lparr>ops := ops q @ [op]\<rparr>)"
  by (simp add: insert_locked_def)

lemma insert_locked_limit: "limit (snd (insert_locked finished op q)) = limit q"
  by (simp add: insert_locked_def Let_def)

lemma insert_locked_bound:
  assumes "length (ops q) \<le> limit q"
  shows "length (ops (snd (insert_locked finished op q))) \<le> limit q"
proof (cases "length (ops q) = limit q")
  case True
  have "length (evict 1 finished (ops q)) < limit q" if "list_ex (\<lambda>x. operation_id x \<in> set finished) (ops q)"
    using insert_locked_full [OF True, of finished op] that True
    by (auto simp: insert_locked_def Let_def split: if_splits)
  with True show ?thesis by (auto simp: insert_locked_full [OF True])
next
  case False
  with assms show ?thesis by (simp add: insert_locked_room)
qed

lemma insert_locked_keeps:
  "x \<in> set (ops q) \<Longrightarrow> operation_id x \<notin> set finished \<Longrightarrow> x \<in> set (ops (snd (insert_locked finished op q)))"
  using evict_keeps [of x "ops q" finished] by (auto simp: insert_locked_def Let_def)

lemma insert_locked_items: "set (ops (snd (insert_locked finished op q))) \<subseteq> insert op (set (ops q))"
  using evict_subset [of _ finished "ops q"] by (auto simp: insert_locked_def Let_def)

lemma insert_locked_distinct:
  assumes "distinct (map operation_id (ops q))" and "operation_id op \<notin> operation_id ` set (ops q)"
  shows "distinct (map operation_id (ops (snd (insert_locked finished op q))))"
proof -
  have "operation_id op \<notin> operation_id ` set (evict n finished (ops q))" for n
    using assms(2) evict_subset [of n finished "ops q"] by auto
  with assms evict_distinct [OF assms(1)] show ?thesis by (auto simp: insert_locked_def Let_def)
qed

lemma finished_ids_iff:
  "distinct (map operation_id (ops q)) \<Longrightarrow> x \<in> set (ops q) \<Longrightarrow>
   operation_id x \<in> set (finished_ids q) \<longleftrightarrow> op_finished x"
  by (auto simp: finished_ids_def distinct_map dest: inj_onD)

lemma not_in_finished_ids:
  "list_ex (\<lambda>x. operation_id x \<in> set (finished_ids q)) (ops q) \<longleftrightarrow> any_finished q"
  by (auto simp: list_ex_iff finished_ids_def any_finished_def)

interpretation op_queue: bounded_store ops limit operation_id op_finished queue_insert
proof
  fix i x :: "'a AsyncOperation" and q q' :: "'a OperationQueue" and k e
  show "limit (snd (queue_insert i q)) = limit q"
    by (simp add: queue_insert_def insert_locked_limit)
  show "length (ops q) \<le> limit q \<Longrightarrow> length (ops (snd (queue_insert i q))) \<le> limit q"
    by (simp add: queue_insert_def insert_locked_bound)
  show "distinct (map operation_id (ops q)) \<Longrightarrow> operation_id i \<notin> operation_id ` set (ops q) \<Longrightarrow>
      distinct (map operation_id (ops (snd (queue_insert i q))))"
    by (simp add: queue_insert_def insert_locked_distinct)
  show "set (ops (snd (queue_insert i q))) \<subseteq> insert i (set (ops q))"
    by (simp add: queue_insert_def insert_locked_items)
  show "distinct (map operation_id (ops q)) \<Longrightarrow> x \<in> set (ops q) \<Longrightarrow> \<not> op_finished x \<Longrightarrow>
      x \<in> set (ops (snd (queue_insert i q)))"
    unfolding queue_insert_def by (intro insert_locked_keeps) (simp_all add: finished_ids_iff)
  show "queue_insert i q = (Inr k, q') \<Longrightarrow> i \<in> set (ops q')"
    by (auto simp: queue_insert_def insert_locked_def Let_def split: if_splits)
  assume bound: "length (ops q) \<le> limit q"
  show "(\<exists>e. fst (queue_insert i q) = Inl e) \<longleftrightarrow>
      length (ops q) = limit q \<and> \<not> list_ex op_finished (ops q)"
    using bound insert_locked_full [of q "finished_ids q" i] insert_locked_room [of q "finished_ids q" i]
    by (cases "length (ops q) = limit q")
       (auto simp: queue_insert_def not_in_finished_ids any_finished_def)
  assume "queue_insert i q = (Inl e, q')"
  then show "q' = q"
    using bound insert_locked_full [of q "finished_ids q" i] insert_locked_room [of q "finished_ids q" i]
    by (cases "length (ops q) = limit q") (auto simp: queue_insert_def split: if_splits)
qed

section \<open>The queue under concurrency\<close>

text \<open>An insertion reads which operations are finished without holding the queue's lock and
  uses the answer later. The system's state is the queue with the answers still in use; an answer
  is any list of ids of operations finished by the time it is complete.\<close>

record 'v system =
  queue :: "'v OperationQueue"
  answers :: "OperationId list list"

definition update_op ::
    "OperationId \<Rightarrow> ('v OperationData \<Rightarrow> 'v OperationData) \<Rightarrow> 'v OperationQueue \<Rightarrow> 'v OperationQueue" where
  "update_op opid f q =
     q\<lparr>ops := map (\<lambda>op. if operation_id op = opid then op\<lparr>op_data := f (op_data op)\<rparr> else op) (ops q)\<rparr>"

inductive queue_step :: "'v system \<Rightarrow> 'v system \<Rightarrow> bool" where
  look: "set answer \<subseteq> set (finished_ids (queue s)) \<Longrightarrow>
    queue_step s (s\<lparr>answers := answer # answers s\<rparr>)"
| insertion: "answer \<in> set (answers s) \<Longrightarrow> op_state (op_data op) = Ready \<Longrightarrow>
    operation_id op \<notin> operation_id ` set (ops (queue s)) \<Longrightarrow>
    operation_id op \<notin> \<Union> (set ` set (answers s)) \<Longrightarrow>
    insert_locked answer op (queue s) = (r, q') \<Longrightarrow> queue_step s (s\<lparr>queue := q'\<rparr>)"
| started: "op \<in> set (ops (queue s)) \<Longrightarrow> op_state (op_data op) = Ready \<Longrightarrow>
    record_start now (op_data op) = Some d \<Longrightarrow>
    queue_step s (s\<lparr>queue := update_op (operation_id op) (\<lambda>_. d) (queue s)\<rparr>)"
| ended: "op \<in> set (ops (queue s)) \<Longrightarrow> op_state (op_data op) = Executing \<Longrightarrow>
    queue_step s (s\<lparr>queue := update_op (operation_id op) (record_result now res) (queue s)\<rparr>)"
| collection: "collect_finished flt (queue s) = (statuses, q') \<Longrightarrow> queue_step s (s\<lparr>queue := q'\<rparr>)"

inductive_cases queue_stepE: "queue_step s t"

text \<open>The invariant: the bound, distinct ids, and that an id in an answer names no unfinished
  operation.\<close>

definition system_ok :: "'v system \<Rightarrow> bool" where
  "system_ok s \<longleftrightarrow>
     length (ops (queue s)) \<le> limit (queue s) \<and> distinct (map operation_id (ops (queue s))) \<and>
     (\<forall>op \<in> set (ops (queue s)). \<forall>answer \<in> set (answers s).
        operation_id op \<in> set answer \<longrightarrow> op_finished op)"

lemma update_op_ids: "map operation_id (ops (update_op opid f q)) = map operation_id (ops q)"
  by (simp add: update_op_def)

lemma update_op_mem:
  "op \<in> set (ops (update_op opid f q)) \<Longrightarrow> \<exists>op0 \<in> set (ops q). operation_id op0 = operation_id op \<and>
     (op = op0 \<and> operation_id op \<noteq> opid \<or> op = op0\<lparr>op_data := f (op_data op0)\<rparr> \<and> operation_id op = opid)"
  by (auto simp: update_op_def)

lemma finished_ids_mem:
  "opid \<in> set (finished_ids q) \<Longrightarrow> \<exists>op \<in> set (ops q). operation_id op = opid \<and> op_finished op"
  by (auto simp: finished_ids_def)

text \<open>A task's own writes leave finished operations finished and others known to be running.\<close>

lemma update_op_ok:
  assumes "system_ok s" and "op \<in> set (ops (queue s))" and "\<not> op_finished op"
  shows "system_ok (s\<lparr>queue := update_op (operation_id op) f (queue s)\<rparr>)"
proof -
  have unfinished: "operation_id op \<notin> set answer" if "answer \<in> set (answers s)" for answer
    using assms that by (auto simp: system_ok_def)
  have "op_finished x" if x: "x \<in> set (ops (update_op (operation_id op) f (queue s)))"
    and "answer \<in> set (answers s)" "operation_id x \<in> set answer" for x answer
    using update_op_mem [OF x] unfinished [OF that(2)] that(2,3) assms(1)
    by (auto simp: system_ok_def)
  then show ?thesis
    using assms(1) by (auto simp: system_ok_def update_op_ids) (simp_all add: update_op_def)
qed

lemma collect_finished_ops:
  "collect_finished flt q = (statuses, q') \<Longrightarrow> distinct (map operation_id (ops q)) \<Longrightarrow>
   q' = q\<lparr>ops := filter (\<lambda>op. \<not> (flt op \<and> op_finished op)) (ops q)\<rparr> \<and>
   statuses = map to_status (filter (\<lambda>op. flt op \<and> op_finished op) (ops q))"
proof -
  assume c: "collect_finished flt q = (statuses, q')" and d: "distinct (map operation_id (ops q))"
  have "operation_id op \<in> set (map operation_id (filter op_finished (filter flt (ops q)))) \<longleftrightarrow>
      flt op \<and> op_finished op" if "op \<in> set (ops q)" for op
    using that d by (auto simp: distinct_map dest: inj_onD)
  then have "filter (\<lambda>op. operation_id op \<notin> set (map operation_id (filter op_finished (filter flt (ops q))))) (ops q) =
      filter (\<lambda>op. \<not> (flt op \<and> op_finished op)) (ops q)"
    by (intro filter_cong) auto
  with c show ?thesis by (auto simp: collect_finished_def Let_def conj_commute)
qed

lemma step_ok:
  assumes "system_ok s" and "queue_step s t"
  shows "system_ok t"
  using assms(2)
proof cases
  case (look answer)
  have "op_finished op" if "op \<in> set (ops (queue s))" "operation_id op \<in> set answer" for op
    using that look(2) assms(1) by (auto simp: system_ok_def finished_ids_iff dest: subsetD)
  with look(1) assms(1) show ?thesis by (auto simp: system_ok_def)
next
  case (insertion answer op r q')
  have q': "q' = snd (insert_locked answer op (queue s))" using insertion(6) by simp
  have "op_finished x" if "x \<in> set (ops q')" "a \<in> set (answers s)" "operation_id x \<in> set a" for x a
  proof (cases "x = op")
    case True
    with insertion(5) that(2,3) show ?thesis by auto
  next
    case False
    with that(1) insert_locked_items [of answer op "queue s"] q' have "x \<in> set (ops (queue s))" by auto
    with that(2,3) assms(1) show ?thesis by (auto simp: system_ok_def)
  qed
  moreover have "length (ops q') \<le> limit q'" "distinct (map operation_id (ops q'))"
    using assms(1) insertion(4) q'
    by (auto simp: system_ok_def insert_locked_bound insert_locked_limit insert_locked_distinct)
  ultimately show ?thesis using insertion(1) by (auto simp: system_ok_def)
next
  case (started op now d)
  with assms(1) show ?thesis by (auto intro: update_op_ok)
next
  case (ended op now res)
  with assms(1) show ?thesis by (auto intro: update_op_ok)
next
  case (collection flt statuses q')
  from collect_finished_ops [OF collection(2)] assms(1)
  have q': "q' = (queue s)\<lparr>ops := filter (\<lambda>op. \<not> (flt op \<and> op_finished op)) (ops (queue s))\<rparr>"
    by (auto simp: system_ok_def)
  with collection(1) assms(1) show ?thesis
    by (auto simp: system_ok_def distinct_map_filter intro: order_trans [OF length_filter_le])
qed

text \<open>An unfinished operation survives every step, its identity unchanged.\<close>

lemma step_keeps_unfinished:
  assumes "system_ok s" and "queue_step s t" and "op \<in> set (ops (queue s))" and "\<not> op_finished op"
  shows "operation_id op \<in> operation_id ` set (ops (queue t))"
  using assms(2)
proof cases
  case (look answer)
  with assms(3) show ?thesis by auto
next
  case (insertion answer op' r q')
  have "operation_id op \<notin> set answer" using assms(1,3,4) insertion(2) by (auto simp: system_ok_def)
  from insert_locked_keeps [OF assms(3) this, of op'] insertion(1,6) show ?thesis by auto
next
  case (started op' now d)
  have "operation_id op \<in> set (map operation_id (ops (queue s)))" using assms(3) by simp
  then have "operation_id op \<in> set (map operation_id (ops (queue t)))"
    using started(1) by (simp add: update_op_ids del: set_map)
  then show ?thesis by simp
next
  case (ended op' now res)
  have "operation_id op \<in> set (map operation_id (ops (queue s)))" using assms(3) by simp
  then have "operation_id op \<in> set (map operation_id (ops (queue t)))"
    using ended(1) by (simp add: update_op_ids del: set_map)
  then show ?thesis by simp
next
  case (collection flt statuses q')
  from collect_finished_ops [OF collection(2)] assms(1) collection(1) assms(3,4) show ?thesis
    by (auto simp: system_ok_def)
qed

lemma reachable_ok: "queue_step\<^sup>*\<^sup>* s t \<Longrightarrow> system_ok s \<Longrightarrow> system_ok t"
  by (induction rule: rtranclp_induct) (auto intro: step_ok)

section \<open>Properties\<close>

text \<open>Below the bound, the advisory capacity check answers exactly whether the next insertion
  would be accepted, and a refused insertion changes nothing.\<close>

theorem check_capacity_predicts_insert:
  assumes "length (ops q) \<le> limit q"
  shows "(is_ok (check_capacity q) \<longleftrightarrow> is_ok (fst (queue_insert op q))) \<and>
         (is_ok (fst (queue_insert op q)) \<or> snd (queue_insert op q) = q)"
proof -
  have refuse: "(\<exists>e. fst (queue_insert op q) = Inl e) \<longleftrightarrow>
      length (ops q) = limit q \<and> \<not> list_ex op_finished (ops q)"
    by (rule op_queue.add_refuses [OF assms])
  have "snd (queue_insert op q) = q" if "fst (queue_insert op q) = Inl e" for e
    using op_queue.refused_unchanged [OF assms, of op e "snd (queue_insert op q)"] that
    by (simp add: prod_eq_iff)
  with refuse assms show ?thesis
    by (cases "fst (queue_insert op q)") (auto simp: check_capacity_def any_finished_def)
qed

definition example_op :: "OperationId \<Rightarrow> OperationState \<Rightarrow> nat AsyncOperation" where
  "example_op i st = (new_operation i None 0)\<lparr>op_data := new_data\<lparr>op_state := st\<rparr>\<rparr>"

definition example_queue :: "nat OperationQueue" where
  "example_queue =
     \<lparr>ops = [example_op ''opid-1'' Executing, example_op ''opid-2'' Success], limit = 2\<rparr>"

lemmas example_op_defs = example_queue_def example_op_def new_operation_def new_data_def

theorem check_capacity_predicts_insert_witness:
  "is_ok (check_capacity example_queue) \<longleftrightarrow>
     is_ok (fst (queue_insert (example_op ''opid-3'' Ready) example_queue))"
  using check_capacity_predicts_insert [of example_queue "example_op ''opid-3'' Ready"]
  by (simp add: example_queue_def)

text \<open>C16: Under any interleaving of insertions (each acting on a possibly outdated view of which
  operations are finished), task progress and collections, the queue stays within its limit with
  distinct ids, and no step removes an operation that has not finished.\<close>

theorem queue_never_drops_unfinished:
  assumes "system_ok s" and "queue_step\<^sup>*\<^sup>* s t" and "queue_step t u"
    and "op \<in> set (ops (queue t))" and "\<not> op_finished op"
  shows "operation_id op \<in> operation_id ` set (ops (queue u)) \<and>
         length (ops (queue u)) \<le> limit (queue u) \<and> distinct (map operation_id (ops (queue u)))"
proof -
  have ok: "system_ok t" by (rule reachable_ok [OF assms(2,1)])
  from step_ok [OF ok assms(3)] step_keeps_unfinished [OF ok assms(3-5)] show ?thesis
    by (simp add: system_ok_def)
qed

definition example_system :: "nat system" where
  "example_system = \<lparr>queue = example_queue, answers = [[''opid-2'']]\<rparr>"

lemma example_system_ok: "system_ok example_system"
  by (auto simp: system_ok_def example_system_def example_op_defs)

lemma example_insertion:
  "queue_step example_system
     (example_system\<lparr>queue := snd (insert_locked [''opid-2''] (example_op ''opid-3'' Ready) example_queue)\<rparr>)"
proof (rule queue_step.insertion)
  show "insert_locked [''opid-2''] (example_op ''opid-3'' Ready) (queue example_system) =
      (fst (insert_locked [''opid-2''] (example_op ''opid-3'' Ready) example_queue),
       snd (insert_locked [''opid-2''] (example_op ''opid-3'' Ready) example_queue))"
    by (simp add: example_system_def)
qed (auto simp: example_system_def example_op_defs)

theorem queue_never_drops_unfinished_witness:
  "''opid-1'' \<in> operation_id `
     set (ops (snd (insert_locked [''opid-2''] (example_op ''opid-3'' Ready) example_queue)))"
  using queue_never_drops_unfinished [OF example_system_ok rtranclp.rtrancl_refl example_insertion,
      of "example_op ''opid-1'' Executing"]
  by (simp add: example_system_def example_op_defs)

text \<open>An insertion into a full queue that holds a finished operation evicts exactly the oldest
  such operation and appends the new one.\<close>

theorem insert_evicts_oldest_finished:
  assumes "ops q = pre @ old # post" and "length (ops q) = limit q"
    and "distinct (map operation_id (ops q))" and "op_finished old"
    and "list_all (\<lambda>x. \<not> op_finished x) pre"
  shows "queue_insert op q = (Inr (operation_id op), q\<lparr>ops := pre @ post @ [op]\<rparr>)"
proof -
  have pre: "\<forall>x \<in> set pre. operation_id x \<notin> set (finished_ids q)"
    and old: "operation_id old \<in> set (finished_ids q)"
    using assms(1,3-5) finished_ids_iff [OF assms(3)] by (auto simp: list_all_iff)
  have "evict 1 (finished_ids q) (ops q) = pre @ post"
    unfolding assms(1) by (rule evict_1_first [OF pre old])
  moreover have "list_ex (\<lambda>x. operation_id x \<in> set (finished_ids q)) (ops q)"
    using assms(1) old by (simp add: list_ex_iff)
  ultimately show ?thesis
    by (simp add: queue_insert_def insert_locked_full [OF assms(2)])
qed

theorem insert_evicts_oldest_finished_witness:
  "queue_insert (example_op ''opid-3'' Ready) example_queue =
     (Inr ''opid-3'',
      example_queue\<lparr>ops := [example_op ''opid-1'' Executing] @ [] @ [example_op ''opid-3'' Ready]\<rparr>)"
  using insert_evicts_oldest_finished [of example_queue "[example_op ''opid-1'' Executing]"
      "example_op ''opid-2'' Success" "[]" "example_op ''opid-3'' Ready"]
  by (simp add: example_op_defs)

text \<open>Collecting returns the statuses of exactly the finished operations asked for, in queue
  order, removes exactly those, and collecting again returns none of them.\<close>

theorem collect_finished_once:
  assumes "collect_finished flt q = (statuses, q')" and "distinct (map operation_id (ops q))"
  shows "statuses = map to_status (filter (\<lambda>op. flt op \<and> op_finished op) (ops q)) \<and>
         ops q' = filter (\<lambda>op. \<not> (flt op \<and> op_finished op)) (ops q) \<and>
         fst (collect_finished flt q') = []"
proof -
  note c = collect_finished_ops [OF assms]
  then have q': "ops q' = filter (\<lambda>op. \<not> (flt op \<and> op_finished op)) (ops q)" by simp
  have "filter op_finished (filter flt (ops q')) = []" unfolding q' by (auto simp: filter_empty_conv)
  with c q' show ?thesis by (simp add: collect_finished_def Let_def)
qed

theorem collect_finished_once_witness:
  "fst (collect_finished (id_filter []) (snd (collect_finished (id_filter []) example_queue))) = []"
  using collect_finished_once [of "id_filter []" example_queue
      "fst (collect_finished (id_filter []) example_queue)"
      "snd (collect_finished (id_filter []) example_queue)"]
  by (simp add: example_op_defs)

text \<open>C17: A task that starts always ends in a finished state: success with the serialised value
  and an execution time, or failure with an error, also when the future panics or its result
  cannot be serialised; the reported status shows exactly one of a result and an error.\<close>

theorem run_task_finishes:
  assumes "op_state (op_data op) = Ready"
  shows "let d = run_task to_value started out ended (op_data op);
             st = to_status (op\<lparr>op_data := d\<rparr>)
         in is_finished (op_state d) \<and>
            (os_status st = Success \<longleftrightarrow> os_error st = None) \<and>
            (os_status st = Success \<longleftrightarrow> (\<exists>r v. out = Returned (Inr r) \<and> to_value r = Inr v \<and> os_result st = Some v)) \<and>
            (os_status st = Failed \<longleftrightarrow> os_result st = None) \<and>
            (os_execution_secs st \<noteq> None \<longleftrightarrow> os_status st = Success)"
proof -
  have start: "record_start started (op_data op) =
      Some ((op_data op)\<lparr>op_state := Executing, start_time := Some started\<rparr>)"
    using assms by (simp add: record_start_def)
  show ?thesis
  proof (cases "task_result to_value out")
    case (Inl e)
    then have "\<not> (\<exists>r v. out = Returned (Inr r) \<and> to_value r = Inr v)"
      by (auto simp: task_result_def)
    with Inl start show ?thesis
      by (auto simp: run_task_def record_result_def to_status_def Let_def)
  next
    case (Inr v)
    then obtain r where "out = Returned (Inr r)" "to_value r = Inr v"
      by (auto simp: task_result_def result_simps Let_def split: outcome.splits)
    with Inr start show ?thesis
      by (auto simp: run_task_def record_result_def to_status_def Let_def)
  qed
qed

theorem run_task_finishes_witness:
  "os_status (to_status ((example_op ''opid-1'' Ready)\<lparr>op_data :=
     run_task (\<lambda>n. Inr n) 5 (Panicked (Some ''boom'')) 9 (op_data (example_op ''opid-1'' Ready))\<rparr>)) = Failed"
  using run_task_finishes [of "example_op ''opid-1'' Ready" "\<lambda>n. Inr n" 5 "Panicked (Some ''boom'')" 9]
  by (simp add: example_op_defs run_task_def record_start_def record_result_def task_result_def
      to_status_def Let_def)

text \<open>Listing by a state's name lists exactly the operations in that state, and listing by a
  name that is no state's lists nothing.\<close>

theorem list_operation_ids_by_state:
  "list_operation_ids xs (Some (state_str st)) =
     map operation_id (filter (\<lambda>op. op_state (op_data op) = st) xs) \<and>
   (s \<in> range state_str \<or> list_operation_ids xs (Some s) = [])"
proof -
  have "list_operation_ids xs (Some s) = []" if "s \<notin> range state_str"
  proof -
    have "parse_state s = None" using that operation_state.parse_None_iff by blast
    then show ?thesis by (simp add: list_operation_ids_def)
  qed
  moreover have "list_operation_ids xs (Some (state_str st)) =
      map operation_id (filter (\<lambda>op. op_state (op_data op) = st) xs)"
    by (simp add: list_operation_ids_def operation_state.parse_print eq_commute)
  ultimately show ?thesis by blast
qed

end
