(* ===== verification/Fixed_Point.thy ===== *)
theory Fixed_Point
  imports Rpc_Errors
begin

text \<open>
  The amount parser of the JSON-RPC interface (\<open>parse_fixed_point\<close> in \<open>json_rpc/utils.rs\<close>, a
  port of \<open>ParseFixedPoint\<close>): a decimal numeral with an optional fraction and exponent is read
  as a 64-bit fixed-point integer. The arithmetic is that of \<open>i64\<close>, every operation wrapping at
  its width; a string is its UTF-8 bytes. The parser is compared with a declarative reading of
  decimal numerals, in which no machine integer occurs.
\<close>

section \<open>The parser\<close>

text \<open>An \<open>i64\<close> result.\<close>

abbreviation wrap64 :: "int \<Rightarrow> int" where
  "wrap64 \<equiv> signed_take_bit 63"

definition UPPER_BOUND :: int where
  "UPPER_BOUND = 1000000000000000000 - 1"

definition is_ascii_digit :: "char \<Rightarrow> bool" where
  "is_ascii_digit c \<longleftrightarrow> 48 \<le> (of_char c :: nat) \<and> (of_char c :: nat) \<le> 57"

text \<open>The loop of \<open>process_mantissa_digit\<close>.\<close>

fun scale_mantissa :: "nat \<Rightarrow> int \<Rightarrow> int option" where
  "scale_mantissa 0 mantissa = Some mantissa"
| "scale_mantissa (Suc n) mantissa =
     (if mantissa > UPPER_BOUND div 10 then None
      else scale_mantissa n (wrap64 (mantissa * 10)))"

text \<open>The new mantissa and count of trailing zeros, or \<open>None\<close> when the function returns false.
  (The source's \<open>expect\<close> on the digit cannot fail: its callers pass ASCII digits only.)\<close>

definition process_mantissa_digit :: "char \<Rightarrow> int \<Rightarrow> int \<Rightarrow> (int \<times> int) option" where
  "process_mantissa_digit ch mantissa mantissa_tzeros =
     (if ch = CHR ''0'' then Some (mantissa, wrap64 (mantissa_tzeros + 1))
      else case scale_mantissa (nat (mantissa_tzeros + 1)) mantissa of
             None \<Rightarrow> None
           | Some mantissa' \<Rightarrow>
               (case to_digit 10 ch of
                  None \<Rightarrow> None
                | Some d \<Rightarrow> Some (wrap64 (mantissa' + int d), 0)))"

text \<open>The two mantissa loops, which differ only in whether digits are counted: the rest of the
  input, the mantissa, its trailing zeros and the number of digits read.\<close>

fun mantissa_loop :: "string \<Rightarrow> int \<Rightarrow> int \<Rightarrow> int \<Rightarrow> (string \<times> int \<times> int \<times> int) option" where
  "mantissa_loop [] mantissa tzeros ofs = Some ([], mantissa, tzeros, ofs)"
| "mantissa_loop (ch # val) mantissa tzeros ofs =
     (if is_ascii_digit ch
      then case process_mantissa_digit ch mantissa tzeros of
             None \<Rightarrow> None
           | Some (mantissa', tzeros') \<Rightarrow> mantissa_loop val mantissa' tzeros' (wrap64 (ofs + 1))
      else Some (ch # val, mantissa, tzeros, ofs))"

fun exponent_loop :: "string \<Rightarrow> int \<Rightarrow> (string \<times> int) option" where
  "exponent_loop [] exponent = Some ([], exponent)"
| "exponent_loop (ch # val) exponent =
     (if is_ascii_digit ch
      then if exponent > UPPER_BOUND div 10 then None
           else case to_digit 10 ch of
                  None \<Rightarrow> None
                | Some d \<Rightarrow> exponent_loop val (wrap64 (wrap64 (exponent * 10) + int d))
      else Some (ch # val, exponent))"

definition parse_sign :: "string \<Rightarrow> bool \<times> string" where
  "parse_sign val =
     (case val of
        c # rest \<Rightarrow> if c = CHR ''-'' then (True, rest) else (False, val)
      | [] \<Rightarrow> (False, val))"

definition parse_integer_part :: "string \<Rightarrow> (string \<times> int \<times> int) option" where
  "parse_integer_part val =
     (case val of
        [] \<Rightarrow> None
      | c # rest \<Rightarrow>
          if c = CHR ''0'' then Some (rest, 0, 0)
          else if is_ascii_digit c
            then case mantissa_loop val 0 0 0 of
                   None \<Rightarrow> None
                 | Some (val', mantissa, tzeros, _) \<Rightarrow> Some (val', mantissa, tzeros)
          else None)"

definition parse_fraction :: "string \<Rightarrow> int \<Rightarrow> int \<Rightarrow> (string \<times> int \<times> int \<times> int) option" where
  "parse_fraction val mantissa tzeros =
     (case val of
        c # rest \<Rightarrow>
          if c = CHR ''.''
          then case rest of
                 d # _ \<Rightarrow> if is_ascii_digit d then mantissa_loop rest mantissa tzeros 0 else None
               | [] \<Rightarrow> None
          else Some (val, mantissa, tzeros, 0)
      | [] \<Rightarrow> Some (val, mantissa, tzeros, 0))"

text \<open>The rest of the input, the exponent's magnitude and whether it is negative.\<close>

definition parse_exponent_sign :: "string \<Rightarrow> bool \<times> string" where
  "parse_exponent_sign val =
     (case val of
        c # rest \<Rightarrow> if c = CHR ''+'' then (False, rest)
                    else if c = CHR ''-'' then (True, rest) else (False, val)
      | [] \<Rightarrow> (False, val))"

definition parse_exponent :: "string \<Rightarrow> (string \<times> int \<times> bool) option" where
  "parse_exponent val =
     (case val of
        c # rest \<Rightarrow>
          if c = CHR ''e'' \<or> c = CHR ''E''
          then case parse_exponent_sign rest of
                 (exponent_sign, val') \<Rightarrow>
                   (case val' of
                      d # _ \<Rightarrow>
                        if is_ascii_digit d
                        then map_option (\<lambda>(r, exponent). (r, exponent, exponent_sign)) (exponent_loop val' 0)
                        else None
                    | [] \<Rightarrow> None)
          else Some (val, 0, False)
      | [] \<Rightarrow> Some (val, 0, False))"

text \<open>The final loop, and the conversion it is part of.\<close>

fun scale_fixed :: "nat \<Rightarrow> int \<Rightarrow> int option" where
  "scale_fixed 0 mantissa = Some mantissa"
| "scale_fixed (Suc n) mantissa =
     (if - (UPPER_BOUND div 10) \<le> mantissa \<and> mantissa \<le> UPPER_BOUND div 10
      then scale_fixed n (wrap64 (mantissa * 10)) else None)"

definition finalize_fixed :: "bool \<Rightarrow> int \<Rightarrow> int \<Rightarrow> int \<Rightarrow> int \<Rightarrow> bool \<Rightarrow> int \<Rightarrow> int option" where
  "finalize_fixed mantissa_sign mantissa tzeros point_ofs exponent exponent_sign decimals =
     (let exponent1 = (if exponent_sign then wrap64 (- exponent) else exponent);
          exponent2 = wrap64 (wrap64 (exponent1 - point_ofs) + tzeros);
          mantissa1 = (if mantissa_sign then wrap64 (- mantissa) else mantissa);
          exponent3 = wrap64 (exponent2 + decimals)
      in if exponent3 < 0 then None
         else if exponent3 \<ge> 18 then None
         else case scale_fixed (nat exponent3) mantissa1 of
                None \<Rightarrow> None
              | Some m \<Rightarrow> if - UPPER_BOUND \<le> m \<and> m \<le> UPPER_BOUND then Some m else None)"

definition parse_fixed_point :: "string \<Rightarrow> int \<Rightarrow> int option" where
  "parse_fixed_point val decimals =
     (let (mantissa_sign, val1) = parse_sign val in
      case parse_integer_part val1 of
        None \<Rightarrow> None
      | Some (val2, mantissa2, tzeros2) \<Rightarrow>
      case parse_fraction val2 mantissa2 tzeros2 of
        None \<Rightarrow> None
      | Some (val3, mantissa3, tzeros3, point_ofs) \<Rightarrow>
      case parse_exponent val3 of
        None \<Rightarrow> None
      | Some (val4, exponent, exponent_sign) \<Rightarrow>
          if val4 \<noteq> [] then None
          else finalize_fixed mantissa_sign mantissa3 tzeros3 point_ofs exponent exponent_sign decimals)"

text \<open>The formatter used to write amounts.\<close>

definition zec_str :: "nat \<Rightarrow> string" where
  "zec_str zatoshis =
     show_nat (zatoshis div 100000000) @ ''.'' @ pad_zeros 8 (show_nat (zatoshis mod 100000000))"

section \<open>Decimal numerals\<close>

text \<open>The reference: a numeral as the text it is written with, and the number it denotes.\<close>

record numeral_text =
  negative :: bool
  int_digits :: "nat list"
  frac_digits :: "nat list option"
  exp_part :: "(char \<times> string \<times> nat list) option"

definition digits_ok :: "nat list \<Rightarrow> bool" where
  "digits_ok ds \<longleftrightarrow> ds \<noteq> [] \<and> list_all (\<lambda>d. d < 10) ds"

definition numeral_ok :: "numeral_text \<Rightarrow> bool" where
  "numeral_ok nm \<longleftrightarrow>
     digits_ok (int_digits nm) \<and> (int_digits nm = [0] \<or> hd (int_digits nm) \<noteq> 0) \<and>
     (case frac_digits nm of None \<Rightarrow> True | Some ds \<Rightarrow> digits_ok ds) \<and>
     (case exp_part nm of None \<Rightarrow> True
      | Some (c, sg, ds) \<Rightarrow> c \<in> set ''eE'' \<and> sg \<in> set ['''', ''+'', ''-''] \<and> digits_ok ds)"

definition render :: "numeral_text \<Rightarrow> string" where
  "render nm =
     (if negative nm then ''-'' else []) @ map digit_char (int_digits nm) @
     (case frac_digits nm of None \<Rightarrow> [] | Some ds \<Rightarrow> ''.'' @ map digit_char ds) @
     (case exp_part nm of None \<Rightarrow> [] | Some (c, sg, ds) \<Rightarrow> [c] @ sg @ map digit_char ds)"

definition digits_value :: "nat list \<Rightarrow> int" where
  "digits_value ds = foldl (\<lambda>a d. a * 10 + int d) 0 ds"

definition fraction :: "numeral_text \<Rightarrow> nat list" where
  "fraction nm = (case frac_digits nm of None \<Rightarrow> [] | Some ds \<Rightarrow> ds)"

definition exponent_value :: "numeral_text \<Rightarrow> int" where
  "exponent_value nm =
     (case exp_part nm of None \<Rightarrow> 0
      | Some (_, sg, ds) \<Rightarrow> if sg = ''-'' then - digits_value ds else digits_value ds)"

text \<open>\<open>z\<close> is the number the numeral denotes, times \<open>10 ^ decimals\<close>.\<close>

definition denotes :: "numeral_text \<Rightarrow> int \<Rightarrow> int \<Rightarrow> bool" where
  "denotes nm decimals z \<longleftrightarrow>
     z * 10 ^ (length (fraction nm) + nat (- exponent_value nm)) =
     (if negative nm then -1 else 1) * digits_value (int_digits nm @ fraction nm) *
       10 ^ (nat decimals + nat (exponent_value nm))"

section \<open>Arithmetic without wrap-around\<close>

lemma wrap64_id: "\<bar>n\<bar> < 2 ^ 63 \<Longrightarrow> wrap64 n = n"
  by (rule signed_take_bit_int_eq_self) auto

lemma UPPER_BOUND_div: "UPPER_BOUND div 10 = 99999999999999999"
  by (simp add: UPPER_BOUND_def)

lemma digit_is_ascii: "d < 10 \<Longrightarrow> is_ascii_digit (digit_char d)"
  by (auto simp: is_ascii_digit_def digit_char_def)

lemma ascii_digit_char: "is_ascii_digit c \<Longrightarrow> \<exists>d < 10. c = digit_char d"
proof -
  assume c: "is_ascii_digit c"
  then have "48 + (of_char c - 48) = (of_char c :: nat)" "(of_char c :: nat) - 48 < 10"
    by (auto simp: is_ascii_digit_def)
  then have "c = digit_char (of_char c - 48)" by (simp add: digit_char_def)
  with \<open>of_char c - 48 < 10\<close> show ?thesis by blast
qed

lemma digit_char_0 [simp]: "digit_char 0 = CHR ''0''"
  by code_simp

lemma digit_char_zero_iff: "d < 10 \<Longrightarrow> digit_char d = CHR ''0'' \<longleftrightarrow> d = 0"
proof -
  assume "d < 10"
  then have "to_digit 10 (digit_char d) = Some d" by (simp add: to_digit_digit_char)
  moreover have "to_digit 10 (CHR ''0'') = Some 0" by (simp add: to_digit_def)
  ultimately show ?thesis by force
qed

text \<open>Multiplying by ten while staying below the bound, the mantissa's loop and the final one.\<close>

lemma scale_mantissa_spec:
  "0 \<le> m \<Longrightarrow> m \<le> UPPER_BOUND \<Longrightarrow>
   scale_mantissa (Suc n) m = (if m * 10 ^ Suc n \<le> UPPER_BOUND then Some (m * 10 ^ Suc n) else None)"
proof (induction n arbitrary: m)
  case 0
  then show ?case by (auto simp: UPPER_BOUND_def wrap64_id)
next
  case (Suc n)
  show ?case
  proof (cases "m > UPPER_BOUND div 10")
    case True
    then have "UPPER_BOUND < m * 10" by (simp add: UPPER_BOUND_def)
    also have "m * 10 * 1 \<le> m * 10 * 10 ^ Suc n"
      by (rule mult_left_mono) (use Suc.prems(1) in \<open>simp_all del: power_Suc\<close>)
    finally show ?thesis using True by (simp add: mult.assoc)
  next
    case False
    then have "m * 10 \<le> UPPER_BOUND" "wrap64 (m * 10) = m * 10"
      using Suc.prems by (simp_all add: UPPER_BOUND_def wrap64_id)
    with Suc.IH [of "m * 10"] Suc.prems(1) False show ?thesis
      by (simp only: scale_mantissa.simps(2) [of "Suc n"] if_False) (simp add: mult.assoc)
  qed
qed

lemma scale_fixed_spec:
  "\<bar>m\<bar> \<le> UPPER_BOUND \<Longrightarrow>
   scale_fixed n m = (if \<bar>m * 10 ^ n\<bar> \<le> UPPER_BOUND then Some (m * 10 ^ n) else None)"
proof (induction n arbitrary: m)
  case 0
  then show ?case by simp
next
  case (Suc n)
  show ?case
  proof (cases "- (UPPER_BOUND div 10) \<le> m \<and> m \<le> UPPER_BOUND div 10")
    case False
    then have "UPPER_BOUND < \<bar>m * 10\<bar>" by (auto simp: UPPER_BOUND_def)
    also have "\<bar>m * 10\<bar> \<le> \<bar>m * 10 ^ Suc n\<bar>" by (simp add: abs_mult mult_le_cancel_left1)
    finally show ?thesis using False by auto
  next
    case True
    then have "\<bar>m * 10\<bar> \<le> UPPER_BOUND" "wrap64 (m * 10) = m * 10"
      by (auto simp: UPPER_BOUND_def wrap64_id)
    with Suc.IH [of "m * 10"] True show ?thesis by (simp add: mult.assoc)
  qed
qed

section \<open>The mantissa\<close>

text \<open>A mantissa that does not end in zero, and the number of zeros that follow it.\<close>

fun mant_step :: "int \<times> nat \<Rightarrow> nat \<Rightarrow> int \<times> nat" where
  "mant_step (m, tz) d = (if d = 0 then (m, Suc tz) else (m * 10 ^ Suc tz + int d, 0))"

definition mant :: "nat list \<Rightarrow> int \<times> nat \<Rightarrow> int \<times> nat" where
  "mant ds p = foldl mant_step p ds"

definition mant_normal :: "int \<times> nat \<Rightarrow> bool" where
  "mant_normal p \<longleftrightarrow> fst p = 0 \<or> fst p mod 10 \<noteq> 0"

lemma mant_simps [simp]: "mant [] p = p" "mant (d # ds) p = mant ds (mant_step p d)"
  by (simp_all add: mant_def)

lemma mant_append: "mant (xs @ ys) p = mant ys (mant xs p)"
  by (simp add: mant_def)

lemma digits_value_append:
  "digits_value (xs @ ys) = digits_value xs * 10 ^ length ys + digits_value ys"
proof -
  have "foldl (\<lambda>a d. a * 10 + int d) a ys = a * 10 ^ length ys + digits_value ys" for a ys
  proof (induction ys arbitrary: a)
    case (Cons y ys)
    have "digits_value (y # ys) = int y * 10 ^ length ys + digits_value ys"
      using Cons.IH [of "int y"] by (simp add: digits_value_def)
    with Cons.IH [of "a * 10 + int y"] show ?case by (simp add: distrib_right)
  qed (simp add: digits_value_def)
  moreover have "digits_value (xs @ ys) = foldl (\<lambda>a d. a * 10 + int d) (digits_value xs) ys"
    by (simp add: digits_value_def)
  ultimately show ?thesis by simp
qed

lemma digits_value_Cons: "digits_value (d # ds) = int d * 10 ^ length ds + digits_value ds"
  using digits_value_append [of "[d]" ds] by (simp add: digits_value_def)

lemma digits_value_nonneg: "0 \<le> digits_value ds"
  by (induction ds) (simp_all add: digits_value_Cons, simp add: digits_value_def)

lemma mant_grows: "0 \<le> fst p \<Longrightarrow> fst p \<le> fst (mant ds p)"
proof (induction ds arbitrary: p)
  case (Cons d ds)
  obtain m tz where p: "p = (m, tz)" by fastforce
  have "m \<le> m * 10 ^ Suc tz" using Cons.prems p by (simp add: mult_le_cancel_left1 del: power_Suc)
  then have "fst p \<le> fst (mant_step p d)" by (simp add: p)
  with Cons.IH [of "mant_step p d"] Cons.prems show ?case by simp
qed simp

lemma mant_value:
  "fst (mant ds (m, tz)) * 10 ^ snd (mant ds (m, tz)) = m * 10 ^ (tz + length ds) + digits_value ds"
proof (induction ds arbitrary: m tz)
  case Nil
  then show ?case by (simp add: digits_value_def)
next
  case (Cons d ds)
  then show ?case
    by (cases "d = 0") (simp_all add: digits_value_Cons algebra_simps power_add)
qed

lemma mant_normal_mant:
  "mant_normal p \<Longrightarrow> list_all (\<lambda>d. d < 10) ds \<Longrightarrow> mant_normal (mant ds p)"
proof (induction ds arbitrary: p)
  case (Cons d ds)
  obtain m tz where "p = (m, tz)" by fastforce
  moreover have "(m * 10 ^ Suc tz + int d) mod 10 = int d mod 10"
    using mod_mult_self1 [of "int d" "m * 10 ^ tz" 10] by (simp add: ac_simps)
  ultimately have "mant_normal (mant_step p d)"
    using Cons.prems by (simp add: mant_normal_def del: power_Suc)
  with Cons show ?case by simp
qed simp

lemma mant_zeros_le: "snd (mant ds (m, tz)) \<le> tz + length ds"
proof (induction ds arbitrary: m tz)
  case (Cons d ds)
  show ?case
    using Cons.IH [of m "Suc tz"] Cons.IH [of "m * 10 ^ Suc tz + int d" 0]
    by (cases "d = 0") (simp_all del: power_Suc)
qed simp

lemma process_mantissa_digit_spec:
  assumes "d < 10" and "0 \<le> m" and "m \<le> UPPER_BOUND" and "int tz < 2 ^ 62"
  shows "process_mantissa_digit (digit_char d) m (int tz) =
    (if fst (mant_step (m, tz) d) \<le> UPPER_BOUND
     then Some (fst (mant_step (m, tz) d), int (snd (mant_step (m, tz) d))) else None)"
proof (cases "d = 0")
  case True
  with assms show ?thesis
    by (simp add: process_mantissa_digit_def digit_char_zero_iff wrap64_id)
next
  case False
  let ?p = "m * 10 ^ Suc tz"
  have nat: "nat (int tz + 1) = Suc tz" by simp
  have "10 * q \<le> UPPER_BOUND \<longleftrightarrow> 10 * q + int d \<le> UPPER_BOUND" for q
    using assms(1) by (cases "q \<le> 99999999999999999") (simp_all add: UPPER_BOUND_def)
  from this [of "m * 10 ^ tz"] have "?p \<le> UPPER_BOUND \<longleftrightarrow> ?p + int d \<le> UPPER_BOUND"
    by (simp add: ac_simps)
  moreover have "0 \<le> ?p" using assms(2) by simp
  ultimately have "wrap64 (?p + int d) = ?p + int d" if "?p \<le> UPPER_BOUND"
    using that by (simp add: wrap64_id UPPER_BOUND_def del: power_Suc)
  with False assms \<open>?p \<le> UPPER_BOUND \<longleftrightarrow> ?p + int d \<le> UPPER_BOUND\<close> show ?thesis
    by (simp add: process_mantissa_digit_def digit_char_zero_iff nat scale_mantissa_spec
        to_digit_digit_char del: power_Suc scale_mantissa.simps)
qed

section \<open>The loops\<close>

definition no_digit :: "string \<Rightarrow> bool" where
  "no_digit rest \<longleftrightarrow> rest = [] \<or> \<not> is_ascii_digit (hd rest)"

lemma mantissa_loop_stop: "no_digit rest \<Longrightarrow> mantissa_loop rest m tz n = Some (rest, m, tz, n)"
  by (cases rest) (auto simp: no_digit_def)

lemma exponent_loop_stop: "no_digit rest \<Longrightarrow> exponent_loop rest e = Some (rest, e)"
  by (cases rest) (auto simp: no_digit_def)

lemma mantissa_loop_spec:
  "list_all (\<lambda>d. d < 10) ds \<Longrightarrow> no_digit rest \<Longrightarrow> 0 \<le> m \<Longrightarrow> m \<le> UPPER_BOUND \<Longrightarrow>
   int tz + int (length ds) < 2 ^ 62 \<Longrightarrow> int n + int (length ds) < 2 ^ 62 \<Longrightarrow>
   mantissa_loop (map digit_char ds @ rest) m (int tz) (int n) =
     (if fst (mant ds (m, tz)) \<le> UPPER_BOUND
      then Some (rest, fst (mant ds (m, tz)), int (snd (mant ds (m, tz))), int (n + length ds))
      else None)"
proof (induction ds arbitrary: m tz n)
  case Nil
  then show ?case by (simp add: mantissa_loop_stop)
next
  case (Cons d ds)
  obtain m' tz' where step: "mant_step (m, tz) d = (m', tz')" by fastforce
  have "0 \<le> m'" and tz': "tz' \<le> tz + 1" using step Cons.prems(3) by (auto split: if_splits)
  have wrap: "wrap64 (int n + 1) = int (n + 1)" using Cons.prems(6) by (simp add: wrap64_id)
  have proc: "process_mantissa_digit (digit_char d) m (int tz) =
      (if m' \<le> UPPER_BOUND then Some (m', int tz') else None)"
    using process_mantissa_digit_spec [of d m tz] step Cons.prems by simp
  show ?case
  proof (cases "m' \<le> UPPER_BOUND")
    case True
    have "mantissa_loop (map digit_char ds @ rest) m' (int tz') (int (n + 1)) =
     (if fst (mant ds (m', tz')) \<le> UPPER_BOUND
      then Some (rest, fst (mant ds (m', tz')), int (snd (mant ds (m', tz'))), int (n + 1 + length ds))
      else None)"
      using Cons.prems tz' by (intro Cons.IH) (auto simp: \<open>0 \<le> m'\<close> True)
    with True Cons.prems(1) proc wrap step show ?thesis
      by (simp add: digit_is_ascii add.commute)
  next
    case False
    with mant_grows [of "(m', tz')" ds] \<open>0 \<le> m'\<close> have "\<not> fst (mant ds (m', tz')) \<le> UPPER_BOUND" by simp
    with False Cons.prems(1) proc step show ?thesis by (simp add: digit_is_ascii)
  qed
qed

lemma exponent_loop_spec:
  "list_all (\<lambda>d. d < 10) ds \<Longrightarrow> no_digit rest \<Longrightarrow> 0 \<le> e \<Longrightarrow> e \<le> UPPER_BOUND \<Longrightarrow>
   exponent_loop (map digit_char ds @ rest) e =
     (if e * 10 ^ length ds + digits_value ds \<le> UPPER_BOUND
      then Some (rest, e * 10 ^ length ds + digits_value ds) else None)"
proof (induction ds arbitrary: e)
  case Nil
  then show ?case by (simp add: exponent_loop_stop digits_value_def)
next
  case (Cons d ds)
  have d: "d < 10" using Cons.prems(1) by simp
  have eq: "(e * 10 + int d) * 10 ^ length ds = e * 10 ^ length (d # ds) + int d * 10 ^ length ds"
    by (simp add: algebra_simps)
  show ?case
  proof (cases "e > UPPER_BOUND div 10")
    case True
    then have "UPPER_BOUND < e * 10 + int d" by (simp add: UPPER_BOUND_def)
    also have "(e * 10 + int d) * 1 \<le> (e * 10 + int d) * 10 ^ length ds"
      by (rule mult_left_mono) (use Cons.prems(3) in simp_all)
    finally have "\<not> e * 10 ^ length (d # ds) + digits_value (d # ds) \<le> UPPER_BOUND"
      using eq digits_value_nonneg [of ds] unfolding digits_value_Cons by linarith
    with True d show ?thesis by (simp only: list.map append_Cons exponent_loop.simps) (simp add: digit_is_ascii)
  next
    case False
    then have bound: "e * 10 + int d \<le> UPPER_BOUND" using d by (simp add: UPPER_BOUND_def)
    have "wrap64 (wrap64 (e * 10) + int d) = e * 10 + int d"
      using bound Cons.prems(3) by (simp add: wrap64_id UPPER_BOUND_def)
    with False d Cons.IH [of "e * 10 + int d"] Cons.prems bound show ?thesis
      by (simp add: digit_is_ascii to_digit_digit_char eq digits_value_Cons algebra_simps)
  qed
qed

section \<open>The grammar\<close>

text \<open>Only digits are consumed by the loops.\<close>

lemma mantissa_loop_digits:
  "mantissa_loop val m tz n = Some (r, res) \<Longrightarrow>
   \<exists>ds. val = map digit_char ds @ r \<and> list_all (\<lambda>d. d < 10) ds"
proof (induction val arbitrary: m tz n)
  case Nil
  then show ?case by simp
next
  case (Cons c val)
  show ?case
  proof (cases "is_ascii_digit c")
    case True
    then obtain d where "d < 10" "c = digit_char d" using ascii_digit_char by blast
    moreover from Cons.prems True obtain a b k where "mantissa_loop val a b k = Some (r, res)"
      by (auto split: option.splits)
    from Cons.IH [OF this] obtain ds where "val = map digit_char ds @ r" "list_all (\<lambda>d. d < 10) ds"
      by blast
    ultimately show ?thesis by (intro exI [of _ "d # ds"]) simp
  next
    case False
    with Cons.prems show ?thesis by (intro exI [of _ "[]"]) simp
  qed
qed

lemma exponent_loop_digits:
  "exponent_loop val e = Some (r, res) \<Longrightarrow>
   \<exists>ds. val = map digit_char ds @ r \<and> list_all (\<lambda>d. d < 10) ds"
proof (induction val arbitrary: e)
  case Nil
  then show ?case by simp
next
  case (Cons c val)
  show ?case
  proof (cases "is_ascii_digit c")
    case True
    then obtain d where "d < 10" "c = digit_char d" using ascii_digit_char by blast
    moreover obtain ds where "val = map digit_char ds @ r" "list_all (\<lambda>d. d < 10) ds"
      using Cons True by (auto split: option.splits if_splits)
    ultimately show ?thesis by (intro exI [of _ "d # ds"]) simp
  next
    case False
    with Cons.prems show ?thesis by (intro exI [of _ "[]"]) simp
  qed
qed

text \<open>Started on a digit, they consume at least that one.\<close>

lemma mantissa_loop_digits1:
  assumes "mantissa_loop (c # val) m tz n = Some (r, res)" and "is_ascii_digit c"
  shows "\<exists>d ds. c # val = map digit_char (d # ds) @ r \<and> c = digit_char d \<and> digits_ok (d # ds)"
proof -
  from assms(2) obtain d where d: "d < 10" "c = digit_char d" using ascii_digit_char by blast
  from assms obtain m' tz' n' where "mantissa_loop val m' tz' n' = Some (r, res)"
    by (auto split: option.splits)
  from mantissa_loop_digits [OF this] d show ?thesis by (auto simp: digits_ok_def)
qed

lemma exponent_loop_digits1:
  assumes "exponent_loop (c # val) e = Some (r, res)" and "is_ascii_digit c"
  shows "\<exists>ds. c # val = map digit_char ds @ r \<and> digits_ok ds"
proof -
  from assms(2) obtain d where d: "d < 10" "c = digit_char d" using ascii_digit_char by blast
  from assms obtain e' where "exponent_loop val e' = Some (r, res)"
    by (auto split: option.splits if_splits)
  from exponent_loop_digits [OF this] obtain ds where "val = map digit_char ds @ r" "list_all (\<lambda>d. d < 10) ds"
    by blast
  with d show ?thesis by (intro exI [of _ "d # ds"]) (simp add: digits_ok_def)
qed

lemma parse_integer_part_digits:
  assumes "parse_integer_part val = Some (r, res)"
  shows "\<exists>ds. val = map digit_char ds @ r \<and> digits_ok ds \<and> (ds = [0] \<or> hd ds \<noteq> 0)"
proof (cases val)
  case Nil
  with assms show ?thesis by (simp add: parse_integer_part_def)
next
  case (Cons c rest)
  show ?thesis
  proof (cases "c = CHR ''0''")
    case True
    with assms Cons show ?thesis
      by (intro exI [of _ "[0]"]) (auto simp: parse_integer_part_def digits_ok_def digit_char_zero_iff)
  next
    case False
    with assms Cons have dig: "is_ascii_digit c" by (auto simp: parse_integer_part_def split: if_splits)
    with False assms Cons obtain res' where "mantissa_loop (c # rest) 0 0 0 = Some (r, res')"
      by (auto simp: parse_integer_part_def split: option.splits)
    from mantissa_loop_digits1 [OF this dig] obtain d ds
      where "c # rest = map digit_char (d # ds) @ r" "c = digit_char d" "digits_ok (d # ds)" by blast
    with False Cons show ?thesis
      by (intro exI [of _ "d # ds"]) (auto simp: digits_ok_def digit_char_zero_iff)
  qed
qed

lemma parse_fraction_digits:
  assumes "parse_fraction val m tz = Some (r, res)"
  shows "\<exists>fr. val = (case fr of None \<Rightarrow> [] | Some ds \<Rightarrow> ''.'' @ map digit_char ds) @ r \<and>
    (case fr of None \<Rightarrow> True | Some ds \<Rightarrow> digits_ok ds)"
proof (cases "val \<noteq> [] \<and> hd val = CHR ''.''")
  case True
  then obtain rest where val: "val = CHR ''.'' # rest" by (cases val) auto
  with assms obtain d ds where rest: "rest = d # ds" "is_ascii_digit d"
      and loop: "mantissa_loop rest m tz 0 = Some (r, res)"
    by (auto simp: parse_fraction_def split: list.splits if_splits)
  from mantissa_loop_digits1 [OF loop [unfolded rest(1)] rest(2)] val rest(1) show ?thesis
    by (metis append_Cons append_Nil append_assoc option.case(2))
next
  case False
  with assms show ?thesis
    by (intro exI [of _ None]) (auto simp: parse_fraction_def split: list.splits if_splits)
qed

lemma parse_exponent_digits:
  assumes "parse_exponent val = Some ([], res)"
  shows "\<exists>ex. val = (case ex of None \<Rightarrow> [] | Some (c, sg, ds) \<Rightarrow> [c] @ sg @ map digit_char ds) \<and>
    (case ex of None \<Rightarrow> True
     | Some (c, sg, ds) \<Rightarrow> c \<in> set ''eE'' \<and> sg \<in> set ['''', ''+'', ''-''] \<and> digits_ok ds)"
proof (cases "val \<noteq> [] \<and> hd val \<in> set ''eE''")
  case True
  then obtain c rest where val: "val = c # rest" "c \<in> set ''eE''" by (cases val) auto
  obtain neg val' where sign: "parse_exponent_sign rest = (neg, val')" by fastforce
  then obtain sg where sg: "rest = sg @ val'" "sg \<in> set ['''', ''+'', ''-'']"
    by (fastforce simp: parse_exponent_sign_def split: list.splits if_splits)
  from assms val sign obtain d ds e where d: "val' = d # ds" "is_ascii_digit d"
      and loop: "exponent_loop val' 0 = Some ([], e)"
    by (auto simp: parse_exponent_def split: list.splits if_splits)
  from exponent_loop_digits1 [OF loop [unfolded d(1)] d(2)] obtain es
    where "val' = map digit_char es" "digits_ok es" using d(1) by (metis append_Nil2)
  with val sg show ?thesis by (intro exI [of _ "Some (c, sg, es)"]) simp
next
  case False
  with assms show ?thesis
    by (intro exI [of _ None]) (auto simp: parse_exponent_def split: list.splits if_splits)
qed

lemma parse_fixed_point_grammar:
  assumes "parse_fixed_point val decimals = Some z"
  shows "\<exists>nm. numeral_ok nm \<and> render nm = val"
proof -
  obtain neg val1 where sign: "parse_sign val = (neg, val1)" by fastforce
  with assms obtain val2 r2 val3 r3 r4 where
      ip: "parse_integer_part val1 = Some (val2, r2)" and
      fp: "parse_fraction val2 (fst r2) (snd r2) = Some (val3, r3)" and
      ep: "parse_exponent val3 = Some ([], r4)"
    by (auto simp: parse_fixed_point_def split: option.splits if_splits)
  have "val = (if neg then ''-'' else []) @ val1"
    using sign by (auto simp: parse_sign_def split: list.splits if_splits)
  with parse_integer_part_digits [OF ip] parse_fraction_digits [OF fp] parse_exponent_digits [OF ep]
  obtain ids fr ex where
    "numeral_ok \<lparr>negative = neg, int_digits = ids, frac_digits = fr, exp_part = ex\<rparr>"
    "render \<lparr>negative = neg, int_digits = ids, frac_digits = fr, exp_part = ex\<rparr> = val"
    by (auto simp: numeral_ok_def render_def)
  then show ?thesis by blast
qed

section \<open>Reading a numeral\<close>

definition int_mant :: "nat list \<Rightarrow> int \<times> nat" where
  "int_mant ds = (if ds = [0] then (0, 0) else mant ds (0, 0))"

lemma int_mant_facts:
  assumes "list_all (\<lambda>d. d < 10) ds"
  shows "0 \<le> fst (int_mant ds)" "snd (int_mant ds) \<le> length ds" "mant_normal (int_mant ds)"
    "fst (int_mant ds) * 10 ^ snd (int_mant ds) = digits_value ds"
proof -
  show "0 \<le> fst (int_mant ds)" using mant_grows [of "(0, 0)" ds] by (simp add: int_mant_def)
  show "snd (int_mant ds) \<le> length ds" using mant_zeros_le [of ds 0 0] by (simp add: int_mant_def)
  show "mant_normal (int_mant ds)"
    using mant_normal_mant [of "(0, 0)" ds] assms by (simp add: int_mant_def mant_normal_def)
  show "fst (int_mant ds) * 10 ^ snd (int_mant ds) = digits_value ds"
    using mant_value [of ds 0 0] by (simp add: int_mant_def digits_value_def)
qed

lemma parse_integer_part_render:
  assumes "digits_ok ds" and "ds = [0] \<or> hd ds \<noteq> 0" and "no_digit rest"
    and "int (length ds) < 2 ^ 62"
  shows "parse_integer_part (map digit_char ds @ rest) =
    (if fst (int_mant ds) \<le> UPPER_BOUND
     then Some (rest, fst (int_mant ds), int (snd (int_mant ds))) else None)"
proof (cases "ds = [0]")
  case True
  then show ?thesis by (simp add: parse_integer_part_def int_mant_def UPPER_BOUND_def)
next
  case False
  with assms obtain d ds' where ds: "ds = d # ds'" "d \<noteq> 0" "d < 10"
    by (cases ds) (auto simp: digits_ok_def)
  have loop: "mantissa_loop (map digit_char ds @ rest) 0 0 0 =
      (if fst (mant ds (0, 0)) \<le> UPPER_BOUND
       then Some (rest, fst (mant ds (0, 0)), int (snd (mant ds (0, 0))), int (length ds)) else None)"
    using mantissa_loop_spec [of ds rest 0 0 0] assms by (simp add: digits_ok_def UPPER_BOUND_def)
  have "parse_integer_part (map digit_char ds @ rest) =
      (case mantissa_loop (map digit_char ds @ rest) 0 0 0 of None \<Rightarrow> None
       | Some (val', mantissa, tzeros, _) \<Rightarrow> Some (val', mantissa, tzeros))"
    using ds by (simp add: parse_integer_part_def digit_char_zero_iff digit_is_ascii
        del: mantissa_loop.simps)
  with loop False show ?thesis by (simp add: int_mant_def)
qed

lemma parse_fraction_render:
  assumes "case fr of None \<Rightarrow> True | Some ds \<Rightarrow> digits_ok ds"
    and "no_digit rest" and "rest = [] \<or> hd rest \<noteq> CHR ''.''"
    and "0 \<le> m" and "m \<le> UPPER_BOUND" and "ds = (case fr of None \<Rightarrow> [] | Some ds \<Rightarrow> ds)"
    and "int tz + int (length ds) < 2 ^ 62"
  shows "parse_fraction ((case fr of None \<Rightarrow> [] | Some ds \<Rightarrow> ''.'' @ map digit_char ds) @ rest) m (int tz) =
    (if fst (mant ds (m, tz)) \<le> UPPER_BOUND
     then Some (rest, fst (mant ds (m, tz)), int (snd (mant ds (m, tz))), int (length ds)) else None)"
proof (cases fr)
  case None
  with assms show ?thesis by (cases rest) (simp_all add: parse_fraction_def)
next
  case (Some ds')
  with assms obtain d es where ds: "ds = d # es" "d < 10" and ok: "list_all (\<lambda>d. d < 10) ds"
    by (cases ds') (auto simp: digits_ok_def)
  have "parse_fraction (CHR ''.'' # map digit_char ds @ rest) m (int tz) =
      mantissa_loop (map digit_char ds @ rest) m (int tz) 0"
    using ds by (simp add: parse_fraction_def digit_is_ascii del: mantissa_loop.simps)
  with mantissa_loop_spec [OF ok assms(2,4,5,7), of 0] assms(6,7) Some show ?thesis by simp
qed

definition exp_magnitude :: "numeral_text \<Rightarrow> int" where
  "exp_magnitude nm = (case exp_part nm of None \<Rightarrow> 0 | Some (_, _, ds) \<Rightarrow> digits_value ds)"

definition exp_negative :: "numeral_text \<Rightarrow> bool" where
  "exp_negative nm = (case exp_part nm of None \<Rightarrow> False | Some (_, sg, _) \<Rightarrow> sg = ''-'')"

lemma exponent_value_alt:
  "exponent_value nm = (if exp_negative nm then - exp_magnitude nm else exp_magnitude nm)"
  by (simp add: exponent_value_def exp_negative_def exp_magnitude_def split: option.splits)

lemma exp_magnitude_nonneg: "0 \<le> exp_magnitude nm"
  by (simp add: exp_magnitude_def digits_value_nonneg split: option.splits)

lemma digit_char_neq: "d < 10 \<Longrightarrow> digit_char d \<noteq> CHR ''-''" "d < 10 \<Longrightarrow> digit_char d \<noteq> CHR ''.''"
    "d < 10 \<Longrightarrow> digit_char d \<noteq> CHR ''e''" "d < 10 \<Longrightarrow> digit_char d \<noteq> CHR ''E''"
  using digit_is_ascii [of d] by (auto simp: is_ascii_digit_def)

lemma parse_exponent_render:
  assumes "numeral_ok nm"
  shows "parse_exponent (case exp_part nm of None \<Rightarrow> [] | Some (c, sg, ds) \<Rightarrow> [c] @ sg @ map digit_char ds) =
    (if exp_magnitude nm \<le> UPPER_BOUND then Some ([], exp_magnitude nm, exp_negative nm) else None)"
proof (cases "exp_part nm")
  case None
  then show ?thesis by (simp add: parse_exponent_def exp_magnitude_def exp_negative_def UPPER_BOUND_def)
next
  case (Some x)
  then obtain c sg d ds where ex: "exp_part nm = Some (c, sg, d # ds)" "c \<in> set ''eE''"
      "sg \<in> set ['''', ''+'', ''-'']" "d < 10" "list_all (\<lambda>d. d < 10) (d # ds)"
    using assms by (cases x) (auto simp: numeral_ok_def digits_ok_def neq_Nil_conv)
  have loop: "exponent_loop (map digit_char (d # ds)) 0 =
      (if digits_value (d # ds) \<le> UPPER_BOUND then Some ([], digits_value (d # ds)) else None)"
    using exponent_loop_spec [OF ex(5), of "[]" 0] by (simp add: no_digit_def UPPER_BOUND_def)
  have "parse_exponent_sign (sg @ map digit_char (d # ds)) = (sg = ''-'', map digit_char (d # ds))"
    using ex(3,4) by (auto simp: parse_exponent_sign_def digit_char_neq digit_char_neq_plus)
  with ex loop show ?thesis
    by (auto simp: parse_exponent_def digit_is_ascii exp_magnitude_def exp_negative_def
        simp del: exponent_loop.simps)
qed

lemma parse_fixed_point_render:
  assumes ok: "numeral_ok nm" and len: "int (length (render nm)) < 2 ^ 60"
  defines "M \<equiv> mant (fraction nm) (int_mant (int_digits nm))"
  shows "parse_fixed_point (render nm) decimals =
    (if fst M \<le> UPPER_BOUND \<and> exp_magnitude nm \<le> UPPER_BOUND
     then finalize_fixed (negative nm) (fst M) (int (snd M)) (int (length (fraction nm)))
            (exp_magnitude nm) (exp_negative nm) decimals
     else None)"
proof -
  let ?ids = "int_digits nm"
  define ex where "ex = (case exp_part nm of None \<Rightarrow> [] | Some (c, sg, ds) \<Rightarrow> [c] @ sg @ map digit_char ds)"
  define fr where "fr = (case frac_digits nm of None \<Rightarrow> [] | Some ds \<Rightarrow> ''.'' @ map digit_char ds)"
  obtain m tz where im: "int_mant ?ids = (m, tz)" by fastforce
  have ids: "digits_ok ?ids" "?ids = [0] \<or> hd ?ids \<noteq> 0" "list_all (\<lambda>d. d < 10) ?ids"
    using ok by (simp_all add: numeral_ok_def digits_ok_def)
  have render: "render nm = (if negative nm then ''-'' else []) @ map digit_char ?ids @ fr @ ex"
    by (simp add: render_def fr_def ex_def)
  have ex_stop: "no_digit ex" "ex = [] \<or> hd ex \<noteq> CHR ''.''"
    using ok by (auto simp: ex_def no_digit_def numeral_ok_def is_ascii_digit_def split: option.splits)
  then have fr_stop: "no_digit (fr @ ex)"
    by (auto simp: fr_def no_digit_def is_ascii_digit_def split: option.splits)
  have lens: "int (length ?ids) + int (length (fraction nm)) < 2 ^ 60"
    using len by (auto simp: render fr_def fraction_def split: option.splits)
  have sign: "parse_sign (render nm) = (negative nm, map digit_char ?ids @ fr @ ex)"
  proof -
    obtain d ds where "?ids = d # ds" "d < 10" using ids(1) by (cases ?ids) (auto simp: digits_ok_def)
    then show ?thesis by (simp add: render parse_sign_def digit_char_neq)
  qed
  note ip = parse_integer_part_render [OF ids(1,2) fr_stop]
  note ep = parse_exponent_render [OF ok, folded ex_def]
  have tz: "tz \<le> length ?ids" and m: "0 \<le> m" using int_mant_facts [OF ids(3)] im by simp_all
  show ?thesis
  proof (cases "m \<le> UPPER_BOUND")
    case True
    have "parse_fraction (fr @ ex) m (int tz) =
      (if fst M \<le> UPPER_BOUND then Some (ex, fst M, int (snd M), int (length (fraction nm))) else None)"
      unfolding M_def im fr_def
      by (rule parse_fraction_render [OF _ ex_stop m True])
        (use ok lens tz in \<open>auto simp: numeral_ok_def fraction_def\<close>)
    with True sign ip ep im lens show ?thesis by (simp add: parse_fixed_point_def)
  next
    case False
    moreover have "m \<le> fst M" using mant_grows [of "(m, tz)" "fraction nm"] m by (simp add: M_def im)
    ultimately show ?thesis using sign ip im lens by (simp add: parse_fixed_point_def)
  qed
qed

lemma finalize_fixed_spec:
  assumes "0 \<le> m" "m \<le> UPPER_BOUND" "0 \<le> E" "E \<le> UPPER_BOUND" "0 \<le> tz" "tz < 2 ^ 61"
    "0 \<le> k" "k < 2 ^ 61" "0 \<le> decimals" "decimals \<le> 18"
    "e = (if en then - E else E) - k + tz + decimals"
  shows "finalize_fixed neg m tz k E en decimals =
    (if 0 \<le> e \<and> e < 18 \<and> m * 10 ^ nat e \<le> UPPER_BOUND
     then Some ((if neg then -1 else 1) * (m * 10 ^ nat e)) else None)"
proof -
  let ?m = "if neg then - m else m"
  have w: "wrap64 (- E) = - E" "wrap64 (- m) = - m"
      "wrap64 (wrap64 (wrap64 ((if en then - E else E) - k) + tz) + decimals) = e"
    using assms by (auto simp: wrap64_id UPPER_BOUND_def)
  have "\<bar>?m\<bar> \<le> UPPER_BOUND" using assms(1,2) by simp
  note scale = scale_fixed_spec [OF this, of "nat e"]
  have abs: "\<bar>?m * 10 ^ nat e\<bar> = m * 10 ^ nat e" using assms(1) by (simp add: abs_mult)
  then have "(- UPPER_BOUND \<le> ?m * 10 ^ nat e \<and> ?m * 10 ^ nat e \<le> UPPER_BOUND) =
      (m * 10 ^ nat e \<le> UPPER_BOUND)"
    by linarith
  with w scale abs show ?thesis
    by (simp add: finalize_fixed_def Let_def cong: if_cong) auto
qed

section \<open>Correctness\<close>

text \<open>A number times a power of ten, against a mantissa that does not end in zero.\<close>

lemma mantissa_exponent_unique:
  assumes m: "mant_normal (m, tz)" and z: "z \<noteq> 0" and s: "s = 1 \<or> s = - 1"
  shows "z * 10 ^ A = s * (m * 10 ^ tz) * 10 ^ B \<longleftrightarrow>
    A \<le> tz + B \<and> z = s * (m * 10 ^ (tz + B - A))"  (is "?eq \<longleftrightarrow> ?rep")
proof (cases "A \<le> tz + B")
  case True
  then have "(10::int) ^ (tz + B) = 10 ^ (tz + B - A) * 10 ^ A" by (simp flip: power_add)
  then have eq: "s * (m * 10 ^ tz) * 10 ^ B = s * (m * 10 ^ (tz + B - A)) * 10 ^ A"
    by (simp add: power_add ac_simps)
  show ?thesis unfolding eq using True by simp
next
  case False
  then obtain j where A: "A = tz + B + Suc j" using less_imp_Suc_add [of "tz + B" A] by auto
  have False if ?eq
  proof -
    from that have "z * 10 ^ Suc j * 10 ^ (tz + B) = s * m * 10 ^ (tz + B)"
      unfolding A by (simp add: power_add ac_simps)
    then have *: "z * 10 ^ Suc j = s * m" by simp
    then have "m = s * (z * 10 ^ j) * 10" using s by (auto simp: ac_simps)
    then have "10 dvd m" by simp
    moreover have "m \<noteq> 0" using * z by auto
    ultimately show False using m by (simp add: mant_normal_def)
  qed
  with False show ?thesis by auto
qed

lemma denotes_iff:
  assumes "numeral_ok nm" and "z \<noteq> 0" and "0 \<le> decimals"
  defines "M \<equiv> mant (fraction nm) (int_mant (int_digits nm))"
  defines "e \<equiv> exponent_value nm - int (length (fraction nm)) + int (snd M) + decimals"
  shows "denotes nm decimals z \<longleftrightarrow>
    0 \<le> e \<and> z = (if negative nm then -1 else 1) * (fst M * 10 ^ nat e)"
proof -
  obtain m0 tz0 where im: "int_mant (int_digits nm) = (m0, tz0)" by fastforce
  obtain m tz where M: "M = (m, tz)" by fastforce
  have ids: "list_all (\<lambda>d. d < 10) (int_digits nm)" and fr: "list_all (\<lambda>d. d < 10) (fraction nm)"
    using assms(1) by (auto simp: numeral_ok_def digits_ok_def fraction_def split: option.splits)
  have "mant_normal M"
    using int_mant_facts(3) [OF ids] mant_normal_mant [OF _ fr] by (simp add: M_def)
  moreover have "digits_value (int_digits nm @ fraction nm) = m * 10 ^ tz"
    using mant_value [of "fraction nm" m0 tz0] int_mant_facts(4) [OF ids] M im
    by (simp add: M_def digits_value_append power_add mult.assoc)
  moreover have "length (fraction nm) + nat (- exponent_value nm) \<le> tz + (nat decimals + nat (exponent_value nm)) \<longleftrightarrow> 0 \<le> e"
    and "nat e = tz + (nat decimals + nat (exponent_value nm)) - (length (fraction nm) + nat (- exponent_value nm))"
    using assms(3) by (auto simp: e_def M)
  ultimately show ?thesis
    using mantissa_exponent_unique [of m tz z "if negative nm then -1 else 1"
        "length (fraction nm) + nat (- exponent_value nm)" "nat decimals + nat (exponent_value nm)"] assms(2)
    by (simp add: denotes_def M)
qed

text \<open>The parser accepts exactly the decimal numerals whose value, scaled, is an integer of at
  most eighteen digits, and returns that integer.\<close>

lemma render_parses_iff:
  assumes ok: "numeral_ok nm" and len: "int (length (render nm)) < 10 ^ 17"
    and "0 \<le> decimals" "decimals \<le> 18" "z \<noteq> 0"
  shows "parse_fixed_point (render nm) decimals = Some z \<longleftrightarrow> \<bar>z\<bar> \<le> UPPER_BOUND \<and> denotes nm decimals z"
proof -
  define M where "M = mant (fraction nm) (int_mant (int_digits nm))"
  define e where "e = exponent_value nm - int (length (fraction nm)) + int (snd M) + decimals"
  obtain m tz where M: "M = (m, tz)" by fastforce
  have ids: "list_all (\<lambda>d. d < 10) (int_digits nm)"
    using ok by (simp add: numeral_ok_def digits_ok_def)
  have m: "0 \<le> m"
    using int_mant_facts(1) [OF ids] mant_grows [of "int_mant (int_digits nm)" "fraction nm"] M
    by (simp add: M_def)
  have "length (int_digits nm) + length (fraction nm) \<le> length (render nm)"
    by (simp add: render_def fraction_def split: option.splits)
  moreover have "tz \<le> length (int_digits nm) + length (fraction nm)"
    using mant_zeros_le [of "fraction nm" "fst (int_mant (int_digits nm))" "snd (int_mant (int_digits nm))"]
      int_mant_facts(2) [OF ids] M by (simp add: M_def)
  ultimately have small: "int tz < 10 ^ 17" "int (length (fraction nm)) < 10 ^ 17"
    using len by linarith+
  have parse: "parse_fixed_point (render nm) decimals =
    (if m \<le> UPPER_BOUND \<and> exp_magnitude nm \<le> UPPER_BOUND \<and> 0 \<le> e \<and> e < 18 \<and> m * 10 ^ nat e \<le> UPPER_BOUND
     then Some ((if negative nm then -1 else 1) * (m * 10 ^ nat e)) else None)"
    using parse_fixed_point_render [OF ok, of decimals] len small m assms(3,4)
      finalize_fixed_spec [of m "exp_magnitude nm" "int tz" "int (length (fraction nm))" decimals e
        "exp_negative nm" "negative nm"] exp_magnitude_nonneg [of nm]
    by (auto simp: M exponent_value_alt e_def simp flip: M_def)
  have bounds: "m \<le> UPPER_BOUND \<and> exp_magnitude nm \<le> UPPER_BOUND \<and> e < 18 \<and> m * 10 ^ nat e \<le> UPPER_BOUND"
    if "\<bar>z\<bar> \<le> UPPER_BOUND" "0 \<le> e" "z = (if negative nm then -1 else 1) * (m * 10 ^ nat e)"
  proof -
    have v: "m * 10 ^ nat e \<le> UPPER_BOUND" using that(1,3) by (auto split: if_splits)
    have "1 \<le> m" using that(3) assms(5) m by (cases "m = 0") auto
    then have "m * 1 \<le> m * 10 ^ nat e" "1 * 10 ^ nat e \<le> m * 10 ^ nat e"
      by (intro mult_left_mono mult_right_mono; simp)+
    with v have "m \<le> UPPER_BOUND" "(10::int) ^ nat e \<le> UPPER_BOUND" by linarith+
    then have "(10::int) ^ nat e < 10 ^ 18" by (simp add: UPPER_BOUND_def)
    then have "nat e < 18" using power_strict_increasing_iff [of "10::int" "nat e" 18] by simp
    then have "e < 18" by simp
    then have "exp_magnitude nm \<le> UPPER_BOUND"
      using that(2) small assms(3,4) by (auto simp: e_def M exponent_value_alt UPPER_BOUND_def split: if_splits)
    with v \<open>m \<le> UPPER_BOUND\<close> \<open>e < 18\<close> show ?thesis by simp
  qed
  define v where "v = m * 10 ^ nat e"
  have nn: "0 \<le> v" using m by (simp add: v_def)
  have "fst M = m" by (simp add: M)
  note d = denotes_iff [OF ok assms(5,3), folded M_def, folded e_def, unfolded this, folded v_def]
  show ?thesis
    unfolding d parse v_def [symmetric]
    using bounds [folded v_def] nn by (cases "negative nm") (auto split: if_splits)
qed

lemma parse_fixed_point_iff:
  assumes "int (length val) < 10 ^ 17" and "0 \<le> decimals" and "decimals \<le> 18" and "z \<noteq> 0"
  shows "parse_fixed_point val decimals = Some z \<longleftrightarrow>
    \<bar>z\<bar> \<le> UPPER_BOUND \<and> (\<exists>nm. numeral_ok nm \<and> render nm = val \<and> denotes nm decimals z)"
  using parse_fixed_point_grammar [of val decimals z] render_parses_iff [of _ decimals z] assms by blast

text \<open>C38: For every string of fewer than \<open>10 ^ 17\<close> bytes and every non-zero \<open>z\<close>: the parser returns
  \<open>z\<close> exactly when the string is a decimal numeral (no superfluous leading zero, digits on both
  sides of a point, an optional exponent) whose value times \<open>10 ^ decimals\<close> is \<open>z\<close>, and \<open>z\<close> has
  at most eighteen digits. No 64-bit operation on the way wraps into another answer.\<close>

theorem parse_fixed_point_exact:
  assumes "int (length val) < 10 ^ 17" and "0 \<le> decimals" and "decimals \<le> 18" and "z \<noteq> 0"
  shows "parse_fixed_point val decimals = Some z \<longleftrightarrow>
    \<bar>z\<bar> \<le> UPPER_BOUND \<and> (\<exists>nm. numeral_ok nm \<and> render nm = val \<and> denotes nm decimals z)"
  by (rule parse_fixed_point_iff [OF assms])

theorem parse_fixed_point_exact_witness: "parse_fixed_point ''-1.25e1'' 8 = Some (- 1250000000)"
proof -
  have "\<exists>nm. numeral_ok nm \<and> render nm = ''-1.25e1'' \<and> denotes nm 8 (- 1250000000)"
    by (rule exI [of _ "\<lparr>negative = True, int_digits = [1], frac_digits = Some [2, 5],
      exp_part = Some (CHR ''e'', [], [1])\<rparr>"])
      code_simp
  with parse_fixed_point_exact [of "''-1.25e1''" 8 "- 1250000000"] show ?thesis
    by (simp add: UPPER_BOUND_def)
qed

section \<open>Round trip\<close>

text \<open>A printed number is the text of a digit list with that value and no superfluous zero.\<close>

lemma int_div_mod: "int (n div k) * int k + int (n mod k) = int n"
  by (simp flip: of_nat_mult of_nat_add)

lemma show_nat_digits:
  "\<exists>ds. show_nat n = map digit_char ds \<and> digits_ok ds \<and> digits_value ds = int n \<and>
        (ds = [0] \<or> hd ds \<noteq> 0)"
proof (induction n rule: less_induct)
  case (less n)
  show ?case
  proof (cases "n < 10")
    case True
    then show ?thesis
      by (intro exI [of _ "[n]"])
        (subst show_radix.simps, auto simp: digits_ok_def digits_value_def)
  next
    case False
    then obtain ds where ds: "show_nat (n div 10) = map digit_char ds" "digits_ok ds"
        "digits_value ds = int (n div 10)" "ds = [0] \<or> hd ds \<noteq> 0"
      using less.IH [of "n div 10"] by auto
    have "ds \<noteq> [0]" using ds(3) False by (auto simp: digits_value_def)
    moreover have "show_nat n = map digit_char (ds @ [n mod 10])"
      using False ds(1) by (subst show_radix.simps) simp
    moreover have "digits_value (ds @ [n mod 10]) = int n"
      using ds(3) int_div_mod [of n 10] by (simp add: digits_value_append digits_value_def [of "[_]"])
    ultimately show ?thesis
      using ds(2,4) by (intro exI [of _ "ds @ [n mod 10]"]) (auto simp: digits_ok_def)
  qed
qed

lemma digits_value_replicate_0: "digits_value (replicate k 0 @ ds) = digits_value ds"
  by (induction k) (simp_all add: digits_value_Cons)

lemma show_nat_length: "n < 10 ^ Suc k \<Longrightarrow> length (show_nat n) \<le> Suc k"
proof (induction k arbitrary: n)
  case 0
  then show ?case by (subst show_radix.simps) simp
next
  case (Suc k)
  then have "n div 10 < 10 ^ Suc k" by auto
  from Suc.IH [OF this] show ?case by (subst show_radix.simps) simp
qed

lemma pad_digits:
  assumes "n < 10 ^ Suc k"
  shows "\<exists>ds. pad_zeros (Suc k) (show_nat n) = map digit_char ds \<and> digits_ok ds \<and>
    digits_value ds = int n \<and> length ds = Suc k"
proof -
  obtain ds where ds: "show_nat n = map digit_char ds" "digits_ok ds" "digits_value ds = int n"
    using show_nat_digits by blast
  have "length ds \<le> Suc k" using show_nat_length [OF assms] ds(1) by simp
  with ds show ?thesis
    by (intro exI [of _ "replicate (Suc k - length ds) 0 @ ds"])
      (auto simp: pad_zeros_def digits_ok_def digits_value_replicate_0 list_all_iff)
qed

lemma zec_str_numeral:
  "\<exists>nm. numeral_ok nm \<and> render nm = zec_str n \<and> denotes nm 8 (int n)"
proof -
  obtain ds where i: "show_nat (n div 100000000) = map digit_char ds" "digits_ok ds"
      "digits_value ds = int (n div 100000000)" "ds = [0] \<or> hd ds \<noteq> 0"
    using show_nat_digits by blast
  obtain fs where f: "pad_zeros 8 (show_nat (n mod 100000000)) = map digit_char fs" "digits_ok fs"
      "digits_value fs = int (n mod 100000000)" "length fs = 8"
    using pad_digits [of "n mod 100000000" 7] by auto
  let ?nm = "\<lparr>negative = False, int_digits = ds, frac_digits = Some fs, exp_part = None\<rparr>"
  have "digits_value (ds @ fs) = int n"
    using i(3) f(3,4) int_div_mod [of n 100000000] by (simp add: digits_value_append)
  then have "numeral_ok ?nm \<and> render ?nm = zec_str n \<and> denotes ?nm 8 (int n)"
    using i f by (auto simp: numeral_ok_def render_def zec_str_def denotes_def fraction_def
        exponent_value_def)
  then show ?thesis by blast
qed

text \<open>An amount of up to eighteen digits that was formatted is read back unchanged.\<close>

theorem zec_str_roundtrip:
  assumes "int n \<le> UPPER_BOUND"
  shows "parse_fixed_point (zec_str n) 8 = Some (int n)"
proof (cases "n = 0")
  case True
  let ?nm = "\<lparr>negative = False, int_digits = [0], frac_digits = Some [0, 0, 0, 0, 0, 0, 0, 0], exp_part = None\<rparr>"
  have "show_nat 0 = ''0''" by (subst show_radix.simps) simp
  moreover have "replicate 7 (CHR ''0'') = ''0000000''" by (simp add: numeral_eq_Suc)
  ultimately have "zec_str n = render ?nm" by (simp add: True zec_str_def pad_zeros_def render_def)
  moreover have "parse_fixed_point (render ?nm) 8 = finalize_fixed False 0 8 8 0 False 8"
    by (subst parse_fixed_point_render)
      (simp_all add: numeral_ok_def digits_ok_def render_def int_mant_def fraction_def exp_magnitude_def
        exp_negative_def UPPER_BOUND_def)
  moreover have "finalize_fixed False 0 8 8 0 False 8 = Some 0"
    using finalize_fixed_spec [of 0 0 8 8 8 8 False False] by (simp add: UPPER_BOUND_def)
  ultimately show ?thesis by (simp add: True)
next
  case False
  have "n < 10000000000 * 100000000" using assms by (simp add: UPPER_BOUND_def)
  then have "n div 100000000 < 10000000000" by (subst less_mult_imp_div_less) simp_all
  then have "n div 100000000 < 10 ^ Suc 9" by simp
  then have "length (show_nat (n div 100000000)) \<le> Suc 9" by (rule show_nat_length)
  moreover have "length (pad_zeros 8 (show_nat (n mod 100000000))) = 8"
    using pad_digits [of "n mod 100000000" 7] by auto
  ultimately have "int (length (zec_str n)) < 10 ^ 17" by (simp add: zec_str_def)
  moreover obtain nm where "numeral_ok nm" "render nm = zec_str n" "denotes nm 8 (int n)"
    using zec_str_numeral by blast
  ultimately show ?thesis
    using render_parses_iff [of nm 8 "int n"] assms False by simp
qed

theorem zec_str_roundtrip_witness: "parse_fixed_point (zec_str 2099999999999999) 8 = Some 2099999999999999"
  using zec_str_roundtrip [of 2099999999999999] by (simp add: UPPER_BOUND_def)

end
