(* ===== verification/Rpc_Utils.thy ===== *)
theory Rpc_Utils
  imports Fixed_Point Chain_Types
begin

text \<open>
  Parameter parsing and the guards shared by the JSON-RPC methods (\<open>json_rpc/utils.rs\<close>). What the
  keystore and the wallet database answer are arguments, as are the parsers of the librustzcash
  and \<open>hex\<close> crates; a database error is its text.
\<close>

section \<open>JSON values\<close>

text \<open>\<open>serde_json::Value\<close> with arbitrary precision: a number is its text.\<close>

datatype JsonValue =
    JNull | JBool bool | JNumber string | JString string
  | JArray "JsonValue list" | JObject "(string \<times> JsonValue) list"

definition as_u64 :: "string \<Rightarrow> 64 word option" where
  "as_u64 n = from_str_radix 10 n"

section \<open>Guards\<close>

definition ensure_wallet_is_unlocked :: "bool \<Rightarrow> rpc_error + unit" where
  "ensure_wallet_is_unlocked is_locked =
     (if is_locked
      then Inl (with_static WalletUnlockNeeded
        ''Error: Please enter the wallet passphrase with walletpassphrase first.'')
      else Inr ())"

definition ensure_seed_is_backed_up :: "string + bool \<Rightarrow> rpc_error + unit" where
  "ensure_seed_is_backed_up backup_required =
     rbind (map_err (\<lambda>e. with_message Database (Text e)) backup_required) (\<lambda>required.
       if required
       then Inl (with_static WalletBackupRequired
         (''Error: Please acknowledge that you have backed up the wallet''@ [CHR 0x27] @
          ''s emergency recovery phrase by using the zallet confirm-backup command first.''))
       else Inr ())"

section \<open>Standalone transparent keys\<close>

text \<open>How the wallet came by a transparent address; a derived one has a key scope and an index.\<close>

datatype TransparentAddressSource =
  StandalonePubkey | StandaloneScript | StandaloneAddress | Derived u32 u32

text \<open>An error of the keystore: its kind is \<open>ErrorKind::Generic\<close> or another, and its text.\<close>

record keystore_error =
  ke_generic :: bool
  ke_text :: string

definition standalone_addrs ::
    "(TransparentAddress \<times> TransparentAddressSource) list \<Rightarrow> TransparentAddress list" where
  "standalone_addrs receivers =
     List.map_filter (\<lambda>(addr, source).
       case source of StandalonePubkey \<Rightarrow> Some addr | StandaloneScript \<Rightarrow> Some addr
         | StandaloneAddress \<Rightarrow> None | Derived scope index \<Rightarrow> None) receivers"

definition standalone_key_error :: "keystore_error \<Rightarrow> rpc_error" where
  "standalone_key_error e =
     (if ke_generic e \<and> ke_text e = ''Wallet is locked''
      then with_message WalletUnlockNeeded (Text (ke_text e))
      else with_message Database (Text (ke_text e)))"

text \<open>The loops over the proposal's steps and their transparent inputs: an input is the address
  its script parses to, if any.\<close>

fun collect_keys ::
    "TransparentAddress list \<Rightarrow> (TransparentAddress \<Rightarrow> keystore_error + 'key) \<Rightarrow>
     TransparentAddress option list \<Rightarrow> (TransparentAddress \<rightharpoonup> 'key list) \<Rightarrow>
     rpc_error + (TransparentAddress \<rightharpoonup> 'key list)" where
  "collect_keys standalone decrypt [] keys = Inr keys"
| "collect_keys standalone decrypt (None # inputs) keys = collect_keys standalone decrypt inputs keys"
| "collect_keys standalone decrypt (Some address # inputs) keys =
     (if address \<notin> set standalone then collect_keys standalone decrypt inputs keys
      else rbind (map_err standalone_key_error (decrypt address)) (\<lambda>secret_key.
        collect_keys standalone decrypt inputs
          (keys(address \<mapsto> (case keys address of None \<Rightarrow> [] | Some ks \<Rightarrow> ks) @ [secret_key]))))"

definition collect_standalone_transparent_keys ::
    "string + (TransparentAddress \<times> TransparentAddressSource) list \<Rightarrow>
     (TransparentAddress \<Rightarrow> keystore_error + 'key) \<Rightarrow> ('script \<Rightarrow> TransparentAddress option) \<Rightarrow>
     'script list list \<Rightarrow> rpc_error + (TransparentAddress \<rightharpoonup> 'key list)" where
  "collect_standalone_transparent_keys receivers decrypt script_address steps =
     rbind (map_err (\<lambda>e. with_message Database (Text e)) receivers) (\<lambda>rs.
       collect_keys (standalone_addrs rs) decrypt (map script_address (concat steps)) Map.empty)"

section \<open>Account birthdays\<close>

fun show_chain_error :: "ChainError \<Rightarrow> string" where
  "show_chain_error (Unavailable e) = ''chain source unavailable: '' @ e"
| "show_chain_error (InvalidData e) = ''chain source returned invalid data: '' @ e"
| "show_chain_error (Backend e) = ''chain backend error: '' @ e"

definition internal_error :: "string \<Rightarrow> rpc_error" where
  "internal_error msg = \<lparr>err_code = InternalError, err_message = Text msg\<rparr>"

text \<open>The birthday is its chain state; \<open>empty_state\<close> is \<open>ChainState::empty\<close> at height 0 under
  the all-zero hash.\<close>

definition fetch_account_birthday ::
    "'ts \<Rightarrow> ChainError + ('blk, 'ts, 'tx) ChainView \<Rightarrow> BlockHeight \<Rightarrow> rpc_error + 'ts" where
  "fetch_account_birthday empty_state snapshot height =
     (if height = 0 then Inr empty_state
      else let treestate_height = saturating_sub height 1 in
       rbind (map_err (\<lambda>e. internal_error (''Failed to obtain a chain snapshot: '' @ show_chain_error e)) snapshot)
         (\<lambda>chain_view.
       rbind (map_err (\<lambda>e. internal_error (''Failed to get treestate at height '' @
           show_nat (unat treestate_height) @ '': '' @ show_chain_error e))
           (tree_state_as_of chain_view treestate_height)) (\<lambda>found.
       ok_or (internal_error (''No treestate available at height '' @ show_nat (unat treestate_height)))
         found)))"

section \<open>Identifiers\<close>

text \<open>\<open>reverse_hex\<close> is \<open>ReverseHex::decode\<close>.\<close>

definition parse_txid :: "(string \<Rightarrow> TxId option) \<Rightarrow> string \<Rightarrow> rpc_error + TxId" where
  "parse_txid reverse_hex txid_str = ok_or (with_static InvalidParameter ''invalid txid'') (reverse_hex txid_str)"

type_synonym SeedFingerprint = "u8 list"

text \<open>\<open>modern\<close> is the \<open>zip32\<close> parser and \<open>decode_to_slice\<close> the \<open>hex\<close> decoder of exactly 32
  bytes.\<close>

definition parse_seedfp ::
    "(string \<Rightarrow> 'e + SeedFingerprint) \<Rightarrow> (string \<Rightarrow> u8 list option) \<Rightarrow> string \<Rightarrow> 'e + SeedFingerprint" where
  "parse_seedfp modern decode_to_slice seedfp =
     (case modern seedfp of
        Inr fp \<Rightarrow> Inr fp
      | Inl e \<Rightarrow> (case decode_to_slice seedfp of None \<Rightarrow> Inl e | Some hash \<Rightarrow> Inr (rev hash)))"

definition parse_seedfp_parameter ::
    "('e \<Rightarrow> string) \<Rightarrow> (string \<Rightarrow> 'e + SeedFingerprint) \<Rightarrow> (string \<Rightarrow> u8 list option) \<Rightarrow> string \<Rightarrow>
     rpc_error + SeedFingerprint" where
  "parse_seedfp_parameter debug modern decode_to_slice seedfp =
     map_err (\<lambda>e. with_message InvalidParameter (Text (''Invalid seed fingerprint: '' @ debug e)))
       (parse_seedfp modern decode_to_slice seedfp)"

section \<open>Accounts\<close>

definition ZCASH_LEGACY_ACCOUNT :: u32 where
  "ZCASH_LEGACY_ACCOUNT = 0x7fffffff"

type_synonym AccountUuid = string

text \<open>An account's key derivation: the seed's fingerprint and the ZIP 32 account index; imported
  accounts have none.\<close>

type_synonym derivation = "(SeedFingerprint \<times> u32) option"

text \<open>What \<open>parse_account_parameter\<close> asks the keystore and the wallet.\<close>

record account_source =
  legacy_seed_fingerprints :: "string + SeedFingerprint list"
  get_account_ids :: "string + AccountUuid list"
  get_account :: "AccountUuid \<Rightarrow> string + derivation option"

abbreviation database_error :: "string \<Rightarrow> rpc_error" where
  "database_error e \<equiv> with_message Database (Text e)"

text \<open>The loop over the wallet's accounts: the distinct seeds and the account found so far.\<close>

fun account_loop ::
    "account_source \<Rightarrow> SeedFingerprint list \<Rightarrow> nat \<Rightarrow> AccountUuid list \<Rightarrow>
     SeedFingerprint set \<times> AccountUuid option \<Rightarrow>
     rpc_error + (SeedFingerprint set \<times> AccountUuid option)" where
  "account_loop src legacy_seeds index [] acc = Inr acc"
| "account_loop src legacy_seeds index (candidate # rest) (distinct_seeds, account_id) =
     rbind (map_err database_error (get_account src candidate)) (\<lambda>found.
     rbind (ok_or (rpc_error_of InternalError) found) (\<lambda>derivation.
       account_loop src legacy_seeds index rest
         (case derivation of
            None \<Rightarrow> (distinct_seeds, account_id)
          | Some (seed_fp, account_index) \<Rightarrow>
              if seed_fp \<in> set legacy_seeds then (distinct_seeds, account_id)
              else (insert seed_fp distinct_seeds,
                    if unat account_index = index then Some candidate else account_id))))"

definition parse_account_parameter ::
    "(string \<Rightarrow> AccountUuid option) \<Rightarrow> account_source \<Rightarrow> JsonValue \<Rightarrow> rpc_error + AccountUuid" where
  "parse_account_parameter uuid src account =
     (case account of
        JNumber n \<Rightarrow>
          (case as_u64 n of
             Some index \<Rightarrow>
               if unat index < unat ZCASH_LEGACY_ACCOUNT then
                 rbind (map_err database_error (legacy_seed_fingerprints src)) (\<lambda>legacy_seeds.
                 rbind (map_err database_error (get_account_ids src)) (\<lambda>ids.
                 rbind (account_loop src legacy_seeds (unat index) ids ({}, None)) (\<lambda>(distinct_seeds, account_id).
                   if card distinct_seeds = 1
                   then ok_or (with_message Wallet (Text (''Error: account '' @ show_nat (unat index) @
                          '' has not been generated by z_getnewaccount.''))) account_id
                   else Inl (with_static Wallet
                     ''Account numbers are not supported in wallets with multiple seeds. Use the account UUID instead.''))))
               else Inl (with_static InvalidParameter ''Invalid account number, must be 0 <= account <= (2^31)-2.'')
           | None \<Rightarrow> Inl (with_static InvalidParameter ''Invalid account number, must be 0 <= account <= (2^31)-2.''))
      | JString s \<Rightarrow> ok_or (rpc_error_of InvalidParams) (uuid s)
      | _ \<Rightarrow> Inl (rpc_error_of InvalidParams))"

section \<open>Numbers\<close>

definition parse_diversifier_index :: "(128 word \<Rightarrow> 'd option) \<Rightarrow> 128 word \<Rightarrow> rpc_error + 'd" where
  "parse_diversifier_index try_into diversifier_index =
     ok_or (with_static InvalidParameter ''diversifier index is too large.'') (try_into diversifier_index)"

text \<open>An \<open>i64\<close> argument; \<open>u32::try_from\<close> accepts exactly the 32-bit values.\<close>

definition parse_as_of_height :: "int option \<Rightarrow> rpc_error + BlockHeight option" where
  "parse_as_of_height as_of_height =
     (case as_of_height of
        None \<Rightarrow> Inr None
      | Some h \<Rightarrow>
          if h = - 1 then Inr None
          else if h < 0 then Inl (with_static InvalidParameter
            ''Can not perform the query as of a negative block height'')
          else if h = 0 then Inl (with_static InvalidParameter
            ''Can not perform the query as of the genesis block'')
          else if h < 2 ^ 32 then Inr (Some (word_of_int h))
          else Inl (with_static InvalidParameter ''`as_of_height` parameter out of range''))"

definition parse_minconf :: "u32 option \<Rightarrow> u32 \<Rightarrow> BlockHeight option \<Rightarrow> rpc_error + u32" where
  "parse_minconf minconf dflt as_of_height =
     (case minconf of
        None \<Rightarrow> Inr dflt
      | Some d \<Rightarrow>
          if d = 0 \<and> as_of_height \<noteq> None then Inl (with_static InvalidParameter
            ''Require a minimum of 1 confirmation when `asOfHeight` is provided'')
          else Inr d)"

section \<open>Amounts\<close>

datatype BalanceError = Overflow | Underflow

definition zatoshis_from_value ::
    "(int \<Rightarrow> BalanceError + 'z) \<Rightarrow> JsonValue \<Rightarrow> rpc_error + 'z" where
  "zatoshis_from_value from_nonnegative_i64 value =
     rbind (case value of
              JString s \<Rightarrow> Inr s
            | JNumber n \<Rightarrow> Inr n
            | _ \<Rightarrow> Inl (with_static Type ''Amount is not a number or string'')) (\<lambda>amount_str.
     rbind (ok_or (with_static Type ''Invalid amount'') (parse_fixed_point amount_str 8)) (\<lambda>amount.
       map_err (\<lambda>e. case e of
           Underflow \<Rightarrow> with_static InvalidParameter ''Invalid parameter, amount must be positive''
         | Overflow \<Rightarrow> with_static Type ''Amount out of range'')
         (from_nonnegative_i64 amount)))"

section \<open>Properties\<close>

text \<open>What \<open>zcash_protocol\<close> documents of \<open>Zatoshis::from_nonnegative_i64\<close>: the amounts from zero to
  \<open>MAX_MONEY\<close>, with an error that tells on which side another value lies.\<close>

definition MAX_MONEY :: int where
  "MAX_MONEY = 21000000 * 100000000"

definition zatoshis_documented :: "(int \<Rightarrow> BalanceError + int) \<Rightarrow> bool" where
  "zatoshis_documented from_nonnegative_i64 \<longleftrightarrow>
     (\<forall>v. from_nonnegative_i64 v =
        (if v < 0 then Inl Underflow else if v > MAX_MONEY then Inl Overflow else Inr v))"

definition example_zatoshis :: "int \<Rightarrow> BalanceError + int" where
  "example_zatoshis v =
     (if v < 0 then Inl Underflow else if v > MAX_MONEY then Inl Overflow else Inr v)"

text \<open>A positive amount is accepted exactly when it is written as a decimal numeral of at most
  \<open>MAX_MONEY\<close> zatoshis that is a whole number of zatoshis; a negative one is refused as a bad
  parameter and an excessive one as out of range, however it is written.\<close>

theorem zatoshis_from_value_exact:
  assumes "zatoshis_documented from_nonnegative_i64" and "int (length s) < 10 ^ 17"
    and "value = JString s \<or> value = JNumber s" and "v \<noteq> 0"
  shows "(zatoshis_from_value from_nonnegative_i64 value = Inr v \<longleftrightarrow>
      0 < v \<and> v \<le> MAX_MONEY \<and> (\<exists>nm. numeral_ok nm \<and> render nm = s \<and> denotes nm 8 v)) \<and>
    ((\<exists>nm. numeral_ok nm \<and> render nm = s \<and> denotes nm 8 v) \<and> \<bar>v\<bar> \<le> UPPER_BOUND \<and> v < 0 \<longrightarrow>
      zatoshis_from_value from_nonnegative_i64 value =
        Inl (with_static InvalidParameter ''Invalid parameter, amount must be positive'')) \<and>
    ((\<exists>nm. numeral_ok nm \<and> render nm = s \<and> denotes nm 8 v) \<and> \<bar>v\<bar> \<le> UPPER_BOUND \<and> MAX_MONEY < v \<longrightarrow>
      zatoshis_from_value from_nonnegative_i64 value = Inl (with_static Type ''Amount out of range''))"
proof -
  let ?num = "\<exists>nm. numeral_ok nm \<and> render nm = s \<and> denotes nm 8 v"
  have parse: "parse_fixed_point s 8 = Some v \<longleftrightarrow> \<bar>v\<bar> \<le> UPPER_BOUND \<and> ?num"
    using parse_fixed_point_iff [of s 8 v] assms(2,4) by simp
  have bound: "0 < v \<Longrightarrow> v \<le> MAX_MONEY \<Longrightarrow> \<bar>v\<bar> \<le> UPPER_BOUND"
    by (simp add: MAX_MONEY_def UPPER_BOUND_def)
  have unfolded: "zatoshis_from_value from_nonnegative_i64 value =
      rbind (ok_or (with_static Type ''Invalid amount'') (parse_fixed_point s 8)) (\<lambda>amount.
        map_err (\<lambda>e. case e of
            Underflow \<Rightarrow> with_static InvalidParameter ''Invalid parameter, amount must be positive''
          | Overflow \<Rightarrow> with_static Type ''Amount out of range'')
          (from_nonnegative_i64 amount))"
    using assms(3) by (auto simp: zatoshis_from_value_def)
  have "zatoshis_from_value from_nonnegative_i64 value = Inr v \<longleftrightarrow>
      parse_fixed_point s 8 = Some v \<and> 0 < v \<and> v \<le> MAX_MONEY"
    unfolding unfolded using assms(1,4)
    by (cases "parse_fixed_point s 8") (auto simp: zatoshis_documented_def result_simps split: if_splits)
  with parse bound show ?thesis
    using assms(1) by (auto simp: unfolded zatoshis_documented_def MAX_MONEY_def)
qed

theorem zatoshis_from_value_exact_witness:
  "zatoshis_from_value example_zatoshis (JString ''0.5'') = Inr 50000000"
proof -
  have "\<exists>nm. numeral_ok nm \<and> render nm = ''0.5'' \<and> denotes nm 8 50000000"
    by (rule exI [of _ "\<lparr>negative = False, int_digits = [0], frac_digits = Some [5], exp_part = None\<rparr>"])
      code_simp
  with zatoshis_from_value_exact [of example_zatoshis "''0.5''" "JString ''0.5''" 50000000] show ?thesis
    by (simp add: zatoshis_documented_def example_zatoshis_def MAX_MONEY_def)
qed

subsection \<open>Account numbers\<close>

definition derived_seeds :: "(AccountUuid \<Rightarrow> derivation) \<Rightarrow> SeedFingerprint list \<Rightarrow> AccountUuid list \<Rightarrow> SeedFingerprint set" where
  "derived_seeds der legacy ids =
     {fp. \<exists>a i. a \<in> set ids \<and> der a = Some (fp, i) \<and> fp \<notin> set legacy}"

lemma derived_seeds_simps:
  "derived_seeds der legacy [] = {}"
  "derived_seeds der legacy (a # ids) =
     (case der a of None \<Rightarrow> derived_seeds der legacy ids
      | Some (fp, i) \<Rightarrow> if fp \<in> set legacy then derived_seeds der legacy ids
                        else insert fp (derived_seeds der legacy ids))"
  by (auto simp: derived_seeds_def split: option.splits prod.splits)

text \<open>The accounts the number may stand for.\<close>

definition numbered :: "(AccountUuid \<Rightarrow> derivation) \<Rightarrow> SeedFingerprint list \<Rightarrow> nat \<Rightarrow> AccountUuid \<Rightarrow> bool" where
  "numbered der legacy index a \<longleftrightarrow>
     (\<exists>fp i. der a = Some (fp, i) \<and> fp \<notin> set legacy \<and> unat i = index)"

lemma account_loop_spec:
  "list_all (\<lambda>a. get_account src a = Inr (Some (der a))) ids \<Longrightarrow>
   \<exists>found. account_loop src legacy index ids (seeds, acc) = Inr (seeds \<union> derived_seeds der legacy ids, found) \<and>
     (found = acc \<and> \<not> list_ex (numbered der legacy index) ids \<or>
      (\<exists>a. found = Some a \<and> a \<in> set ids \<and> numbered der legacy index a))"
proof (induction ids arbitrary: seeds acc)
  case Nil
  then show ?case by (simp add: derived_seeds_def)
next
  case (Cons a ids)
  define seeds' where "seeds' = (case der a of Some (fp, i) \<Rightarrow>
      if fp \<in> set legacy then seeds else insert fp seeds | None \<Rightarrow> seeds)"
  define acc' where "acc' = (if numbered der legacy index a then Some a else acc)"
  have step: "account_loop src legacy index (a # ids) (seeds, acc) =
      account_loop src legacy index ids (seeds', acc')"
    using Cons.prems by (auto simp: seeds'_def acc'_def numbered_def split: option.splits prod.splits)
  have seeds: "seeds' \<union> derived_seeds der legacy ids = seeds \<union> derived_seeds der legacy (a # ids)"
    by (auto simp: seeds'_def derived_seeds_def split: option.splits if_splits)
  from Cons.IH [of seeds' acc'] Cons.prems obtain found where
    "account_loop src legacy index ids (seeds', acc') = Inr (seeds' \<union> derived_seeds der legacy ids, found)"
    "found = acc' \<and> \<not> list_ex (numbered der legacy index) ids \<or>
      (\<exists>a. found = Some a \<and> a \<in> set ids \<and> numbered der legacy index a)" by auto
  then show ?case
    unfolding step seeds by (intro exI [of _ found]) (auto simp: acc'_def split: if_splits)
qed

text \<open>Over a wallet whose accounts can all be read, an account number is accepted exactly when all
  the wallet's accounts that are derived from a mnemonic seed share one seed and one of them has
  that number; the account returned is derived from that seed under that number.\<close>

theorem account_number_resolves:
  assumes "legacy_seed_fingerprints src = Inr legacy" and "get_account_ids src = Inr ids"
    and "list_all (\<lambda>a. get_account src a = Inr (Some (der a))) ids"
    and "as_u64 n = Some index" and "unat index < 2 ^ 31 - 1"
  shows "(is_ok (parse_account_parameter uuid src (JNumber n)) \<longleftrightarrow>
      (\<exists>fp. derived_seeds der legacy ids = {fp}) \<and> list_ex (numbered der legacy (unat index)) ids) \<and>
    (parse_account_parameter uuid src (JNumber n) = Inr a \<longrightarrow>
      a \<in> set ids \<and> (\<exists>fp i. derived_seeds der legacy ids = {fp} \<and> der a = Some (fp, i) \<and> unat i = unat index))"
proof -
  obtain found where loop: "account_loop src legacy (unat index) ids ({}, None) =
      Inr (derived_seeds der legacy ids, found)"
    and found: "found = None \<and> \<not> list_ex (numbered der legacy (unat index)) ids \<or>
      (\<exists>a. found = Some a \<and> a \<in> set ids \<and> numbered der legacy (unat index) a)"
    using account_loop_spec [OF assms(3), of legacy "unat index" "{}" None] by auto
  have parse: "parse_account_parameter uuid src (JNumber n) =
      (if card (derived_seeds der legacy ids) = 1
       then ok_or (with_message Wallet (Text (''Error: account '' @ show_nat (unat index) @
              '' has not been generated by z_getnewaccount.''))) found
       else Inl (with_static Wallet
         ''Account numbers are not supported in wallets with multiple seeds. Use the account UUID instead.''))"
    using assms(1,2,4,5) loop
    by (simp add: parse_account_parameter_def ZCASH_LEGACY_ACCOUNT_def)
  have seed: "derived_seeds der legacy ids = {fp}"
    if "card (derived_seeds der legacy ids) = 1" "a \<in> set ids" "der a = Some (fp, i)" "fp \<notin> set legacy" for a fp i
  proof -
    have "fp \<in> derived_seeds der legacy ids" using that by (auto simp: derived_seeds_def)
    with that(1) show ?thesis by (metis card_1_singletonE singletonD)
  qed
  show ?thesis
  proof (cases "card (derived_seeds der legacy ids) = 1")
    case True
    then have one: "\<exists>fp. derived_seeds der legacy ids = {fp}" by (metis card_1_singletonE)
    from found show ?thesis
    proof
      assume "found = None \<and> \<not> list_ex (numbered der legacy (unat index)) ids"
      with True show ?thesis by (simp add: parse)
    next
      assume "\<exists>a. found = Some a \<and> a \<in> set ids \<and> numbered der legacy (unat index) a"
      then obtain b fp i where b: "found = Some b" "b \<in> set ids" "der b = Some (fp, i)"
          "fp \<notin> set legacy" "unat i = unat index" by (auto simp: numbered_def)
      then have "list_ex (numbered der legacy (unat index)) ids" by (auto simp: list_ex_iff numbered_def)
      moreover have p: "parse_account_parameter uuid src (JNumber n) = Inr b"
        using True b(1) by (simp add: parse)
      ultimately show ?thesis
        using one b(2,3,5) seed [OF True b(2-4)] by (intro conjI impI iffI) (simp_all add: p)
    qed
  next
    case False
    then have "\<nexists>fp. derived_seeds der legacy ids = {fp}" by (metis is_singletonI is_singleton_altdef)
    with False show ?thesis by (simp add: parse)
  qed
qed

lemma as_u64_show: "as_u64 (show_nat (unat x)) = Some x"
  by (simp add: as_u64_def from_str_radix_show)

definition example_derivation :: "AccountUuid \<Rightarrow> derivation" where
  "example_derivation a =
     (if a = ''a'' then Some ([1], 0) else if a = ''b'' then Some ([9], 5) else None)"

definition example_accounts :: account_source where
  "example_accounts = \<lparr>legacy_seed_fingerprints = Inr [[9]], get_account_ids = Inr [''a'', ''b'', ''c''],
     get_account = (\<lambda>a. Inr (Some (example_derivation a)))\<rparr>"

theorem account_number_resolves_witness:
  "is_ok (parse_account_parameter (\<lambda>_. None) example_accounts (JNumber ''0''))"
proof -
  have "derived_seeds example_derivation [[9]] [''a'', ''b'', ''c''] = {[1]}"
    by (simp add: derived_seeds_simps example_derivation_def)
  moreover have "numbered example_derivation [[9]] 0 ''a''"
    by (simp add: numbered_def example_derivation_def)
  moreover have "as_u64 ''0'' = Some 0"
    using as_u64_show [of 0] by (simp add: show_radix.simps)
  ultimately show ?thesis
    using account_number_resolves [of example_accounts "[[9]]" "[''a'', ''b'', ''c'']" example_derivation
        "''0''" 0 "\<lambda>_. None", THEN conjunct1]
    by (simp add: example_accounts_def)
qed

subsection \<open>Standalone keys\<close>

definition occurrences :: "TransparentAddress \<Rightarrow> TransparentAddress option list \<Rightarrow> nat" where
  "occurrences a inputs = length (filter (\<lambda>i. i = Some a) inputs)"

lemma occurrences_simps [simp]:
  "occurrences a [] = 0"
  "occurrences a (i # inputs) = (if i = Some a then Suc (occurrences a inputs) else occurrences a inputs)"
  by (simp_all add: occurrences_def)

lemma occurrences_pos: "0 < occurrences a inputs \<longleftrightarrow> Some a \<in> set inputs"
  by (induction inputs) auto

lemma collect_keys_spec:
  "collect_keys standalone decrypt inputs keys = Inr keys' \<Longrightarrow>
   (if a \<in> set standalone \<and> 0 < occurrences a inputs
    then \<exists>k. decrypt a = Inr k \<and>
           keys' a = Some (case_option [] id (keys a) @ replicate (occurrences a inputs) k)
    else keys' a = keys a)"
proof (induction standalone decrypt inputs keys rule: collect_keys.induct)
  case (3 standalone decrypt address inputs keys)
  show ?case
  proof (cases "address \<in> set standalone")
    case False
    with 3 show ?thesis by (cases "a = address") (auto split: if_splits)
  next
    case True
    with "3.prems" obtain k where k: "decrypt address = Inr k" by (auto simp: result_simps)
    let ?keys = "keys(address \<mapsto> (case keys address of None \<Rightarrow> [] | Some ks \<Rightarrow> ks) @ [k])"
    from True k "3.prems" have c: "collect_keys standalone decrypt inputs ?keys = Inr keys'" by simp
    have "\<not> address \<notin> set standalone" using True by simp
    note ih = "3.IH"(2) [OF this c]
    show ?thesis
    proof (cases "a = address")
      case True
      with ih k \<open>address \<in> set standalone\<close> show ?thesis
        by (auto split: if_splits option.splits)
    next
      case False
      with ih show ?thesis by auto
    qed
  qed
qed auto

text \<open>When the standalone keys of a proposal are collected, an address has keys exactly when it was
  imported with key material and is spent from, and then it has its decrypted key once for every
  input that spends from it; nothing is looked up for any other address.\<close>

theorem standalone_keys_exact:
  assumes "collect_standalone_transparent_keys (Inr receivers) decrypt script_address steps = Inr keys"
  shows "(keys a \<noteq> None \<longleftrightarrow>
      ((a, StandalonePubkey) \<in> set receivers \<or> (a, StandaloneScript) \<in> set receivers) \<and>
      Some a \<in> set (map script_address (concat steps))) \<and>
    (keys a = None \<or> (\<exists>k. decrypt a = Inr k \<and>
      keys a = Some (replicate (occurrences a (map script_address (concat steps))) k)))"
proof -
  let ?inputs = "map script_address (concat steps)"
  have "collect_keys (standalone_addrs receivers) decrypt ?inputs Map.empty = Inr keys"
    using assms by (simp add: collect_standalone_transparent_keys_def)
  note spec = collect_keys_spec [OF this, of a]
  have member: "a \<in> set (standalone_addrs receivers) \<longleftrightarrow>
      (a, StandalonePubkey) \<in> set receivers \<or> (a, StandaloneScript) \<in> set receivers"
    by (force simp: standalone_addrs_def set_map_filter_eq split: TransparentAddressSource.splits)
  with spec occurrences_pos [of a ?inputs] show ?thesis by (auto split: if_splits)
qed

theorem standalone_keys_exact_witness:
  "\<exists>keys. collect_standalone_transparent_keys
      (Inr [(PublicKeyHash [1], StandalonePubkey), (PublicKeyHash [2], Derived 0 1)])
      (\<lambda>a. if a = PublicKeyHash [1] then Inr (7 :: nat) else Inl \<lparr>ke_generic = False, ke_text = ''none''\<rparr>) Some
      [[PublicKeyHash [1], PublicKeyHash [2]], [PublicKeyHash [1]]] = Inr keys \<and>
    keys (PublicKeyHash [1]) = Some [7, 7]"
proof -
  let ?decrypt = "\<lambda>a. if a = PublicKeyHash [1] then Inr (7 :: nat) else Inl \<lparr>ke_generic = False, ke_text = ''none''\<rparr>"
  have collected: "collect_standalone_transparent_keys
      (Inr [(PublicKeyHash [1], StandalonePubkey), (PublicKeyHash [2], Derived 0 1)]) ?decrypt Some
      [[PublicKeyHash [1], PublicKeyHash [2]], [PublicKeyHash [1]]] = Inr [PublicKeyHash [1] \<mapsto> [7, 7]]"
    by (simp add: collect_standalone_transparent_keys_def standalone_addrs_def List.map_filter_simps)
  from standalone_keys_exact [OF this, of "PublicKeyHash [1]"] collected show ?thesis
    by simp
qed

end
