(* ===== verification/Privacy_Policy.thy ===== *)
theory Privacy_Policy
  imports Rpc_Utils
begin

text \<open>
  Privacy policies of the transaction-building methods (\<open>json_rpc/payments.rs\<close>): the policy
  lattice, what a proposal step reveals, the check of a proposal against a policy, the policy a
  proposal requires, and the limits on shielded actions. A policy is also read as the set of
  disclosures it permits; the lattice operations are shown to be those of such sets.

  A proposal is what \<open>propose_transfer\<close> of \<open>zcash_client_backend\<close> returned: the answers of the
  step's accessors are the fields of the record below.
\<close>

section \<open>Pools and proposal steps\<close>

datatype ShieldedPool = Sapling | Orchard | Ironwood

datatype PoolType = Transparent | Shielded ShieldedPool

record 'pay Step =
  input_in_pool :: "PoolType \<Rightarrow> bool"
  output_in_pool :: "PoolType \<Rightarrow> bool"
  change_in_pool :: "PoolType \<Rightarrow> bool"
  transparent_input_addresses :: "TransparentAddress list"
  shielded_note_pools :: "ShieldedPool list"
  payment_pools :: "(nat \<times> PoolType) list"
  proposed_change_pools :: "PoolType list"
  request_payments :: "nat \<rightharpoonup> 'pay"

section \<open>Policies\<close>

datatype PrivacyPolicy =
    FullPrivacy | AllowRevealedAmounts | AllowRevealedRecipients | AllowRevealedSenders
  | AllowFullyTransparent | AllowLinkingAccountAddresses | NoPrivacy

fun policy_str :: "PrivacyPolicy \<Rightarrow> string" where
  "policy_str FullPrivacy = ''FullPrivacy''"
| "policy_str AllowRevealedAmounts = ''AllowRevealedAmounts''"
| "policy_str AllowRevealedRecipients = ''AllowRevealedRecipients''"
| "policy_str AllowRevealedSenders = ''AllowRevealedSenders''"
| "policy_str AllowFullyTransparent = ''AllowFullyTransparent''"
| "policy_str AllowLinkingAccountAddresses = ''AllowLinkingAccountAddresses''"
| "policy_str NoPrivacy = ''NoPrivacy''"

definition policy_from_str :: "string \<Rightarrow> PrivacyPolicy option" where
  "policy_from_str s =
     (if s = ''FullPrivacy'' then Some FullPrivacy
      else if s = ''AllowRevealedAmounts'' then Some AllowRevealedAmounts
      else if s = ''AllowRevealedRecipients'' then Some AllowRevealedRecipients
      else if s = ''AllowRevealedSenders'' then Some AllowRevealedSenders
      else if s = ''AllowFullyTransparent'' then Some AllowFullyTransparent
      else if s = ''AllowLinkingAccountAddresses'' then Some AllowLinkingAccountAddresses
      else if s = ''NoPrivacy'' then Some NoPrivacy
      else None)"

interpretation policy_codec: string_codec policy_str policy_from_str
proof
  show "policy_from_str (policy_str p) = Some p" for p
    by (cases p) (simp_all add: policy_from_str_def)
  show "policy_from_str s = Some p \<Longrightarrow> s = policy_str p" for s p
    by (auto simp: policy_from_str_def split: if_splits)
qed

fun meet :: "PrivacyPolicy \<Rightarrow> PrivacyPolicy \<Rightarrow> PrivacyPolicy" where
  "meet FullPrivacy other = other"
| "meet AllowRevealedAmounts other =
     (case other of FullPrivacy \<Rightarrow> AllowRevealedAmounts | _ \<Rightarrow> other)"
| "meet AllowRevealedRecipients other =
     (case other of
        FullPrivacy \<Rightarrow> AllowRevealedRecipients
      | AllowRevealedAmounts \<Rightarrow> AllowRevealedRecipients
      | AllowRevealedSenders \<Rightarrow> AllowFullyTransparent
      | AllowLinkingAccountAddresses \<Rightarrow> NoPrivacy
      | _ \<Rightarrow> other)"
| "meet AllowRevealedSenders other =
     (case other of
        FullPrivacy \<Rightarrow> AllowRevealedSenders
      | AllowRevealedAmounts \<Rightarrow> AllowRevealedSenders
      | AllowRevealedRecipients \<Rightarrow> AllowFullyTransparent
      | _ \<Rightarrow> other)"
| "meet AllowFullyTransparent other =
     (case other of
        FullPrivacy \<Rightarrow> AllowFullyTransparent
      | AllowRevealedAmounts \<Rightarrow> AllowFullyTransparent
      | AllowRevealedRecipients \<Rightarrow> AllowFullyTransparent
      | AllowRevealedSenders \<Rightarrow> AllowFullyTransparent
      | AllowLinkingAccountAddresses \<Rightarrow> NoPrivacy
      | _ \<Rightarrow> other)"
| "meet AllowLinkingAccountAddresses other =
     (case other of
        FullPrivacy \<Rightarrow> AllowLinkingAccountAddresses
      | AllowRevealedAmounts \<Rightarrow> AllowLinkingAccountAddresses
      | AllowRevealedSenders \<Rightarrow> AllowLinkingAccountAddresses
      | AllowRevealedRecipients \<Rightarrow> NoPrivacy
      | AllowFullyTransparent \<Rightarrow> NoPrivacy
      | _ \<Rightarrow> other)"
| "meet NoPrivacy other = NoPrivacy"

definition is_compatible_with :: "PrivacyPolicy \<Rightarrow> PrivacyPolicy \<Rightarrow> bool" where
  "is_compatible_with self other \<longleftrightarrow> self = meet self other"

definition allow_revealed_amounts :: "PrivacyPolicy \<Rightarrow> bool" where
  "allow_revealed_amounts p = is_compatible_with p AllowRevealedAmounts"

definition allow_revealed_recipients :: "PrivacyPolicy \<Rightarrow> bool" where
  "allow_revealed_recipients p = is_compatible_with p AllowRevealedRecipients"

definition parse_privacy_policy :: "string option \<Rightarrow> rpc_error + PrivacyPolicy" where
  "parse_privacy_policy privacy_policy =
     (case privacy_policy of
        None \<Rightarrow> Inr FullPrivacy
      | Some s \<Rightarrow>
          if s = ''LegacyCompat''
          then Inl (with_message InvalidParameter (Fl ''err-privacy-policy-legacy-compat'' []))
          else ok_or (with_message InvalidParameter (Fl ''err-privacy-policy-unknown'' [(''policy'', s)]))
                 (policy_from_str s))"

section \<open>What a step requires\<close>

datatype IncompatiblePrivacyPolicy =
    IncNoPrivacy | LinkingAccountAddresses | FullyTransparent | TransparentSender
  | TransparentRecipient | TransparentChange | TransparentReceiver
  | RevealingShieldedAmount ShieldedPool | RevealingReceiverAmounts

definition weakening :: "string \<Rightarrow> message \<Rightarrow> message" where
  "weakening policy m =
     Spaced m (Fl ''rec-privpol-privacy-weakening''
       [(''parameter'', ''privacyPolicy''), (''policy'', policy)])"

text \<open>\<open>pool_str\<close> is the display of \<open>zcash_protocol\<close>'s pools.\<close>

definition incompatible_error :: "(PoolType \<Rightarrow> string) \<Rightarrow> IncompatiblePrivacyPolicy \<Rightarrow> rpc_error" where
  "incompatible_error pool_str e =
     with_message InvalidParameter
       (case e of
          IncNoPrivacy \<Rightarrow> Fl ''err-privpol-no-privacy-not-allowed''
            [(''parameter'', ''privacyPolicy''), (''policy'', ''NoPrivacy'')]
        | LinkingAccountAddresses \<Rightarrow>
            weakening ''AllowLinkingAccountAddresses'' (Fl ''err-privpol-linking-addrs-not-allowed'' [])
        | FullyTransparent \<Rightarrow>
            weakening ''AllowFullyTransparent'' (Fl ''err-privpol-fully-transparent-not-allowed'' [])
        | TransparentSender \<Rightarrow>
            weakening ''AllowRevealedSenders'' (Fl ''err-privpol-transparent-sender-not-allowed'' [])
        | TransparentRecipient \<Rightarrow>
            weakening ''AllowRevealedRecipients'' (Fl ''err-privpol-transparent-recipient-not-allowed'' [])
        | TransparentChange \<Rightarrow>
            weakening ''AllowRevealedRecipients'' (Fl ''err-privpol-transparent-change-not-allowed'' [])
        | TransparentReceiver \<Rightarrow>
            weakening ''AllowRevealedRecipients'' (Fl ''err-privpol-transparent-receiver-not-allowed'' [])
        | RevealingShieldedAmount pool \<Rightarrow>
            weakening ''AllowRevealedAmounts''
              (Fl ''err-privpol-revealing-amount-not-allowed'' [(''pool'', pool_str (Shielded pool))])
        | RevealingReceiverAmounts \<Rightarrow>
            weakening ''AllowRevealedAmounts'' (Fl ''err-privpol-revealing-receiver-amounts-not-allowed'' []))"

definition all_shielded_pools :: "ShieldedPool list" where
  "all_shielded_pools = [Sapling, Orchard, Ironwood]"

definition shielded_pool_crossed_into :: "('pay, 'm) Step_scheme \<Rightarrow> ShieldedPool option" where
  "shielded_pool_crossed_into step =
     (let input_pools = filter (\<lambda>pool. input_in_pool step (Shielded pool)) all_shielded_pools
      in find (\<lambda>pool. (output_in_pool step (Shielded pool) \<or> change_in_pool step (Shielded pool)) \<and>
                      list_ex (\<lambda>input_pool. input_pool \<noteq> pool) input_pools) all_shielded_pools)"

definition step_privacy_requirement ::
    "('pay, 'm) Step_scheme \<Rightarrow> (PrivacyPolicy \<times> IncompatiblePrivacyPolicy) option" where
  "step_privacy_requirement step =
     (let has_transparent_recipient = output_in_pool step Transparent;
          has_transparent_change = change_in_pool step Transparent
      in if input_in_pool step Transparent
         then let received_addrs = set (transparent_input_addresses step)
              in if card received_addrs > 1
                 then if has_transparent_recipient \<or> has_transparent_change
                      then Some (NoPrivacy, IncNoPrivacy)
                      else Some (AllowLinkingAccountAddresses, LinkingAccountAddresses)
                 else if has_transparent_recipient \<or> has_transparent_change
                 then Some (AllowFullyTransparent, FullyTransparent)
                 else Some (AllowRevealedSenders, TransparentSender)
         else if has_transparent_recipient
         then Some (AllowRevealedRecipients, TransparentRecipient)
         else if has_transparent_change
         then Some (AllowRevealedRecipients, TransparentChange)
         else map_option (\<lambda>pool. (AllowRevealedAmounts, RevealingShieldedAmount pool))
                (shielded_pool_crossed_into step))"

fun enforce_privacy_policy ::
    "('pay, 'm) Step_scheme list \<Rightarrow> PrivacyPolicy \<Rightarrow> IncompatiblePrivacyPolicy + unit" where
  "enforce_privacy_policy [] privacy_policy = Inr ()"
| "enforce_privacy_policy (step # steps) privacy_policy =
     (case step_privacy_requirement step of
        Some (required, incompatible) \<Rightarrow>
          if \<not> is_compatible_with privacy_policy required then Inl incompatible
          else enforce_privacy_policy steps privacy_policy
      | None \<Rightarrow> enforce_privacy_policy steps privacy_policy)"

definition required_privacy_policy :: "('pay, 'm) Step_scheme list \<Rightarrow> PrivacyPolicy" where
  "required_privacy_policy steps =
     foldl (\<lambda>required step.
       meet required (case step_privacy_requirement step of
           None \<Rightarrow> FullPrivacy | Some (step_required, _) \<Rightarrow> step_required)) FullPrivacy steps"

section \<open>Action limits\<close>

record ShieldedActionLimitExceeded =
  ex_pool :: ShieldedPool
  ex_count :: nat
  ex_kind :: string

definition pool_spends :: "('pay, 'm) Step_scheme \<Rightarrow> ShieldedPool \<Rightarrow> nat" where
  "pool_spends step pool = length (filter (\<lambda>p. p = pool) (shielded_note_pools step))"

definition pool_outputs :: "('pay, 'm) Step_scheme \<Rightarrow> ShieldedPool \<Rightarrow> nat" where
  "pool_outputs step pool =
     length (filter (\<lambda>(_, p). p = Shielded pool) (payment_pools step)) +
     length (filter (\<lambda>p. p = Shielded pool) (proposed_change_pools step))"

definition check_pool :: "nat \<Rightarrow> ('pay, 'm) Step_scheme \<Rightarrow> ShieldedPool \<Rightarrow> ShieldedActionLimitExceeded option" where
  "check_pool limit step pool =
     (let spends = pool_spends step pool;
          outputs = pool_outputs step pool;
          actions = max spends outputs
      in if actions > limit
         then let (count, kind) = (if outputs \<le> limit then (spends, ''inputs'')
                                   else if spends \<le> limit then (outputs, ''outputs'')
                                   else (actions, ''actions''))
              in Some \<lparr>ex_pool = pool, ex_count = count, ex_kind = kind\<rparr>
         else None)"

definition check_shielded_action_limits ::
    "('pay, 'm) Step_scheme list \<Rightarrow> nat \<Rightarrow> ShieldedActionLimitExceeded + unit" where
  "check_shielded_action_limits steps limit =
     (case find_map (\<lambda>step. find_map (check_pool limit step) all_shielded_pools) steps of
        Some e \<Rightarrow> Inl e
      | None \<Rightarrow> Inr ())"

section \<open>The lattice\<close>

text \<open>What the documentation of each policy says it permits to be revealed.\<close>

datatype disclosure = Amounts | Recipients | Senders | LinkedAddresses

fun permits :: "PrivacyPolicy \<Rightarrow> disclosure set" where
  "permits FullPrivacy = {}"
| "permits AllowRevealedAmounts = {Amounts}"
| "permits AllowRevealedRecipients = {Amounts, Recipients}"
| "permits AllowRevealedSenders = {Amounts, Senders}"
| "permits AllowFullyTransparent = {Amounts, Recipients, Senders}"
| "permits AllowLinkingAccountAddresses = {Amounts, Senders, LinkedAddresses}"
| "permits NoPrivacy = {Amounts, Recipients, Senders, LinkedAddresses}"

lemma permits_inj: "permits p = permits q \<longleftrightarrow> p = q"
  by (cases p; cases q) (auto simp: set_eq_iff)

lemma permits_meet: "permits (meet p q) = permits p \<union> permits q"
  by (cases p; cases q) auto

text \<open>Strictness, as the source orders policies: the smaller policy permits more.\<close>

instantiation PrivacyPolicy :: bounded_semilattice_inf_top
begin

definition less_eq_PrivacyPolicy :: "PrivacyPolicy \<Rightarrow> PrivacyPolicy \<Rightarrow> bool" where
  "p \<le> q \<longleftrightarrow> permits q \<subseteq> permits p"

definition less_PrivacyPolicy :: "PrivacyPolicy \<Rightarrow> PrivacyPolicy \<Rightarrow> bool" where
  "p < q \<longleftrightarrow> permits q \<subset> permits p"

definition inf_PrivacyPolicy :: "PrivacyPolicy \<Rightarrow> PrivacyPolicy \<Rightarrow> PrivacyPolicy" where
  "inf_PrivacyPolicy = meet"

definition top_PrivacyPolicy :: PrivacyPolicy where
  "top_PrivacyPolicy = FullPrivacy"

instance
proof
  fix p q r :: PrivacyPolicy
  show "p < q \<longleftrightarrow> p \<le> q \<and> \<not> q \<le> p"
    by (auto simp: less_PrivacyPolicy_def less_eq_PrivacyPolicy_def)
  show "p \<le> p" by (simp add: less_eq_PrivacyPolicy_def)
  show "p \<le> q \<Longrightarrow> q \<le> r \<Longrightarrow> p \<le> r" by (auto simp: less_eq_PrivacyPolicy_def)
  show "p \<le> q \<Longrightarrow> q \<le> p \<Longrightarrow> p = q" by (auto simp: less_eq_PrivacyPolicy_def simp flip: permits_inj)
  show "inf p q \<le> p" "inf p q \<le> q"
    by (auto simp: less_eq_PrivacyPolicy_def inf_PrivacyPolicy_def permits_meet)
  show "p \<le> q \<Longrightarrow> p \<le> r \<Longrightarrow> p \<le> inf q r"
    by (auto simp: less_eq_PrivacyPolicy_def inf_PrivacyPolicy_def permits_meet)
  show "p \<le> top" by (simp add: less_eq_PrivacyPolicy_def top_PrivacyPolicy_def)
qed

end

lemma is_compatible_with_le: "is_compatible_with p q \<longleftrightarrow> p \<le> q"
  by (metis inf_PrivacyPolicy_def is_compatible_with_def le_iff_inf)

lemma le_FullPrivacy: "p \<le> FullPrivacy"
  by (simp add: less_eq_PrivacyPolicy_def)

lemmas policy_order = less_eq_PrivacyPolicy_def is_compatible_with_le

section \<open>Disclosures of a proposal\<close>

text \<open>What a step makes public, read off its inputs and outputs: transparent inputs reveal the
  sender, more than one input address links them, a transparent output or change reveals a
  recipient, and each of these, like moving value from one shielded pool into another, reveals
  amounts.\<close>

definition crosses_pools :: "('pay, 'm) Step_scheme \<Rightarrow> bool" where
  "crosses_pools step \<longleftrightarrow>
     (\<exists>a b. a \<noteq> b \<and> input_in_pool step (Shielded a) \<and>
        (output_in_pool step (Shielded b) \<or> change_in_pool step (Shielded b)))"

definition step_reveals :: "('pay, 'm) Step_scheme \<Rightarrow> disclosure set" where
  "step_reveals step =
     (let senders = input_in_pool step Transparent;
          recipients = output_in_pool step Transparent \<or> change_in_pool step Transparent
      in (if senders then {Senders} else {}) \<union>
         (if recipients then {Recipients} else {}) \<union>
         (if senders \<and> card (set (transparent_input_addresses step)) > 1 then {LinkedAddresses} else {}) \<union>
         (if senders \<or> recipients \<or> crosses_pools step then {Amounts} else {}))"

lemma crosses_pools_iff: "shielded_pool_crossed_into step \<noteq> None \<longleftrightarrow> crosses_pools step"
proof -
  have "set all_shielded_pools = UNIV" by (auto simp: all_shielded_pools_def) (metis ShieldedPool.exhaust)
  then show ?thesis
    by (auto simp: shielded_pool_crossed_into_def crosses_pools_def find_None_iff list_ex_iff)
qed

definition requirement :: "('pay, 'm) Step_scheme \<Rightarrow> PrivacyPolicy" where
  "requirement step =
     (case step_privacy_requirement step of None \<Rightarrow> FullPrivacy | Some (required, _) \<Rightarrow> required)"

lemma permits_requirement: "permits (requirement step) = step_reveals step"
  using crosses_pools_iff [of step]
  by (auto simp: requirement_def step_privacy_requirement_def step_reveals_def Let_def
      split: option.splits)

lemma enforce_iff:
  "is_ok (enforce_privacy_policy steps p) \<longleftrightarrow> list_all (\<lambda>step. p \<le> requirement step) steps"
proof (induction steps)
  case (Cons step steps)
  then show ?case
    by (cases "step_privacy_requirement step")
      (auto simp: is_compatible_with_le requirement_def [of step] le_FullPrivacy split: if_splits)
qed simp

lemma required_foldl:
  "p \<le> foldl (\<lambda>required step. meet required (requirement step)) q steps \<longleftrightarrow>
   p \<le> q \<and> list_all (\<lambda>step. p \<le> requirement step) steps"
proof (induction steps arbitrary: q)
  case (Cons step steps)
  have "p \<le> meet q (requirement step) \<longleftrightarrow> p \<le> q \<and> p \<le> requirement step"
    using le_inf_iff [of p q "requirement step"] by (simp add: inf_PrivacyPolicy_def)
  with Cons show ?case by simp
qed simp

lemma required_le_iff: "p \<le> required_privacy_policy steps \<longleftrightarrow> list_all (\<lambda>step. p \<le> requirement step) steps"
  using required_foldl [of p FullPrivacy steps]
  by (simp add: required_privacy_policy_def requirement_def less_eq_PrivacyPolicy_def)

section \<open>Properties\<close>

text \<open>The meet of two policies permits exactly the disclosures that one of them permits, so it is
  their greatest lower bound, and one policy is compatible with another exactly when it permits
  everything the other does.\<close>

theorem meet_is_union_of_disclosures:
  "permits (meet p q) = permits p \<union> permits q \<and>
   (is_compatible_with p q \<longleftrightarrow> permits q \<subseteq> permits p) \<and>
   meet p q = inf p q"
  by (simp add: permits_meet policy_order inf_PrivacyPolicy_def)

lemma enforce_reveals:
  "is_ok (enforce_privacy_policy steps p) \<longleftrightarrow> \<Union> (step_reveals ` set steps) \<subseteq> permits p"
  by (auto simp: enforce_iff list_all_iff less_eq_PrivacyPolicy_def permits_requirement)

text \<open>A proposal passes the check of a policy exactly when everything its steps make public is
  permitted by the policy.\<close>

theorem enforce_permits_exactly_disclosures:
  "is_ok (enforce_privacy_policy steps p) \<longleftrightarrow> \<Union> (step_reveals ` set steps) \<subseteq> permits p"
  by (rule enforce_reveals)

lemma permits_required: "permits (required_privacy_policy steps) = \<Union> (step_reveals ` set steps)"
proof -
  have "permits (foldl (\<lambda>required step. meet required (requirement step)) q steps) =
      permits q \<union> \<Union> (step_reveals ` set steps)" for q
    by (induction steps arbitrary: q) (auto simp: permits_meet permits_requirement)
  from this [of FullPrivacy] show ?thesis by (simp add: required_privacy_policy_def requirement_def)
qed

text \<open>C33: The check and the report agree: a policy passes exactly when it is compatible with the policy
  the proposal is reported to require, which passes itself and is the strictest policy that
  does.\<close>

theorem required_policy_is_strictest:
  "(is_ok (enforce_privacy_policy steps p) \<longleftrightarrow>
      is_compatible_with p (required_privacy_policy steps)) \<and>
   is_ok (enforce_privacy_policy steps (required_privacy_policy steps)) \<and>
   permits (required_privacy_policy steps) = \<Union> (step_reveals ` set steps)"
proof -
  have "is_ok (enforce_privacy_policy steps r) \<longleftrightarrow> r \<le> required_privacy_policy steps" for r
    by (simp add: enforce_iff required_le_iff)
  with permits_required [of steps] show ?thesis by (simp add: is_compatible_with_le)
qed

lemma check_pool_None_iff:
  "check_pool limit step pool = None \<longleftrightarrow> pool_spends step pool \<le> limit \<and> pool_outputs step pool \<le> limit"
  by (auto simp: check_pool_def Let_def split: if_splits prod.splits)

definition within_limits :: "nat \<Rightarrow> ('pay, 'm) Step_scheme \<Rightarrow> bool" where
  "within_limits limit step \<longleftrightarrow>
     list_all (\<lambda>pool. pool_spends step pool \<le> limit \<and> pool_outputs step pool \<le> limit) all_shielded_pools"

lemma check_limits_ok: "is_ok (check_shielded_action_limits steps limit) \<longleftrightarrow> list_all (within_limits limit) steps"
proof -
  have "find_map (\<lambda>step. find_map (check_pool limit step) all_shielded_pools) steps = None \<longleftrightarrow>
      list_all (within_limits limit) steps"
    by (auto simp: find_map_None_iff list_all_iff within_limits_def check_pool_None_iff)
  then show ?thesis by (auto simp: check_shielded_action_limits_def split: option.splits)
qed

text \<open>A proposal passes the action limit exactly when no step has more spends or more outputs than
  the limit in any shielded pool; otherwise the error names a pool of some step that exceeds it,
  with a count above the limit.\<close>

theorem action_limits_exact:
  "case check_shielded_action_limits steps limit of
     Inr _ \<Rightarrow> list_all (within_limits limit) steps
   | Inl e \<Rightarrow> limit < ex_count e \<and>
       list_ex (\<lambda>step. ex_count e = max (pool_spends step (ex_pool e)) (pool_outputs step (ex_pool e)) \<and>
         (ex_kind e = ''inputs'' \<longleftrightarrow> pool_outputs step (ex_pool e) \<le> limit) \<and>
         (ex_kind e = ''outputs'' \<longleftrightarrow> pool_spends step (ex_pool e) \<le> limit)) steps"
proof (cases "find_map (\<lambda>step. find_map (check_pool limit step) all_shielded_pools) steps")
  case None
  then have "is_ok (check_shielded_action_limits steps limit)" by (simp add: check_shielded_action_limits_def)
  with None check_limits_ok [of steps limit] show ?thesis by (simp add: check_shielded_action_limits_def)
next
  case (Some e)
  then obtain step pool where s: "step \<in> set steps" "check_pool limit step pool = Some e"
    using find_map_Some by metis
  then have "limit < ex_count e \<and> ex_count e = max (pool_spends step (ex_pool e)) (pool_outputs step (ex_pool e)) \<and>
         (ex_kind e = ''inputs'' \<longleftrightarrow> pool_outputs step (ex_pool e) \<le> limit) \<and>
         (ex_kind e = ''outputs'' \<longleftrightarrow> pool_spends step (ex_pool e) \<le> limit)"
    by (auto simp: check_pool_def Let_def max_def split: if_splits)
  with s(1) Some show ?thesis by (auto simp: check_shielded_action_limits_def list_ex_iff)
qed

end
