(* ===== verification/Payments.thy ===== *)
theory Payments
  imports Privacy_Policy "HOL-Library.Multiset"
begin

text \<open>
  Building, checking and sending payments (\<open>json_rpc/payments.rs\<close>): the parsing of output amounts
  into a transaction request, the sources of funds a transfer may draw on, the checks before and
  after a transfer is proposed, the resolution of accounts, and the verification of built
  transactions before they are broadcast.

  \<open>Zatoshis\<close> of \<open>zcash_protocol\<close> is its integer value, with its checked addition and subtraction
  as arguments. The proposal builder, the address and key types and the wallet database are those
  of librustzcash and appear through what they answer.
\<close>

type_synonym Zatoshis = int

section \<open>Requests\<close>

record AmountParameter =
  ap_address :: string
  ap_amount :: JsonValue
  ap_memo :: "string option"

datatype PaymentError = TransparentMemo | ZeroValuedTransparentOutput

record 'zaddr Payment =
  pay_recipient :: 'zaddr
  pay_amount :: "Zatoshis option"
  pay_memo :: "u8 list option"

text \<open>The parsers and constructors \<open>build_request\<close> calls.\<close>

record ('zaddr, 'req) request_env =
  parse_address :: "string \<Rightarrow> 'zaddr option"
  hex_decode :: "string \<Rightarrow> u8 list option"
  memo_from_bytes :: "u8 list \<Rightarrow> u8 list option"
  from_nonnegative_i64 :: "int \<Rightarrow> BalanceError + Zatoshis"
  zat_add :: "Zatoshis \<Rightarrow> Zatoshis \<Rightarrow> Zatoshis option"
  payment_new :: "'zaddr \<Rightarrow> Zatoshis option \<Rightarrow> u8 list option \<Rightarrow> PaymentError + 'zaddr Payment"
  request_new :: "'zaddr Payment list \<Rightarrow> string + 'req"

definition MAX_MEMO_BYTES :: nat where
  "MAX_MEMO_BYTES = 512"

definition parse_memo ::
    "(string \<Rightarrow> u8 list option) \<Rightarrow> (u8 list \<Rightarrow> u8 list option) \<Rightarrow> string \<Rightarrow> rpc_error + u8 list" where
  "parse_memo decode from_bytes memo_hex =
     (if length memo_hex > MAX_MEMO_BYTES * 2
      then Inl (with_static InvalidParameter
        ''Invalid parameter, memo is longer than the maximum allowed 512 bytes.'')
      else rbind (ok_or (with_static InvalidParameter
          ''Invalid parameter, expected memo data in hexadecimal format.'') (decode memo_hex)) (\<lambda>memo_bytes.
        ok_or (with_static InvalidParameter
          ''Invalid parameter, memo is longer than the maximum allowed 512 bytes.'') (from_bytes memo_bytes)))"

definition payment_error :: "PaymentError \<Rightarrow> rpc_error" where
  "payment_error e =
     with_static InvalidParameter
       (case e of
          TransparentMemo \<Rightarrow> ''Cannot send memo to transparent recipient''
        | ZeroValuedTransparentOutput \<Rightarrow> ''Cannot send zero-valued output to transparent recipient'')"

definition transpose_memo :: "('zaddr, 'req) request_env \<Rightarrow> string option \<Rightarrow> rpc_error + u8 list option" where
  "transpose_memo E m =
     (case m of
        None \<Rightarrow> Inr None
      | Some s \<Rightarrow> rbind (parse_memo (hex_decode E) (memo_from_bytes E) s) (\<lambda>b. Inr (Some b)))"

text \<open>The loop of \<open>build_request\<close>: the recipients seen, the payments built and their total.\<close>

fun request_loop ::
    "('zaddr, 'req) request_env \<Rightarrow> AmountParameter list \<Rightarrow>
     'zaddr set \<times> 'zaddr Payment list \<times> Zatoshis \<Rightarrow>
     rpc_error + ('zaddr set \<times> 'zaddr Payment list \<times> Zatoshis)" where
  "request_loop E [] acc = Inr acc"
| "request_loop E (amount # amounts) (recipient_addrs, payments, total_out) =
     rbind (ok_or (with_message InvalidParameter (Text
         (''Invalid parameter, unknown address format: '' @ ap_address amount)))
       (parse_address E (ap_address amount))) (\<lambda>addr.
     if addr \<in> recipient_addrs
     then Inl (with_message InvalidParameter (Text
       (''Invalid parameter, duplicated recipient address: '' @ ap_address amount)))
     else
     rbind (transpose_memo E (ap_memo amount)) (\<lambda>memo.
     rbind (zatoshis_from_value (from_nonnegative_i64 E) (ap_amount amount)) (\<lambda>v.
     rbind (map_err payment_error (payment_new E addr (Some v) memo)) (\<lambda>payment.
     rbind (ok_or (with_static InvalidParameter ''Value too large'') (zat_add E total_out v)) (\<lambda>total.
       request_loop E amounts (insert addr recipient_addrs, payments @ [payment], total))))))"

definition build_request :: "('zaddr, 'req) request_env \<Rightarrow> AmountParameter list \<Rightarrow> rpc_error + 'req" where
  "build_request E amounts =
     (if amounts = []
      then Inl (with_static InvalidParameter ''Invalid parameter, amounts array is empty.'')
      else rbind (request_loop E amounts ({}, [], 0)) (\<lambda>(_, payments, _).
        map_err (\<lambda>e. with_message InvalidParameter (Text (''Invalid payment request: '' @ e)))
          (request_new E payments)))"

section \<open>Sources of funds\<close>

text \<open>\<open>new_symmetrical\<close> builds a \<open>ConfirmationsPolicy\<close> from a positive count and whether
  unconfirmed funds may be spent.\<close>

definition confirmations_policy_for_minconf ::
    "(u32 \<Rightarrow> bool \<Rightarrow> 'cp) \<Rightarrow> unit + 'cp \<Rightarrow> u32 option \<Rightarrow> rpc_error + 'cp" where
  "confirmations_policy_for_minconf new_symmetrical configured minconf =
     (case minconf of
        Some m \<Rightarrow> Inr (if m = 0 then new_symmetrical 1 True else new_symmetrical m False)
      | None \<Rightarrow> map_err (\<lambda>_. with_message Wallet (Fl ''err-confirmations-policy-invalid'' [])) configured)"

datatype Typecode = TcP2pkh | TcP2sh | TcSapling | TcOrchard | TcUnknown u32

record UnifiedAddress =
  ua_sapling :: "u8 list option"
  ua_orchard :: "u8 list option"
  ua_transparent :: "TransparentAddress option"
  receiver_types :: "Typecode list"

datatype Address =
    AddrSapling "u8 list" | AddrUnified UnifiedAddress | AddrTransparent TransparentAddress
  | AddrTex "u8 list"

datatype TransparentSpendPolicy = AnyAccountAddr | FromAddresses "TransparentAddress list"

record SpendPolicy =
  sp_shielded :: "ShieldedPool list"
  sp_transparent :: "TransparentSpendPolicy option"

abbreviation shielded_pools :: "ShieldedPool list \<Rightarrow> SpendPolicy" where
  "shielded_pools pools \<equiv> \<lparr>sp_shielded = pools, sp_transparent = None\<rparr>"

definition spend_policy_for :: "Address \<Rightarrow> SpendPolicy" where
  "spend_policy_for source =
     (case source of
        AddrTransparent taddr \<Rightarrow> (shielded_pools [])\<lparr>sp_transparent := Some (FromAddresses [taddr])\<rparr>
      | AddrSapling _ \<Rightarrow> shielded_pools [Sapling]
      | AddrUnified ua \<Rightarrow> shielded_pools
          ((if ua_sapling ua \<noteq> None then [Sapling] else []) @
           (if ua_orchard ua \<noteq> None then [Orchard, Ironwood] else []))
      | AddrTex _ \<Rightarrow> shielded_pools [])"

datatype TransparentChangePolicy = TransparentChangeAllowed | ShieldChange

definition transparent_change_policy_for :: "SpendPolicy \<Rightarrow> TransparentChangePolicy" where
  "transparent_change_policy_for spend_policy =
     (case sp_transparent spend_policy of Some _ \<Rightarrow> TransparentChangeAllowed | None \<Rightarrow> ShieldChange)"

section \<open>Proposals\<close>

text \<open>One turn of the recipients loop: the amounts still available in the two pools, or the
  incompatibility found.\<close>

definition check_recipient ::
    "(Zatoshis \<Rightarrow> Zatoshis \<Rightarrow> Zatoshis option) \<Rightarrow> PrivacyPolicy \<Rightarrow> Address \<Rightarrow> Zatoshis \<Rightarrow>
     Zatoshis \<times> Zatoshis \<Rightarrow> IncompatiblePrivacyPolicy + (Zatoshis \<times> Zatoshis)" where
  "check_recipient zat_sub privacy_policy address v avail =
     (let (max_sapling, max_orchard) = avail in
      case address of
        AddrTransparent _ \<Rightarrow>
          if \<not> allow_revealed_recipients privacy_policy then Inl TransparentRecipient
          else Inr (max_sapling, max_orchard)
      | AddrTex _ \<Rightarrow>
          if \<not> allow_revealed_recipients privacy_policy then Inl TransparentRecipient
          else Inr (max_sapling, max_orchard)
      | AddrSapling _ \<Rightarrow>
          if allow_revealed_amounts privacy_policy then Inr (max_sapling, max_orchard)
          else (case zat_sub max_sapling v of
                  None \<Rightarrow> Inl (RevealingShieldedAmount Sapling)
                | Some rest \<Rightarrow> Inr (rest, max_orchard))
      | AddrUnified ua \<Rightarrow>
          let amounts = allow_revealed_amounts privacy_policy;
              orchard = TcOrchard \<in> set (receiver_types ua);
              orchard_rest = zat_sub max_orchard v;
              sapling = TcSapling \<in> set (receiver_types ua);
              sapling_rest = zat_sub max_sapling v
          in if amounts \<and> orchard then Inr (max_sapling, max_orchard)
             else if \<not> amounts \<and> orchard \<and> orchard_rest \<noteq> None
             then Inr (max_sapling, the orchard_rest)
             else if amounts \<and> sapling then Inr (max_sapling, max_orchard)
             else if \<not> amounts \<and> sapling \<and> sapling_rest \<noteq> None
             then Inr (the sapling_rest, max_orchard)
             else if allow_revealed_recipients privacy_policy then Inr (max_sapling, max_orchard)
             else if allow_revealed_amounts privacy_policy then Inl TransparentReceiver
             else Inl RevealingReceiverAmounts)"

text \<open>What \<open>propose_and_check\<close> relies on: the resolution of an address on the network, the
  subtraction of amounts, the proposal builder and the configured limit.\<close>

record ('zaddr, 'req, 'cp) propose_env =
  resolve_address :: "'zaddr \<Rightarrow> string + Address"
  zat_sub :: "Zatoshis \<Rightarrow> Zatoshis \<Rightarrow> Zatoshis option"
  max_money :: Zatoshis
  pool_display :: "PoolType \<Rightarrow> string"
  request_entries :: "'req \<Rightarrow> 'zaddr Payment list"
  propose_transfer ::
    "'req \<Rightarrow> 'cp \<Rightarrow> SpendPolicy \<Rightarrow> TransparentChangePolicy \<Rightarrow> string + 'zaddr Payment Step list"
  orchard_actions :: nat

fun check_recipients ::
    "('zaddr, 'req, 'cp) propose_env \<Rightarrow> PrivacyPolicy \<Rightarrow> 'zaddr Payment list \<Rightarrow> Zatoshis \<times> Zatoshis \<Rightarrow>
     rpc_error fault + unit" where
  "check_recipients E privacy_policy [] avail = Inr ()"
| "check_recipients E privacy_policy (payment # payments) avail =
     (case pay_amount payment of
        None \<Rightarrow> Inl (Panic ''Every payment built by `build_request` has an amount'')
      | Some v \<Rightarrow>
         rbind (map_err (\<lambda>e. Raise (with_message InvalidParameter (Text e)))
                  (resolve_address E (pay_recipient payment))) (\<lambda>address.
         rbind (map_err (\<lambda>e. Raise (incompatible_error (pool_display E) e))
                  (check_recipient (zat_sub E) privacy_policy address v avail)) (\<lambda>avail'.
           check_recipients E privacy_policy payments avail')))"

definition action_limit_error :: "(PoolType \<Rightarrow> string) \<Rightarrow> nat \<Rightarrow> ShieldedActionLimitExceeded \<Rightarrow> rpc_error" where
  "action_limit_error pool_str actions_limit e =
     with_message Misc (Fl ''err-excess-shielded-actions''
       [(''pool'', pool_str (Shielded (ex_pool e))), (''count'', show_nat (ex_count e)),
        (''kind'', ex_kind e), (''limit'', show_nat actions_limit),
        (''config'', ''-orchardactionlimit=N''), (''bound'', ''N >= %u'')])"

definition propose_and_check ::
    "('zaddr, 'req, 'cp) propose_env \<Rightarrow> 'req \<Rightarrow> PrivacyPolicy \<Rightarrow> 'cp \<Rightarrow> SpendPolicy \<Rightarrow>
     rpc_error fault + 'zaddr Payment Step list" where
  "propose_and_check E request privacy_policy confirmations_policy spend_policy =
     rbind (check_recipients E privacy_policy (request_entries E request) (max_money E, max_money E)) (\<lambda>_.
     let transparent_change_policy = transparent_change_policy_for spend_policy in
     rbind (map_err (\<lambda>e. Raise (with_message Wallet (Fl ''err-propose-transaction-failed'' [(''error'', e)])))
              (propose_transfer E request confirmations_policy spend_policy transparent_change_policy))
       (\<lambda>proposal.
     rbind (map_err (\<lambda>e. Raise (incompatible_error (pool_display E) e))
              (enforce_privacy_policy proposal privacy_policy)) (\<lambda>_.
     rbind (map_err (\<lambda>e. Raise (action_limit_error (pool_display E) (orchard_actions E) e))
              (check_shielded_action_limits proposal (orchard_actions E))) (\<lambda>_.
       Inr proposal))))"

section \<open>Accounts\<close>

record 'acct account_db =
  find_account_for_address :: "Address \<Rightarrow> string + AccountUuid option"
  adb_account_ids :: "string + AccountUuid list"
  adb_account :: "AccountUuid \<Rightarrow> string + 'acct option"
  list_addresses :: "AccountUuid \<Rightarrow> string + Address list"
  key_derivation :: "'acct \<Rightarrow> derivation"

definition present_account :: "'acct account_db \<Rightarrow> AccountUuid \<Rightarrow> rpc_error fault + 'acct" where
  "present_account db account_id =
     rbind (map_err (\<lambda>e. Raise (database_error e)) (adb_account db account_id)) (\<lambda>found.
       ok_or (Panic ''present'') found)"

fun scan_accounts ::
    "'acct account_db \<Rightarrow> Address \<Rightarrow> AccountUuid list \<Rightarrow> rpc_error fault + 'acct" where
  "scan_accounts db address [] =
     Inl (Raise (with_message InvalidAddressOrKey (Fl ''err-from-address-no-payment-source'' [])))"
| "scan_accounts db address (account_id # rest) =
     rbind (map_err (\<lambda>e. Raise (database_error e)) (list_addresses db account_id)) (\<lambda>addresses.
       if address \<in> set addresses then present_account db account_id
       else scan_accounts db address rest)"

definition get_account_for_address :: "'acct account_db \<Rightarrow> Address \<Rightarrow> rpc_error fault + 'acct" where
  "get_account_for_address db address =
     rbind (map_err (\<lambda>e. Raise (database_error e)) (find_account_for_address db address)) (\<lambda>found.
       case found of
         Some account_id \<Rightarrow> present_account db account_id
       | None \<Rightarrow>
           rbind (map_err (\<lambda>e. Raise (database_error e)) (adb_account_ids db)) (\<lambda>ids.
             scan_accounts db address ids))"

definition is_legacy_pool_account :: "SeedFingerprint \<Rightarrow> u32 \<Rightarrow> SeedFingerprint \<Rightarrow> bool" where
  "is_legacy_pool_account seed_fingerprint account_index legacy_seed_fp \<longleftrightarrow>
     seed_fingerprint = legacy_seed_fp \<and> account_index = ZCASH_LEGACY_ACCOUNT"

datatype LegacyPoolError = Disabled | NotFound SeedFingerprint | Db string

fun legacy_pool_scan ::
    "'acct account_db \<Rightarrow> SeedFingerprint \<Rightarrow> AccountUuid list \<Rightarrow> LegacyPoolError + 'acct" where
  "legacy_pool_scan db legacy_seed_fp [] = Inl (NotFound legacy_seed_fp)"
| "legacy_pool_scan db legacy_seed_fp (account_id # rest) =
     rbind (map_err Db (adb_account db account_id)) (\<lambda>found.
     rbind (ok_or (Db ''Account vanished mid-call'') found) (\<lambda>account.
       if (case key_derivation db account of
             None \<Rightarrow> False
           | Some (seed_fingerprint, account_index) \<Rightarrow>
               is_legacy_pool_account seed_fingerprint account_index legacy_seed_fp)
       then Inr account
       else legacy_pool_scan db legacy_seed_fp rest))"

definition legacy_pool_account ::
    "SeedFingerprint option \<Rightarrow> 'acct account_db \<Rightarrow> LegacyPoolError + 'acct" where
  "legacy_pool_account configured db =
     rbind (ok_or Disabled configured) (\<lambda>legacy_seed_fp.
     rbind (map_err Db (adb_account_ids db)) (\<lambda>ids. legacy_pool_scan db legacy_seed_fp ids))"

definition get_legacy_pool_account ::
    "(SeedFingerprint \<Rightarrow> string) \<Rightarrow> SeedFingerprint option \<Rightarrow> 'acct account_db \<Rightarrow> rpc_error + 'acct" where
  "get_legacy_pool_account fp_str configured db =
     map_err (\<lambda>e. case e of
         Disabled \<Rightarrow> with_message WalletAccountsUnsupported (Fl ''err-legacy-pool-disabled'' [])
       | NotFound legacy_seed_fp \<Rightarrow>
           with_message Wallet (Fl ''err-legacy-pool-not-found'' [(''seed_fp'', fp_str legacy_seed_fp)])
       | Db msg \<Rightarrow> with_message Database (Text msg))
       (legacy_pool_account configured db)"

section \<open>Properties of requests\<close>

text \<open>What \<open>zcash_protocol\<close> documents of the addition and subtraction of \<open>Zatoshis\<close>.\<close>

definition zat_add_documented :: "(Zatoshis \<Rightarrow> Zatoshis \<Rightarrow> Zatoshis option) \<Rightarrow> bool" where
  "zat_add_documented add \<longleftrightarrow>
     (\<forall>a b. 0 \<le> a \<and> 0 \<le> b \<longrightarrow> add a b = (if a + b \<le> MAX_MONEY then Some (a + b) else None))"

definition zat_sub_documented :: "(Zatoshis \<Rightarrow> Zatoshis \<Rightarrow> Zatoshis option) \<Rightarrow> bool" where
  "zat_sub_documented sub \<longleftrightarrow>
     (\<forall>a b. 0 \<le> a \<and> 0 \<le> b \<longrightarrow> sub a b = (if b \<le> a then Some (a - b) else None))"

text \<open>What one output stands for by itself: its address, its amount and the payment made of it.\<close>

definition amount_line ::
    "('zaddr, 'req) request_env \<Rightarrow> AmountParameter \<Rightarrow> rpc_error + ('zaddr \<times> Zatoshis \<times> 'zaddr Payment)" where
  "amount_line E amount =
     rbind (ok_or (with_message InvalidParameter (Text
         (''Invalid parameter, unknown address format: '' @ ap_address amount)))
       (parse_address E (ap_address amount))) (\<lambda>addr.
     rbind (transpose_memo E (ap_memo amount)) (\<lambda>memo.
     rbind (zatoshis_from_value (from_nonnegative_i64 E) (ap_amount amount)) (\<lambda>v.
     rbind (map_err payment_error (payment_new E addr (Some v) memo)) (\<lambda>payment.
       Inr (addr, v, payment)))))"

abbreviation line_address :: "'zaddr \<times> Zatoshis \<times> 'zaddr Payment \<Rightarrow> 'zaddr" where
  "line_address l \<equiv> fst l"

abbreviation line_total :: "('zaddr \<times> Zatoshis \<times> 'zaddr Payment) list \<Rightarrow> Zatoshis" where
  "line_total ls \<equiv> sum_list (map (\<lambda>l. fst (snd l)) ls)"

abbreviation line_payments :: "('zaddr \<times> Zatoshis \<times> 'zaddr Payment) list \<Rightarrow> 'zaddr Payment list" where
  "line_payments ls \<equiv> map (\<lambda>l. snd (snd l)) ls"

lemma zatoshis_from_value_range:
  "zatoshis_documented f \<Longrightarrow> zatoshis_from_value f j = Inr v \<Longrightarrow> 0 \<le> v \<and> v \<le> MAX_MONEY"
  by (auto simp: zatoshis_documented_def zatoshis_from_value_def result_simps split: if_splits)

lemma amount_line_nonneg:
  "zatoshis_documented (from_nonnegative_i64 E) \<Longrightarrow> amount_line E a = Inr l \<Longrightarrow> 0 \<le> fst (snd l)"
  by (auto simp: amount_line_def result_simps dest: zatoshis_from_value_range)

lemma line_total_nonneg:
  assumes "zatoshis_documented (from_nonnegative_i64 E)" and "try_map (amount_line E) amounts = Inr ls"
  shows "0 \<le> line_total ls"
proof -
  have "0 \<le> fst (snd l)" if "l \<in> set ls" for l
    using list_all2_set2_ex [OF assms(2) [unfolded try_map_Inr_iff] that] amount_line_nonneg [OF assms(1)] by blast
  then show ?thesis by (intro sum_list_nonneg) auto
qed

lemma request_loop_step:
  "request_loop E (a # amounts) (R, P, t) = Inr acc \<longleftrightarrow>
   (\<exists>l u. amount_line E a = Inr l \<and> line_address l \<notin> R \<and> zat_add E t (fst (snd l)) = Some u \<and>
     request_loop E amounts (insert (line_address l) R, P @ [snd (snd l)], u) = Inr acc)"
  by (auto simp: amount_line_def result_simps split: if_splits)

lemma request_loop_spec:
  assumes "zatoshis_documented (from_nonnegative_i64 E)" and "zat_add_documented (zat_add E)"
  shows "0 \<le> t \<Longrightarrow> t \<le> MAX_MONEY \<Longrightarrow>
    request_loop E amounts (R, P, t) = Inr (R', P', t') \<longleftrightarrow>
    (\<exists>ls. try_map (amount_line E) amounts = Inr ls \<and> distinct (map line_address ls) \<and>
      line_address ` set ls \<inter> R = {} \<and> t + line_total ls \<le> MAX_MONEY \<and>
      R' = R \<union> line_address ` set ls \<and> P' = P @ line_payments ls \<and> t' = t + line_total ls)"
proof (induction amounts arbitrary: R P t)
  case Nil
  then show ?case by auto
next
  case (Cons a amounts)
  have nonneg: "amount_line E a = Inr l \<Longrightarrow> 0 \<le> fst (snd l)" for l
    by (rule amount_line_nonneg [OF assms(1)])
  have total: "try_map (amount_line E) amounts = Inr ls \<Longrightarrow> 0 \<le> line_total ls" for ls
    by (rule line_total_nonneg [OF assms(1)])
  have add: "zat_add E t v = Some u \<longleftrightarrow> t + v \<le> MAX_MONEY \<and> u = t + v" if "0 \<le> v" for u v
    using assms(2) Cons.prems(1) that by (auto simp: zat_add_documented_def)
  show ?case
  proof
    assume "request_loop E (a # amounts) (R, P, t) = Inr (R', P', t')"
    then obtain l u where l': "amount_line E a = Inr l" "line_address l \<notin> R" "zat_add E t (fst (snd l)) = Some u"
      "request_loop E amounts (insert (line_address l) R, P @ [snd (snd l)], u) = Inr (R', P', t')"
      unfolding request_loop_step by blast
    then have l: "amount_line E a = Inr l" "line_address l \<notin> R" "t + fst (snd l) \<le> MAX_MONEY"
      "request_loop E amounts (insert (line_address l) R, P @ [snd (snd l)], t + fst (snd l)) = Inr (R', P', t')"
      using add [OF nonneg [OF l'(1)]] by simp_all
    have "0 \<le> t + fst (snd l)" using nonneg [OF l(1)] Cons.prems(1) by simp
    from Cons.IH [OF this l(3), THEN iffD1, OF l(4)]
    obtain ls where "try_map (amount_line E) amounts = Inr ls" "distinct (map line_address ls)"
      "line_address ` set ls \<inter> insert (line_address l) R = {}" "t + fst (snd l) + line_total ls \<le> MAX_MONEY"
      "R' = insert (line_address l) R \<union> line_address ` set ls"
      "P' = (P @ [snd (snd l)]) @ line_payments ls" "t' = t + fst (snd l) + line_total ls"
      by blast
    with l show "\<exists>ls. try_map (amount_line E) (a # amounts) = Inr ls \<and> distinct (map line_address ls) \<and>
      line_address ` set ls \<inter> R = {} \<and> t + line_total ls \<le> MAX_MONEY \<and>
      R' = R \<union> line_address ` set ls \<and> P' = P @ line_payments ls \<and> t' = t + line_total ls"
      by (intro exI [of _ "l # ls"]) auto
  next
    assume "\<exists>ls. try_map (amount_line E) (a # amounts) = Inr ls \<and> distinct (map line_address ls) \<and>
      line_address ` set ls \<inter> R = {} \<and> t + line_total ls \<le> MAX_MONEY \<and>
      R' = R \<union> line_address ` set ls \<and> P' = P @ line_payments ls \<and> t' = t + line_total ls"
    then obtain l ls where l: "amount_line E a = Inr l" "try_map (amount_line E) amounts = Inr ls"
      and rest: "distinct (map line_address (l # ls))" "line_address ` set (l # ls) \<inter> R = {}"
        "t + line_total (l # ls) \<le> MAX_MONEY" "R' = R \<union> line_address ` set (l # ls)"
        "P' = P @ line_payments (l # ls)" "t' = t + line_total (l # ls)"
      by (auto simp: result_simps)
    have "zat_add E t (fst (snd l)) = Some (t + fst (snd l))"
      using rest(3) total [OF l(2)] add [OF nonneg [OF l(1)]] by simp
    moreover have "request_loop E amounts (insert (line_address l) R, P @ [snd (snd l)], t + fst (snd l)) = Inr (R', P', t')"
      using Cons.IH [of "t + fst (snd l)" "insert (line_address l) R" "P @ [snd (snd l)]"] nonneg [OF l(1)]
        Cons.prems(1) total [OF l(2)] l(2) rest by (auto intro!: exI [of _ ls])
    ultimately show "request_loop E (a # amounts) (R, P, t) = Inr (R', P', t')"
      unfolding request_loop_step using l(1) rest(2) by auto
  qed
qed

text \<open>C34: A request is built exactly when there is an output, every output reads as a payment, no
  recipient appears twice and the amounts add up to at most \<open>MAX_MONEY\<close>; its payments are those
  of the outputs, in order.\<close>

theorem build_request_exact:
  assumes "zatoshis_documented (from_nonnegative_i64 E)" and "zat_add_documented (zat_add E)"
  shows "build_request E amounts = Inr req \<longleftrightarrow>
    amounts \<noteq> [] \<and> (\<exists>ls. try_map (amount_line E) amounts = Inr ls \<and> distinct (map line_address ls) \<and>
      line_total ls \<le> MAX_MONEY \<and> request_new E (line_payments ls) = Inr req)"
proof -
  have "(\<exists>R t. request_loop E amounts ({}, [], 0) = Inr (R, P, t)) \<longleftrightarrow>
      (\<exists>ls. try_map (amount_line E) amounts = Inr ls \<and> distinct (map line_address ls) \<and>
        line_total ls \<le> MAX_MONEY \<and> P = line_payments ls)" for P
    using request_loop_spec [OF assms, of 0 amounts "{}" "[]" _ P] by (auto simp: MAX_MONEY_def)
  moreover have "build_request E amounts = Inr req \<longleftrightarrow> amounts \<noteq> [] \<and>
      (\<exists>P. (\<exists>R t. request_loop E amounts ({}, [], 0) = Inr (R, P, t)) \<and> request_new E P = Inr req)"
    by (auto simp: build_request_def result_simps split: if_splits)
  ultimately show ?thesis by (metis (no_types, lifting))
qed

definition example_request_env :: "(string, nat) request_env" where
  "example_request_env = \<lparr>parse_address = Some, hex_decode = (\<lambda>_. Some []), memo_from_bytes = Some,
     from_nonnegative_i64 = example_zatoshis,
     zat_add = (\<lambda>a b. if a + b \<le> MAX_MONEY then Some (a + b) else None),
     payment_new = (\<lambda>a v m. Inr \<lparr>pay_recipient = a, pay_amount = v, pay_memo = m\<rparr>),
     request_new = (\<lambda>ps. Inr (length ps))\<rparr>"

lemma example_amount: "zatoshis_from_value example_zatoshis (JString ''1'') = Inr 100000000"
proof -
  let ?nm = "\<lparr>negative = False, int_digits = [1], frac_digits = None, exp_part = None\<rparr>"
  have "numeral_ok ?nm \<and> render ?nm = ''1'' \<and> denotes ?nm 8 100000000" by code_simp
  with render_parses_iff [of ?nm 8 100000000] have "parse_fixed_point ''1'' 8 = Some 100000000"
    by (simp add: UPPER_BOUND_def)
  then show ?thesis by (simp add: zatoshis_from_value_def example_zatoshis_def MAX_MONEY_def)
qed

abbreviation example_amount_to :: "string \<Rightarrow> AmountParameter" where
  "example_amount_to a \<equiv> \<lparr>ap_address = a, ap_amount = JString ''1'', ap_memo = None\<rparr>"

theorem build_request_exact_witness:
  "build_request example_request_env [example_amount_to ''a'', example_amount_to ''b''] = Inr 2"
proof -
  have "zatoshis_documented (from_nonnegative_i64 example_request_env)"
    and "zat_add_documented (zat_add example_request_env)"
    by (simp_all add: example_request_env_def zatoshis_documented_def example_zatoshis_def zat_add_documented_def)
  from build_request_exact [OF this, of "[example_amount_to ''a'', example_amount_to ''b'']" 2]
  show ?thesis
    by (simp add: amount_line_def example_request_env_def transpose_memo_def example_amount MAX_MONEY_def)
qed

section \<open>Properties of proposals\<close>

text \<open>The recipients a policy can pay at all.\<close>

definition payable :: "PrivacyPolicy \<Rightarrow> Address \<Rightarrow> bool" where
  "payable p address =
     (case address of
        AddrSapling _ \<Rightarrow> True
      | AddrUnified ua \<Rightarrow> TcOrchard \<in> set (receiver_types ua) \<or> TcSapling \<in> set (receiver_types ua) \<or>
                         Recipients \<in> permits p
      | _ \<Rightarrow> Recipients \<in> permits p)"

lemma allow_revealed_recipients_iff: "allow_revealed_recipients p \<longleftrightarrow> Recipients \<in> permits p"
  by (cases p) (simp_all add: allow_revealed_recipients_def is_compatible_with_def)

text \<open>While the amounts available cover the payment, a recipient is accepted exactly when the
  policy can pay it, and at most the amount of the payment is used up.\<close>

lemma check_recipient_spec:
  assumes "zat_sub_documented sub" and "0 \<le> v" and "v \<le> s" and "v \<le> q"
  shows "(\<exists>s' q'. check_recipient sub p address v (s, q) = Inr (s', q') \<and> s - v \<le> s' \<and> q - v \<le> q') \<or>
      \<not> payable p address \<and> \<not> is_ok (check_recipient sub p address v (s, q))"
    and "is_ok (check_recipient sub p address v (s, q)) \<longleftrightarrow> payable p address"
proof -
  have sub: "sub s v = Some (s - v)" "sub q v = Some (q - v)"
    using assms by (simp_all add: zat_sub_documented_def)
  show "(\<exists>s' q'. check_recipient sub p address v (s, q) = Inr (s', q') \<and> s - v \<le> s' \<and> q - v \<le> q') \<or>
      \<not> payable p address \<and> \<not> is_ok (check_recipient sub p address v (s, q))"
    using assms(2) by (cases address)
      (auto simp: check_recipient_def payable_def sub allow_revealed_recipients_iff Let_def)
  show "is_ok (check_recipient sub p address v (s, q)) \<longleftrightarrow> payable p address"
    by (cases address)
      (auto simp: check_recipient_def payable_def sub allow_revealed_recipients_iff Let_def)
qed

lemma check_recipients_spec:
  assumes "zat_sub_documented (zat_sub E)"
  shows "list_all (\<lambda>pay. 0 \<le> amount pay \<and> pay_amount pay = Some (amount pay) \<and>
      resolve_address E (pay_recipient pay) = Inr (addr pay)) payments \<Longrightarrow>
    sum_list (map amount payments) \<le> s \<Longrightarrow> sum_list (map amount payments) \<le> q \<Longrightarrow>
    is_ok (check_recipients E p payments (s, q)) \<longleftrightarrow> list_all (\<lambda>pay. payable p (addr pay)) payments"
proof (induction payments arbitrary: s q)
  case Nil
  then show ?case by simp
next
  case (Cons pay payments)
  have "0 \<le> sum_list (map amount payments)"
    using Cons.prems(1) by (intro sum_list_nonneg) (auto simp: list_all_iff)
  with Cons.prems have v: "0 \<le> amount pay" "amount pay \<le> s" "amount pay \<le> q" by auto
  let ?r = "check_recipient (zat_sub E) p (addr pay) (amount pay) (s, q)"
  have unfold: "check_recipients E p (pay # payments) (s, q) =
      rbind (map_err (\<lambda>e. Raise (incompatible_error (pool_display E) e)) ?r)
        (\<lambda>avail'. check_recipients E p payments avail')"
    using Cons.prems(1) by simp
  from check_recipient_spec(1) [OF assms v, of p "addr pay"] show ?case
  proof
    assume "\<exists>s' q'. ?r = Inr (s', q') \<and> s - amount pay \<le> s' \<and> q - amount pay \<le> q'"
    then obtain s' q' where "?r = Inr (s', q')" "s - amount pay \<le> s'" "q - amount pay \<le> q'" by blast
    with Cons.IH [of s' q'] Cons.prems check_recipient_spec(2) [OF assms v, of p "addr pay"]
    show ?thesis unfolding unfold by simp
  next
    assume "\<not> payable p (addr pay) \<and> \<not> is_ok ?r"
    moreover from this obtain e where "?r = Inl e" by (cases ?r) auto
    ultimately show ?thesis unfolding unfold by simp
  qed
qed

text \<open>Among requests whose amounts add up to at most \<open>MAX_MONEY\<close>, the recipients pass the check
  before proposing exactly when the policy can pay each of them: a transparent or TEX address, or
  a unified address with no shielded receiver, needs a policy that permits revealed recipients.\<close>

theorem recipients_check_exact:
  assumes "zat_sub_documented (zat_sub E)" and "max_money E = MAX_MONEY"
    and "list_all (\<lambda>pay. 0 \<le> amount pay \<and> pay_amount pay = Some (amount pay) \<and>
      resolve_address E (pay_recipient pay) = Inr (addr pay)) payments"
    and "sum_list (map amount payments) \<le> MAX_MONEY"
  shows "is_ok (check_recipients E p payments (max_money E, max_money E)) \<longleftrightarrow>
    list_all (\<lambda>pay. payable p (addr pay)) payments"
  using check_recipients_spec [OF assms(1,3)] assms(2,4) by simp

definition example_propose_env :: "(Address, nat, nat) propose_env" where
  "example_propose_env = \<lparr>resolve_address = Inr,
     zat_sub = (\<lambda>a b. if b \<le> a then Some (a - b) else None), max_money = MAX_MONEY,
     pool_display = (\<lambda>_. []), request_entries = (\<lambda>_. []),
     propose_transfer = (\<lambda>_ _ _ _. Inr []), orchard_actions = 50\<rparr>"

definition example_payment :: "Address \<Rightarrow> Address Payment" where
  "example_payment a = \<lparr>pay_recipient = a, pay_amount = Some 5, pay_memo = None\<rparr>"

theorem recipients_check_exact_witness:
  "\<not> is_ok (check_recipients example_propose_env FullPrivacy
      [example_payment (AddrSapling []), example_payment (AddrTex [])] (max_money example_propose_env, max_money example_propose_env))"
  using recipients_check_exact [of example_propose_env "\<lambda>_. 5" "\<lambda>pay. pay_recipient pay"
      "[example_payment (AddrSapling []), example_payment (AddrTex [])]" FullPrivacy]
  by (simp add: example_propose_env_def example_payment_def zat_sub_documented_def payable_def MAX_MONEY_def)

lemma propose_and_check_Inr:
  assumes "propose_and_check E request p cp spend = Inr proposal"
  shows "\<Union> (step_reveals ` set proposal) \<subseteq> permits p \<and> list_all (within_limits (orchard_actions E)) proposal \<and>
    propose_transfer E request cp spend (transparent_change_policy_for spend) = Inr proposal"
proof -
  from assms have "is_ok (enforce_privacy_policy proposal p)"
      "is_ok (check_shielded_action_limits proposal (orchard_actions E))"
      "propose_transfer E request cp spend (transparent_change_policy_for spend) = Inr proposal"
    by (auto simp: propose_and_check_def Let_def result_simps is_ok_iff)
  then show ?thesis by (simp add: enforce_reveals check_limits_ok)
qed

text \<open>A proposal that is returned reveals nothing the policy does not permit, and no step of it
  exceeds the configured number of actions in any shielded pool.\<close>

theorem proposal_respects_policy_and_limits:
  assumes "propose_and_check E request p cp spend = Inr proposal"
  shows "\<Union> (step_reveals ` set proposal) \<subseteq> permits p \<and> list_all (within_limits (orchard_actions E)) proposal \<and>
    propose_transfer E request cp spend (transparent_change_policy_for spend) = Inr proposal"
  using propose_and_check_Inr [OF assms] .

theorem proposal_respects_policy_and_limits_witness:
  "\<Union> (step_reveals ` set ([] :: Address Payment Step list)) \<subseteq> permits FullPrivacy"
proof -
  have "propose_and_check example_propose_env 0 FullPrivacy 0 (spend_policy_for (AddrSapling [])) = Inr []"
    by (simp add: propose_and_check_def example_propose_env_def check_shielded_action_limits_def)
  from proposal_respects_policy_and_limits [OF this] show ?thesis by blast
qed

text \<open>A transfer may spend transparent funds, and return transparent change, exactly when its source
  is a bare transparent address, and then only from that address and from no shielded pool;
  any other source draws on the pools its receivers name.\<close>

theorem spend_policy_confined:
  "(sp_transparent (spend_policy_for source) \<noteq> None \<longleftrightarrow> (\<exists>t. source = AddrTransparent t)) \<and>
   (transparent_change_policy_for (spend_policy_for source) = TransparentChangeAllowed \<longleftrightarrow>
      (\<exists>t. source = AddrTransparent t)) \<and>
   (source = AddrTransparent t \<longleftrightarrow>
      spend_policy_for source = \<lparr>sp_shielded = [], sp_transparent = Some (FromAddresses [t])\<rparr>) \<and>
   (Sapling \<in> set (sp_shielded (spend_policy_for source)) \<longleftrightarrow>
      (\<exists>s. source = AddrSapling s) \<or> (\<exists>ua. source = AddrUnified ua \<and> ua_sapling ua \<noteq> None)) \<and>
   (Orchard \<in> set (sp_shielded (spend_policy_for source)) \<longleftrightarrow>
      (\<exists>ua. source = AddrUnified ua \<and> ua_orchard ua \<noteq> None)) \<and>
   (Ironwood \<in> set (sp_shielded (spend_policy_for source)) \<longleftrightarrow>
      Orchard \<in> set (sp_shielded (spend_policy_for source)))"
  by (cases source) (auto simp: spend_policy_for_def transparent_change_policy_for_def)

text \<open>The legacy pool is only ever the account at the legacy index of the configured seed; with no
  seed configured there is none.\<close>

lemma legacy_pool_scan_sound:
  "legacy_pool_scan db fp ids = Inr account \<Longrightarrow>
   \<exists>i. i \<in> set ids \<and> adb_account db i = Inr (Some account) \<and>
       key_derivation db account = Some (fp, ZCASH_LEGACY_ACCOUNT)"
proof (induction ids)
  case (Cons i ids)
  then show ?case
    by (auto simp: result_simps is_legacy_pool_account_def split: if_splits option.splits)
qed simp

lemma legacy_pool_account_sound:
  "legacy_pool_account configured db = Inr account \<Longrightarrow>
   \<exists>fp. configured = Some fp \<and> key_derivation db account = Some (fp, ZCASH_LEGACY_ACCOUNT)"
  by (auto simp: legacy_pool_account_def result_simps dest!: legacy_pool_scan_sound)

end
