(* ===== verification/Send_Check.thy ===== *)
theory Send_Check
  imports Payments
begin

text \<open>
  The last check before money leaves the wallet (\<open>check_transparent_outputs\<close>,
  \<open>proposed_transparent_payments\<close> and \<open>verify_and_broadcast_transactions\<close> in
  \<open>json_rpc/payments.rs\<close>) and the source-of-funds argument of the account-based methods
  (\<open>json_rpc/fund_source.rs\<close>). Broadcasting is a state-and-error computation over the list of the
  transactions handed to the chain, so that what was sent before a failure is visible.
\<close>

section \<open>Transparent outputs\<close>

datatype 'e TransparentOutputError =
    UnrecognizedScript nat | UnknownAddress TransparentAddress | NotDerived TransparentAddress
  | DerivationMismatch TransparentAddress | NoTransparentKey TransparentAddress
  | MissingPayment TransparentAddress | Lookup 'e

text \<open>\<open>Iterator::position\<close> and \<open>Vec::swap_remove\<close>.\<close>

fun position :: "('a \<Rightarrow> bool) \<Rightarrow> 'a list \<Rightarrow> nat option" where
  "position P [] = None"
| "position P (x # xs) = (if P x then Some 0 else map_option Suc (position P xs))"

definition swap_remove :: "nat \<Rightarrow> 'a list \<Rightarrow> 'a list" where
  "swap_remove index xs = butlast (xs[index := last xs])"

text \<open>Deriving an address from the account key: \<open>derive_address_pubkey\<close> and \<open>from_pubkey\<close>.\<close>

record ('pk, 'pub) key_ops =
  derive_address_pubkey :: "'pk \<Rightarrow> u32 \<Rightarrow> u32 \<Rightarrow> 'pub option"
  from_pubkey :: "'pub \<Rightarrow> TransparentAddress"

text \<open>The body of the loop for an output that no expected payment vouches for.\<close>

definition check_derived ::
    "('pk, 'pub) key_ops \<Rightarrow> 'pk option \<Rightarrow> (TransparentAddress \<Rightarrow> 'e + TransparentAddressSource option) \<Rightarrow>
     TransparentAddress \<Rightarrow> 'e TransparentOutputError + unit" where
  "check_derived K account_pubkey address_source addr =
     rbind (map_err Lookup (address_source addr)) (\<lambda>source.
       case source of
         None \<Rightarrow> Inl (UnknownAddress addr)
       | Some (Derived scope address_index) \<Rightarrow>
           rbind (ok_or (NoTransparentKey addr) account_pubkey) (\<lambda>pk.
           rbind (ok_or (DerivationMismatch addr) (derive_address_pubkey K pk scope address_index)) (\<lambda>derived.
             if from_pubkey K derived \<noteq> addr then Inl (DerivationMismatch addr) else Inr ()))
       | Some _ \<Rightarrow> Inl (NotDerived addr))"

fun check_outputs_loop ::
    "('pk, 'pub) key_ops \<Rightarrow> 'pk option \<Rightarrow> (TransparentAddress \<Rightarrow> 'e + TransparentAddressSource option) \<Rightarrow>
     nat \<Rightarrow> (TransparentAddress option \<times> Zatoshis) list \<Rightarrow> (TransparentAddress \<times> Zatoshis) list \<Rightarrow>
     'e TransparentOutputError + (TransparentAddress \<times> Zatoshis) list" where
  "check_outputs_loop K account_pubkey address_source vout [] expected_payments = Inr expected_payments"
| "check_outputs_loop K account_pubkey address_source vout ((addr, v) # outputs) expected_payments =
     rbind (ok_or (UnrecognizedScript vout) addr) (\<lambda>a.
       case position (\<lambda>(expected_addr, expected_value). expected_addr = a \<and> expected_value = v) expected_payments of
         Some index \<Rightarrow>
           check_outputs_loop K account_pubkey address_source (Suc vout) outputs
             (swap_remove index expected_payments)
       | None \<Rightarrow>
           rbind (check_derived K account_pubkey address_source a) (\<lambda>_.
             check_outputs_loop K account_pubkey address_source (Suc vout) outputs expected_payments))"

definition check_transparent_outputs ::
    "('pk, 'pub) key_ops \<Rightarrow> (TransparentAddress option \<times> Zatoshis) list \<Rightarrow>
     (TransparentAddress \<times> Zatoshis) list \<Rightarrow> 'pk option \<Rightarrow>
     (TransparentAddress \<Rightarrow> 'e + TransparentAddressSource option) \<Rightarrow> 'e TransparentOutputError + unit" where
  "check_transparent_outputs K outputs expected_payments account_pubkey address_source =
     rbind (check_outputs_loop K account_pubkey address_source 0 outputs expected_payments) (\<lambda>rest.
       case rest of
         (addr, _) # _ \<Rightarrow> Inl (MissingPayment addr)
       | [] \<Rightarrow> Inr ())"

section \<open>Expected payments\<close>

definition payment_receiver :: "string + Address \<Rightarrow> rpc_error + TransparentAddress" where
  "payment_receiver resolved =
     (case resolved of
        Inr (AddrTransparent addr) \<Rightarrow> Inr addr
      | Inr (AddrTex data) \<Rightarrow> Inr (PublicKeyHash data)
      | Inr (AddrUnified ua) \<Rightarrow> ok_or (with_static Wallet
          ''Internal error: transparent-pool payment to a unified address without a transparent receiver.'')
          (ua_transparent ua)
      | _ \<Rightarrow> Inl (with_static Wallet
          ''Internal error: transparent-pool payment to a non-transparent address.''))"

fun step_transparent_payments ::
    "('zaddr \<Rightarrow> string + Address) \<Rightarrow> (nat \<rightharpoonup> 'zaddr Payment) \<Rightarrow> (nat \<times> PoolType) list \<Rightarrow>
     rpc_error + (TransparentAddress \<times> Zatoshis) list" where
  "step_transparent_payments resolve payments [] = Inr []"
| "step_transparent_payments resolve payments ((payment_index, pool) # rest) =
     (if pool = Transparent then
        rbind (ok_or (with_static Wallet
          ''Internal error: proposal step references a nonexistent payment.'') (payments payment_index)) (\<lambda>payment.
        rbind (ok_or (with_static Wallet
          ''Internal error: proposal step payment has no amount.'') (pay_amount payment)) (\<lambda>v.
        rbind (payment_receiver (resolve (pay_recipient payment))) (\<lambda>addr.
        rbind (step_transparent_payments resolve payments rest) (\<lambda>later.
          Inr ((addr, v) # later)))))
      else step_transparent_payments resolve payments rest)"

definition proposed_transparent_payments ::
    "('zaddr \<Rightarrow> string + Address) \<Rightarrow> 'zaddr Payment Step list \<Rightarrow>
     rpc_error + (TransparentAddress \<times> Zatoshis) list list" where
  "proposed_transparent_payments resolve steps =
     try_map (\<lambda>step. step_transparent_payments resolve (request_payments step) (payment_pools step)) steps"

section \<open>Verification and broadcast\<close>

record SendResult =
  sr_txid :: "string option"
  sr_txids :: "string list"
  sr_broadcast :: bool

definition send_result_new :: "(TxId \<Rightarrow> string) \<Rightarrow> TxId list \<Rightarrow> bool \<Rightarrow> SendResult" where
  "send_result_new txid_str txids broadcast =
     (let txids' = map txid_str txids
      in \<lparr>sr_txid = (if length txids' = 1 then Some (hd txids') else None), sr_txids = txids',
          sr_broadcast = broadcast\<rparr>)"

text \<open>The wallet, the chain and the configuration as \<open>verify_and_broadcast_transactions\<close> sees
  them; \<open>tx_outputs\<close> are the recipient address and value of each output of a transaction's
  transparent bundle.\<close>

record ('zaddr, 'tx, 'pk, 'pub) send_env =
  se_resolve :: "'zaddr \<Rightarrow> string + Address"
  se_keys :: "('pk, 'pub) key_ops"
  se_account_pubkey :: "'pk option"
  se_transaction :: "TxId \<Rightarrow> string + 'tx option"
  tx_outputs :: "'tx \<Rightarrow> (TransparentAddress option \<times> Zatoshis) list"
  address_metadata :: "TransparentAddress \<Rightarrow> string + TransparentAddressSource option"
  encode_transparent :: "TransparentAddress \<Rightarrow> string"
  txid_display :: "TxId \<Rightarrow> string"
  broadcast_enabled :: bool
  broadcast_transaction :: "'tx \<Rightarrow> ChainError + unit"

definition output_error ::
    "('zaddr, 'tx, 'pk, 'pub) send_env \<Rightarrow> string TransparentOutputError \<Rightarrow> rpc_error" where
  "output_error E e =
     (let underived = (\<lambda>output. with_message Wallet
            (Fl ''err-transparent-output-not-wallet-derived'' [(''output'', output)]))
      in case e of
           Lookup msg \<Rightarrow> with_message Database (Text msg)
         | UnrecognizedScript vout \<Rightarrow> underived (''output index '' @ show_nat vout)
         | MissingPayment addr \<Rightarrow> with_message Wallet
             (Fl ''err-transparent-payment-missing'' [(''address'', encode_transparent E addr)])
         | UnknownAddress addr \<Rightarrow> underived (encode_transparent E addr)
         | DerivationMismatch addr \<Rightarrow> underived (encode_transparent E addr)
         | NoTransparentKey addr \<Rightarrow> underived (encode_transparent E addr)
         | NotDerived addr \<Rightarrow> underived (encode_transparent E addr))"

definition verify_transaction ::
    "('zaddr, 'tx, 'pk, 'pub) send_env \<Rightarrow> TxId \<times> (TransparentAddress \<times> Zatoshis) list \<Rightarrow> rpc_error + 'tx" where
  "verify_transaction E entry =
     (let (txid, expected) = entry in
      rbind (map_err (\<lambda>e. with_message Database (Text (''Failed to get transaction: '' @ e)))
        (se_transaction E txid)) (\<lambda>found.
      rbind (ok_or (with_message Wallet (Text (''Wallet does not contain transaction '' @ txid_display E txid)))
        found) (\<lambda>tx.
      rbind (map_err (output_error E)
        (check_transparent_outputs (se_keys E) (tx_outputs E tx) expected (se_account_pubkey E)
           (address_metadata E))) (\<lambda>_.
        Inr tx))))"

definition broadcast_one ::
    "('zaddr, 'tx, 'pk, 'pub) send_env \<Rightarrow> 'tx \<Rightarrow> ('tx list, rpc_error, unit) sr" where
  "broadcast_one E tx =
     sbind (smodify (\<lambda>sent. sent @ [tx])) (\<lambda>_.
       slift (map_err (\<lambda>e. with_message Wallet (Text
         (''SendTransaction: Transaction commit failed:: '' @ show_chain_error e)))
         (broadcast_transaction E tx)))"

definition verify_and_broadcast_transactions ::
    "('zaddr, 'tx, 'pk, 'pub) send_env \<Rightarrow> 'zaddr Payment Step list \<Rightarrow> TxId list \<Rightarrow>
     ('tx list, rpc_error, SendResult) sr" where
  "verify_and_broadcast_transactions E proposal txids =
     sbind (slift (proposed_transparent_payments (se_resolve E) proposal)) (\<lambda>expected_payments.
     if length txids \<noteq> length expected_payments
     then sfail (with_static Wallet
       ''Internal error: built transaction count does not match proposal step count.'')
     else
     sbind (slift (try_map (verify_transaction E) (zip txids expected_payments))) (\<lambda>transactions.
     sbind (if broadcast_enabled E then sfor (broadcast_one E) transactions else sret ()) (\<lambda>_.
       sret (send_result_new (txid_display E) txids (broadcast_enabled E)))))"

section \<open>Sources of funds\<close>

datatype FundSource =
    FsOrchard | FsIronwood | FsSapling | FsAnyTransparent | FsTransparent "TransparentAddress list"

text \<open>A \<open>BTreeSet\<close> of addresses is its ascending list; \<open>before\<close> is the order of addresses.\<close>

fun btree_insert :: "('a \<Rightarrow> 'a \<Rightarrow> bool) \<Rightarrow> 'a \<Rightarrow> 'a list \<Rightarrow> 'a list" where
  "btree_insert before x [] = [x]"
| "btree_insert before x (y # ys) =
     (if x = y then y # ys
      else if before x y then x # y # ys
      else y # btree_insert before x ys)"

fun parse_source_addresses ::
    "(TransparentAddress \<Rightarrow> TransparentAddress \<Rightarrow> bool) \<Rightarrow> (string \<Rightarrow> Address option) \<Rightarrow>
     JsonValue list \<Rightarrow> TransparentAddress list \<Rightarrow> rpc_error + TransparentAddress list" where
  "parse_source_addresses before decode [] acc = Inr acc"
| "parse_source_addresses before decode (addr # addrs) acc =
     rbind (case addr of
              JString s \<Rightarrow> Inr s
            | _ \<Rightarrow> Inl (with_message InvalidParameter (Fl ''err-fund-source-non-string-entry'' []))) (\<lambda>s.
       case decode s of
         Some (AddrTransparent ta) \<Rightarrow> parse_source_addresses before decode addrs (btree_insert before ta acc)
       | _ \<Rightarrow> Inl (with_message InvalidParameter (Fl ''err-fund-source-not-transparent'' [(''address'', s)])))"

definition fund_source_parse ::
    "(TransparentAddress \<Rightarrow> TransparentAddress \<Rightarrow> bool) \<Rightarrow> (string \<Rightarrow> Address option) \<Rightarrow> JsonValue \<Rightarrow>
     rpc_error + FundSource" where
  "fund_source_parse before decode j =
     (case j of
        JString s \<Rightarrow>
          if s = ''orchard'' then Inr FsOrchard
          else if s = ''ironwood'' then Inr FsIronwood
          else if s = ''sapling'' then Inr FsSapling
          else if s = ''any_transparent'' then Inr FsAnyTransparent
          else Inl (with_message InvalidParameter (Fl ''err-fund-source-unknown'' [(''given'', s)]))
      | JArray addrs \<Rightarrow>
          rbind (parse_source_addresses before decode addrs []) (\<lambda>addrs'.
            case addrs' of
              [] \<Rightarrow> Inl (with_message InvalidParameter (Fl ''err-fund-source-empty-array'' []))
            | first # rest \<Rightarrow> Inr (FsTransparent (first # rest)))
      | _ \<Rightarrow> Inl (with_message InvalidParameter (Fl ''err-fund-source-not-a-source'' [])))"

definition fund_source_spend_policy :: "FundSource \<Rightarrow> SpendPolicy" where
  "fund_source_spend_policy source =
     (case source of
        FsOrchard \<Rightarrow> shielded_pools [Orchard, Ironwood]
      | FsIronwood \<Rightarrow> shielded_pools [Ironwood]
      | FsSapling \<Rightarrow> shielded_pools [Sapling]
      | FsAnyTransparent \<Rightarrow> (shielded_pools [])\<lparr>sp_transparent := Some AnyAccountAddr\<rparr>
      | FsTransparent addrs \<Rightarrow> (shielded_pools [])\<lparr>sp_transparent := Some (FromAddresses addrs)\<rparr>)"

section \<open>Outputs accounted for\<close>

lemma position_Some: "position P xs = Some i \<Longrightarrow> i < length xs \<and> P (xs ! i)"
  by (induction xs arbitrary: i) (auto split: if_splits)

lemma position_None_iff: "position P xs = None \<longleftrightarrow> list_all (\<lambda>x. \<not> P x) xs"
  by (induction xs) auto

lemma mset_swap_remove:
  assumes "i < length xs"
  shows "mset (swap_remove i xs) = mset xs - {#xs ! i#}"
proof -
  let ?zs = "xs[i := last xs]"
  have ne: "?zs \<noteq> []" "xs \<noteq> []" using assms by auto
  have "last ?zs = last xs"
    using assms ne by (simp add: last_conv_nth nth_list_update)
  moreover have "mset ?zs = add_mset (last xs) (mset xs - {#xs ! i#})"
    using assms by (simp add: mset_update)
  moreover have "mset ?zs = add_mset (last ?zs) (mset (butlast ?zs))"
    using ne(1) by (metis append_butlast_last_id mset.simps mset_append union_mset_add_mset_right add.right_neutral)
  ultimately show ?thesis by (simp add: swap_remove_def)
qed

text \<open>An address whose recorded derivation, redone from the account key, gives it back.\<close>

definition rederives ::
    "('pk, 'pub) key_ops \<Rightarrow> 'pk option \<Rightarrow> (TransparentAddress \<Rightarrow> 'e + TransparentAddressSource option) \<Rightarrow>
     TransparentAddress \<Rightarrow> bool" where
  "rederives K account_pubkey address_source addr \<longleftrightarrow>
     (\<exists>pk scope index pub. account_pubkey = Some pk \<and> address_source addr = Inr (Some (Derived scope index)) \<and>
        derive_address_pubkey K pk scope index = Some pub \<and> from_pubkey K pub = addr)"

lemma check_derived_ok: "check_derived K pk source addr = Inr u \<longleftrightarrow> rederives K pk source addr"
proof (cases "source addr")
  case (Inl e)
  then show ?thesis by (simp add: check_derived_def rederives_def)
next
  case (Inr found)
  then show ?thesis
    by (cases found; cases "the found")
      (auto simp: check_derived_def rederives_def result_simps split: if_splits)
qed

definition recognised :: "(TransparentAddress option \<times> Zatoshis) list \<Rightarrow> bool" where
  "recognised outputs \<longleftrightarrow> list_all (\<lambda>(addr, v). addr \<noteq> None) outputs"

definition output_bag :: "(TransparentAddress option \<times> Zatoshis) list \<Rightarrow> (TransparentAddress \<times> Zatoshis) multiset" where
  "output_bag outputs = mset (map (\<lambda>(addr, v). (the addr, v)) outputs)"

lemma check_outputs_loop_spec:
  "(\<exists>rest. check_outputs_loop K pk source vout outputs expected = Inr rest \<and> mset rest = R) \<longleftrightarrow>
   recognised outputs \<and> R = mset expected - output_bag outputs \<and>
   (\<forall>out \<in># output_bag outputs - mset expected. rederives K pk source (fst out))"
proof (induction outputs arbitrary: vout expected)
  case Nil
  then show ?case by (auto simp: recognised_def output_bag_def)
next
  case (Cons out outputs)
  obtain addr v where out: "out = (addr, v)" by fastforce
  show ?case
  proof (cases addr)
    case None
    then show ?thesis by (simp add: out recognised_def)
  next
    case (Some a)
    have bag: "output_bag (out # outputs) = add_mset (a, v) (output_bag outputs)"
      and rec: "recognised (out # outputs) \<longleftrightarrow> recognised outputs"
      by (simp_all add: out Some output_bag_def recognised_def)
    let ?P = "\<lambda>(expected_addr, expected_value). expected_addr = a \<and> expected_value = v"
    show ?thesis
    proof (cases "position ?P expected")
      case None
      then have notin: "(a, v) \<notin># mset expected"
        by (auto simp: position_None_iff list_all_iff)
      then have eqs: "mset expected - add_mset (a, v) (output_bag outputs) = mset expected - output_bag outputs"
        "add_mset (a, v) (output_bag outputs) - mset expected = add_mset (a, v) (output_bag outputs - mset expected)"
        by (simp_all add: add_mset_diff_bothsides minus_add_mset_if_not_in_lhs)
      have loop: "check_outputs_loop K pk source vout (out # outputs) expected =
          rbind (check_derived K pk source a) (\<lambda>_. check_outputs_loop K pk source (Suc vout) outputs expected)"
        by (simp add: out Some None)
      show ?thesis
        using Cons.IH [of "Suc vout" expected]
        by (cases "rederives K pk source a") (auto simp: loop bag rec eqs result_simps check_derived_ok)
    next
      case (Some i)
      with position_Some [OF Some] have i: "i < length expected" "expected ! i = (a, v)" by auto
      then have "(a, v) \<in># mset expected" by (metis nth_mem_mset)
      then obtain E where E: "mset expected = add_mset (a, v) E" by (metis insert_DiffM)
      have rest: "mset (swap_remove i expected) = E"
        using mset_swap_remove [OF i(1)] i(2) E by simp
      have loop: "check_outputs_loop K pk source vout (out # outputs) expected =
          check_outputs_loop K pk source (Suc vout) outputs (swap_remove i expected)"
        by (simp add: out \<open>addr = Some a\<close> Some)
      show ?thesis
        using Cons.IH [of "Suc vout" "swap_remove i expected"] by (simp add: loop bag rec E rest)
    qed
  qed
qed

lemma check_transparent_outputs_ok:
  fixes source :: "TransparentAddress \<Rightarrow> 'e + TransparentAddressSource option"
  shows "check_transparent_outputs K outputs expected pk source = Inr u \<longleftrightarrow>
   recognised outputs \<and> mset expected \<subseteq># output_bag outputs \<and>
   (\<forall>out \<in># output_bag outputs - mset expected. rederives K pk source (fst out))"
proof -
  have "(case rest of (addr, _) # _ \<Rightarrow> Inl (MissingPayment addr :: 'e TransparentOutputError) | [] \<Rightarrow> Inr ()) = Inr u \<longleftrightarrow> rest = []"
    for rest :: "(TransparentAddress \<times> Zatoshis) list"
    by (cases rest) (auto split: prod.splits)
  then have "check_transparent_outputs K outputs expected pk source = Inr u \<longleftrightarrow>
      (\<exists>rest. check_outputs_loop K pk source 0 outputs expected = Inr rest \<and> mset rest = {#})"
    by (simp add: check_transparent_outputs_def result_simps)
  then show ?thesis
    unfolding check_outputs_loop_spec by (auto simp: Diff_eq_empty_iff_mset)
qed

lemma none_filtered: "filter_mset P M = {#} \<longleftrightarrow> (\<forall>x \<in># M. \<not> P x)"
  by (auto simp flip: set_mset_eq_empty_iff)

text \<open>C19: A built transaction passes the check exactly when the requested payments are among its
  transparent outputs, counted with multiplicity, and every output beyond them goes to an address
  that re-derives from the account key at the path the wallet records.\<close>

theorem transparent_outputs_accounted:
  "is_ok (check_transparent_outputs K outputs expected pk source) \<longleftrightarrow>
   recognised outputs \<and> mset expected \<subseteq># output_bag outputs \<and>
   Multiset.filter_mset (\<lambda>out. \<not> rederives K pk source (fst out)) (output_bag outputs - mset expected) = {#}"
  unfolding is_ok_iff check_transparent_outputs_ok none_filtered by simp

section \<open>Broadcast\<close>

lemma broadcast_one_eval:
  "broadcast_one E tx s = (map_err (\<lambda>e. with_message Wallet (Text
     (''SendTransaction: Transaction commit failed:: '' @ show_chain_error e))) (broadcast_transaction E tx), s @ [tx])"
  by (simp add: broadcast_one_def sbind_def smodify_def slift_def)

lemma sfor_broadcast:
  "sfor (broadcast_one E) txs s = (r, s') \<Longrightarrow>
   \<exists>sent rest. txs = sent @ rest \<and> s' = s @ sent \<and> (r = Inr () \<longrightarrow> rest = [])"
proof (induction txs arbitrary: s)
  case Nil
  then show ?case by (simp add: sret_def)
next
  case (Cons tx txs)
  show ?case
  proof (cases "broadcast_transaction E tx")
    case (Inl e)
    with Cons.prems show ?thesis
      by (intro exI [of _ "[tx]"] exI [of _ txs])
        (auto simp: broadcast_one_eval sbind_def)
  next
    case (Inr u)
    with Cons.prems have "sfor (broadcast_one E) txs (s @ [tx]) = (r, s')"
      by (simp add: broadcast_one_eval [of E tx] sbind_def)
    from Cons.IH [OF this] obtain sent rest where
      "txs = sent @ rest" "s' = (s @ [tx]) @ sent" "r = Inr () \<longrightarrow> rest = []" by blast
    then show ?thesis by (intro exI [of _ "tx # sent"] exI [of _ rest]) simp
  qed
qed

text \<open>What verification establishes of one transaction.\<close>

definition verified ::
    "('zaddr, 'tx, 'pk, 'pub) send_env \<Rightarrow> TxId \<times> (TransparentAddress \<times> Zatoshis) list \<Rightarrow> 'tx \<Rightarrow> bool" where
  "verified E entry tx \<longleftrightarrow>
     se_transaction E (fst entry) = Inr (Some tx) \<and> recognised (tx_outputs E tx) \<and>
     mset (snd entry) \<subseteq># output_bag (tx_outputs E tx) \<and>
     (\<forall>out \<in># output_bag (tx_outputs E tx) - mset (snd entry).
        rederives (se_keys E) (se_account_pubkey E) (address_metadata E) (fst out))"

lemma verify_transaction_ok: "verify_transaction E entry = Inr tx \<longleftrightarrow> verified E entry tx"
  by (cases entry) (auto simp: verify_transaction_def verified_def result_simps check_transparent_outputs_ok)

lemma verify_and_broadcast_cases:
  assumes "verify_and_broadcast_transactions E proposal txids [] = (r, sent)"
  shows "\<not> is_ok r \<and> sent = [] \<or>
    (\<exists>expected txs rest. proposed_transparent_payments (se_resolve E) proposal = Inr expected \<and>
       length txids = length expected \<and> list_all2 (verified E) (zip txids expected) txs \<and>
       (if broadcast_enabled E then txs = sent @ rest \<and> (is_ok r \<longrightarrow> rest = []) else sent = []))"
proof (cases "proposed_transparent_payments (se_resolve E) proposal")
  case (Inl e)
  with assms show ?thesis
    by (auto simp: verify_and_broadcast_transactions_def sbind_def slift_def)
next
  case (Inr expected)
  show ?thesis
  proof (cases "length txids = length expected \<and> is_ok (try_map (verify_transaction E) (zip txids expected))")
    case False
    with Inr assms show ?thesis
      by (auto simp: verify_and_broadcast_transactions_def sbind_def slift_def sfail_def is_ok_def
          split: if_splits sum.splits)
  next
    case True
    then obtain txs where txs: "try_map (verify_transaction E) (zip txids expected) = Inr txs"
      by (auto simp: is_ok_iff)
    then have ver: "list_all2 (verified E) (zip txids expected) txs"
      by (simp add: try_map_Inr_iff verify_transaction_ok)
    show ?thesis
    proof (cases "broadcast_enabled E")
      case False
      with True Inr assms txs ver show ?thesis
        by (auto simp: verify_and_broadcast_transactions_def sbind_def slift_def sret_def)
    next
      case enabled: True
      obtain b s' where b: "sfor (broadcast_one E) txs [] = (b, s')" by fastforce
      with enabled True Inr assms txs have "s' = sent" "is_ok r \<longrightarrow> b = Inr ()"
        by (auto simp: verify_and_broadcast_transactions_def sbind_def slift_def sret_def split: sum.splits)
      with sfor_broadcast [OF b] obtain rest where "txs = sent @ rest" "is_ok r \<longrightarrow> rest = []" by auto
      with enabled True Inr ver show ?thesis by auto
    qed
  qed
qed

text \<open>C18: If any transaction is handed to the chain, then broadcasting is enabled and every transaction
  of the proposal had passed verification before the first was sent; the transactions sent are an
  initial part of them, in step order, and all of them when the call succeeds.\<close>

theorem broadcast_only_verified:
  assumes "verify_and_broadcast_transactions E proposal txids [] = (r, sent)" and "sent \<noteq> []"
  shows "broadcast_enabled E \<and> (\<exists>expected txs rest.
    proposed_transparent_payments (se_resolve E) proposal = Inr expected \<and> length txids = length expected \<and>
    list_all2 (verified E) (zip txids expected) txs \<and> txs = sent @ rest \<and> (is_ok r \<longrightarrow> rest = []))"
  using verify_and_broadcast_cases [OF assms(1)] assms(2) by (auto split: if_splits)

definition example_send_env :: "(Address, nat, nat, TransparentAddress) send_env" where
  "example_send_env =
     \<lparr>se_resolve = Inr,
      se_keys = \<lparr>derive_address_pubkey = (\<lambda>_ scope index. if scope = 1 then Some (PublicKeyHash [3]) else None),
        from_pubkey = id\<rparr>,
      se_account_pubkey = Some 0, se_transaction = (\<lambda>_. Inr (Some 7)),
      tx_outputs = (\<lambda>_. [(Some (PublicKeyHash [3]), 2), (Some (PublicKeyHash [9]), 5)]),
      address_metadata = (\<lambda>a. Inr (if a = PublicKeyHash [3] then Some (Derived 1 0) else None)),
      encode_transparent = (\<lambda>_. []), txid_display = (\<lambda>_. []), broadcast_enabled = True,
      broadcast_transaction = (\<lambda>_. Inr ())\<rparr>"

definition example_step :: "Address Payment Step" where
  "example_step =
     \<lparr>input_in_pool = (\<lambda>p. p = Transparent), output_in_pool = (\<lambda>p. p = Transparent),
      change_in_pool = (\<lambda>p. p = Transparent), transparent_input_addresses = [PublicKeyHash [1]],
      shielded_note_pools = [], payment_pools = [(0, Transparent)], proposed_change_pools = [Transparent],
      request_payments = [0 \<mapsto> example_payment (AddrTex [9])]\<rparr>"

lemma example_send: "verify_and_broadcast_transactions example_send_env [example_step] [[1]] [] =
    (Inr \<lparr>sr_txid = Some [], sr_txids = [[]], sr_broadcast = True\<rparr>, [7])"
  by (simp add: verify_and_broadcast_transactions_def example_send_env_def example_step_def
      proposed_transparent_payments_def payment_receiver_def example_payment_def verify_transaction_def
      check_transparent_outputs_def check_derived_def swap_remove_def broadcast_one_eval send_result_new_def
      sbind_def slift_def sret_def)

theorem broadcast_only_verified_witness:
  "\<exists>expected txs. proposed_transparent_payments (se_resolve example_send_env) [example_step] = Inr expected \<and>
     list_all2 (verified example_send_env) (zip [[1]] expected) txs \<and> hd txs = 7"
  using broadcast_only_verified [OF example_send] by fastforce

section \<open>Sources of funds\<close>

lemma btree_insert_set: "set (btree_insert before x ys) = insert x (set ys)"
  by (induction ys) auto

lemma parse_source_addresses_ok:
  "parse_source_addresses before decode addrs acc = Inr res \<longleftrightarrow>
   (\<exists>tas. list_all2 (\<lambda>j ta. \<exists>s. j = JString s \<and> decode s = Some (AddrTransparent ta)) addrs tas \<and>
          res = foldl (\<lambda>a ta. btree_insert before ta a) acc tas)"
proof (induction addrs arbitrary: acc)
  case Nil
  then show ?case by auto
next
  case (Cons j addrs)
  show ?case
  proof (cases "\<exists>s ta. j = JString s \<and> decode s = Some (AddrTransparent ta)")
    case True
    then obtain s ta where j: "j = JString s" "decode s = Some (AddrTransparent ta)" by blast
    let ?P = "\<lambda>j ta. \<exists>s. j = JString s \<and> decode s = Some (AddrTransparent ta)"
    let ?f = "\<lambda>a ta. btree_insert before ta a"
    have "(\<exists>tas. list_all2 ?P (j # addrs) tas \<and> res = foldl ?f acc tas) \<longleftrightarrow>
        (\<exists>tas. list_all2 ?P addrs tas \<and> res = foldl ?f (btree_insert before ta acc) tas)"
      using j by (auto simp: list_all2_Cons1)
    with Cons.IH j show ?thesis by simp
  next
    case False
    then have "\<not> (\<exists>x. parse_source_addresses before decode (j # addrs) acc = Inr x)"
      by (auto simp: result_simps split: JsonValue.splits option.splits Address.splits)
    with False show ?thesis by (auto simp: list_all2_Cons1)
  qed
qed

lemma foldl_btree_set:
  "set (foldl (\<lambda>a ta. btree_insert before ta a) acc tas) = set acc \<union> set tas"
  by (induction tas arbitrary: acc) (auto simp: btree_insert_set)

text \<open>A transparent source of funds is accepted exactly when it lists at least one address and each
  entry is a string that decodes to a transparent address, and then funds may be drawn from those
  addresses and from nowhere else; a source that names a pool draws on no transparent funds.\<close>

theorem fund_source_confined:
  assumes "fund_source_parse before decode j = Inr source"
  shows "case j of
      JString _ \<Rightarrow> source = FsAnyTransparent \<or> sp_transparent (fund_source_spend_policy source) = None
    | JArray addrs \<Rightarrow>
        (\<exists>tas. tas \<noteq> [] \<and> sp_shielded (fund_source_spend_policy source) = [] \<and>
           sp_transparent (fund_source_spend_policy source) = Some (FromAddresses tas) \<and>
           set (map Some tas) = (\<lambda>e. case e of JString s \<Rightarrow> (case decode s of Some (AddrTransparent ta) \<Rightarrow> Some ta | _ \<Rightarrow> None) | _ \<Rightarrow> None) ` set addrs)
    | _ \<Rightarrow> False"
proof (cases j)
  case (JArray addrs)
  with assms obtain ta tas where p: "parse_source_addresses before decode addrs [] = Inr (ta # tas)"
      "source = FsTransparent (ta # tas)"
    by (auto simp: fund_source_parse_def result_simps neq_Nil_conv split: list.splits)
  from p(1) obtain us where us: "list_all2 (\<lambda>j ta. \<exists>s. j = JString s \<and> decode s = Some (AddrTransparent ta)) addrs us"
      "ta # tas = foldl (\<lambda>a ta. btree_insert before ta a) [] us"
    unfolding parse_source_addresses_ok by blast
  let ?f = "\<lambda>e. case e of JString s \<Rightarrow> (case decode s of Some (AddrTransparent ta) \<Rightarrow> Some ta | _ \<Rightarrow> None) | _ \<Rightarrow> None"
  have "set (ta # tas) = set us" using foldl_btree_set [of before "[]" us] us(2) by simp
  moreover have "?f ` set addrs = Some ` set us"
    using us(1) by (induction rule: list_all2_induct) auto
  ultimately have "set (map Some (ta # tas)) = ?f ` set addrs" by (simp only: set_map)
  then have "\<exists>tas. tas \<noteq> [] \<and> sp_shielded (fund_source_spend_policy source) = [] \<and>
      sp_transparent (fund_source_spend_policy source) = Some (FromAddresses tas) \<and>
      set (map Some tas) = ?f ` set addrs"
    using p(2) by (intro exI [of _ "ta # tas"]) (simp add: fund_source_spend_policy_def)
  with JArray show ?thesis by simp
qed (use assms in \<open>auto simp: fund_source_parse_def fund_source_spend_policy_def split: if_splits\<close>)

theorem fund_source_confined_witness:
  "\<exists>tas. tas \<noteq> [] \<and>
     sp_transparent (fund_source_spend_policy (FsTransparent [PublicKeyHash [1]])) = Some (FromAddresses tas)"
proof -
  have "fund_source_parse (\<lambda>_ _. True) (\<lambda>_. Some (AddrTransparent (PublicKeyHash [1])))
      (JArray [JString ''t'', JString ''u'']) = Inr (FsTransparent [PublicKeyHash [1]])"
    by (simp add: fund_source_parse_def)
  from fund_source_confined [OF this] show ?thesis by auto
qed

end
