(* ===== verification/Keystore.thy ===== *)
theory Keystore
  imports Rpc_Utils
begin

text \<open>
  The keystore (\<open>components/keystore.rs\<close>) and the methods that lock and unlock it
  (\<open>methods/lock_wallet.rs\<close>, \<open>methods/unlock_wallet.rs\<close>): the tables of encrypted key material,
  the checks that bind what is decrypted to the row it was found under, backup confirmation, and
  the lock with its re-lock timer as a timed transition system.

  The \<open>age\<close> and \<open>bip0039\<close> crates and the ZIP 32 fingerprint are arguments. Each table is a map from
  its primary key, or the list of its rows where the code reads them in order; every statement is
  atomic, and an operation's connection works (\<open>None\<close>) or fails with an error before it has any
  effect. Times are seconds.
\<close>

section \<open>State\<close>

datatype BackupStatus = Confirmed | Unconfirmed

fun is_confirmed :: "BackupStatus \<Rightarrow> bool" where
  "is_confirmed Confirmed = True"
| "is_confirmed Unconfirmed = False"

datatype KeystoreError =
    MissingRecipients | EmptyRecipients | RecipientIndirection string | IncorrectPassphrase
  | TimeoutTooLarge

text \<open>The errors of the keystore's own operations: a \<open>KeystoreError\<close> or a message.\<close>

datatype ks_error = Keystore KeystoreError | Generic message

text \<open>A re-lock task: the deadline reported for it, when its sleep ends and whether it has run.\<close>

record relock =
  rl_deadline :: int
  rl_fires_at :: int
  rl_finished :: bool

record 'i KeyStore =
  age_recipients :: "string list"
  mnemonics :: "SeedFingerprint \<rightharpoonup> (u8 list \<times> bool)"
  legacy_seeds :: "SeedFingerprint \<rightharpoonup> u8 list"
  standalone_sapling_keys :: "(u8 list \<times> u8 list) list"
  standalone_transparent_keys :: "u8 list \<rightharpoonup> u8 list"
  encrypted_identities :: "u8 list option"
  identities :: "'i list"
  relock_task :: "relock option"
  require_backup :: bool

text \<open>The cryptography the keystore calls.\<close>

record ('i, 'rcpt) crypto =
  read_recipients :: "string list \<Rightarrow> string + 'rcpt list"
  age_encrypt :: "'rcpt list \<Rightarrow> u8 list \<Rightarrow> string + u8 list"
  age_decrypt :: "'i list \<Rightarrow> u8 list \<Rightarrow> string + u8 list"
  phrase_seed :: "u8 list \<Rightarrow> string + u8 list"
  from_seed :: "u8 list \<Rightarrow> SeedFingerprint option"
  fp_display :: "SeedFingerprint \<Rightarrow> string"

type_synonym ('i, 'a) ks_op = "('i KeyStore, ks_error fault, 'a) sr"

definition ks_raise :: "message \<Rightarrow> ks_error fault" where
  "ks_raise m = Raise (Generic m)"

definition with_db :: "string option \<Rightarrow> ('i KeyStore \<Rightarrow> 'a) \<Rightarrow> ('i, 'a) ks_op" where
  "with_db conn f = (case conn of Some e \<Rightarrow> sfail (ks_raise (Text e)) | None \<Rightarrow> sget f)"

definition with_db_mut :: "string option \<Rightarrow> ('i KeyStore \<Rightarrow> 'i KeyStore) \<Rightarrow> ('i, unit) ks_op" where
  "with_db_mut conn f = (case conn of Some e \<Rightarrow> sfail (ks_raise (Text e)) | None \<Rightarrow> smodify f)"

abbreviation generic :: "string + 'a \<Rightarrow> ks_error fault + 'a" where
  "generic r \<equiv> map_err (\<lambda>e. ks_raise (Text e)) r"

section \<open>Recipients\<close>

definition initialize_recipients ::
    "('i, 'rcpt) crypto \<Rightarrow> string option \<Rightarrow> string list \<Rightarrow> ('i, unit) ks_op" where
  "initialize_recipients A conn recipient_strings =
     (if recipient_strings = [] then sfail (Raise (Keystore EmptyRecipients))
      else sbind (slift (generic (read_recipients A recipient_strings))) (\<lambda>_.
        sbind (with_db conn age_recipients) (\<lambda>existing.
          if length existing \<noteq> 0 then sfail (ks_raise (Fl ''err-keystore-already-initialized'' []))
          else smodify (\<lambda>s. s\<lparr>age_recipients := age_recipients s @ recipient_strings\<rparr>))))"

definition maybe_encryptor ::
    "('i, 'rcpt) crypto \<Rightarrow> string option \<Rightarrow> ('i, string list \<times> 'rcpt list) ks_op" where
  "maybe_encryptor A conn =
     sbind (with_db conn age_recipients) (\<lambda>recipient_strings.
     sbind (slift (generic (read_recipients A recipient_strings))) (\<lambda>recipients.
       sret (recipient_strings, recipients)))"

definition encryptor :: "('i, 'rcpt) crypto \<Rightarrow> string option \<Rightarrow> ('i, 'rcpt list) ks_op" where
  "encryptor A conn =
     sbind (maybe_encryptor A conn) (\<lambda>(recipient_strings, recipients).
       if recipient_strings = [] then sfail (Raise (Keystore MissingRecipients)) else sret recipients)"

section \<open>Mnemonics\<close>

definition list_seed_fingerprints :: "string option \<Rightarrow> ('i, SeedFingerprint set) ks_op" where
  "list_seed_fingerprints conn = with_db conn (\<lambda>s. dom (mnemonics s))"

definition list_legacy_seed_fingerprints :: "string option \<Rightarrow> ('i, SeedFingerprint set) ks_op" where
  "list_legacy_seed_fingerprints conn = with_db conn (\<lambda>s. dom (legacy_seeds s))"

definition upsert_mnemonic :: "SeedFingerprint \<Rightarrow> u8 list \<Rightarrow> bool \<Rightarrow> 'i KeyStore \<Rightarrow> 'i KeyStore" where
  "upsert_mnemonic fp ct confirmed s =
     s\<lparr>mnemonics := (mnemonics s)(fp \<mapsto>
        (case mnemonics s fp of
           None \<Rightarrow> (ct, confirmed)
         | Some (old, was) \<Rightarrow> (old, was \<or> confirmed)))\<rparr>"

text \<open>The argument is a valid mnemonic: its phrase and its seed.\<close>

definition encrypt_and_store_mnemonic ::
    "('i, 'rcpt) crypto \<Rightarrow> string option \<Rightarrow> u8 list \<times> u8 list \<Rightarrow> BackupStatus \<Rightarrow> ('i, SeedFingerprint) ks_op" where
  "encrypt_and_store_mnemonic A conn mnemonic backup =
     (let (phrase, seed_bytes) = mnemonic in
      sbind (encryptor A conn) (\<lambda>recipients.
      sbind (slift (ok_or (Panic ''valid length'') (from_seed A seed_bytes))) (\<lambda>seed_fp.
      sbind (slift (generic (age_encrypt A recipients phrase))) (\<lambda>encrypted_mnemonic.
      sbind (with_db_mut conn (upsert_mnemonic seed_fp encrypted_mnemonic (is_confirmed backup))) (\<lambda>_.
        sret seed_fp)))))"

definition backup_confirmed :: "string option \<Rightarrow> SeedFingerprint \<Rightarrow> ('i, bool) ks_op" where
  "backup_confirmed conn seed_fp =
     with_db conn (\<lambda>s. case mnemonics s seed_fp of None \<Rightarrow> False | Some (_, confirmed) \<Rightarrow> confirmed)"

definition delete_mnemonic :: "string option \<Rightarrow> SeedFingerprint \<Rightarrow> ('i, bool) ks_op" where
  "delete_mnemonic conn seed_fp =
     sbind (with_db conn (\<lambda>s. mnemonics s seed_fp \<noteq> None)) (\<lambda>deleted.
     sbind (smodify (\<lambda>s. s\<lparr>mnemonics := (mnemonics s)(seed_fp := None)\<rparr>)) (\<lambda>_.
       sret deleted))"

datatype SeedSelectionError = SelDatabase "ks_error fault" | NoSeeds | Ambiguous | Unknown

definition select_seed ::
    "string option \<Rightarrow> SeedFingerprint option \<Rightarrow> 'i KeyStore \<Rightarrow> SeedSelectionError + SeedFingerprint" where
  "select_seed conn seedfp s =
     (case fst (list_seed_fingerprints conn s) of
        Inl e \<Rightarrow> Inl (SelDatabase e)
      | Inr seed_fps \<Rightarrow>
          if seed_fps = {} then Inl NoSeeds
          else (case seedfp of
                  Some seed_fp \<Rightarrow> if seed_fp \<in> seed_fps then Inr seed_fp else Inl Unknown
                | None \<Rightarrow> if card seed_fps = 1 then Inr (the_elem seed_fps) else Inl Ambiguous))"

definition backup_required :: "string option \<Rightarrow> SeedFingerprint \<Rightarrow> ('i, bool) ks_op" where
  "backup_required conn seed_fp =
     sbind (sget require_backup) (\<lambda>required.
       if required then sbind (backup_confirmed conn seed_fp) (\<lambda>c. sret (\<not> c)) else sret False)"

definition confirm_backup ::
    "('i, 'rcpt) crypto \<Rightarrow> string option \<Rightarrow> SeedFingerprint \<Rightarrow> ('i, unit) ks_op" where
  "confirm_backup A conn seed_fp =
     sbind (with_db conn (\<lambda>s. mnemonics s seed_fp)) (\<lambda>row.
       case row of
         None \<Rightarrow> sfail (ks_raise (Fl ''err-keystore-no-such-mnemonic'' [(''seedfp'', fp_display A seed_fp)]))
       | Some (ct, _) \<Rightarrow> smodify (\<lambda>s. s\<lparr>mnemonics := (mnemonics s)(seed_fp \<mapsto> (ct, True))\<rparr>))"

section \<open>Other key material\<close>

definition encrypt_and_store_legacy_seed ::
    "('i, 'rcpt) crypto \<Rightarrow> string option \<Rightarrow> u8 list \<Rightarrow> ('i, SeedFingerprint) ks_op" where
  "encrypt_and_store_legacy_seed A conn legacy_seed =
     sbind (encryptor A conn) (\<lambda>recipients.
     sbind (slift (ok_or (ks_raise (Fl ''err-failed-seed-fingerprinting'' [])) (from_seed A legacy_seed)))
       (\<lambda>legacy_seed_fp.
     sbind (slift (generic (age_encrypt A recipients legacy_seed))) (\<lambda>ct.
     sbind (with_db_mut conn (\<lambda>s. case legacy_seeds s legacy_seed_fp of
         None \<Rightarrow> s\<lparr>legacy_seeds := (legacy_seeds s)(legacy_seed_fp \<mapsto> ct)\<rparr>
       | Some _ \<Rightarrow> s)) (\<lambda>_.
       sret legacy_seed_fp))))"

text \<open>The row of a standalone Sapling key is replaced in place, or appended.\<close>

fun upsert_row :: "'k \<Rightarrow> 'v \<Rightarrow> ('k \<times> 'v) list \<Rightarrow> ('k \<times> 'v) list" where
  "upsert_row k v [] = [(k, v)]"
| "upsert_row k v ((k', v') # rows) = (if k' = k then (k, v) # rows else (k', v') # upsert_row k v rows)"

text \<open>A Sapling spending key as its bytes; \<open>to_dfvk\<close> gives the bytes of its viewing key.\<close>

definition encrypt_standalone_sapling_key ::
    "('i, 'rcpt) crypto \<Rightarrow> (u8 list \<Rightarrow> u8 list) \<Rightarrow> string option \<Rightarrow> u8 list \<Rightarrow> ('i, u8 list \<times> u8 list) ks_op" where
  "encrypt_standalone_sapling_key A to_dfvk conn sapling_key =
     sbind (encryptor A conn) (\<lambda>recipients.
     sbind (slift (generic (age_encrypt A recipients sapling_key))) (\<lambda>ct.
       sret (to_dfvk sapling_key, ct)))"

definition store_standalone_sapling_key ::
    "string option \<Rightarrow> u8 list \<times> u8 list \<Rightarrow> ('i, unit) ks_op" where
  "store_standalone_sapling_key conn encrypted =
     with_db_mut conn (\<lambda>s. s\<lparr>standalone_sapling_keys :=
       upsert_row (fst encrypted) (snd encrypted) (standalone_sapling_keys s)\<rparr>)"

definition encrypt_and_store_standalone_sapling_key ::
    "('i, 'rcpt) crypto \<Rightarrow> (u8 list \<Rightarrow> u8 list) \<Rightarrow> string option \<Rightarrow> u8 list \<Rightarrow> ('i, u8 list) ks_op" where
  "encrypt_and_store_standalone_sapling_key A to_dfvk conn sapling_key =
     sbind (encrypt_standalone_sapling_key A to_dfvk conn sapling_key) (\<lambda>encrypted.
     sbind (store_standalone_sapling_key conn encrypted) (\<lambda>_.
       sret (fst encrypted)))"

definition store_encrypted_standalone_transparent_keys ::
    "string option \<Rightarrow> (u8 list \<times> u8 list) list \<Rightarrow> ('i, unit) ks_op" where
  "store_encrypted_standalone_transparent_keys conn keys =
     with_db_mut conn (\<lambda>s. s\<lparr>standalone_transparent_keys :=
       foldl (\<lambda>m (pubkey, ct). case m pubkey of None \<Rightarrow> m(pubkey \<mapsto> ct) | Some _ \<Rightarrow> m)
         (standalone_transparent_keys s) keys\<rparr>)"

section \<open>Decryption\<close>

definition seed_matches_fingerprint ::
    "('i, 'rcpt) crypto \<Rightarrow> u8 list \<Rightarrow> SeedFingerprint \<Rightarrow> bool" where
  "seed_matches_fingerprint A seed seed_fp \<longleftrightarrow> from_seed A seed = Some seed_fp"

definition mnemonic_matches_fingerprint ::
    "('i, 'rcpt) crypto \<Rightarrow> u8 list \<Rightarrow> SeedFingerprint \<Rightarrow> ks_error fault + bool" where
  "mnemonic_matches_fingerprint A mnemonic seed_fp =
     rbind (generic (phrase_seed A mnemonic)) (\<lambda>seed. Inr (seed_matches_fingerprint A seed seed_fp))"

definition locked_error :: "ks_error fault" where
  "locked_error = ks_raise (Fl ''err-wallet-locked'' [])"

definition mismatch_error :: "ks_error fault" where
  "mismatch_error = ks_raise (Fl ''err-keystore-key-material-mismatch'' [])"

definition unlocked_identities :: "('i, 'i list) ks_op" where
  "unlocked_identities =
     sbind (sget identities) (\<lambda>ids. if ids = [] then sfail locked_error else sret ids)"

text \<open>\<open>query_row\<close> without \<open>optional\<close>: an absent row is an error.\<close>

definition query_row :: "string option \<Rightarrow> ('i KeyStore \<Rightarrow> 'a option) \<Rightarrow> ('i, 'a) ks_op" where
  "query_row conn f =
     sbind (with_db conn f) (\<lambda>row. slift (ok_or (ks_raise (Text ''Query returned no rows'')) row))"

definition decrypt_mnemonic ::
    "('i, 'rcpt) crypto \<Rightarrow> string option \<Rightarrow> SeedFingerprint \<Rightarrow> ('i, u8 list) ks_op" where
  "decrypt_mnemonic A conn seed_fp =
     sbind unlocked_identities (\<lambda>ids.
     sbind (query_row conn (\<lambda>s. map_option fst (mnemonics s seed_fp))) (\<lambda>encrypted_mnemonic.
     sbind (slift (generic (age_decrypt A ids encrypted_mnemonic))) (\<lambda>mnemonic.
     sbind (slift (mnemonic_matches_fingerprint A mnemonic seed_fp)) (\<lambda>matches.
       if \<not> matches then sfail mismatch_error else sret mnemonic))))"

definition decrypt_seed ::
    "('i, 'rcpt) crypto \<Rightarrow> string option \<Rightarrow> SeedFingerprint \<Rightarrow> ('i, u8 list) ks_op" where
  "decrypt_seed A conn seed_fp =
     sbind (decrypt_mnemonic A conn seed_fp) (\<lambda>mnemonic. slift (generic (phrase_seed A mnemonic)))"

definition decrypt_legacy_seed ::
    "('i, 'rcpt) crypto \<Rightarrow> string option \<Rightarrow> SeedFingerprint \<Rightarrow> ('i, u8 list) ks_op" where
  "decrypt_legacy_seed A conn seed_fp =
     sbind unlocked_identities (\<lambda>ids.
     sbind (query_row conn (\<lambda>s. legacy_seeds s seed_fp)) (\<lambda>ct.
     sbind (slift (generic (age_decrypt A ids ct))) (\<lambda>legacy_seed.
       if \<not> seed_matches_fingerprint A legacy_seed seed_fp then sfail mismatch_error
       else sret legacy_seed)))"

definition export_mnemonic ::
    "('i, 'rcpt) crypto \<Rightarrow> string option \<Rightarrow> SeedFingerprint \<Rightarrow> ('i, u8 list) ks_op" where
  "export_mnemonic A conn seed_fp =
     sbind (encryptor A conn) (\<lambda>recipients.
     sbind (decrypt_mnemonic A conn seed_fp) (\<lambda>mnemonic.
       slift (generic (age_encrypt A recipients mnemonic))))"

text \<open>The loop over the standalone Sapling keys. \<open>owns\<close> is whether the viewing key parses and
  decrypts the address's diversifier; \<open>to_dfvk\<close> is \<open>None\<close> when the plaintext is no spending key.\<close>

fun find_sapling_key ::
    "('i, 'rcpt) crypto \<Rightarrow> (u8 list \<Rightarrow> string + u8 list) \<Rightarrow> (u8 list \<Rightarrow> bool) \<Rightarrow> 'i list \<Rightarrow>
     (u8 list \<times> u8 list) list \<Rightarrow> ks_error fault + u8 list option" where
  "find_sapling_key A to_dfvk owns ids [] = Inr None"
| "find_sapling_key A to_dfvk owns ids ((dfvk_bytes, encrypted_extsk) # rows) =
     (if length dfvk_bytes \<noteq> 128 then find_sapling_key A to_dfvk owns ids rows
      else if owns dfvk_bytes
      then rbind (generic (age_decrypt A ids encrypted_extsk)) (\<lambda>extsk.
           rbind (generic (to_dfvk extsk)) (\<lambda>dfvk.
             if dfvk \<noteq> dfvk_bytes then Inl mismatch_error else Inr (Some extsk)))
      else find_sapling_key A to_dfvk owns ids rows)"

definition decrypt_standalone_sapling_key ::
    "('i, 'rcpt) crypto \<Rightarrow> (u8 list \<Rightarrow> string + u8 list) \<Rightarrow> (u8 list \<Rightarrow> bool) \<Rightarrow> string option \<Rightarrow>
     ('i, u8 list option) ks_op" where
  "decrypt_standalone_sapling_key A to_dfvk owns conn =
     sbind unlocked_identities (\<lambda>ids.
     sbind (with_db conn standalone_sapling_keys) (\<lambda>rows.
       slift (find_sapling_key A to_dfvk owns ids rows)))"

text \<open>\<open>imported_pubkey\<close> is the join with the wallet's addresses table.\<close>

definition decrypt_standalone_transparent_key ::
    "('i, 'rcpt) crypto \<Rightarrow> (u8 list \<Rightarrow> string + u8 list) \<Rightarrow> (TransparentAddress \<Rightarrow> u8 list option) \<Rightarrow>
     string option \<Rightarrow> TransparentAddress \<Rightarrow> ('i, u8 list) ks_op" where
  "decrypt_standalone_transparent_key A public_key imported_pubkey conn address =
     sbind unlocked_identities (\<lambda>ids.
     sbind (query_row conn (\<lambda>s. Option.bind (imported_pubkey address) (\<lambda>pubkey.
         map_option (\<lambda>ct. (pubkey, ct)) (standalone_transparent_keys s pubkey)))) (\<lambda>(pubkey_bytes, ct).
     sbind (slift (generic (age_decrypt A ids ct))) (\<lambda>secret_key.
     sbind (slift (generic (public_key secret_key))) (\<lambda>pubkey.
       if pubkey \<noteq> pubkey_bytes then sfail mismatch_error else sret secret_key))))"

section \<open>The lock\<close>

definition uses_encrypted_identities :: "'i KeyStore \<Rightarrow> bool" where
  "uses_encrypted_identities s \<longleftrightarrow> encrypted_identities s \<noteq> None"

definition is_locked :: "'i KeyStore \<Rightarrow> bool" where
  "is_locked s \<longleftrightarrow> identities s = []"

definition unlocked_until :: "'i KeyStore \<Rightarrow> int option" where
  "unlocked_until s =
     (case relock_task s of
        None \<Rightarrow> None
      | Some t \<Rightarrow> if rl_finished t then None else Some (rl_deadline t))"

text \<open>\<open>decrypt_identities\<close> decrypts the identity file with a passphrase and reads its identities;
  \<open>started\<close> and \<open>spawned\<close> are the times at which \<open>unlock\<close> is called and its task starts to sleep.
  \<open>time_limit\<close> is the latest representable \<open>SystemTime\<close>.\<close>

definition unlock ::
    "(u8 list \<Rightarrow> 'p \<Rightarrow> 'i list option) \<Rightarrow> int \<Rightarrow> int \<Rightarrow> int \<Rightarrow> 'p \<Rightarrow> nat \<Rightarrow>
     'i KeyStore \<Rightarrow> (KeystoreError + unit) \<times> 'i KeyStore" where
  "unlock decrypt_identities time_limit started spawned passphrase timeout s =
     (if started + int timeout > time_limit then (Inl TimeoutTooLarge, s)
      else case Option.bind (encrypted_identities s) (\<lambda>d. decrypt_identities d passphrase) of
             None \<Rightarrow> (Inl IncorrectPassphrase, s)
           | Some decrypted \<Rightarrow>
               (Inr (), s\<lparr>identities := decrypted,
                  relock_task := Some \<lparr>rl_deadline = started + int timeout,
                    rl_fires_at = spawned + int timeout, rl_finished = False\<rparr>\<rparr>))"

definition lock :: "'i KeyStore \<Rightarrow> 'i KeyStore" where
  "lock s = (if \<not> uses_encrypted_identities s then s else s\<lparr>relock_task := None, identities := []\<rparr>)"

text \<open>The identities of an encrypted identity file, asked for on the terminal: no re-lock task is
  started. \<open>ask\<close> decrypts the file's contents with what the operator enters.\<close>

definition unlock_on_terminal :: "(u8 list \<Rightarrow> string + 'i list) \<Rightarrow> ('i, unit) ks_op" where
  "unlock_on_terminal ask =
     sbind (sget encrypted_identities) (\<lambda>encrypted.
       case encrypted of
         None \<Rightarrow> sret ()
       | Some data \<Rightarrow>
           sbind (slift (generic (ask data))) (\<lambda>ids. smodify (\<lambda>s. s\<lparr>identities := ids\<rparr>)))"

definition lock_wallet :: "'i KeyStore \<Rightarrow> (rpc_error + unit) \<times> 'i KeyStore" where
  "lock_wallet s =
     (if \<not> uses_encrypted_identities s
      then (Inl (with_static WalletWrongEncState
        ''Error: running with an unencrypted wallet, but walletlock was called.''), s)
      else (Inr (), lock s))"

definition unlock_error :: "(KeystoreError \<Rightarrow> string) \<Rightarrow> KeystoreError \<Rightarrow> rpc_error" where
  "unlock_error show_error e =
     (case e of
        IncorrectPassphrase \<Rightarrow> with_static WalletPassphraseIncorrect
          ''Error: The wallet passphrase entered was incorrect.''
      | TimeoutTooLarge \<Rightarrow> with_static InvalidParameter
          ''Error: timeout is too large; please choose a smaller value.''
      | MissingRecipients \<Rightarrow> with_static WalletWrongEncState
          ''Error: running with an unencrypted wallet, but walletpassphrase was called.''
      | _ \<Rightarrow> with_message Wallet (Text (''Error: '' @ show_error e)))"

definition unlock_wallet ::
    "(KeystoreError \<Rightarrow> string) \<Rightarrow> (u8 list \<Rightarrow> 'p \<Rightarrow> 'i list option) \<Rightarrow> int \<Rightarrow> int \<Rightarrow> int \<Rightarrow> 'p \<Rightarrow> nat \<Rightarrow>
     'i KeyStore \<Rightarrow> (rpc_error + unit) \<times> 'i KeyStore" where
  "unlock_wallet show_error decrypt_identities time_limit started spawned passphrase timeout s =
     (if \<not> uses_encrypted_identities s
      then (Inl (with_static WalletWrongEncState
        ''Error: running with an unencrypted wallet, but walletpassphrase was called.''), s)
      else apfst (map_err (unlock_error show_error))
             (unlock decrypt_identities time_limit started spawned passphrase timeout s))"

section \<open>Reading the operations\<close>

text \<open>What a successful operation returned, read off its steps.\<close>

lemma with_db_Inr [sr_simps]: "with_db conn f s = (Inr y, t) \<longleftrightarrow> conn = None \<and> y = f s \<and> t = s"
  by (cases conn) (simp_all add: with_db_def sr_simps)

lemma with_db_mut_Inr [sr_simps]: "with_db_mut conn f s = (Inr y, t) \<longleftrightarrow> conn = None \<and> t = f s"
  by (cases conn) (simp_all add: with_db_mut_def sr_simps)

lemma query_row_Inr [sr_simps]:
  "query_row conn f s = (Inr y, t) \<longleftrightarrow> conn = None \<and> f s = Some y \<and> t = s"
  by (auto simp: query_row_def sr_simps result_simps)

lemma unlocked_identities_Inr [sr_simps]:
  "unlocked_identities s = (Inr y, t) \<longleftrightarrow> identities s \<noteq> [] \<and> y = identities s \<and> t = s"
  by (auto simp: unlocked_identities_def sr_simps)

lemma encryptor_Inr [sr_simps]:
  "encryptor A conn s = (Inr rs, t) \<longleftrightarrow>
   conn = None \<and> t = s \<and> age_recipients s \<noteq> [] \<and> read_recipients A (age_recipients s) = Inr rs"
  by (auto simp: encryptor_def maybe_encryptor_def sr_simps result_simps split: if_splits)

lemma mnemonic_matches_Inr [sr_simps]:
  "mnemonic_matches_fingerprint A m fp = Inr b \<longleftrightarrow>
   (\<exists>seed. phrase_seed A m = Inr seed \<and> b = (from_seed A seed = Some fp))"
  by (auto simp: mnemonic_matches_fingerprint_def seed_matches_fingerprint_def result_simps)

lemma decrypt_mnemonic_Inr:
  "decrypt_mnemonic A conn fp s = (Inr m, t) \<longleftrightarrow>
   conn = None \<and> t = s \<and> identities s \<noteq> [] \<and>
   (\<exists>ct c seed. mnemonics s fp = Some (ct, c) \<and> age_decrypt A (identities s) ct = Inr m \<and>
      phrase_seed A m = Inr seed \<and> from_seed A seed = Some fp)"
  by (auto simp: decrypt_mnemonic_def sr_simps result_simps split: if_splits)

lemma store_mnemonic_Inr:
  "encrypt_and_store_mnemonic A conn (phrase, seed) b s = (Inr fp, t) \<longleftrightarrow>
   conn = None \<and> from_seed A seed = Some fp \<and> age_recipients s \<noteq> [] \<and>
   (\<exists>rs ct. read_recipients A (age_recipients s) = Inr rs \<and> age_encrypt A rs phrase = Inr ct \<and>
      t = upsert_mnemonic fp ct (is_confirmed b) s)"
  by (auto simp: encrypt_and_store_mnemonic_def sr_simps result_simps)

section \<open>Properties of key material\<close>

lemma find_sapling_key_Some:
  "find_sapling_key A to_dfvk owns ids rows = Inr (Some k) \<Longrightarrow>
   \<exists>dfvk ct. (dfvk, ct) \<in> set rows \<and> owns dfvk \<and> to_dfvk k = Inr dfvk"
proof (induction rows)
  case (Cons row rows)
  obtain dfvk ct where row: "row = (dfvk, ct)" by fastforce
  show ?case
  proof (cases "length dfvk \<noteq> 128 \<or> \<not> owns dfvk")
    case True
    with Cons row show ?thesis by (auto split: if_splits)
  next
    case False
    with Cons.prems row show ?thesis by (auto simp: result_simps split: if_splits)
  qed
qed simp

text \<open>C40: Whatever the tables hold, key material is only returned while the keystore is unlocked, and
  only if it reproduces what it was asked for: a mnemonic or a legacy seed its fingerprint, a
  standalone Sapling key the viewing key of its row, a transparent key the public key the wallet
  records for the address. Reading changes nothing.\<close>

theorem decrypted_material_matches:
  "(decrypt_mnemonic A conn fp s = (Inr m, t1) \<longrightarrow>
      t1 = s \<and> \<not> is_locked s \<and> (\<exists>seed. phrase_seed A m = Inr seed \<and> from_seed A seed = Some fp)) \<and>
   (decrypt_legacy_seed A conn fp s = (Inr seed', t2) \<longrightarrow>
      t2 = s \<and> \<not> is_locked s \<and> from_seed A seed' = Some fp) \<and>
   (decrypt_standalone_sapling_key A to_dfvk owns conn s = (Inr (Some k), t3) \<longrightarrow>
      t3 = s \<and> \<not> is_locked s \<and> (\<exists>dfvk. owns dfvk \<and> to_dfvk k = Inr dfvk)) \<and>
   (decrypt_standalone_transparent_key A public_key imported_pubkey conn addr s = (Inr sk, t4) \<longrightarrow>
      t4 = s \<and> \<not> is_locked s \<and> (\<exists>pk. imported_pubkey addr = Some pk \<and> public_key sk = Inr pk))"
proof (intro conjI impI)
  assume "decrypt_standalone_sapling_key A to_dfvk owns conn s = (Inr (Some k), t3)"
  then have f: "find_sapling_key A to_dfvk owns (identities s) (standalone_sapling_keys s) = Inr (Some k)"
      "t3 = s" "identities s \<noteq> []"
    by (auto simp: decrypt_standalone_sapling_key_def sr_simps)
  then show "t3 = s" "\<not> is_locked s" by (simp_all add: is_locked_def)
  from find_sapling_key_Some [OF f(1)] show "\<exists>dfvk. owns dfvk \<and> to_dfvk k = Inr dfvk" by blast
qed (auto simp: decrypt_mnemonic_Inr decrypt_legacy_seed_def decrypt_standalone_transparent_key_def
    seed_matches_fingerprint_def is_locked_def sr_simps result_simps split: if_splits
    simp: bind_eq_Some_conv)

definition example_crypto :: "(nat, nat) crypto" where
  "example_crypto =
     \<lparr>read_recipients = (\<lambda>_. Inr [0]), age_encrypt = (\<lambda>_ pt. Inr (1 # pt)),
      age_decrypt = (\<lambda>_ ct. Inr (tl ct)), phrase_seed = Inr, from_seed = Some, fp_display = (\<lambda>_. [])\<rparr>"

definition example_keystore :: "nat KeyStore" where
  "example_keystore =
     \<lparr>age_recipients = [''age1''], mnemonics = Map.empty, legacy_seeds = Map.empty, standalone_sapling_keys = [],
      standalone_transparent_keys = Map.empty, encrypted_identities = Some [1], identities = [],
      relock_task = None, require_backup = True\<rparr>"

lemma example_stored:
  "decrypt_mnemonic example_crypto None [5]
     (example_keystore\<lparr>identities := [0], mnemonics := [[5] \<mapsto> ([1, 5], False)]\<rparr>) =
   (Inr [5], example_keystore\<lparr>identities := [0], mnemonics := [[5] \<mapsto> ([1, 5], False)]\<rparr>)"
  by (auto simp: decrypt_mnemonic_Inr example_crypto_def example_keystore_def)

theorem decrypted_material_matches_witness:
  "\<exists>seed. phrase_seed example_crypto [5] = Inr seed \<and> from_seed example_crypto seed = Some [5]"
  using decrypted_material_matches [of example_crypto None "[5]"
      "example_keystore\<lparr>identities := [0], mnemonics := [[5] \<mapsto> ([1, 5], False)]\<rparr>" "[5]"
      "example_keystore\<lparr>identities := [0], mnemonics := [[5] \<mapsto> ([1, 5], False)]\<rparr>", THEN conjunct1]
    example_stored by blast

text \<open>A phrase stored for a seed the keystore does not hold yet is returned by decrypting that seed
  with identities that decrypt what was encrypted; the stores of other seeds are untouched, and
  storing confirms a backup or leaves it as it was, for that seed as for every other.\<close>

theorem mnemonic_store_roundtrip:
  assumes "encrypt_and_store_mnemonic A conn (phrase, seed) backup s = (Inr fp, t)"
    and "phrase_seed A phrase = Inr seed"
    and "\<And>rs ct. age_encrypt A rs phrase = Inr ct \<Longrightarrow> age_decrypt A ids ct = Inr phrase" and "ids \<noteq> []"
  shows "(mnemonics s fp = None \<longrightarrow> decrypt_mnemonic A None fp (t\<lparr>identities := ids\<rparr>) = (Inr phrase, t\<lparr>identities := ids\<rparr>)) \<and>
    backup_confirmed None fp t = (Inr (fst (backup_confirmed None fp s) = Inr True \<or> backup = Confirmed), t) \<and>
    (\<forall>other. other \<noteq> fp \<longrightarrow> mnemonics t other = mnemonics s other) \<and>
    map_option fst (mnemonics t fp) \<noteq> None \<and>
    (mnemonics s fp \<noteq> None \<longrightarrow> map_option fst (mnemonics t fp) = map_option fst (mnemonics s fp))"
proof -
  from assms(1) obtain rs ct where st: "from_seed A seed = Some fp" "age_encrypt A rs phrase = Inr ct"
      "t = upsert_mnemonic fp ct (is_confirmed backup) s"
    unfolding store_mnemonic_Inr by blast
  have "decrypt_mnemonic A None fp (t\<lparr>identities := ids\<rparr>) = (Inr phrase, t\<lparr>identities := ids\<rparr>)"
    if "mnemonics s fp = None"
    unfolding decrypt_mnemonic_Inr using that st assms(2-4) by (simp add: upsert_mnemonic_def)
  then show ?thesis
    using st(3) by (cases backup)
      (auto simp: upsert_mnemonic_def backup_confirmed_def with_db_def sget_def split: option.splits)
qed

theorem mnemonic_store_roundtrip_witness:
  "\<exists>t. encrypt_and_store_mnemonic example_crypto None ([5], [5]) Unconfirmed example_keystore = (Inr [5], t) \<and>
     decrypt_mnemonic example_crypto None [5] (t\<lparr>identities := [0]\<rparr>) = (Inr [5], t\<lparr>identities := [0]\<rparr>)"
proof -
  let ?t = "upsert_mnemonic [5] [1, 5] False example_keystore"
  have run: "encrypt_and_store_mnemonic example_crypto None ([5], [5]) Unconfirmed example_keystore = (Inr [5], ?t)"
    by (simp add: store_mnemonic_Inr example_crypto_def example_keystore_def)
  have "mnemonics example_keystore [5] = None" by (simp add: example_keystore_def)
  with mnemonic_store_roundtrip [OF run, of "[0]"] run show ?thesis
    by (auto simp: example_crypto_def)
qed

section \<open>The lock over time\<close>

text \<open>The part of the keystore the lock consists of; no operation on the tables touches it.\<close>

definition lock_view :: "'i KeyStore \<Rightarrow> u8 list option \<times> 'i list \<times> relock option" where
  "lock_view s = (encrypted_identities s, identities s, relock_task s)"

lemma keeps_with_db [wp]: "sr_keeps I (with_db conn f)"
  by (cases conn) (simp_all add: with_db_def sr_keeps_iff sfail_def sget_def)

lemma keeps_with_db_mut [wp]: "(\<And>s. I s \<Longrightarrow> I (f s)) \<Longrightarrow> sr_keeps I (with_db_mut conn f)"
  by (cases conn) (simp_all add: with_db_mut_def sr_keeps_iff sfail_def smodify_def)

lemma keeps_encryptor [wp]: "sr_keeps I (encryptor A conn)"
  unfolding encryptor_def maybe_encryptor_def case_prod_unfold by (intro wp) simp_all

lemma table_operations_keep_lock:
  "sr_keeps (\<lambda>s. lock_view s = v) (initialize_recipients A conn rs)"
  "sr_keeps (\<lambda>s. lock_view s = v) (encrypt_and_store_mnemonic A conn m b)"
  "sr_keeps (\<lambda>s. lock_view s = v) (delete_mnemonic conn fp)"
  "sr_keeps (\<lambda>s. lock_view s = v) (confirm_backup A conn fp)"
  "sr_keeps (\<lambda>s. lock_view s = v) (encrypt_and_store_legacy_seed A conn seed)"
  "sr_keeps (\<lambda>s. lock_view s = v) (encrypt_and_store_standalone_sapling_key A d conn k)"
  "sr_keeps (\<lambda>s. lock_view s = v) (store_encrypted_standalone_transparent_keys conn keys)"
  unfolding initialize_recipients_def encrypt_and_store_mnemonic_def delete_mnemonic_def confirm_backup_def
    encrypt_and_store_legacy_seed_def encrypt_and_store_standalone_sapling_key_def encrypt_standalone_sapling_key_def
    store_standalone_sapling_key_def store_encrypted_standalone_transparent_keys_def Let_def case_prod_unfold
  by (intro wp; auto simp: lock_view_def upsert_mnemonic_def split: option.splits)+

text \<open>The keystore at a time, under the passing of time, the re-lock task, calls of \<open>unlock\<close> and
  \<open>lock\<close> (each of which waits for the task it aborts before it writes), and any operation on the
  tables.\<close>

inductive lock_step ::
    "(u8 list \<Rightarrow> 'p \<Rightarrow> 'i list option) \<Rightarrow> int \<Rightarrow> int \<times> 'i KeyStore \<Rightarrow> int \<times> 'i KeyStore \<Rightarrow> bool"
  for decrypt_identities time_limit where
  wait: "now \<le> now' \<Longrightarrow> lock_step decrypt_identities time_limit (now, s) (now', s)"
| relocks: "relock_task s = Some t \<Longrightarrow> \<not> rl_finished t \<Longrightarrow> rl_fires_at t \<le> now \<Longrightarrow>
    lock_step decrypt_identities time_limit (now, s)
      (now, s\<lparr>identities := [], relock_task := Some (t\<lparr>rl_finished := True\<rparr>)\<rparr>)"
| unlocks: "started \<le> now \<Longrightarrow> unlock decrypt_identities time_limit started now passphrase timeout s = (r, s') \<Longrightarrow>
    lock_step decrypt_identities time_limit (now, s) (now, s')"
| locks: "lock_step decrypt_identities time_limit (now, s) (now, lock s)"
| tables: "lock_view s' = lock_view s \<Longrightarrow> lock_step decrypt_identities time_limit (now, s) (now, s')"

definition lock_ok :: "int \<times> 'i KeyStore \<Rightarrow> bool" where
  "lock_ok p \<longleftrightarrow>
     (let s = snd p in
      uses_encrypted_identities s \<and>
      (case relock_task s of
         None \<Rightarrow> identities s = []
       | Some t \<Rightarrow> rl_deadline t \<le> rl_fires_at t \<and> (rl_finished t \<longrightarrow> identities s = [])))"

lemma lock_step_ok: "lock_step D L p q \<Longrightarrow> lock_ok p \<Longrightarrow> lock_ok q"
proof (induction rule: lock_step.induct)
  case (tables s' s now)
  then show ?case
    by (auto simp: lock_ok_def Let_def lock_view_def uses_encrypted_identities_def split: option.splits)
qed (auto simp: lock_ok_def Let_def unlock_def lock_def uses_encrypted_identities_def
    split: if_splits option.splits)

lemma lock_reachable_ok: "(lock_step D L)\<^sup>*\<^sup>* p q \<Longrightarrow> lock_ok p \<Longrightarrow> lock_ok q"
  by (induction rule: rtranclp_induct) (auto intro: lock_step_ok)


lemma example_unlock:
  "(lock_step (\<lambda>_ p. if p = (7::nat) then Some [0::nat] else None) 1000)\<^sup>*\<^sup>* (10, example_keystore)
     (10, example_keystore\<lparr>identities := [0],
        relock_task := Some \<lparr>rl_deadline = 40, rl_fires_at = 40, rl_finished = False\<rparr>\<rparr>)"
  by (rule r_into_rtranclp, rule lock_step.unlocks [where started = 10 and passphrase = 7 and timeout = 30 and r = "Inr ()"])
    (simp_all add: unlock_def example_keystore_def)


text \<open>A wallet whose seed needs a backup confirmation derives nothing from it until that has been
  given, through \<open>ensure_seed_is_backed_up\<close>.\<close>

lemma backup_gate_open:
  "ensure_seed_is_backed_up (map_err (\<lambda>_. []) (fst (backup_required None fp s))) = Inr () \<longleftrightarrow>
   \<not> require_backup s \<or> (\<exists>ct. mnemonics s fp = Some (ct, True))"
  by (auto simp: ensure_seed_is_backed_up_def backup_required_def backup_confirmed_def sbind_def sget_def
      sret_def with_db_def split: option.splits)

text \<open>A seed is selected exactly when it is named and held, or is the only one.\<close>

lemma select_seed_exact:
  "select_seed None named s = Inr fp \<longleftrightarrow>
   fp \<in> dom (mnemonics s) \<and> (named = Some fp \<or> named = None \<and> dom (mnemonics s) = {fp})"
proof -
  define D where "D = dom (mnemonics s)"
  have "fst (list_seed_fingerprints None s) = Inr D"
    by (simp add: list_seed_fingerprints_def with_db_def sget_def D_def)
  then have "select_seed None named s = Inr fp \<longleftrightarrow>
      fp \<in> D \<and> (named = Some fp \<or> named = None \<and> D = {fp})"
    by (auto simp: select_seed_def card_1_singleton_iff split: option.splits if_splits)
  then show ?thesis by (simp add: D_def)
qed

end
