(* ===== verification/Send_Many.thy ===== *)
theory Send_Many
  imports Sync_Status Async_Op Send_Check Keystore
begin

text \<open>
  The method \<open>z_sendmany\<close> from the request to the broadcast (\<open>json_rpc/methods.rs\<close>,
  \<open>methods/z_send_many.rs\<close>): the gate of the sync status, the queue of operations, the choice of
  the source of funds, the proposal, the spending key out of the keystore, and the future that
  builds, verifies and sends the transactions. It puts the components of the other theories
  together; what belongs to other crates is in the record below.
\<close>

section \<open>Errors of the keystore as a method sees them\<close>

text \<open>The text of the wallet's error type (\<open>error.rs\<close>): the text of its context, and two lines for the
  reader.\<close>

definition error_display :: "(string \<Rightarrow> string) \<Rightarrow> string \<Rightarrow> string" where
  "error_display fl context_text =
     context_text @ [CHR 0x0A] @ [CHR 0x0A] @
     ''[ '' @ fl ''err-ux-A'' @ '' ]'' @ [CHR 0x0A] @
     ''[ '' @ fl ''err-ux-B'' @ '': https://github.com/zcash/zallet/issues '' @ fl ''err-ux-C'' @ '' ]''"

text \<open>The context of an error prints through its crate and is an argument; every error the
  decryption raises is of the generic kind.\<close>

record err_texts =
  fl_text :: "string \<Rightarrow> string"
  context_display :: "ks_error \<Rightarrow> string"

definition keystore_failure :: "err_texts \<Rightarrow> ks_error \<Rightarrow> keystore_error" where
  "keystore_failure T e = \<lparr>ke_generic = True, ke_text = error_display (fl_text T) (context_display T e)\<rparr>"

definition seed_error :: "keystore_error \<Rightarrow> rpc_error" where
  "seed_error e =
     (if ke_generic e \<and> ke_text e = ''Wallet is locked''
      then with_message WalletUnlockNeeded (Text (ke_text e))
      else with_message Database (Text (ke_text e)))"

definition raise_seed_error :: "err_texts \<Rightarrow> ks_error fault \<Rightarrow> rpc_error fault" where
  "raise_seed_error T e =
     (case e of Panic m \<Rightarrow> Panic m | Raise e \<Rightarrow> Raise (seed_error (keystore_failure T e)))"

section \<open>The call\<close>

definition legacy_pool_spend_policy :: SpendPolicy where
  "legacy_pool_spend_policy = (shielded_pools [])\<lparr>sp_transparent := Some AnyAccountAddr\<rparr>"

record ('zaddr, 'req, 'cp, 'acct, 'i, 'rcpt, 'usk, 'script) sender =
  sd_request :: "('zaddr, 'req) request_env"
  sd_propose :: "AccountUuid \<Rightarrow> ('zaddr, 'req, 'cp) propose_env"
  sd_accounts :: "'acct account_db"
  sd_account_id :: "'acct \<Rightarrow> AccountUuid"
  sd_decode :: "string \<Rightarrow> Address option"
  sd_new_symmetrical :: "u32 \<Rightarrow> bool \<Rightarrow> 'cp"
  sd_configured :: "unit + 'cp"
  sd_legacy_seed_fp :: "SeedFingerprint option"
  sd_fp_str :: "SeedFingerprint \<Rightarrow> string"
  sd_actions_limit :: nat
  sd_crypto :: "('i, 'rcpt) crypto"
  sd_conn :: "string option"
  sd_texts :: err_texts
  sd_usk_from_seed :: "u8 list \<Rightarrow> u32 \<Rightarrow> string + 'usk"
  sd_receivers :: "AccountUuid \<Rightarrow> string + (TransparentAddress \<times> TransparentAddressSource) list"
  sd_public_key :: "u8 list \<Rightarrow> string + u8 list"
  sd_imported_pubkey :: "TransparentAddress \<Rightarrow> u8 list option"
  sd_step_scripts :: "'zaddr Payment Step \<Rightarrow> 'script list"
  sd_script_address :: "'script \<Rightarrow> TransparentAddress option"

text \<open>What the future is handed: the account, the keys and the proposal.\<close>

record ('zaddr, 'usk) send_job =
  job_account :: AccountUuid
  job_usk :: 'usk
  job_standalone :: "TransparentAddress \<rightharpoonup> u8 list list"
  job_proposal :: "'zaddr Payment Step list"

abbreviation raising :: "rpc_error + 'a \<Rightarrow> rpc_error fault + 'a" where
  "raising r \<equiv> map_err Raise r"

definition select_source ::
    "('zaddr, 'req, 'cp, 'acct, 'i, 'rcpt, 'usk, 'script) sender \<Rightarrow> string \<Rightarrow> rpc_error fault + 'acct \<times> SpendPolicy" where
  "select_source E fromaddress =
     (if fromaddress = ''ANY_TADDR''
      then rbind (raising (get_legacy_pool_account (sd_fp_str E) (sd_legacy_seed_fp E) (sd_accounts E))) (\<lambda>account.
        Inr (account, legacy_pool_spend_policy))
      else
        rbind (raising (ok_or (with_static InvalidAddressOrKey
          (''Invalid from address: should be a taddr, zaddr, UA, or the string '' @ [CHR 0x27] @ ''ANY_TADDR'' @ [CHR 0x27] @ ''.''))
          (sd_decode E fromaddress))) (\<lambda>address.
        rbind (get_account_for_address (sd_accounts E) address) (\<lambda>account.
          Inr (account, spend_policy_for address))))"

definition recipients_error :: "nat \<Rightarrow> nat \<Rightarrow> rpc_error" where
  "recipients_error recipients actions_limit =
     with_message Misc (Fl ''err-excess-recipients''
       [(''count'', show_nat recipients), (''limit'', show_nat actions_limit),
        (''config'', ''-orchardactionlimit=N''), (''bound'', ''N >= %u'')])"

definition decrypt_standalone ::
    "('zaddr, 'req, 'cp, 'acct, 'i, 'rcpt, 'usk, 'script) sender \<Rightarrow> 'i KeyStore \<Rightarrow> TransparentAddress \<Rightarrow>
     keystore_error + u8 list" where
  "decrypt_standalone E ks address =
     (case fst (decrypt_standalone_transparent_key (sd_crypto E) (sd_public_key E) (sd_imported_pubkey E)
              (sd_conn E) address ks) of
        Inr key \<Rightarrow> Inr key
      | Inl (Raise e) \<Rightarrow> Inl (keystore_failure (sd_texts E) e)
      | Inl (Panic m) \<Rightarrow> Inl \<lparr>ke_generic = False, ke_text = m\<rparr>)"

text \<open>The spending key of an account: the seed its derivation names, and the key at its index.\<close>

definition account_usk ::
    "('zaddr, 'req, 'cp, 'acct, 'i, 'rcpt, 'usk, 'script) sender \<Rightarrow> 'i KeyStore \<Rightarrow> SeedFingerprint \<times> u32 \<Rightarrow>
     rpc_error fault + 'usk" where
  "account_usk E ks derivation =
     rbind (map_err (raise_seed_error (sd_texts E))
       (fst (decrypt_seed (sd_crypto E) (sd_conn E) (fst derivation) ks))) (\<lambda>seed.
     raising (map_err (\<lambda>e. with_message InvalidAddressOrKey (Text e))
       (sd_usk_from_seed E seed (snd derivation))))"

definition z_send_many_call ::
    "('zaddr, 'req, 'cp, 'acct, 'i, 'rcpt, 'usk, 'script) sender \<Rightarrow> 'i KeyStore \<Rightarrow> string \<Rightarrow> AmountParameter list \<Rightarrow>
     u32 option \<Rightarrow> JsonValue option \<Rightarrow> string option \<Rightarrow> rpc_error fault + ('zaddr, 'usk) send_job" where
  "z_send_many_call E ks fromaddress amounts minconf fee privacy_policy =
     (if fee \<noteq> None
      then Inl (Raise (with_static InvalidParameter
        ''Zallet always calculates fees internally; the fee field must be null.''))
      else
      rbind (raising (build_request (sd_request E) amounts)) (\<lambda>request.
      rbind (select_source E fromaddress) (\<lambda>(account, spend_policy).
      rbind (raising (parse_privacy_policy privacy_policy)) (\<lambda>policy.
      if length amounts > sd_actions_limit E
      then Inl (Raise (recipients_error (length amounts) (sd_actions_limit E)))
      else
      rbind (raising (confirmations_policy_for_minconf (sd_new_symmetrical E) (sd_configured E) minconf)) (\<lambda>confirmations_policy.
      rbind (propose_and_check (sd_propose E (sd_account_id E account)) request policy confirmations_policy spend_policy) (\<lambda>proposal.
      rbind (raising (ok_or (with_message InvalidAddressOrKey (Fl ''err-from-address-no-payment-source'' []))
               (key_derivation (sd_accounts E) account))) (\<lambda>derivation.
      rbind (account_usk E ks derivation) (\<lambda>usk.
      rbind (raising (collect_standalone_transparent_keys (sd_receivers E (sd_account_id E account)) (decrypt_standalone E ks)
               (sd_script_address E) (map (sd_step_scripts E) proposal))) (\<lambda>standalone_keys.
        Inr \<lparr>job_account = sd_account_id E account, job_usk = usk, job_standalone = standalone_keys,
             job_proposal = proposal\<rparr>)))))))))"

section \<open>The future\<close>

text \<open>\<open>create_proposed_transactions\<close> builds and stores the transactions; \<open>txs\<close> is the wallet and the
  chain afterwards. The account's key the outputs are checked against is the transparent part of
  the viewing key of the spending key.\<close>

definition z_send_many_run ::
    "(('zaddr, 'usk) send_job \<Rightarrow> string + TxId list) \<Rightarrow> ('usk \<Rightarrow> 'pk option) \<Rightarrow>
     (AccountUuid \<Rightarrow> ('zaddr, 'tx, 'pk, 'pub) send_env) \<Rightarrow> ('zaddr, 'usk) send_job \<Rightarrow> ('tx list, rpc_error, SendResult) sr" where
  "z_send_many_run create_proposed_transactions account_pubkey txs job =
     sbind (slift (map_err (\<lambda>e. with_message Wallet (Text (''Failed to propose transaction: '' @ e)))
              (create_proposed_transactions job))) (\<lambda>txids.
     verify_and_broadcast_transactions
       ((txs (job_account job))\<lparr>se_account_pubkey := account_pubkey (job_usk job)\<rparr>) (job_proposal job) txids)"

section \<open>The method\<close>

text \<open>The gate, the capacity check, the handle on the database (which may not be had), the call, and
  the insertion of the future into the queue.\<close>

definition insert_job :: "'v AsyncOperation \<Rightarrow> 'j \<Rightarrow> ('v OperationQueue, rpc_error fault, OperationId \<times> 'j) sr" where
  "insert_job op job =
     (\<lambda>q. case queue_insert op q of (Inl e, q) \<Rightarrow> (Inl (Raise e), q) | (Inr opid, q) \<Rightarrow> (Inr (opid, job), q))"

definition z_send_many ::
    "('zaddr, 'req, 'cp, 'acct, 'i, 'rcpt, 'usk, 'script) sender \<Rightarrow> u32 \<Rightarrow> SyncSignals \<Rightarrow> bool \<Rightarrow> 'i KeyStore \<Rightarrow>
     OperationId \<Rightarrow> int \<Rightarrow> 'v \<Rightarrow> string \<Rightarrow> AmountParameter list \<Rightarrow> u32 option \<Rightarrow> JsonValue option \<Rightarrow> string option \<Rightarrow>
     ('v OperationQueue, rpc_error fault, OperationId \<times> ('zaddr, 'usk) send_job) sr" where
  "z_send_many E tolerance signals handle ks opid now params fromaddress amounts minconf fee privacy_policy =
     sbind (slift (raising (ensure_available tolerance signals))) (\<lambda>_.
     sbind (\<lambda>q. (raising (check_capacity q), q)) (\<lambda>_.
     sbind (if handle then sret () else sfail (Raise (rpc_error_of InternalError))) (\<lambda>_.
     sbind (slift (z_send_many_call E ks fromaddress amounts minconf fee privacy_policy)) (\<lambda>job.
       insert_job (new_operation opid (Some (''z_sendmany'', params)) now) job))))"

section \<open>A locked wallet\<close>

lemma error_display_not_locked: "error_display fl t \<noteq> ''Wallet is locked''"
proof
  assume "error_display fl t = ''Wallet is locked''"
  moreover have "CHR 0x0A \<in> set (error_display fl t)" by (simp add: error_display_def)
  ultimately show False by simp
qed

lemma decrypt_seed_locked:
  assumes "is_locked ks"
  shows "decrypt_seed A conn fp ks = (Inl locked_error, ks)"
  using assms
  by (simp add: is_locked_def decrypt_seed_def decrypt_mnemonic_def unlocked_identities_def sbind_def sget_def sfail_def)

lemma decrypt_standalone_transparent_key_locked:
  assumes "is_locked ks"
  shows "decrypt_standalone_transparent_key A pk ip conn address ks = (Inl locked_error, ks)"
  using assms
  by (simp add: is_locked_def decrypt_standalone_transparent_key_def unlocked_identities_def sbind_def sget_def sfail_def)

text \<open>When the keystore is locked the key of an account is refused with the code for a database error,
  and so is a standalone key: the text of the error never equals the one the code compares it
  with, so that no client is told to unlock the wallet.\<close>

theorem locked_wallet_reported_as_database_error:
  assumes "is_locked ks"
  shows "\<exists>e. account_usk E ks derivation = Inl (Raise e) \<and> err_code e = Legacy Database \<and>
    (\<exists>ke. decrypt_standalone E ks address = Inl ke \<and> err_code (standalone_key_error ke) = Legacy Database)"
  by (simp add: account_usk_def decrypt_seed_locked [OF assms] decrypt_standalone_def
      decrypt_standalone_transparent_key_locked [OF assms] locked_error_def ks_raise_def raise_seed_error_def
      seed_error_def standalone_key_error_def keystore_failure_def error_display_not_locked)

section \<open>Nothing is sent without the checks\<close>

lemma decrypt_seed_Inr:
  assumes "fst (decrypt_seed A conn fp ks) = Inr seed"
  shows "\<not> is_locked ks \<and> from_seed A seed = Some fp"
proof -
  obtain t where "decrypt_seed A conn fp ks = (Inr seed, t)" using assms by (metis prod.collapse)
  then show ?thesis
    by (auto simp: decrypt_seed_def decrypt_mnemonic_Inr sr_simps result_simps is_locked_def)
qed

lemma account_usk_Inr:
  "account_usk E ks derivation = Inr usk \<Longrightarrow>
   \<exists>seed. \<not> is_locked ks \<and> from_seed (sd_crypto E) seed = Some (fst derivation) \<and>
     sd_usk_from_seed E seed (snd derivation) = Inr usk"
  by (auto simp: account_usk_def result_simps dest: decrypt_seed_Inr)

text \<open>Whose funds a transfer may draw on: those of the legacy pool of the configured seed, or those
  the source address names, of the account that has it.\<close>

definition source_of ::
    "('zaddr, 'req, 'cp, 'acct, 'i, 'rcpt, 'usk, 'script) sender \<Rightarrow> string \<Rightarrow> 'acct \<Rightarrow> SpendPolicy \<Rightarrow> bool" where
  "source_of E fromaddress account spend_policy \<longleftrightarrow>
     (if fromaddress = ''ANY_TADDR''
      then spend_policy = \<lparr>sp_shielded = [], sp_transparent = Some AnyAccountAddr\<rparr> \<and>
        (\<exists>fp. sd_legacy_seed_fp E = Some fp \<and> key_derivation (sd_accounts E) account = Some (fp, ZCASH_LEGACY_ACCOUNT))
      else \<exists>address. sd_decode E fromaddress = Some address \<and> spend_policy = spend_policy_for address \<and>
        (\<exists>i. adb_account (sd_accounts E) i = Inr (Some account) \<and>
          (find_account_for_address (sd_accounts E) address = Inr (Some i) \<or>
           (\<exists>addresses. list_addresses (sd_accounts E) i = Inr addresses \<and> address \<in> set addresses))))"

lemma present_account_Inr: "present_account db i = Inr account \<longleftrightarrow> adb_account db i = Inr (Some account)"
  by (auto simp: present_account_def result_simps)

lemma scan_accounts_Inr:
  "scan_accounts db address ids = Inr account \<Longrightarrow>
   \<exists>i addresses. adb_account db i = Inr (Some account) \<and> list_addresses db i = Inr addresses \<and> address \<in> set addresses"
  by (induction ids) (auto simp: result_simps present_account_Inr split: if_splits)

lemma get_account_for_address_Inr:
  "get_account_for_address db address = Inr account \<Longrightarrow>
   \<exists>i. adb_account db i = Inr (Some account) \<and>
     (find_account_for_address db address = Inr (Some i) \<or>
      (\<exists>addresses. list_addresses db i = Inr addresses \<and> address \<in> set addresses))"
  by (auto simp: get_account_for_address_def result_simps present_account_Inr split: option.splits dest!: scan_accounts_Inr)

lemma select_source_Inr:
  "select_source E fromaddress = Inr (account, spend_policy) \<Longrightarrow> source_of E fromaddress account spend_policy"
  by (auto simp: select_source_def source_of_def result_simps get_legacy_pool_account_def legacy_pool_spend_policy_def
      split: if_splits dest: legacy_pool_account_sound get_account_for_address_Inr)

text \<open>What a job that came out of a call has behind it.\<close>

definition job_checked ::
    "('zaddr, 'req, 'cp, 'acct, 'i, 'rcpt, 'usk, 'script) sender \<Rightarrow> 'i KeyStore \<Rightarrow> string \<Rightarrow> AmountParameter list \<Rightarrow>
     u32 option \<Rightarrow> PrivacyPolicy \<Rightarrow> ('zaddr, 'usk) send_job \<Rightarrow> bool" where
  "job_checked E ks fromaddress amounts minconf policy job \<longleftrightarrow>
     (\<exists>request account spend_policy cp fp idx seed.
        build_request (sd_request E) amounts = Inr request \<and> length amounts \<le> sd_actions_limit E \<and>
        source_of E fromaddress account spend_policy \<and> job_account job = sd_account_id E account \<and>
        confirmations_policy_for_minconf (sd_new_symmetrical E) (sd_configured E) minconf = Inr cp \<and>
        propose_transfer (sd_propose E (job_account job)) request cp spend_policy (transparent_change_policy_for spend_policy)
          = Inr (job_proposal job) \<and>
        \<Union> (step_reveals ` set (job_proposal job)) \<subseteq> permits policy \<and>
        list_all (within_limits (orchard_actions (sd_propose E (job_account job)))) (job_proposal job) \<and>
        key_derivation (sd_accounts E) account = Some (fp, idx) \<and> \<not> is_locked ks \<and>
        from_seed (sd_crypto E) seed = Some fp \<and> sd_usk_from_seed E seed idx = Inr (job_usk job))"

lemma z_send_many_call_Inr:
  assumes "z_send_many_call E ks fromaddress amounts minconf fee privacy_policy = Inr job"
  shows "\<exists>policy. fee = None \<and> parse_privacy_policy privacy_policy = Inr policy \<and>
    job_checked E ks fromaddress amounts minconf policy job"
proof -
  from assms obtain request account spend_policy policy cp proposal derivation usk
    where "fee = None" "build_request (sd_request E) amounts = Inr request"
      and source: "select_source E fromaddress = Inr (account, spend_policy)"
      and "parse_privacy_policy privacy_policy = Inr policy" "length amounts \<le> sd_actions_limit E"
      and "confirmations_policy_for_minconf (sd_new_symmetrical E) (sd_configured E) minconf = Inr cp"
      and proposal: "propose_and_check (sd_propose E (sd_account_id E account)) request policy cp spend_policy = Inr proposal"
      and "key_derivation (sd_accounts E) account = Some derivation"
      and usk: "account_usk E ks derivation = Inr usk"
      and "job_account job = sd_account_id E account" "job_usk job = usk" "job_proposal job = proposal"
    by (auto simp: z_send_many_call_def result_simps split: if_splits)
  with select_source_Inr [OF source] propose_and_check_Inr [OF proposal] account_usk_Inr [OF usk] show ?thesis
    by (cases derivation) (simp add: job_checked_def, blast)
qed

lemma insert_job_Inr: "insert_job op job q = (Inr (opid, job'), q') \<longleftrightarrow> job' = job \<and> queue_insert op q = (Inr opid, q')"
  by (auto simp: insert_job_def split: prod.splits sum.splits)

text \<open>C20: A future that hands a transaction to the chain came out of a method call that found the wallet
  synced, not recovering and within the tolerance of the tip; it pays the requested amounts from
  the named source alone, reveals no more than the policy permits and stays within the action
  limit; the keystore was unlocked and the spending key is that of the seed the account's
  derivation names; and every transaction of the proposal was verified against that key before
  the first was sent.\<close>

theorem z_send_many_sends_only_checked:
  assumes "z_send_many E tolerance signals handle ks opid now params fromaddress amounts minconf fee privacy_policy q
      = (Inr (opid', job), q')"
    and "z_send_many_run create account_pubkey txs job [] = (r, sent)" and "sent \<noteq> []"
  shows "sig_recovering signals = None \<and> sig_tip_reached signals \<and>
    (\<exists>fs. sig_fully_synced signals = Some fs \<and> unat (sig_tip signals) \<le> unat fs + unat tolerance) \<and>
    (\<exists>policy. parse_privacy_policy privacy_policy = Inr policy \<and> job_checked E ks fromaddress amounts minconf policy job) \<and>
    broadcast_enabled (txs (job_account job)) \<and>
    (\<exists>txids expected built rest. create job = Inr txids \<and>
       proposed_transparent_payments (se_resolve (txs (job_account job))) (job_proposal job) = Inr expected \<and>
       length txids = length expected \<and>
       list_all2 (verified ((txs (job_account job))\<lparr>se_account_pubkey := account_pubkey (job_usk job)\<rparr>))
         (zip txids expected) built \<and>
       built = sent @ rest \<and> (is_ok r \<longrightarrow> rest = []))"
proof -
  from assms(1) have "is_ok (ensure_available tolerance signals)"
      and call: "z_send_many_call E ks fromaddress amounts minconf fee privacy_policy = Inr job"
    by (auto simp: z_send_many_def sr_simps insert_job_Inr result_simps is_ok_iff)
  then have gate: "sig_recovering signals = None \<and> sig_tip_reached signals \<and>
      (\<exists>fs. sig_fully_synced signals = Some fs \<and> unat (sig_tip signals) \<le> unat fs + unat tolerance)"
    by (simp add: is_ok_ensure_available)
  let ?S = "(txs (job_account job))\<lparr>se_account_pubkey := account_pubkey (job_usk job)\<rparr>"
  from assms(2,3) obtain txids where "create job = Inr txids"
      and sends: "verify_and_broadcast_transactions ?S (job_proposal job) txids [] = (r, sent)"
    by (auto simp: z_send_many_run_def sbind_def slift_def result_simps split: sum.splits)
  with verify_and_broadcast_cases [OF sends] assms(3) gate z_send_many_call_Inr [OF call] show ?thesis
    by (auto split: if_splits)
qed

section \<open>Instances\<close>

definition example_requests :: "(Address, nat) request_env" where
  "example_requests = \<lparr>parse_address = (\<lambda>_. Some (AddrTex [9])), hex_decode = (\<lambda>_. Some []), memo_from_bytes = Some,
     from_nonnegative_i64 = example_zatoshis, zat_add = (\<lambda>a b. Some (a + b)),
     payment_new = (\<lambda>a v m. Inr \<lparr>pay_recipient = a, pay_amount = v, pay_memo = m\<rparr>),
     request_new = (\<lambda>ps. Inr (length ps))\<rparr>"

definition example_proposals :: "(Address, nat, nat) propose_env" where
  "example_proposals = example_propose_env\<lparr>propose_transfer := (\<lambda>_ _ _ _. Inr [example_step])\<rparr>"

definition example_unlocked :: "nat KeyStore" where
  "example_unlocked = example_keystore\<lparr>identities := [0], mnemonics := [[5] \<mapsto> ([1, 5], False)]\<rparr>"

definition example_sender :: "(Address, nat, nat, unit, nat, nat, nat, unit) sender" where
  "example_sender =
     \<lparr>sd_request = example_requests, sd_propose = (\<lambda>_. example_proposals),
      sd_accounts = \<lparr>find_account_for_address = (\<lambda>_. Inr (Some ''a'')), adb_account_ids = Inr [''a''],
        adb_account = (\<lambda>_. Inr (Some ())), list_addresses = (\<lambda>_. Inr []), key_derivation = (\<lambda>_. Some ([5], 0))\<rparr>,
      sd_account_id = (\<lambda>_. ''a''), sd_decode = (\<lambda>_. Some (AddrTransparent (PublicKeyHash [1]))),
      sd_new_symmetrical = (\<lambda>_ _. 0), sd_configured = Inr 0, sd_legacy_seed_fp = None, sd_fp_str = (\<lambda>_. []),
      sd_actions_limit = 50, sd_crypto = example_crypto, sd_conn = None,
      sd_texts = \<lparr>fl_text = (\<lambda>s. s), context_display = (\<lambda>_. [])\<rparr>,
      sd_usk_from_seed = (\<lambda>_ _. Inr 0), sd_receivers = (\<lambda>_. Inr []), sd_public_key = Inr,
      sd_imported_pubkey = (\<lambda>_. None), sd_step_scripts = (\<lambda>_. []), sd_script_address = (\<lambda>_. None)\<rparr>"

definition example_job :: "(Address, nat) send_job" where
  "example_job = \<lparr>job_account = ''a'', job_usk = 0, job_standalone = Map.empty, job_proposal = [example_step]\<rparr>"

definition example_signals :: SyncSignals where
  "example_signals = \<lparr>sig_tip = 5, sig_fully_synced = Some 5, sig_tip_reached = True, sig_recovering = None\<rparr>"

lemma example_seed: "fst (decrypt_seed example_crypto None [5] example_unlocked) = Inr [5]"
  using example_stored by (simp add: decrypt_seed_def sbind_def example_unlocked_def slift_def example_crypto_def)

lemma example_usk: "account_usk example_sender example_unlocked ([5], 0) = Inr 0"
  using example_seed by (simp add: account_usk_def example_sender_def)

lemma example_request: "build_request example_requests [example_amount_to ''t''] = Inr 1"
  using example_amount by (simp add: build_request_def example_requests_def transpose_memo_def)

lemma example_proposal: "propose_and_check example_proposals 1 NoPrivacy 0 p = Inr [example_step]"
proof -
  have "is_ok (enforce_privacy_policy [example_step] NoPrivacy)"
    unfolding enforce_reveals by (auto intro: disclosure.exhaust)
  moreover have "is_ok (check_shielded_action_limits [example_step] 50)"
    by (simp add: check_limits_ok within_limits_def pool_spends_def pool_outputs_def example_step_def list_all_iff)
  ultimately show ?thesis
    by (auto simp: propose_and_check_def example_proposals_def example_propose_env_def Let_def is_ok_iff result_simps
        simp del: enforce_privacy_policy.simps)
qed

lemma example_send_many_call:
  "z_send_many_call example_sender example_unlocked ''t1'' [example_amount_to ''t''] None None (Some ''NoPrivacy'') = Inr example_job"
  using example_request example_proposal example_usk
  by (simp add: z_send_many_call_def select_source_def parse_privacy_policy_def policy_from_str_def example_sender_def
      confirmations_policy_for_minconf_def get_account_for_address_def present_account_def
      collect_standalone_transparent_keys_def example_job_def)

lemma example_send_many:
  "\<exists>q. z_send_many example_sender 0 example_signals True example_unlocked ''op'' 0 () ''t1'' [example_amount_to ''t''] None None
     (Some ''NoPrivacy'') (queue_new 1) = (Inr (''op'', example_job), q)"
  using example_send_many_call
  by (auto simp: z_send_many_def sr_simps insert_job_Inr result_simps ensure_available_def status_def example_signals_def
      saturating_sub_def check_capacity_def queue_new_def queue_insert_def insert_locked_def new_operation_def)

theorem z_send_many_sends_only_checked_witness:
  "\<exists>r sent. z_send_many_run (\<lambda>_. Inr [[1]]) (\<lambda>_. Some 0) (\<lambda>_. example_send_env) example_job [] = (r, sent) \<and>
     sent = [7] \<and> job_checked example_sender example_unlocked ''t1'' [example_amount_to ''t''] None NoPrivacy example_job"
proof -
  obtain q where queued: "z_send_many example_sender 0 example_signals True example_unlocked ''op'' 0 () ''t1''
      [example_amount_to ''t''] None None (Some ''NoPrivacy'') (queue_new 1) = (Inr (''op'', example_job), q)"
    using example_send_many by blast
  have same: "example_send_env\<lparr>se_account_pubkey := Some 0\<rparr> = example_send_env" by (simp add: example_send_env_def)
  have sends: "z_send_many_run (\<lambda>_. Inr [[1]]) (\<lambda>_. Some 0) (\<lambda>_. example_send_env) example_job [] =
      (Inr \<lparr>sr_txid = Some [], sr_txids = [[]], sr_broadcast = True\<rparr>, [7])"
    using example_send same by (simp add: z_send_many_run_def sbind_def slift_def example_job_def)
  show ?thesis
    using z_send_many_sends_only_checked [OF queued sends] sends
    by (auto simp: parse_privacy_policy_def policy_from_str_def)
qed

theorem locked_wallet_reported_as_database_error_witness:
  "\<exists>e. account_usk example_sender example_keystore ([5], 0) = Inl (Raise e) \<and> err_code e = Legacy Database"
proof -
  have "is_locked example_keystore" by (simp add: is_locked_def example_keystore_def)
  from locked_wallet_reported_as_database_error [OF this] show ?thesis by blast
qed

end
