(* ===== verification/Shield_Coinbase.thy ===== *)
theory Shield_Coinbase
  imports Send_Many
begin

text \<open>
  The method \<open>z_shieldcoinbase\<close> (\<open>methods/z_shieldcoinbase.rs\<close>, and its entry in \<open>methods.rs\<close>):
  which funds are swept, what may be revealed by it, the figures reported before the operation is
  queued, and the future. The selection of coinbase outputs is that of the backend crate.
\<close>

section \<open>The source\<close>

datatype FromAddressInput = FromAccountUuid AccountUuid | FromTransparentAddress TransparentAddress

text \<open>The parsers, printers and database answers the method relies on. An unspent output is its value;
  a proposal comes with its target height.\<close>

record ('zaddr, 'th, 'z) shield_env =
  sc_parse_uuid :: "string \<Rightarrow> AccountUuid option"
  sc_parse_zaddr :: "string \<Rightarrow> 'zaddr option"
  sc_debug :: "string \<Rightarrow> string"
  sc_debug_taddr :: "TransparentAddress \<Rightarrow> string"
  sc_uuid_str :: "AccountUuid \<Rightarrow> string"
  sc_debug_uuid :: "AccountUuid \<Rightarrow> string"
  sc_receivers :: "AccountUuid \<Rightarrow> string + TransparentAddress list"
  sc_propose ::
    "TransparentAddress list \<Rightarrow> 'zaddr \<Rightarrow> u8 list option \<Rightarrow> nat option \<Rightarrow> string + 'zaddr Payment Step list \<times> 'th"
  sc_inputs :: "'zaddr Payment Step \<Rightarrow> Zatoshis list"
  sc_spendable :: "TransparentAddress \<Rightarrow> 'th \<Rightarrow> string + Zatoshis list"
  sc_add :: "Zatoshis \<Rightarrow> Zatoshis \<Rightarrow> Zatoshis option"
  sc_sub :: "Zatoshis \<Rightarrow> Zatoshis \<Rightarrow> Zatoshis option"
  sc_pool_display :: "PoolType \<Rightarrow> string"
  sc_actions_limit :: nat
  sc_value :: "Zatoshis \<Rightarrow> 'z"

definition parse_fromaddress ::
    "('zaddr, 'th, 'z) shield_env \<Rightarrow> (string \<Rightarrow> Address option) \<Rightarrow> string \<Rightarrow> rpc_error + FromAddressInput" where
  "parse_fromaddress S decode fromaddress =
     (if fromaddress = ''*''
      then Inl (with_static InvalidParameter
        (''Invalid `fromaddress`: the `'' @ [CHR 0x22] @ ''*'' @ [CHR 0x22] @
         ''` wildcard (sweep all wallet t-addrs) is not supported by Zallet. Pass either a wallet-owned transparent address or an account UUID to scope the sweep.''))
      else case sc_parse_uuid S fromaddress of
        Some uuid \<Rightarrow> Inr (FromAccountUuid uuid)
      | None \<Rightarrow>
          (case decode fromaddress of
             Some (AddrTransparent addr) \<Rightarrow> Inr (FromTransparentAddress addr)
           | Some _ \<Rightarrow> Inl (with_message InvalidAddressOrKey (Text
               (''Invalid `fromaddress`: only transparent addresses are accepted (got a non-transparent Zcash address): '' @ fromaddress)))
           | None \<Rightarrow> Inl (with_message InvalidParameter (Text
               (''Invalid `fromaddress`: expected a wallet-owned transparent address or an account UUID, got '' @ sc_debug S fromaddress)))))"

definition resolve_fromaddress_input ::
    "('zaddr, 'th, 'z) shield_env \<Rightarrow> 'acct account_db \<Rightarrow> FromAddressInput \<Rightarrow>
     rpc_error + AccountUuid \<times> TransparentAddress list" where
  "resolve_fromaddress_input S db from_input =
     (case from_input of
        FromAccountUuid uuid \<Rightarrow>
          rbind (map_err database_error (adb_account db uuid)) (\<lambda>found.
          if found = None
          then Inl (with_message InvalidParameter (Text (''Unknown account UUID: '' @ sc_uuid_str S uuid)))
          else rbind (map_err database_error (sc_receivers S uuid)) (\<lambda>from_addrs. Inr (uuid, from_addrs)))
      | FromTransparentAddress addr \<Rightarrow>
          rbind (map_err database_error (find_account_for_address db (AddrTransparent addr))) (\<lambda>found.
          rbind (ok_or (with_message InvalidAddressOrKey (Text
            (''Transparent address is not owned by any account in this wallet: '' @ sc_debug_taddr S addr))) found) (\<lambda>owner.
            Inr (owner, [addr]))))"

definition shield_privacy_policy ::
    "('zaddr, 'th, 'z) shield_env \<Rightarrow> string option \<Rightarrow> FromAddressInput \<Rightarrow> rpc_error + PrivacyPolicy" where
  "shield_privacy_policy S privacy_policy from_input =
     (case privacy_policy of
        None \<Rightarrow> Inr (case from_input of
            FromTransparentAddress _ \<Rightarrow> AllowRevealedSenders
          | FromAccountUuid _ \<Rightarrow> AllowLinkingAccountAddresses)
      | Some s \<Rightarrow>
          if s = ''AllowRevealedSenders'' then Inr AllowRevealedSenders
          else if s = ''AllowLinkingAccountAddresses'' then Inr AllowLinkingAccountAddresses
          else Inl (with_message InvalidParameter (Text
            (''Invalid privacy_policy '' @ sc_debug S s @ '' for z_shieldcoinbase: only '' @
             [CHR 0x22] @ ''AllowRevealedSenders'' @ [CHR 0x22] @ '' and '' @
             [CHR 0x22] @ ''AllowLinkingAccountAddresses'' @ [CHR 0x22] @
             '' are accepted, because coinbase shielding always reveals the source transparent address(es).''))))"

section \<open>The figures\<close>

fun sum_values :: "('zaddr, 'th, 'z) shield_env \<Rightarrow> string \<Rightarrow> Zatoshis list \<Rightarrow> Zatoshis \<Rightarrow> rpc_error + Zatoshis" where
  "sum_values S overflow [] acc = Inr acc"
| "sum_values S overflow (v # vs) acc =
     rbind (ok_or (with_static Wallet overflow) (sc_add S acc v)) (\<lambda>acc'. sum_values S overflow vs acc')"

text \<open>The count saturates, one input at a time.\<close>

fun count_inputs :: "'a list \<Rightarrow> 64 word \<Rightarrow> 64 word" where
  "count_inputs [] n = n"
| "count_inputs (x # xs) n = count_inputs xs (saturating_add n 1)"

definition sum_selected_inputs ::
    "('zaddr, 'th, 'z) shield_env \<Rightarrow> 'zaddr Payment Step list \<Rightarrow> rpc_error + 64 word \<times> Zatoshis" where
  "sum_selected_inputs S steps =
     (let utxos = concat (map (sc_inputs S) steps) in
      rbind (sum_values S ''Internal error: shielding value sum overflowed Zatoshis bounds.'' utxos 0) (\<lambda>sum.
        Inr (count_inputs utxos 0, sum)))"

fun eligible_loop ::
    "('zaddr, 'th, 'z) shield_env \<Rightarrow> 'th \<Rightarrow> TransparentAddress list \<Rightarrow> 64 word \<Rightarrow> Zatoshis \<Rightarrow>
     rpc_error + 64 word \<times> Zatoshis" where
  "eligible_loop S target_height [] total_utxos total_value = Inr (total_utxos, total_value)"
| "eligible_loop S target_height (addr # addrs) total_utxos total_value =
     rbind (map_err database_error (sc_spendable S addr target_height)) (\<lambda>utxos.
     rbind (sum_values S ''Internal error: total transparent value overflowed Zatoshis bounds.'' utxos total_value) (\<lambda>total_value.
       eligible_loop S target_height addrs (saturating_add total_utxos (of_nat (length utxos))) total_value))"

definition enumerate_eligible ::
    "('zaddr, 'th, 'z) shield_env \<Rightarrow> TransparentAddress list \<Rightarrow> 'th \<Rightarrow> rpc_error + 64 word \<times> Zatoshis" where
  "enumerate_eligible S from_addrs target_height = eligible_loop S target_height from_addrs 0 0"

record 'z Preflight =
  remaining_utxos :: "64 word"
  remaining_value :: 'z
  shielding_utxos :: "64 word"
  shielding_value :: 'z

definition make_preflight ::
    "('zaddr, 'th, 'z) shield_env \<Rightarrow> 'zaddr Payment Step list \<Rightarrow> TransparentAddress list \<Rightarrow> 'th \<Rightarrow> rpc_error + 'z Preflight" where
  "make_preflight S proposal from_addrs target_height =
     rbind (sum_selected_inputs S proposal) (\<lambda>(shielding_utxos, shielding_value_zats).
     rbind (enumerate_eligible S from_addrs target_height) (\<lambda>(total_utxos, total_value_zats).
     rbind (ok_or (with_static Wallet
       ''Internal accounting error: proposal selected more UTXOs than enumeration found (likely a chain race during shielding setup).'')
       (checked_sub total_utxos shielding_utxos)) (\<lambda>remaining_utxos.
     rbind (ok_or (with_static Wallet
       ''Internal accounting error: proposal value exceeds enumerated total (likely a chain race during shielding setup).'')
       (sc_sub S total_value_zats shielding_value_zats)) (\<lambda>remaining_value_zats.
       Inr \<lparr>remaining_utxos = remaining_utxos, remaining_value = sc_value S remaining_value_zats,
            shielding_utxos = shielding_utxos, shielding_value = sc_value S shielding_value_zats\<rparr>))))"

section \<open>The call\<close>

definition z_shieldcoinbase_call ::
    "('zaddr, 'req, 'cp, 'acct, 'i, 'rcpt, 'usk, 'script) sender \<Rightarrow> ('zaddr, 'th, 'z) shield_env \<Rightarrow> 'i KeyStore \<Rightarrow>
     string \<Rightarrow> string \<Rightarrow> JsonValue option \<Rightarrow> u32 option \<Rightarrow> string option \<Rightarrow> string option \<Rightarrow>
     rpc_error fault + 'z Preflight \<times> ('zaddr, 'usk) send_job" where
  "z_shieldcoinbase_call E S ks fromaddress toaddress fee utxo_limit memo privacy_policy =
     (if (case fee of None \<Rightarrow> False | Some v \<Rightarrow> v \<noteq> JNull)
      then Inl (Raise (with_static InvalidParameter
        ''Zallet always calculates fees internally; the fee field must be null.''))
      else
      rbind (raising (ok_or (with_message InvalidParameter (Text
        (''Invalid parameter, unknown address format: '' @ toaddress))) (sc_parse_zaddr S toaddress))) (\<lambda>to_zcash_address.
      rbind (raising (transpose_memo (sd_request E) memo)) (\<lambda>memo.
      rbind (raising (parse_fromaddress S (sd_decode E) fromaddress)) (\<lambda>from_input.
      rbind (raising (shield_privacy_policy S privacy_policy from_input)) (\<lambda>policy.
      rbind (raising (resolve_fromaddress_input S (sd_accounts E) from_input)) (\<lambda>(account_id, from_addrs).
      if from_addrs = []
      then Inl (Raise (with_static InvalidParameter ''No source transparent addresses resolved from `fromaddress`.''))
      else
      rbind (raising (map_err database_error (adb_account (sd_accounts E) account_id))) (\<lambda>found.
      rbind (raising (ok_or (with_message Database (Text (''Account vanished mid-call: '' @ sc_debug_uuid S account_id))) found)) (\<lambda>account.
      rbind (raising (map_err (\<lambda>e. with_message Wallet (Text (''Failed to propose shielding transaction: '' @ e)))
        (sc_propose S from_addrs to_zcash_address memo (map_option unat utxo_limit)))) (\<lambda>(proposal, target_height).
      rbind (map_err (\<lambda>e. Raise (incompatible_error (sc_pool_display S) e))
        (enforce_privacy_policy proposal policy)) (\<lambda>_.
      rbind (map_err (\<lambda>e. Raise (action_limit_error (sc_pool_display S) (sc_actions_limit S) e))
        (check_shielded_action_limits proposal (sc_actions_limit S))) (\<lambda>_.
      rbind (raising (make_preflight S proposal from_addrs target_height)) (\<lambda>preflight.
      rbind (raising (ok_or (with_message InvalidAddressOrKey (Text
        (''No payment source found for account '' @ sc_uuid_str S account_id @ ''.'')))
        (key_derivation (sd_accounts E) account))) (\<lambda>derivation.
      rbind (account_usk E ks derivation) (\<lambda>usk.
      rbind (raising (collect_standalone_transparent_keys (sd_receivers E account_id) (decrypt_standalone E ks)
               (sd_script_address E) (map (sd_step_scripts E) proposal))) (\<lambda>standalone_keys.
        Inr (preflight, \<lparr>job_account = account_id, job_usk = usk, job_standalone = standalone_keys,
             job_proposal = proposal\<rparr>))))))))))))))))"

definition z_shieldcoinbase_run ::
    "(('zaddr, 'usk) send_job \<Rightarrow> string + TxId list) \<Rightarrow> ('usk \<Rightarrow> 'pk option) \<Rightarrow>
     (AccountUuid \<Rightarrow> ('zaddr, 'tx, 'pk, 'pub) send_env) \<Rightarrow> ('zaddr, 'usk) send_job \<Rightarrow> ('tx list, rpc_error, SendResult) sr" where
  "z_shieldcoinbase_run create_proposed_transactions account_pubkey txs job =
     sbind (slift (map_err (\<lambda>e. with_message Wallet (Text (''Failed to build shielding transaction: '' @ e)))
              (create_proposed_transactions job))) (\<lambda>txids.
     verify_and_broadcast_transactions
       ((txs (job_account job))\<lparr>se_account_pubkey := account_pubkey (job_usk job)\<rparr>) (job_proposal job) txids)"

record 'z ShieldCoinbaseResult = "'z Preflight" +
  opid :: OperationId

definition shield_result :: "'z Preflight \<Rightarrow> OperationId \<Rightarrow> 'z ShieldCoinbaseResult" where
  "shield_result preflight op =
     \<lparr>remaining_utxos = remaining_utxos preflight, remaining_value = remaining_value preflight,
      shielding_utxos = shielding_utxos preflight, shielding_value = shielding_value preflight, opid = op\<rparr>"

definition z_shieldcoinbase ::
    "('zaddr, 'req, 'cp, 'acct, 'i, 'rcpt, 'usk, 'script) sender \<Rightarrow> ('zaddr, 'th, 'z) shield_env \<Rightarrow> u32 \<Rightarrow> SyncSignals \<Rightarrow>
     bool \<Rightarrow> 'i KeyStore \<Rightarrow> OperationId \<Rightarrow> int \<Rightarrow> 'v \<Rightarrow> string \<Rightarrow> string \<Rightarrow> JsonValue option \<Rightarrow> u32 option \<Rightarrow>
     string option \<Rightarrow> string option \<Rightarrow>
     ('v OperationQueue, rpc_error fault, 'z ShieldCoinbaseResult \<times> ('zaddr, 'usk) send_job) sr" where
  "z_shieldcoinbase E S tolerance signals handle ks new_opid now params fromaddress toaddress fee utxo_limit memo privacy_policy =
     sbind (slift (raising (ensure_available tolerance signals))) (\<lambda>_.
     sbind (\<lambda>q. (raising (check_capacity q), q)) (\<lambda>_.
     sbind (if handle then sret () else sfail (Raise (rpc_error_of InternalError))) (\<lambda>_.
     sbind (slift (z_shieldcoinbase_call E S ks fromaddress toaddress fee utxo_limit memo privacy_policy)) (\<lambda>(preflight, job).
     sbind (insert_job (new_operation new_opid (Some (''z_shieldcoinbase'', params)) now) job) (\<lambda>(op, job).
       sret (shield_result preflight op, job))))))"

section \<open>The figures are exact\<close>

lemma count_inputs_exact: "unat (count_inputs xs n) = min (unat n + length xs) (2 ^ 64 - 1)"
proof (induction xs arbitrary: n)
  case Nil
  have "unat n < 2 ^ 64" using unsigned_less [of n] by simp
  then show ?case by simp
next
  case (Cons x xs)
  then show ?case by (simp add: unat_saturating_add)
qed

lemma sum_values_Inr:
  assumes "zat_add_documented (sc_add S)" and "\<forall>v \<in> set vs. 0 \<le> v" and "0 \<le> acc"
    and "sum_values S overflow vs acc = Inr tot"
  shows "tot = acc + sum_list vs"
  using assms
proof (induction vs arbitrary: acc)
  case (Cons v vs)
  from Cons.prems(1-3) have add: "sc_add S acc v = (if acc + v \<le> MAX_MONEY then Some (acc + v) else None)"
    by (simp add: zat_add_documented_def)
  with Cons.prems(4) have "sum_values S overflow vs (acc + v) = Inr tot"
    by (auto simp: result_simps split: if_splits)
  with Cons.IH [of "acc + v"] Cons.prems show ?case by simp
qed simp

text \<open>The outputs at the source addresses that could be shielded.\<close>

definition eligible :: "('zaddr, 'th, 'z) shield_env \<Rightarrow> TransparentAddress list \<Rightarrow> 'th \<Rightarrow> Zatoshis list \<Rightarrow> bool" where
  "eligible S addrs th outputs \<longleftrightarrow>
     (\<exists>per_addr. list_all2 (\<lambda>addr vs. sc_spendable S addr th = Inr vs) addrs per_addr \<and> outputs = concat per_addr)"

lemma eligible_loop_Inr:
  assumes "zat_add_documented (sc_add S)" and "\<And>addr vs v. sc_spendable S addr th = Inr vs \<Longrightarrow> v \<in> set vs \<Longrightarrow> 0 \<le> v"
    and "0 \<le> value" and "eligible_loop S th addrs n value = Inr (n', value')"
    and "\<And>addr vs. sc_spendable S addr th = Inr vs \<Longrightarrow> length vs < 2 ^ 64"
  shows "\<exists>outputs. eligible S addrs th outputs \<and> unat n' = min (unat n + length outputs) (2 ^ 64 - 1) \<and>
    value' = value + sum_list outputs"
  using assms(3,4)
proof (induction addrs arbitrary: n "value")
  case Nil
  have "unat n < 2 ^ 64" using unsigned_less [of n] by simp
  with Nil show ?case by (auto simp: eligible_def)
next
  case (Cons addr addrs)
  then obtain utxos tot where u: "sc_spendable S addr th = Inr utxos"
    and s: "sum_values S ''Internal error: total transparent value overflowed Zatoshis bounds.'' utxos value = Inr tot"
    and rest: "eligible_loop S th addrs (saturating_add n (of_nat (length utxos))) tot = Inr (n', value')"
    by (auto simp: result_simps)
  have tot: "tot = value + sum_list utxos" using sum_values_Inr [OF assms(1) _ Cons.prems(1) s] assms(2) [OF u] by blast
  moreover have "0 \<le> sum_list utxos" using assms(2) [OF u] by (simp add: sum_list_nonneg)
  ultimately obtain outputs where o: "eligible S addrs th outputs"
    "unat n' = min (unat (saturating_add n (of_nat (length utxos))) + length outputs) (2 ^ 64 - 1)"
    "value' = tot + sum_list outputs"
    using Cons.IH [OF _ rest] Cons.prems(1) by auto
  have "unat (of_nat (length utxos) :: 64 word) = length utxos"
    using assms(5) [OF u] by (simp add: unat_of_nat)
  with o(2) have "unat n' = min (unat n + length (utxos @ outputs)) (2 ^ 64 - 1)"
    by (simp add: unat_saturating_add)
  moreover have "eligible S (addr # addrs) th (utxos @ outputs)"
    using o(1) u unfolding eligible_def by (auto simp: list_all2_Cons1)
  ultimately show ?case using o(3) tot by auto
qed

text \<open>What the database and the amounts are trusted with: values are amounts, an address has fewer
  than two to the 64 outputs.\<close>

definition shield_env_documented :: "('zaddr, 'th, 'z) shield_env \<Rightarrow> bool" where
  "shield_env_documented S \<longleftrightarrow>
     zat_add_documented (sc_add S) \<and> zat_sub_documented (sc_sub S) \<and>
     (\<forall>addr th vs. sc_spendable S addr th = Inr vs \<longrightarrow> length vs < 2 ^ 64 \<and> (\<forall>v \<in> set vs. 0 \<le> v)) \<and>
     (\<forall>step. \<forall>v \<in> set (sc_inputs S step). 0 \<le> v)"

definition figures_exact :: "('zaddr, 'th, 'z) shield_env \<Rightarrow> Zatoshis list \<Rightarrow> Zatoshis list \<Rightarrow> 'z Preflight \<Rightarrow> bool" where
  "figures_exact S selected outputs p \<longleftrightarrow>
     unat (shielding_utxos p) = length selected \<and> shielding_value p = sc_value S (sum_list selected) \<and>
     unat (remaining_utxos p) + length selected = length outputs \<and>
     sum_list selected \<le> sum_list outputs \<and> remaining_value p = sc_value S (sum_list outputs - sum_list selected)"

lemma eligible_nonneg:
  assumes "shield_env_documented S" "eligible S addrs th outputs" "v \<in> set outputs"
  shows "0 \<le> v"
proof -
  from assms(2,3) obtain per_addr vs where "list_all2 (\<lambda>addr vs. sc_spendable S addr th = Inr vs) addrs per_addr"
    "vs \<in> set per_addr" "v \<in> set vs"
    by (auto simp: eligible_def)
  from list_all2_set2_ex [OF this(1,2)] obtain addr where "sc_spendable S addr th = Inr vs" by blast
  with assms(1) \<open>v \<in> set vs\<close> show ?thesis unfolding shield_env_documented_def by blast
qed

lemma make_preflight_Inr:
  assumes "shield_env_documented S" and "make_preflight S proposal addrs th = Inr p"
  shows "\<exists>outputs. eligible S addrs th outputs \<and>
    (length outputs < 2 ^ 64 - 1 \<longrightarrow> figures_exact S (concat (map (sc_inputs S) proposal)) outputs p)"
proof -
  let ?sel = "concat (map (sc_inputs S) proposal)"
  from assms(2) obtain sv n tv r rv
    where s: "sum_values S ''Internal error: shielding value sum overflowed Zatoshis bounds.'' ?sel 0 = Inr sv"
      and e: "eligible_loop S th addrs 0 0 = Inr (n, tv)"
      and r: "checked_sub n (count_inputs ?sel 0) = Some r" and rv: "sc_sub S tv sv = Some rv"
      and p: "p = \<lparr>remaining_utxos = r, remaining_value = sc_value S rv,
        shielding_utxos = count_inputs ?sel 0, shielding_value = sc_value S sv\<rparr>"
    by (auto simp: make_preflight_def sum_selected_inputs_def enumerate_eligible_def Let_def result_simps)
  have nonneg: "\<forall>v \<in> set ?sel. 0 \<le> v" using assms(1) by (auto simp: shield_env_documented_def)
  from sum_values_Inr [OF _ nonneg _ s] assms(1) have sv: "sv = sum_list ?sel" by (simp add: shield_env_documented_def)
  from eligible_loop_Inr [OF _ _ _ e] assms(1) obtain outputs
    where o: "eligible S addrs th outputs" "unat n = min (length outputs) (2 ^ 64 - 1)" "tv = sum_list outputs"
    by (auto simp: shield_env_documented_def)
  have "0 \<le> sv" unfolding sv using nonneg by (intro sum_list_nonneg) blast
  moreover have "0 \<le> tv" unfolding o(3) using eligible_nonneg [OF assms(1) o(1)] by (intro sum_list_nonneg) blast
  ultimately have money: "sv \<le> tv \<and> rv = tv - sv"
    using rv assms(1) by (auto simp: shield_env_documented_def zat_sub_documented_def split: if_splits)
  have count: "unat (count_inputs ?sel 0) = min (length ?sel) (2 ^ 64 - 1)" using count_inputs_exact [of ?sel 0] by simp
  have "unat (count_inputs ?sel 0) \<le> unat n \<and> unat r = unat n - unat (count_inputs ?sel 0)"
    using r by (auto simp: checked_sub_def word_le_nat_alt unat_sub split: if_splits)
  then have "unat r + length ?sel = length outputs \<and> unat (count_inputs ?sel 0) = length ?sel"
    if "length outputs < 2 ^ 64 - 1"
    using that o(2) count by (auto simp: min_def split: if_splits)
  with o money sv p show ?thesis by (auto simp: figures_exact_def)
qed


section \<open>Instances\<close>

definition example_shield_step :: "Address Payment Step" where
  "example_shield_step =
     \<lparr>input_in_pool = (\<lambda>p. p = Transparent), output_in_pool = (\<lambda>p. p = Shielded Orchard),
      change_in_pool = (\<lambda>_. False), transparent_input_addresses = [PublicKeyHash [1]],
      shielded_note_pools = [], payment_pools = [(0, Shielded Orchard)], proposed_change_pools = [],
      request_payments = [0 \<mapsto> example_payment (AddrSapling [9])]\<rparr>"

definition example_shield :: "(Address, nat, Zatoshis) shield_env" where
  "example_shield =
     \<lparr>sc_parse_uuid = (\<lambda>_. None), sc_parse_zaddr = (\<lambda>_. Some (AddrSapling [9])), sc_debug = (\<lambda>s. s),
      sc_debug_taddr = (\<lambda>_. []), sc_uuid_str = (\<lambda>s. s), sc_debug_uuid = (\<lambda>s. s), sc_receivers = (\<lambda>_. Inr []),
      sc_propose = (\<lambda>_ _ _ _. Inr ([example_shield_step], 7)), sc_inputs = (\<lambda>_. [5]),
      sc_spendable = (\<lambda>_ _. Inr [5, 6]), sc_add = (\<lambda>a b. if a + b \<le> MAX_MONEY then Some (a + b) else None),
      sc_sub = (\<lambda>a b. if b \<le> a then Some (a - b) else None), sc_pool_display = (\<lambda>_. []), sc_actions_limit = 50,
      sc_value = (\<lambda>v. v)\<rparr>"

lemma example_shield_documented: "shield_env_documented example_shield"
  by (auto simp: shield_env_documented_def example_shield_def zat_add_documented_def zat_sub_documented_def)

lemma example_preflight:
  "make_preflight example_shield [example_shield_step] [PublicKeyHash [1]] 7 =
     Inr \<lparr>remaining_utxos = 1, remaining_value = 6, shielding_utxos = 1, shielding_value = 5\<rparr>"
  by (simp add: make_preflight_def sum_selected_inputs_def enumerate_eligible_def example_shield_def MAX_MONEY_def
      saturating_add_def checked_sub_def)

lemma example_shield_ok:
  "enforce_privacy_policy [example_shield_step] AllowRevealedSenders = Inr ()"
  "check_shielded_action_limits [example_shield_step] 50 = Inr ()"
proof -
  have "is_ok (enforce_privacy_policy [example_shield_step] AllowRevealedSenders)"
    unfolding enforce_reveals by (auto simp: step_reveals_def example_shield_step_def crosses_pools_def Let_def)
  then show "enforce_privacy_policy [example_shield_step] AllowRevealedSenders = Inr ()" by (auto simp: is_ok_iff)
  have "is_ok (check_shielded_action_limits [example_shield_step] 50)"
    unfolding check_limits_ok by (simp add: within_limits_def pool_spends_def pool_outputs_def example_shield_step_def list_all_iff)
  then show "check_shielded_action_limits [example_shield_step] 50 = Inr ()" by (auto simp: is_ok_iff)
qed

lemma example_shield_call:
  "\<exists>p job. z_shieldcoinbase_call example_sender example_shield example_unlocked ''t1'' ''z'' None None None None = Inr (p, job) \<and>
     job_proposal job = [example_shield_step]"
  using example_usk example_preflight example_shield_ok
  by (simp add: z_shieldcoinbase_call_def parse_fromaddress_def shield_privacy_policy_def resolve_fromaddress_input_def
      transpose_memo_def example_sender_def example_shield_def collect_standalone_transparent_keys_def
      del: enforce_privacy_policy.simps)


end
