(* ===== verification/Pczt.thy ===== *)
theory Pczt
  imports Shield_Coinbase "HOL-Library.Sublist"
begin

text \<open>
  Partially created transactions (\<open>methods/pczt_common.rs\<close>, \<open>pczt_create.rs\<close>, \<open>pczt_sign.rs\<close>,
  \<open>pczt_combine.rs\<close>, \<open>pczt_extract.rs\<close>, \<open>pczt_error.rs\<close>) and the method \<open>z_sendfromaccount\<close> that
  drives one through all of them (\<open>z_send_from_account.rs\<close>). Of a PCZT the methods read and write
  the proprietary fields and count the inputs; the rest, with the roles of the \<open>pczt\<close> crate that
  fill it, is an argument.
\<close>

section \<open>The data\<close>

record pczt_input =
  in_proprietary :: "string \<rightharpoonup> u8 list"

record 'b Pczt =
  global_proprietary :: "string \<rightharpoonup> u8 list"
  transparent_inputs :: "pczt_input list"
  sapling_count :: nat
  orchard_count :: nat
  ironwood_count :: nat
  presigned_orchard :: "nat set"
  presigned_ironwood :: "nat set"
  consensus_branch_id :: u32
  pczt_body :: 'b

text \<open>\<open>to_le_bytes\<close> and \<open>from_le_bytes\<close> of a 32-bit integer; the second from a slice, which must have
  four bytes.\<close>

definition to_le_bytes :: "u32 \<Rightarrow> u8 list" where
  "to_le_bytes w = map (\<lambda>i. of_nat (unat w div 256 ^ i)) [0, 1, 2, 3]"

definition from_le_slice :: "u8 list \<Rightarrow> u32 option" where
  "from_le_slice bs =
     (case bs of
        [a, b, c, d] \<Rightarrow> Some (of_nat (unat a + 256 * unat b + 65536 * unat c + 16777216 * unat d))
      | _ \<Rightarrow> None)"

definition PROP_SEED_FINGERPRINT :: string where
  "PROP_SEED_FINGERPRINT = ''zallet.v1.seed_fingerprint''"

definition PROP_PRIVACY_POLICY :: string where
  "PROP_PRIVACY_POLICY = ''zallet.v1.privacy_policy''"

definition PROP_ACCOUNT_INDEX :: string where
  "PROP_ACCOUNT_INDEX = ''zallet.v1.account_index''"

definition PROP_SCOPE :: string where
  "PROP_SCOPE = ''zallet.v1.scope''"

definition PROP_ADDRESS_INDEX :: string where
  "PROP_ADDRESS_INDEX = ''zallet.v1.address_index''"

definition PROP_BACKEND_PROPOSAL_INFO :: string where
  "PROP_BACKEND_PROPOSAL_INFO = ''zcash_client_backend:proposal_info''"

definition MAX_PCZT_BASE64_LEN :: nat where
  "MAX_PCZT_BASE64_LEN = 10 * 1024 * 1024"

definition MAX_PCZTS_TO_COMBINE :: nat where
  "MAX_PCZTS_TO_COMBINE = 20"

definition MAX_RECIPIENTS :: nat where
  "MAX_RECIPIENTS = 1000"

section \<open>Errors\<close>

datatype PcztError =
    PcztParse string | PcztSerialize string | PcztCombine string | SaplingProve string | OrchardProve string
  | FinalizeSpends string | PcztExtract string | SignerInit string | RecordSigningHints string
  | TaskFailed string string

fun pczt_error :: "PcztError \<Rightarrow> rpc_error" where
  "pczt_error (PcztParse e) = with_message Deserialization (Fl ''err-pczt-parse'' [(''error'', e)])"
| "pczt_error (PcztSerialize e) = with_message Misc (Fl ''err-pczt-serialize'' [(''error'', e)])"
| "pczt_error (PcztCombine e) = with_message Verify (Fl ''err-pczt-combine'' [(''error'', e)])"
| "pczt_error (SaplingProve e) = with_message Verify (Fl ''err-pczt-prove-sapling'' [(''error'', e)])"
| "pczt_error (OrchardProve e) = with_message Verify (Fl ''err-pczt-prove-orchard'' [(''error'', e)])"
| "pczt_error (FinalizeSpends e) = with_message Verify (Fl ''err-pczt-finalize-spends'' [(''error'', e)])"
| "pczt_error (PcztExtract e) = with_message Verify (Fl ''err-pczt-extract'' [(''error'', e)])"
| "pczt_error (SignerInit e) = with_message Verify (Fl ''err-pczt-signer-init'' [(''error'', e)])"
| "pczt_error (RecordSigningHints e) = with_message Wallet (Fl ''err-pczt-record-signing-hints'' [(''error'', e)])"
| "pczt_error (TaskFailed task source) =
     with_message Misc (Fl ''err-pczt-task-failed'' [(''task'', task), (''error'', source)])"

section \<open>Encoding and hints\<close>

text \<open>What the crates do: base64, the wire format, the range of account ids, key scopes, the roles.
  A signer is a state its operations change.\<close>

record ('b, 'scope, 'zaddr, 'usk, 's) pczt_crates =
  pc_base64_decode :: "string \<Rightarrow> string + u8 list"
  pc_base64_encode :: "u8 list \<Rightarrow> string"
  pc_parse :: "u8 list \<Rightarrow> string + 'b Pczt"
  pc_serialize :: "'b Pczt \<Rightarrow> string + u8 list"
  pc_account_id_ok :: "u32 \<Rightarrow> bool"
  pc_scope_index :: "'scope \<Rightarrow> u32"
  pc_scope_custom :: "u32 \<Rightarrow> 'scope option"
  pc_child_index_ok :: "u32 \<Rightarrow> bool"
  pc_create :: "AccountUuid \<Rightarrow> 'zaddr Payment Step list \<Rightarrow> string + 'b Pczt"
  pc_metadata :: "AccountUuid \<Rightarrow> TransparentAddress \<Rightarrow> string + ('scope option \<times> u32 option) option"
  pc_updater_failure :: "string option"
  pc_combine :: "'b Pczt list \<Rightarrow> string + 'b Pczt"
  pc_signer :: "'b Pczt \<Rightarrow> string + 's"
  pc_sign_transparent :: "nat \<Rightarrow> 'usk \<Rightarrow> 'scope \<Rightarrow> u32 \<Rightarrow> ('s, string, unit) sr"
  pc_sign_sapling :: "nat \<Rightarrow> 'usk \<Rightarrow> ('s, string, unit) sr"
  pc_sign_orchard :: "nat \<Rightarrow> 'usk \<Rightarrow> ('s, string, unit) sr"
  pc_sign_ironwood :: "nat \<Rightarrow> 'usk \<Rightarrow> ('s, string, unit) sr"
  pc_finish :: "'s \<Rightarrow> 'b Pczt"

definition decode_pczt_base64 :: "('b, 'scope, 'zaddr, 'usk, 's) pczt_crates \<Rightarrow> string \<Rightarrow> rpc_error + 'b Pczt" where
  "decode_pczt_base64 P s =
     (if length s > MAX_PCZT_BASE64_LEN then Inl (with_message InvalidParameter (Fl ''err-pczt-too-large'' []))
      else rbind (map_err (\<lambda>e. with_message Deserialization (Fl ''err-pczt-invalid-base64'' [(''error'', e)]))
          (pc_base64_decode P s)) (\<lambda>bytes.
        map_err (\<lambda>e. pczt_error (PcztParse e)) (pc_parse P bytes)))"

definition encode_pczt_base64 :: "('b, 'scope, 'zaddr, 'usk, 's) pczt_crates \<Rightarrow> 'b Pczt \<Rightarrow> rpc_error + string" where
  "encode_pczt_base64 P p =
     rbind (map_err (\<lambda>e. pczt_error (PcztSerialize e)) (pc_serialize P p)) (\<lambda>bytes. Inr (pc_base64_encode P bytes))"

definition read_signing_hints ::
    "('b, 'scope, 'zaddr, 'usk, 's) pczt_crates \<Rightarrow> 'b Pczt \<Rightarrow> rpc_error + (SeedFingerprint \<times> u32) option" where
  "read_signing_hints P p =
     (case (global_proprietary p PROP_SEED_FINGERPRINT, global_proprietary p PROP_ACCOUNT_INDEX) of
        (Some seed_fp_bytes, Some account_idx_bytes) \<Rightarrow>
          if length seed_fp_bytes \<noteq> 32
          then Inl (with_message InvalidParameter (Fl ''err-pczt-invalid-seed-fingerprint'' []))
          else rbind (ok_or (with_message InvalidParameter (Fl ''err-pczt-invalid-account-index'' []))
              (from_le_slice account_idx_bytes)) (\<lambda>account_idx.
            if pc_account_id_ok P account_idx then Inr (Some (seed_fp_bytes, account_idx))
            else Inl (with_message InvalidParameter
              (Fl ''err-pczt-account-index-out-of-range'' [(''index'', show_nat (unat account_idx))])))
      | _ \<Rightarrow> Inr None)"

section \<open>Creation\<close>

definition set_global :: "string \<Rightarrow> u8 list \<Rightarrow> 'b Pczt \<Rightarrow> 'b Pczt" where
  "set_global key bytes p = p\<lparr>global_proprietary := (global_proprietary p)(key \<mapsto> bytes)\<rparr>"

definition set_input :: "nat \<Rightarrow> string \<Rightarrow> u8 list \<Rightarrow> 'b Pczt \<Rightarrow> 'b Pczt" where
  "set_input i key bytes p =
     p\<lparr>transparent_inputs := (transparent_inputs p)[i := (transparent_inputs p ! i)
         \<lparr>in_proprietary := (in_proprietary (transparent_inputs p ! i))(key \<mapsto> bytes)\<rparr>]\<rparr>"

definition record_global_hints :: "PrivacyPolicy \<Rightarrow> (SeedFingerprint \<times> u32) option \<Rightarrow> 'b Pczt \<Rightarrow> 'b Pczt" where
  "record_global_hints required_policy derivation p =
     (let p = set_global PROP_PRIVACY_POLICY (as_bytes (policy_str required_policy)) p in
      case derivation of
        None \<Rightarrow> p
      | Some (seed_fp, account_index) \<Rightarrow>
          set_global PROP_ACCOUNT_INDEX (to_le_bytes account_index) (set_global PROP_SEED_FINGERPRINT seed_fp p))"

fun record_input_hints ::
    "('scope \<Rightarrow> u32) \<Rightarrow> nat \<Rightarrow> ('scope option \<times> u32 option) option list \<Rightarrow> 'b Pczt \<Rightarrow> string + 'b Pczt" where
  "record_input_hints scope_index i [] p = Inr p"
| "record_input_hints scope_index i (m # ms) p =
     (case m of
        Some (Some scope, Some address_index) \<Rightarrow>
          if i < length (transparent_inputs p)
          then record_input_hints scope_index (Suc i) ms
            (set_input i PROP_ADDRESS_INDEX (to_le_bytes address_index)
              (set_input i PROP_SCOPE (to_le_bytes (scope_index scope)) p))
          else Inl ''InvalidIndex''
      | _ \<Rightarrow> record_input_hints scope_index (Suc i) ms p)"

definition input_addresses :: "'zaddr Payment Step list \<Rightarrow> TransparentAddress list" where
  "input_addresses proposal = concat (map transparent_input_addresses proposal)"

definition build_pczt ::
    "('zaddr, 'req, 'cp, 'acct, 'i, 'rcpt, 'usk, 'script) sender \<Rightarrow> ('b, 'scope, 'zaddr, 'usk, 's) pczt_crates \<Rightarrow> 'acct \<Rightarrow>
     SpendPolicy \<Rightarrow> 'req \<Rightarrow> PrivacyPolicy \<Rightarrow> 'cp \<Rightarrow> rpc_error fault + 'b Pczt \<times> PrivacyPolicy \<times> 'zaddr Payment Step list" where
  "build_pczt E P account spend_policy request privacy_policy confirmations_policy =
     (let account_id = sd_account_id E account in
      rbind (propose_and_check (sd_propose E account_id) request privacy_policy confirmations_policy spend_policy) (\<lambda>proposal.
      if length proposal > 1 then Inl (Raise (with_message InvalidParameter (Fl ''err-pczt-multi-step-proposal'' [])))
      else
      let required_policy = required_privacy_policy proposal;
          derivation = key_derivation (sd_accounts E) account in
      rbind (raising (map_err (\<lambda>e. with_message Wallet (Fl ''err-pczt-create-failed'' [(''error'', e)]))
        (pc_create P account_id proposal))) (\<lambda>pczt.
      rbind (raising (try_map (\<lambda>address.
          map_err (\<lambda>e. with_message Database (Fl ''err-pczt-transparent-metadata-lookup'' [(''error'', e)]))
            (pc_metadata P account_id address)) (input_addresses proposal))) (\<lambda>input_metadata.
      if length input_metadata \<noteq> length (transparent_inputs pczt)
      then Inl (Raise (with_message Misc (Fl ''err-pczt-transparent-input-count-mismatch'' [])))
      else
      rbind (raising (map_err (\<lambda>e. pczt_error (RecordSigningHints e))
        (case pc_updater_failure P of
           Some e \<Rightarrow> Inl e
         | None \<Rightarrow> record_input_hints (pc_scope_index P) 0 input_metadata
                     (record_global_hints required_policy derivation pczt)))) (\<lambda>pczt.
        Inr (pczt, required_policy, proposal))))))"

fun reject_tex ::
    "('zaddr \<Rightarrow> string + Address) \<Rightarrow> ('zaddr \<Rightarrow> string) \<Rightarrow> 'zaddr Payment list \<Rightarrow> rpc_error + unit" where
  "reject_tex try_from encode [] = Inr ()"
| "reject_tex try_from encode (payment # payments) =
     (case try_from (pay_recipient payment) of
        Inr (AddrTex _) \<Rightarrow> Inl (with_message InvalidParameter
          (Fl ''err-pczt-tex-recipient'' [(''address'', encode (pay_recipient payment))]))
      | _ \<Rightarrow> reject_tex try_from encode payments)"

text \<open>The parts of \<open>pczt_create\<close> that are not shared with the other senders.\<close>

record ('zaddr, 'req) create_env =
  cr_payments :: "'req \<Rightarrow> 'zaddr Payment list"
  cr_try_from :: "'zaddr \<Rightarrow> string + Address"
  cr_encode :: "'zaddr \<Rightarrow> string"
  cr_parse_uuid :: "string \<Rightarrow> AccountUuid option"
  cr_before :: "TransparentAddress \<Rightarrow> TransparentAddress \<Rightarrow> bool"
  cr_default_policy :: SpendPolicy

definition select_pczt_source ::
    "('zaddr, 'req, 'cp, 'acct, 'i, 'rcpt, 'usk, 'script) sender \<Rightarrow> ('zaddr, 'req) create_env \<Rightarrow> string \<Rightarrow> JsonValue option \<Rightarrow>
     rpc_error fault + 'acct \<times> SpendPolicy" where
  "select_pczt_source E R from fund_source =
     (case sd_decode E from of
        Some address \<Rightarrow>
          if fund_source \<noteq> None
          then Inl (Raise (with_message InvalidParameter (Fl ''err-pczt-fund-source-requires-account'' [])))
          else rbind (get_account_for_address (sd_accounts E) address) (\<lambda>account.
            Inr (account, spend_policy_for address))
      | None \<Rightarrow>
          (case cr_parse_uuid R from of
             Some account_id \<Rightarrow>
               rbind (raising (map_err database_error (adb_account (sd_accounts E) account_id))) (\<lambda>found.
               rbind (raising (ok_or (with_message InvalidParameter (Fl ''err-account-not-found'' [])) found)) (\<lambda>account.
               rbind (case fund_source of
                        Some v \<Rightarrow> rbind (raising (fund_source_parse (cr_before R) (sd_decode E) v)) (\<lambda>src.
                          Inr (fund_source_spend_policy src))
                      | None \<Rightarrow> Inr (cr_default_policy R)) (\<lambda>spend_policy.
                 Inr (account, spend_policy))))
           | None \<Rightarrow> Inl (Raise (with_message InvalidAddressOrKey (Fl ''err-pczt-from-invalid'' [])))))"

definition pczt_create ::
    "('zaddr, 'req, 'cp, 'acct, 'i, 'rcpt, 'usk, 'script) sender \<Rightarrow> ('zaddr, 'req) create_env \<Rightarrow>
     ('b, 'scope, 'zaddr, 'usk, 's) pczt_crates \<Rightarrow> string \<Rightarrow> AmountParameter list \<Rightarrow> u32 option \<Rightarrow> string option \<Rightarrow>
     JsonValue option \<Rightarrow> rpc_error fault + string \<times> string" where
  "pczt_create E R P from amounts minconf privacy_policy fund_source =
     (if length amounts > MAX_RECIPIENTS
      then Inl (Raise (with_message InvalidParameter (Fl ''err-pczt-too-many-recipients''
        [(''given'', show_nat (length amounts)), (''maximum'', show_nat MAX_RECIPIENTS)])))
      else
      rbind (raising (build_request (sd_request E) amounts)) (\<lambda>request.
      rbind (raising (reject_tex (cr_try_from R) (cr_encode R) (cr_payments R request))) (\<lambda>_.
      rbind (select_pczt_source E R from fund_source) (\<lambda>(account, spend_policy).
      rbind (raising (parse_privacy_policy privacy_policy)) (\<lambda>policy.
      rbind (raising (confirmations_policy_for_minconf (sd_new_symmetrical E) (sd_configured E) minconf)) (\<lambda>cp.
      rbind (build_pczt E P account spend_policy request policy cp) (\<lambda>(pczt, required_policy, _).
      rbind (raising (encode_pczt_base64 P pczt)) (\<lambda>text.
        Inr (text, policy_str required_policy)))))))))"

section \<open>Signing\<close>

definition check_privacy_policy :: "'b Pczt \<Rightarrow> PrivacyPolicy \<Rightarrow> rpc_error + unit" where
  "check_privacy_policy p acknowledged =
     (case global_proprietary p PROP_PRIVACY_POLICY of
        None \<Rightarrow> Inr ()
      | Some recorded \<Rightarrow>
          rbind (ok_or (with_message InvalidParameter (Fl ''err-pczt-invalid-recorded-policy'' []))
            (Option.bind (from_utf8 recorded) policy_from_str)) (\<lambda>required.
          if is_compatible_with acknowledged required then Inr ()
          else Inl (with_message InvalidParameter (Fl ''err-pczt-policy-not-acknowledged''
            [(''required'', policy_str required), (''acknowledged'', policy_str acknowledged)]))))"

definition input_derivation ::
    "('b, 'scope, 'zaddr, 'usk, 's) pczt_crates \<Rightarrow> pczt_input \<Rightarrow> ('scope \<times> u32) option" where
  "input_derivation P input =
     Option.bind (in_proprietary input PROP_SCOPE) (\<lambda>scope_bytes.
     Option.bind (in_proprietary input PROP_ADDRESS_INDEX) (\<lambda>addr_idx_bytes.
     Option.bind (from_le_slice scope_bytes) (\<lambda>scope_u32.
     Option.bind (from_le_slice addr_idx_bytes) (\<lambda>addr_idx.
     Option.bind (pc_scope_custom P scope_u32) (\<lambda>scope.
       if pc_child_index_ok P addr_idx then Some (scope, addr_idx) else None)))))"

text \<open>Each candidate in turn: signed, or put on the list of the unsigned.\<close>

fun sign_each :: "(nat \<Rightarrow> ('s, string, unit) sr option) \<Rightarrow> nat list \<Rightarrow> 's \<Rightarrow> (nat \<times> nat list) \<times> 's" where
  "sign_each attempt [] s = ((0, []), s)"
| "sign_each attempt (i # is) s =
     (case attempt i of
        None \<Rightarrow> (let ((signed, unsigned), s) = sign_each attempt is s in ((signed, i # unsigned), s))
      | Some try_sign \<Rightarrow>
          (case try_sign s of
             (Inr _, s) \<Rightarrow> (let ((signed, unsigned), s) = sign_each attempt is s in ((signed + 1, unsigned), s))
           | (Inl _, s) \<Rightarrow> (let ((signed, unsigned), s) = sign_each attempt is s in ((signed, i # unsigned), s))))"

definition transparent_attempt ::
    "('b, 'scope, 'zaddr, 'usk, 's) pczt_crates \<Rightarrow> 'usk option \<Rightarrow> ('scope \<times> u32) option list \<Rightarrow> nat \<Rightarrow>
     ('s, string, unit) sr option" where
  "transparent_attempt P usk info i =
     (case (usk, info ! i) of
        (Some usk, Some (scope, addr_idx)) \<Rightarrow> Some (pc_sign_transparent P i usk scope addr_idx)
      | _ \<Rightarrow> None)"

record SignResult =
  sg_pczt :: string
  transparent_signed :: nat
  sapling_signed :: nat
  orchard_signed :: nat
  ironwood_signed :: nat
  unsigned_transparent :: "nat list"
  unsigned_sapling :: "nat list"
  unsigned_orchard :: "nat list"
  unsigned_ironwood :: "nat list"

text \<open>The spending key the hints name, when this wallet holds the seed.\<close>

definition hinted_usk ::
    "('zaddr, 'req, 'cp, 'acct, 'i, 'rcpt, 'usk, 'script) sender \<Rightarrow> 'i KeyStore \<Rightarrow> (SeedFingerprint \<times> u32) option \<Rightarrow>
     rpc_error fault + 'usk option" where
  "hinted_usk E ks hints =
     (case hints of
        None \<Rightarrow> Inr None
      | Some (seed_fp, account_idx) \<Rightarrow>
          (case fst (decrypt_seed (sd_crypto E) (sd_conn E) seed_fp ks) of
             Inr seed \<Rightarrow>
               rbind (raising (map_err (\<lambda>e. with_message InvalidAddressOrKey (Fl ''err-pczt-derive-spending-key'' [(''error'', e)]))
                 (sd_usk_from_seed E seed account_idx))) (\<lambda>usk. Inr (Some usk))
           | Inl (Panic m) \<Rightarrow> Inl (Panic m)
           | Inl (Raise e) \<Rightarrow>
               (let f = keystore_failure (sd_texts E) e in
                if ke_generic f \<and> ke_text f = ''Wallet is locked''
                then Inl (Raise (with_message WalletUnlockNeeded (Text (ke_text f))))
                else Inr None)))"

definition sign_pools ::
    "('b, 'scope, 'zaddr, 'usk, 's) pczt_crates \<Rightarrow> 'b Pczt \<Rightarrow> 'usk option \<Rightarrow> 's \<Rightarrow>
     ((nat \<times> nat list) \<times> (nat \<times> nat list) \<times> (nat \<times> nat list) \<times> (nat \<times> nat list)) \<times> 's" where
  "sign_pools P pczt usk signer =
     (let info = map (input_derivation P) (transparent_inputs pczt);
          (t, signer) = sign_each (transparent_attempt P usk info) [0..<length info] signer;
          (s, signer) = sign_each (\<lambda>i. map_option (pc_sign_sapling P i) usk) [0..<sapling_count pczt] signer;
          (o', signer) = sign_each (\<lambda>i. map_option (pc_sign_orchard P i) usk)
             (filter (\<lambda>i. i \<notin> presigned_orchard pczt) [0..<orchard_count pczt]) signer;
          (w, signer) = sign_each (\<lambda>i. map_option (pc_sign_ironwood P i) usk)
             (filter (\<lambda>i. i \<notin> presigned_ironwood pczt) [0..<ironwood_count pczt]) signer
      in ((t, s, o', w), signer))"

definition sign_result ::
    "('b, 'scope, 'zaddr, 'usk, 's) pczt_crates \<Rightarrow> bool option \<Rightarrow>
     ((nat \<times> nat list) \<times> (nat \<times> nat list) \<times> (nat \<times> nat list) \<times> (nat \<times> nat list)) \<times> 's \<Rightarrow> rpc_error + SignResult" where
  "sign_result P strict outcome =
     (case outcome of
       (((t_signed, t_unsigned), (s_signed, s_unsigned), (o_signed, o_unsigned), (w_signed, w_unsigned)), signer) \<Rightarrow>
        if (case strict of None \<Rightarrow> False | Some b \<Rightarrow> b) \<and>
           (t_unsigned \<noteq> [] \<or> s_unsigned \<noteq> [] \<or> o_unsigned \<noteq> [] \<or> w_unsigned \<noteq> [])
        then Inl (with_message Verify (Fl ''err-pczt-strict-unsigned''
          [(''transparent'', show_nat (length t_unsigned)), (''sapling'', show_nat (length s_unsigned)),
           (''orchard'', show_nat (length o_unsigned)), (''ironwood'', show_nat (length w_unsigned))]))
        else rbind (encode_pczt_base64 P (pc_finish P signer)) (\<lambda>text.
          Inr \<lparr>sg_pczt = text, transparent_signed = t_signed, sapling_signed = s_signed, orchard_signed = o_signed,
               ironwood_signed = w_signed, unsigned_transparent = t_unsigned, unsigned_sapling = s_unsigned,
               unsigned_orchard = o_unsigned, unsigned_ironwood = w_unsigned\<rparr>))"

definition pczt_sign ::
    "('zaddr, 'req, 'cp, 'acct, 'i, 'rcpt, 'usk, 'script) sender \<Rightarrow> ('b, 'scope, 'zaddr, 'usk, 's) pczt_crates \<Rightarrow>
     'i KeyStore \<Rightarrow> string \<Rightarrow> string option \<Rightarrow> bool option \<Rightarrow> rpc_error fault + SignResult" where
  "pczt_sign E P ks pczt_base64 privacy_policy strict =
     rbind (raising (decode_pczt_base64 P pczt_base64)) (\<lambda>pczt.
     rbind (raising (parse_privacy_policy privacy_policy)) (\<lambda>acknowledged.
     rbind (raising (check_privacy_policy pczt acknowledged)) (\<lambda>_.
     rbind (raising (read_signing_hints P pczt)) (\<lambda>hints.
     rbind (hinted_usk E ks hints) (\<lambda>usk.
     rbind (raising (map_err (\<lambda>e. pczt_error (SignerInit e)) (pc_signer P pczt))) (\<lambda>signer.
       raising (sign_result P strict (sign_pools P pczt usk signer))))))))"

section \<open>Combination\<close>

definition indexed_error :: "(message \<Rightarrow> string) \<Rightarrow> nat \<Rightarrow> rpc_error \<Rightarrow> rpc_error" where
  "indexed_error msg_text i e =
     \<lparr>err_code = err_code e,
      err_message = Fl ''err-pczt-combine-indexed'' [(''index'', show_nat i), (''error'', msg_text (err_message e))]\<rparr>"

definition pczt_combine ::
    "('b, 'scope, 'zaddr, 'usk, 's) pczt_crates \<Rightarrow> (message \<Rightarrow> string) \<Rightarrow> string list \<Rightarrow> rpc_error + string" where
  "pczt_combine P msg_text pczts_base64 =
     (if pczts_base64 = [] then Inl (with_message InvalidParameter (Fl ''err-pczt-combine-none-given'' []))
      else if length pczts_base64 > MAX_PCZTS_TO_COMBINE
      then Inl (with_message InvalidParameter (Fl ''err-pczt-combine-too-many''
        [(''given'', show_nat (length pczts_base64)), (''maximum'', show_nat MAX_PCZTS_TO_COMBINE)]))
      else
      rbind (try_map (\<lambda>(i, s). map_err (indexed_error msg_text i) (decode_pczt_base64 P s)) (enumerate 0 pczts_base64)) (\<lambda>pczts.
      rbind (map_err (\<lambda>e. pczt_error (PcztCombine e)) (pc_combine P pczts)) (\<lambda>combined.
        encode_pczt_base64 P combined)))"

section \<open>Proving and extraction\<close>

text \<open>Verification keys are named by the circuit version of the PCZT's consensus branch.\<close>

datatype OrchardProtocolRevision = InsecureV1 | V2 | V3

datatype OrchardCircuitVersion = InsecurePreNu6_2 | FixedPostNu6_2 | PostNu6_3

definition circuit_version_for_branch ::
    "(u32 \<Rightarrow> 'branch option) \<Rightarrow> ('branch \<Rightarrow> OrchardProtocolRevision option) \<Rightarrow> u32 \<Rightarrow> OrchardCircuitVersion option" where
  "circuit_version_for_branch branch_try_from orchard_protocol_revision branch_id =
     Option.bind (branch_try_from branch_id) (\<lambda>branch.
     map_option (\<lambda>revision. case revision of
         InsecureV1 \<Rightarrow> InsecurePreNu6_2 | V2 \<Rightarrow> FixedPostNu6_2 | V3 \<Rightarrow> PostNu6_3)
       (orchard_protocol_revision branch))"

record 'b prove_env =
  pv_version :: "u32 \<Rightarrow> OrchardCircuitVersion option"
  requires_sapling_proofs :: "'b Pczt \<Rightarrow> bool"
  requires_orchard_proof :: "'b Pczt \<Rightarrow> bool"
  requires_ironwood_proof :: "'b Pczt \<Rightarrow> bool"
  create_sapling_proofs :: "'b Pczt \<Rightarrow> string + 'b Pczt"
  create_orchard_proof :: "OrchardCircuitVersion \<Rightarrow> 'b Pczt \<Rightarrow> string + 'b Pczt"
  create_ironwood_proof :: "OrchardCircuitVersion \<Rightarrow> 'b Pczt \<Rightarrow> string + 'b Pczt"
  pv_join_failure :: "string option"

record ProveResult =
  pv_pczt :: string
  sapling_proven :: bool
  orchard_proven :: bool
  ironwood_proven :: bool

definition pczt_prove ::
    "('b, 'scope, 'zaddr, 'usk, 's) pczt_crates \<Rightarrow> 'b prove_env \<Rightarrow> string \<Rightarrow> rpc_error + ProveResult" where
  "pczt_prove P V pczt_base64 =
     rbind (decode_pczt_base64 P pczt_base64) (\<lambda>pczt.
     let circuit_version = pv_version V (consensus_branch_id pczt);
         need_sapling = requires_sapling_proofs V pczt;
         need_orchard = requires_orchard_proof V pczt;
         need_ironwood = requires_ironwood_proof V pczt in
     if (need_orchard \<or> need_ironwood) \<and> circuit_version = None
     then Inl (pczt_error (OrchardProve ''UnsupportedConsensusBranchId''))
     else
     rbind (case pv_join_failure V of
              Some source \<Rightarrow> Inl (pczt_error (TaskFailed ''pczt_prove'' source))
            | None \<Rightarrow>
                rbind (if need_sapling then map_err (\<lambda>e. pczt_error (SaplingProve e)) (create_sapling_proofs V pczt)
                       else Inr pczt) (\<lambda>pczt.
                case circuit_version of
                  None \<Rightarrow> Inr pczt
                | Some version \<Rightarrow>
                    rbind (if need_orchard then map_err (\<lambda>e. pczt_error (OrchardProve e)) (create_orchard_proof V version pczt)
                           else Inr pczt) (\<lambda>pczt.
                    if need_ironwood
                    then map_err (\<lambda>e. with_message Verify (Fl ''err-pczt-prove-ironwood'' [(''error'', e)]))
                           (create_ironwood_proof V version pczt)
                    else Inr pczt))) (\<lambda>pczt.
     rbind (encode_pczt_base64 P pczt) (\<lambda>text.
       Inr \<lparr>pv_pczt = text, sapling_proven = need_sapling, orchard_proven = need_orchard, ironwood_proven = need_ironwood\<rparr>)))"

record ('b, 'tx) extract_env =
  ex_version :: "u32 \<Rightarrow> OrchardCircuitVersion option"
  ex_extract_and_store :: "OrchardCircuitVersion option \<Rightarrow> 'b Pczt \<Rightarrow> string + TxId"
  ex_get_transaction :: "TxId \<Rightarrow> string + 'tx option"
  ex_finalize_spends :: "'b Pczt \<Rightarrow> string + 'b Pczt"
  ex_extract :: "OrchardCircuitVersion option \<Rightarrow> 'b Pczt \<Rightarrow> string + 'tx"
  ex_write :: "'tx \<Rightarrow> string + u8 list"
  ex_txid :: "'tx \<Rightarrow> TxId"
  ex_txid_str :: "TxId \<Rightarrow> string"
  ex_hex :: "u8 list \<Rightarrow> string"
  ex_join_failure :: "string option"

definition serialize_transaction :: "('b, 'tx) extract_env \<Rightarrow> 'tx \<Rightarrow> rpc_error + u8 list" where
  "serialize_transaction X tx =
     map_err (\<lambda>e. with_message Deserialization (Fl ''err-pczt-serialize-transaction'' [(''error'', e)])) (ex_write X tx)"

record ExtractResult =
  xr_hex :: string
  xr_txid :: string
  xr_stored :: bool

definition pczt_extract ::
    "('b, 'scope, 'zaddr, 'usk, 's) pczt_crates \<Rightarrow> ('b, 'tx) extract_env \<Rightarrow> string \<Rightarrow> rpc_error + ExtractResult" where
  "pczt_extract P X pczt_base64 =
     rbind (decode_pczt_base64 P pczt_base64) (\<lambda>pczt.
     let orchard_vk = ex_version X (consensus_branch_id pczt);
         wallet_created = global_proprietary pczt PROP_BACKEND_PROPOSAL_INFO \<noteq> None in
     rbind (case ex_join_failure X of
              Some source \<Rightarrow> Inl (pczt_error (TaskFailed ''pczt_extract'' source))
            | None \<Rightarrow>
                if wallet_created then
                  rbind (map_err (\<lambda>e. with_message Verify (Fl ''err-pczt-extract-store'' [(''error'', e)]))
                    (ex_extract_and_store X orchard_vk pczt)) (\<lambda>txid.
                  rbind (map_err database_error (ex_get_transaction X txid)) (\<lambda>found.
                  rbind (ok_or (with_message Database (Fl ''err-pczt-stored-transaction-missing'' [])) found) (\<lambda>tx.
                  rbind (serialize_transaction X tx) (\<lambda>bytes. Inr (bytes, ex_txid_str X txid, True)))))
                else
                  rbind (map_err (\<lambda>e. pczt_error (FinalizeSpends e)) (ex_finalize_spends X pczt)) (\<lambda>pczt.
                  rbind (map_err (\<lambda>e. pczt_error (PcztExtract e)) (ex_extract X orchard_vk pczt)) (\<lambda>tx.
                  rbind (serialize_transaction X tx) (\<lambda>bytes. Inr (bytes, ex_txid_str X (ex_txid X tx), False)))))
       (\<lambda>(tx_bytes, txid, stored).
         Inr \<lparr>xr_hex = ex_hex X tx_bytes, xr_txid = txid, xr_stored = stored\<rparr>))"

section \<open>Sending from an account\<close>

definition should_prepare_pir :: "SyncStatus \<Rightarrow> FundSource \<Rightarrow> bool" where
  "should_prepare_pir st fund_source \<longleftrightarrow>
     (case st of CatchingUp _ _ \<Rightarrow> fund_source = FsIronwood | _ \<Rightarrow> False)"

text \<open>The status is read anew at each use, and the anchor for witnesses before and after they may have
  been prepared: \<open>signals\<close> and \<open>anchors\<close> are what the successive reads see.\<close>

record ('b, 'zaddr, 'tx, 'pk, 'pub, 'usk) account_send =
  as_tolerance :: u32
  as_signals :: "nat \<Rightarrow> SyncSignals"
  as_anchors :: "nat \<Rightarrow> string + u32 option"
  as_prepare :: "(string + unit) option"
  as_handles :: "nat \<Rightarrow> bool"
  as_uuid :: "string \<Rightarrow> AccountUuid option"
  as_source :: account_source
  as_before :: "TransparentAddress \<Rightarrow> TransparentAddress \<Rightarrow> bool"
  as_prover :: "'b prove_env"
  as_txid_decode :: "string \<Rightarrow> TxId option"
  as_account_pubkey :: "'usk \<Rightarrow> 'pk option"
  as_send :: "AccountUuid \<Rightarrow> ('zaddr, 'tx, 'pk, 'pub) send_env"

definition wallet_handle :: "('b, 'zaddr, 'tx, 'pk, 'pub, 'usk) account_send \<Rightarrow> nat \<Rightarrow> rpc_error fault + unit" where
  "wallet_handle A n = (if as_handles A n then Inr () else Inl (Raise (rpc_error_of InternalError)))"

definition prepare_pir ::
    "('b, 'zaddr, 'tx, 'pk, 'pub, 'usk) account_send \<Rightarrow> FundSource \<Rightarrow> rpc_error fault + (string + unit) option" where
  "prepare_pir A fund_source =
     (if should_prepare_pir (status (as_signals A 0) (as_tolerance A)) fund_source
      then rbind (raising (map_err database_error (as_anchors A 0))) (\<lambda>anchor.
        if anchor = None
        then rbind (wallet_handle A 1) (\<lambda>_.
          Inr (Some (case as_prepare A of Some result \<Rightarrow> result | None \<Rightarrow> Inl ''PIR is disabled'')))
        else Inr None)
      else Inr None)"

definition send_gate ::
    "('b, 'zaddr, 'tx, 'pk, 'pub, 'usk) account_send \<Rightarrow> FundSource \<Rightarrow> (string + unit) option \<Rightarrow> rpc_error + unit" where
  "send_gate A fund_source pir_result =
     (case status (as_signals A 1) (as_tolerance A) of
        Synced \<Rightarrow> Inr ()
      | CatchingUp _ _ \<Rightarrow>
          if fund_source = FsIronwood then
            rbind (case pir_result of
                     Some result \<Rightarrow> map_err (\<lambda>e. with_message Wallet (Text e)) result
                   | None \<Rightarrow> Inr ()) (\<lambda>_.
            rbind (map_err database_error (as_anchors A 1)) (\<lambda>anchor.
              if anchor = None then Inl (with_static Wallet ''PIR witnesses are not available for an Ironwood send'')
              else Inr ()))
          else ensure_available (as_tolerance A) (as_signals A 2)
      | Recovering _ \<Rightarrow> ensure_available (as_tolerance A) (as_signals A 2))"

definition sraise :: "('s, rpc_error, 'a) sr \<Rightarrow> ('s, rpc_error fault, 'a) sr" where
  "sraise m = (\<lambda>s. (raising (fst (m s)), snd (m s)))"

definition z_send_from_account ::
    "('zaddr, 'req, 'cp, 'acct, 'i, 'rcpt, 'usk, 'script) sender \<Rightarrow> ('b, 'scope, 'zaddr, 'usk, 's) pczt_crates \<Rightarrow>
     ('b, 'tx) extract_env \<Rightarrow> ('b, 'zaddr, 'tx, 'pk, 'pub, 'usk) account_send \<Rightarrow> 'i KeyStore \<Rightarrow>
     JsonValue \<Rightarrow> JsonValue \<Rightarrow> AmountParameter list \<Rightarrow> u32 option \<Rightarrow> string \<Rightarrow>
     ('tx list, rpc_error fault, SendResult) sr" where
  "z_send_from_account E P X A ks account fund_source recipients minconf privacy_policy =
     sbind (slift (wallet_handle A 0)) (\<lambda>_.
     sbind (slift (raising (build_request (sd_request E) recipients))) (\<lambda>request.
     sbind (slift (raising (parse_account_parameter (as_uuid A) (as_source A) account))) (\<lambda>account_id.
     sbind (slift (raising (map_err database_error (adb_account (sd_accounts E) account_id)))) (\<lambda>found.
     sbind (slift (raising (ok_or (with_message InvalidParameter (Fl ''err-account-not-found'' [])) found))) (\<lambda>account.
     sbind (slift (raising (fund_source_parse (as_before A) (sd_decode E) fund_source))) (\<lambda>fund_source.
     sbind (slift (raising (ok_or (with_message InvalidAddressOrKey (Fl ''err-account-no-payment-source'' []))
       (key_derivation (sd_accounts E) account)))) (\<lambda>derivation.
     sbind (slift (raising (parse_privacy_policy (Some privacy_policy)))) (\<lambda>policy.
     sbind (slift (raising (confirmations_policy_for_minconf (sd_new_symmetrical E) (sd_configured E) minconf))) (\<lambda>cp.
     sbind (slift (prepare_pir A fund_source)) (\<lambda>pir_result.
     sbind (slift (raising (send_gate A fund_source pir_result))) (\<lambda>_.
     sbind (slift (build_pczt E P account (fund_source_spend_policy fund_source) request policy cp)) (\<lambda>(pczt, _, proposal).
     sbind (slift (account_usk E ks derivation)) (\<lambda>usk.
     sbind (slift (raising (encode_pczt_base64 P pczt))) (\<lambda>text.
     sbind (slift (raising (pczt_prove P (as_prover A) text))) (\<lambda>proved.
     sbind (slift (wallet_handle A 2)) (\<lambda>_.
     sbind (slift (pczt_sign E P ks (pv_pczt proved) (Some (policy_str policy)) (Some True))) (\<lambda>signed.
     sbind (slift (wallet_handle A 3)) (\<lambda>_.
     sbind (slift (raising (pczt_extract P X (sg_pczt signed)))) (\<lambda>extracted.
     sbind (slift (raising (ok_or (with_static Misc ''Failed to decode txid'') (as_txid_decode A (xr_txid extracted))))) (\<lambda>txid.
     sbind (slift (wallet_handle A 4)) (\<lambda>_.
       sraise (verify_and_broadcast_transactions
         ((as_send A account_id)\<lparr>se_account_pubkey := as_account_pubkey A usk\<rparr>) proposal [txid]))))))))))))))))))))))"

section \<open>Hints survive\<close>

lemma from_le_slice_to_le_bytes [simp]: "from_le_slice (to_le_bytes w) = Some w"
proof -
  let ?n = "unat w"
  have n: "?n < 4294967296" using unsigned_less [of w] by simp
  have byte: "unat (of_nat k :: u8) = k mod 256" for k by (simp add: unat_of_nat)
  have "?n mod 256 + 256 * (?n div 256 mod 256) + 65536 * (?n div 65536 mod 256) + 16777216 * (?n div 16777216 mod 256) = ?n"
  proof -
    have digit: "m = 256 * (m div 256) + m mod 256" for m :: nat by simp
    have "?n div 256 div 256 = ?n div 65536" "?n div 65536 div 256 = ?n div 16777216"
      by (simp_all add: div_mult2_eq [symmetric])
    moreover have "?n div 16777216 mod 256 = ?n div 16777216" using n by simp
    ultimately show ?thesis using digit [of ?n] digit [of "?n div 256"] digit [of "?n div 65536"] by linarith
  qed
  moreover have "to_le_bytes w = [of_nat ?n, of_nat (?n div 256), of_nat (?n div 65536), of_nat (?n div 16777216)]"
    by (simp add: to_le_bytes_def)
  ultimately show ?thesis unfolding from_le_slice_def by (simp only: list.case byte) simp
qed

lemma policy_str_utf8 [simp]: "from_utf8 (as_bytes (policy_str p)) = Some (policy_str p)"
  by (rule from_utf8_ascii) (cases p, auto)

lemma prop_keys [simp]:
  "PROP_SEED_FINGERPRINT \<noteq> PROP_PRIVACY_POLICY" "PROP_ACCOUNT_INDEX \<noteq> PROP_PRIVACY_POLICY"
  "PROP_PRIVACY_POLICY \<noteq> PROP_SEED_FINGERPRINT" "PROP_PRIVACY_POLICY \<noteq> PROP_ACCOUNT_INDEX"
  "PROP_SEED_FINGERPRINT \<noteq> PROP_ACCOUNT_INDEX" "PROP_ACCOUNT_INDEX \<noteq> PROP_SEED_FINGERPRINT"
  "PROP_SCOPE \<noteq> PROP_ADDRESS_INDEX" "PROP_ADDRESS_INDEX \<noteq> PROP_SCOPE"
  by (simp_all add: PROP_SEED_FINGERPRINT_def PROP_PRIVACY_POLICY_def PROP_ACCOUNT_INDEX_def PROP_SCOPE_def PROP_ADDRESS_INDEX_def)

text \<open>What an address' metadata becomes in an input.\<close>

definition hint_of :: "('scope option \<times> u32 option) option \<Rightarrow> ('scope \<times> u32) option" where
  "hint_of m = (case m of Some (Some scope, Some idx) \<Rightarrow> Some (scope, idx) | _ \<Rightarrow> None)"

definition put_hint :: "('scope \<Rightarrow> u32) \<Rightarrow> ('scope option \<times> u32 option) option \<Rightarrow> pczt_input \<Rightarrow> pczt_input" where
  "put_hint scope_index m input =
     (case hint_of m of
        None \<Rightarrow> input
      | Some (scope, idx) \<Rightarrow> input\<lparr>in_proprietary := (in_proprietary input)
          (PROP_SCOPE \<mapsto> to_le_bytes (scope_index scope), PROP_ADDRESS_INDEX \<mapsto> to_le_bytes idx)\<rparr>)"

lemma record_input_hints_Inr:
  assumes "record_input_hints f i ms p = Inr p'" and "i + length ms = length (transparent_inputs p)"
  shows "p' = p\<lparr>transparent_inputs := take i (transparent_inputs p) @ map2 (put_hint f) ms (drop i (transparent_inputs p))\<rparr>"
  using assms
proof (induction ms arbitrary: i p)
  case Nil
  then show ?case by simp
next
  case (Cons m ms)
  let ?xs = "transparent_inputs p"
  have i: "i < length ?xs" using Cons.prems(2) by simp
  then have split: "drop i ?xs = ?xs ! i # drop (Suc i) ?xs" "take (Suc i) ?xs = take i ?xs @ [?xs ! i]"
    by (simp_all add: Cons_nth_drop_Suc take_Suc_conv_app_nth)
  show ?case
  proof (cases "hint_of m")
    case None
    then have "record_input_hints f (Suc i) ms p = Inr p'"
      using Cons.prems(1) by (auto simp: hint_of_def split: option.splits prod.splits)
    with Cons.IH [of "Suc i" p] Cons.prems(2) None show ?thesis by (simp add: split put_hint_def)
  next
    case (Some h)
    then obtain scope idx where m: "m = Some (Some scope, Some idx)" "h = (scope, idx)"
      by (auto simp: hint_of_def split: option.splits prod.splits)
    let ?x = "put_hint f m (?xs ! i)"
    let ?q = "p\<lparr>transparent_inputs := ?xs[i := ?x]\<rparr>"
    have "record_input_hints f (Suc i) ms ?q = Inr p'"
      using Cons.prems(1) i m by (simp add: set_input_def put_hint_def hint_of_def)
    from Cons.IH [OF this] Cons.prems(2)
    have "p' = ?q\<lparr>transparent_inputs := take (Suc i) (?xs[i := ?x]) @ map2 (put_hint f) ms (drop (Suc i) ?xs)\<rparr>" by simp
    moreover have "take (Suc i) (?xs[i := ?x]) = take i ?xs @ [?x]" using i by (simp add: take_Suc_conv_app_nth)
    ultimately show ?thesis by (simp add: split)
  qed
qed

text \<open>What the crates document: a scope is recovered from its index, and a PCZT fresh from the builder
  has none of the wallet's hints.\<close>

definition pczt_crates_documented :: "('b, 'scope, 'zaddr, 'usk, 's) pczt_crates \<Rightarrow> bool" where
  "pczt_crates_documented P \<longleftrightarrow>
     (\<forall>scope. pc_scope_custom P (pc_scope_index P scope) = Some scope) \<and>
     (\<forall>i proposal p. pc_create P i proposal = Inr p \<longrightarrow>
        global_proprietary p PROP_SEED_FINGERPRINT = None \<and>
        list_all (\<lambda>x. in_proprietary x PROP_SCOPE = None) (transparent_inputs p))"

lemma input_derivation_put_hint:
  assumes "\<And>scope. pc_scope_custom P (pc_scope_index P scope) = Some scope" and "in_proprietary x PROP_SCOPE = None"
  shows "input_derivation P (put_hint (pc_scope_index P) m x) =
    (case hint_of m of Some (scope, idx) \<Rightarrow> if pc_child_index_ok P idx then Some (scope, idx) else None | None \<Rightarrow> None)"
  using assms by (auto simp: input_derivation_def put_hint_def split: option.split)

lemma check_recorded_policy:
  assumes "global_proprietary p PROP_PRIVACY_POLICY = Some (as_bytes (policy_str required))"
  shows "check_privacy_policy p acknowledged = Inr () \<longleftrightarrow> permits required \<subseteq> permits acknowledged"
  using assms policy_codec.parse_print [of required] by (simp add: check_privacy_policy_def policy_order)

text \<open>C22: A PCZT the wallet created is understood when it comes back to be signed: the seed and account
  recorded are the account's own, each transparent input names the key its address was derived
  with, and signing asks for exactly the acknowledgement of what the transaction reveals. The
  policy reported to the creator is the strictest that allows it, and it is within the one given.\<close>

theorem pczt_hints_round_trip:
  assumes "pczt_crates_documented P"
    and "build_pczt E P account spend_policy request policy cp = Inr (pczt, required, proposal)"
    and "\<And>fp idx. key_derivation (sd_accounts E) account = Some (fp, idx) \<Longrightarrow> length fp = 32 \<and> pc_account_id_ok P idx"
  shows "read_signing_hints P pczt = Inr (key_derivation (sd_accounts E) account) \<and>
    (\<forall>acknowledged. check_privacy_policy pczt acknowledged = Inr () \<longleftrightarrow>
       \<Union> (step_reveals ` set proposal) \<subseteq> permits acknowledged) \<and>
    permits required = \<Union> (step_reveals ` set proposal) \<and> permits required \<subseteq> permits policy \<and> length proposal \<le> 1 \<and>
    (\<exists>metas. list_all2 (\<lambda>address m. pc_metadata P (sd_account_id E account) address = Inr m) (input_addresses proposal) metas \<and>
       map (input_derivation P) (transparent_inputs pczt) =
       map (\<lambda>m. case hint_of m of
           Some (scope, idx) \<Rightarrow> if pc_child_index_ok P idx then Some (scope, idx) else None
         | None \<Rightarrow> None) metas)"
proof -
  let ?d = "key_derivation (sd_accounts E) account"
  from assms(2) obtain p0 metas where
    proposal: "propose_and_check (sd_propose E (sd_account_id E account)) request policy cp spend_policy = Inr proposal"
    and len: "length proposal \<le> 1" and req: "required = required_privacy_policy proposal"
    and p0: "pc_create P (sd_account_id E account) proposal = Inr p0"
    and metas: "list_all2 (\<lambda>address m. pc_metadata P (sd_account_id E account) address = Inr m) (input_addresses proposal) metas"
    and n: "length metas = length (transparent_inputs p0)"
    and rec: "record_input_hints (pc_scope_index P) 0 metas (record_global_hints required ?d p0) = Inr pczt"
    by (auto simp: build_pczt_def Let_def result_simps try_map_Inr_iff split: if_splits option.splits)
  have inputs: "transparent_inputs (record_global_hints required ?d p0) = transparent_inputs p0"
    by (simp add: record_global_hints_def set_global_def Let_def split: option.split prod.split)
  have pczt: "pczt = (record_global_hints required ?d p0)\<lparr>transparent_inputs :=
      map2 (put_hint (pc_scope_index P)) metas (transparent_inputs p0)\<rparr>"
    using record_input_hints_Inr [OF rec] n inputs by simp
  have doc: "global_proprietary p0 PROP_SEED_FINGERPRINT = None" "list_all (\<lambda>x. in_proprietary x PROP_SCOPE = None) (transparent_inputs p0)"
    "\<And>scope. pc_scope_custom P (pc_scope_index P scope) = Some scope"
    using assms(1) p0 by (auto simp: pczt_crates_documented_def)
  have hints: "read_signing_hints P pczt = Inr ?d"
    using assms(3) doc(1) unfolding pczt
    by (auto simp: read_signing_hints_def record_global_hints_def set_global_def Let_def split: option.split prod.split)
  have "global_proprietary pczt PROP_PRIVACY_POLICY = Some (as_bytes (policy_str required))"
    unfolding pczt by (auto simp: record_global_hints_def set_global_def Let_def split: option.split prod.split)
  note ack = check_recorded_policy [OF this]
  have permits: "permits required = \<Union> (step_reveals ` set proposal)" unfolding req by (rule permits_required)
  have derivations: "map (input_derivation P) (transparent_inputs pczt) =
       map (\<lambda>m. case hint_of m of
           Some (scope, idx) \<Rightarrow> if pc_child_index_ok P idx then Some (scope, idx) else None
         | None \<Rightarrow> None) metas"
    using n doc(2) input_derivation_put_hint [OF doc(3)]
    by (auto simp: pczt list_all_length intro!: nth_equalityI)
  have "\<forall>acknowledged. check_privacy_policy pczt acknowledged = Inr () \<longleftrightarrow> \<Union> (step_reveals ` set proposal) \<subseteq> permits acknowledged"
    and "permits required \<subseteq> permits policy"
    using ack permits propose_and_check_Inr [OF proposal] by simp_all
  with hints permits len metas derivations show ?thesis by (intro conjI exI [of _ metas])
qed

section \<open>What is signed\<close>

text \<open>The report of a pool: each candidate was signed or is listed, in order.\<close>

definition accounted :: "nat list \<Rightarrow> nat \<times> nat list \<Rightarrow> bool" where
  "accounted candidates report \<longleftrightarrow>
     subseq (snd report) candidates \<and> fst report + length (snd report) = length candidates"

lemma sign_each_accounted: "accounted is (fst (sign_each attempt is s))"
proof (induction "is" arbitrary: s)
  case (Cons i "is")
  have step: "accounted (i # is) (k, i # u) \<and> accounted (i # is) (Suc k, u)" if "accounted is (k, u)" for k u
    using that by (auto simp: accounted_def)
  show ?case
    using Cons.IH step by (auto simp: Let_def split: option.split prod.split sum.split) (metis fst_conv)+
qed (simp add: accounted_def)

lemma sign_each_no_key:
  "(\<And>i. attempt i = None) \<Longrightarrow> sign_each attempt is s = ((0, is), s)"
  by (induction "is" arbitrary: s) auto

lemma sign_pools_accounted:
  assumes "sign_pools P pczt usk signer = ((t, s, o', w), signer')"
  shows "accounted [0..<length (transparent_inputs pczt)] t \<and> accounted [0..<sapling_count pczt] s \<and>
    accounted (filter (\<lambda>i. i \<notin> presigned_orchard pczt) [0..<orchard_count pczt]) o' \<and>
    accounted (filter (\<lambda>i. i \<notin> presigned_ironwood pczt) [0..<ironwood_count pczt]) w"
proof -
  have acc: "accounted is r" if "sign_each attempt is x = (r, y)" for attempt "is" x r y
    using sign_each_accounted [of "is" attempt x] that by simp
  show ?thesis
    using assms by (auto simp: sign_pools_def Let_def split: prod.splits dest!: acc)
qed

lemma sign_pools_no_key:
  "sign_pools P pczt None signer =
     (((0, [0..<length (transparent_inputs pczt)]), (0, [0..<sapling_count pczt]),
       (0, filter (\<lambda>i. i \<notin> presigned_orchard pczt) [0..<orchard_count pczt]),
       (0, filter (\<lambda>i. i \<notin> presigned_ironwood pczt) [0..<ironwood_count pczt])), signer)"
  by (simp add: sign_pools_def Let_def sign_each_no_key transparent_attempt_def)

lemma hinted_usk_Some:
  assumes "hinted_usk E ks hints = Inr (Some usk)"
  shows "\<exists>fp idx seed. hints = Some (fp, idx) \<and> \<not> is_locked ks \<and> from_seed (sd_crypto E) seed = Some fp \<and>
    sd_usk_from_seed E seed idx = Inr usk"
  using assms
  by (auto simp: hinted_usk_def result_simps Let_def split: option.splits prod.splits sum.splits fault.splits if_splits
      dest: decrypt_seed_Inr)

lemma sign_result_Inr:
  "sign_result P strict ((t, s, o', w), signer) = Inr result \<Longrightarrow>
   t = (transparent_signed result, unsigned_transparent result) \<and> s = (sapling_signed result, unsigned_sapling result) \<and>
   o' = (orchard_signed result, unsigned_orchard result) \<and> w = (ironwood_signed result, unsigned_ironwood result) \<and>
   (strict = Some True \<longrightarrow> snd t = [] \<and> snd s = [] \<and> snd o' = [] \<and> snd w = [])"
  by (cases t; cases s; cases o'; cases w) (auto simp: sign_result_def result_simps split: if_splits)


text \<open>With a locked keystore, signing a PCZT whose hints name a seed of this wallet succeeds, signs
  nothing and reports every input as unsigned, as if the seed were not the wallet's. The code means
  to ask for the wallet to be unlocked.\<close>

theorem pczt_sign_locked_signs_nothing:
  assumes "is_locked ks" and "decode_pczt_base64 P pczt_base64 = Inr pczt"
    and "parse_privacy_policy privacy_policy = Inr acknowledged" and "check_privacy_policy pczt acknowledged = Inr ()"
    and "read_signing_hints P pczt = Inr hints" and "pc_signer P pczt = Inr signer"
    and "encode_pczt_base64 P (pc_finish P signer) = Inr text"
  shows "\<exists>result. pczt_sign E P ks pczt_base64 privacy_policy None = Inr result \<and> sg_pczt result = text \<and>
    transparent_signed result = 0 \<and> sapling_signed result = 0 \<and> orchard_signed result = 0 \<and> ironwood_signed result = 0 \<and>
    unsigned_transparent result = [0..<length (transparent_inputs pczt)] \<and> unsigned_sapling result = [0..<sapling_count pczt]"
proof -
  have "hinted_usk E ks hints = Inr None"
    by (auto simp: hinted_usk_def decrypt_seed_locked [OF assms(1)] locked_error_def ks_raise_def keystore_failure_def error_display_not_locked Let_def
        split: option.split)
  with assms show ?thesis by (simp add: pczt_sign_def sign_pools_no_key sign_result_def)
qed

section \<open>Sending from an account\<close>

text \<open>What lets a send from an account pass: a synced wallet, or witnesses for the notes of the one
  pool that can be spent while the wallet catches up.\<close>

definition may_send :: "('b, 'zaddr, 'tx, 'pk, 'pub, 'usk) account_send \<Rightarrow> FundSource \<Rightarrow> bool" where
  "may_send A fund_source \<longleftrightarrow>
     status (as_signals A 1) (as_tolerance A) = Synced \<or>
     is_ok (ensure_available (as_tolerance A) (as_signals A 2)) \<or>
     fund_source = FsIronwood \<and> sig_recovering (as_signals A 1) = None \<and> (\<exists>h. as_anchors A 1 = Inr (Some h))"

lemma send_gate_Inr: "send_gate A fund_source pir = Inr u \<Longrightarrow> may_send A fund_source"
  by (auto simp: send_gate_def may_send_def result_simps is_ok_iff status_def Let_def
      split: SyncStatus.splits if_splits option.splits)

lemma pczt_sign_strict:
  assumes "pczt_sign E P ks text policy (Some True) = Inr result"
  shows "unsigned_transparent result = [] \<and> unsigned_sapling result = [] \<and> unsigned_orchard result = [] \<and>
    unsigned_ironwood result = []"
proof -
  from assms obtain x y z where "sign_result P (Some True) (sign_pools P x y z) = Inr result"
    by (auto simp: pczt_sign_def result_simps)
  then show ?thesis by (auto simp: sign_result_def result_simps split: prod.splits if_splits)
qed

lemma slift_changed:
  "t \<noteq> s \<Longrightarrow> sbind (slift m) f s = (r, t) \<longleftrightarrow> (\<exists>x. m = Inr x \<and> f x s = (r, t))"
  by (cases m) (auto simp: sbind_def slift_def)

lemma sraise_eq: "sraise m s = (r, t) \<longleftrightarrow> (\<exists>r'. m s = (r', t) \<and> r = raising r')"
  by (cases "m s") (auto simp: sraise_def)


section \<open>Instances\<close>

definition example_pczt :: "nat \<Rightarrow> (string \<rightharpoonup> u8 list) \<Rightarrow> unit Pczt" where
  "example_pczt n props =
     \<lparr>global_proprietary = props, transparent_inputs = replicate n \<lparr>in_proprietary = Map.empty\<rparr>, sapling_count = 0,
      orchard_count = 2, ironwood_count = 0, presigned_orchard = {0, 1}, presigned_ironwood = {},
      consensus_branch_id = 0, pczt_body = ()\<rparr>"

definition example_fp :: SeedFingerprint where
  "example_fp = replicate 32 5"

text \<open>The parsed PCZT is a fixed one; the signer records nothing.\<close>

definition example_roles :: "unit Pczt \<Rightarrow> (unit, u32, Address, nat, unit) pczt_crates" where
  "example_roles parsed =
     \<lparr>pc_base64_decode = (\<lambda>_. Inr []), pc_base64_encode = (\<lambda>_. []), pc_parse = (\<lambda>_. Inr parsed),
      pc_serialize = (\<lambda>_. Inr []), pc_account_id_ok = (\<lambda>n. n < 0x80000000), pc_scope_index = (\<lambda>s. s),
      pc_scope_custom = Some, pc_child_index_ok = (\<lambda>n. n < 0x80000000), pc_create = (\<lambda>_ _. Inr (example_pczt 1 Map.empty)),
      pc_metadata = (\<lambda>_ _. Inr (Some (Some 1, Some 4))), pc_updater_failure = None,
      pc_combine = (\<lambda>ps. Inr (hd ps)), pc_signer = (\<lambda>_. Inr ()),
      pc_sign_transparent = (\<lambda>_ _ _ _. sret ()), pc_sign_sapling = (\<lambda>_ _. sret ()), pc_sign_orchard = (\<lambda>_ _. sret ()),
      pc_sign_ironwood = (\<lambda>_ _. sret ()), pc_finish = (\<lambda>_. parsed)\<rparr>"

definition example_fp_sender :: "(Address, nat, nat, unit, nat, nat, nat, unit) sender" where
  "example_fp_sender = example_sender\<lparr>sd_accounts := (sd_accounts example_sender)\<lparr>key_derivation := (\<lambda>_. Some (example_fp, 0))\<rparr>\<rparr>"

lemma example_roles_documented: "pczt_crates_documented (example_roles p)"
  by (simp add: pczt_crates_documented_def example_roles_def example_pczt_def)

lemma example_built:
  assumes "sd_propose E = (\<lambda>_. example_proposals)"
  shows "\<exists>pczt. build_pczt E (example_roles p) () q 1 NoPrivacy 0 =
     Inr (pczt, required_privacy_policy [example_step], [example_step])"
proof -
  have "input_addresses [example_step] = [PublicKeyHash [1]]" by (simp add: input_addresses_def example_step_def)
  with example_proposal assms show ?thesis
    by (simp add: build_pczt_def example_roles_def Let_def example_pczt_def record_global_hints_def set_global_def
        split: option.split prod.split)
qed

abbreviation example_parsed :: "unit Pczt" where
  "example_parsed \<equiv> example_pczt 0 Map.empty"

theorem pczt_hints_round_trip_witness:
  "\<exists>pczt. build_pczt example_fp_sender (example_roles example_parsed) () (spend_policy_for (AddrTransparent (PublicKeyHash [1])))
       1 NoPrivacy 0 = Inr (pczt, required_privacy_policy [example_step], [example_step]) \<and>
     read_signing_hints (example_roles example_parsed) pczt = Inr (Some (example_fp, 0))"
proof -
  obtain pczt where built: "build_pczt example_fp_sender (example_roles example_parsed) ()
      (spend_policy_for (AddrTransparent (PublicKeyHash [1]))) 1 NoPrivacy 0 =
      Inr (pczt, required_privacy_policy [example_step], [example_step])"
    using example_built [of example_fp_sender] by (auto simp: example_fp_sender_def example_sender_def)
  have "length fp = 32 \<and> pc_account_id_ok (example_roles example_parsed) idx"
    if "key_derivation (sd_accounts example_fp_sender) () = Some (fp, idx)" for fp idx
    using that by (auto simp: example_fp_sender_def example_sender_def example_fp_def example_roles_def)
  from pczt_hints_round_trip [OF example_roles_documented built this] built show ?thesis
    by (auto simp: example_fp_sender_def)
qed

lemma example_decode: "decode_pczt_base64 (example_roles p) ''p'' = Inr p"
  by (simp add: decode_pczt_base64_def example_roles_def MAX_PCZT_BASE64_LEN_def)

lemma example_signs:
  "pczt_sign example_sender (example_roles example_parsed) example_unlocked [] (Some ''NoPrivacy'') (Some True) =
     Inr \<lparr>sg_pczt = [], transparent_signed = 0, sapling_signed = 0, orchard_signed = 0, ironwood_signed = 0,
       unsigned_transparent = [], unsigned_sapling = [], unsigned_orchard = [], unsigned_ironwood = []\<rparr>"
proof -
  have "filter (\<lambda>i. i \<notin> {0, 1}) [0..<2] = ([] :: nat list)" by (simp add: upt_rec)
  then show ?thesis
    by (simp add: pczt_sign_def decode_pczt_base64_def example_roles_def MAX_PCZT_BASE64_LEN_def parse_privacy_policy_def
        policy_from_str_def check_privacy_policy_def example_pczt_def read_signing_hints_def hinted_usk_def sign_pools_no_key
        sign_result_def encode_pczt_base64_def)
qed


theorem pczt_sign_locked_signs_nothing_witness:
  "\<exists>result. pczt_sign example_sender (example_roles (example_pczt 2 [PROP_SEED_FINGERPRINT \<mapsto> example_fp, PROP_ACCOUNT_INDEX \<mapsto> to_le_bytes 0]))
     example_keystore ''p'' (Some ''NoPrivacy'') None = Inr result \<and> unsigned_transparent result = [0, 1]"
proof -
  let ?p = "example_pczt 2 [PROP_SEED_FINGERPRINT \<mapsto> example_fp, PROP_ACCOUNT_INDEX \<mapsto> to_le_bytes 0]"
  have h: "is_locked example_keystore" "parse_privacy_policy (Some ''NoPrivacy'') = Inr NoPrivacy"
    "check_privacy_policy ?p NoPrivacy = Inr ()" "pc_signer (example_roles ?p) ?p = Inr ()"
    "encode_pczt_base64 (example_roles ?p) (pc_finish (example_roles ?p) ()) = Inr []"
    by (simp_all add: is_locked_def example_keystore_def parse_privacy_policy_def policy_from_str_def check_privacy_policy_def
        example_pczt_def example_roles_def encode_pczt_base64_def)
  have hints: "read_signing_hints (example_roles ?p) ?p = Inr (Some (example_fp, 0))"
    by (simp add: read_signing_hints_def example_pczt_def example_fp_def example_roles_def)
  from pczt_sign_locked_signs_nothing [OF h(1) example_decode h(2,3) hints h(4,5), of example_sender] show ?thesis
    by (auto simp: example_pczt_def upt_rec)
qed

definition example_prover :: "unit prove_env" where
  "example_prover =
     \<lparr>pv_version = (\<lambda>_. None), requires_sapling_proofs = (\<lambda>_. False), requires_orchard_proof = (\<lambda>_. False),
      requires_ironwood_proof = (\<lambda>_. False), create_sapling_proofs = Inr, create_orchard_proof = (\<lambda>_. Inr),
      create_ironwood_proof = (\<lambda>_. Inr), pv_join_failure = None\<rparr>"

definition example_extract :: "(unit, nat) extract_env" where
  "example_extract =
     \<lparr>ex_version = (\<lambda>_. None), ex_extract_and_store = (\<lambda>_ _. Inr [1]), ex_get_transaction = (\<lambda>_. Inr (Some 7)),
      ex_finalize_spends = Inr, ex_extract = (\<lambda>_ _. Inr 7), ex_write = (\<lambda>_. Inr []), ex_txid = (\<lambda>_. [1]),
      ex_txid_str = (\<lambda>_. ''01''), ex_hex = (\<lambda>_. []), ex_join_failure = None\<rparr>"

definition example_account_send :: "(unit, Address, nat, nat, TransparentAddress, nat) account_send" where
  "example_account_send =
     \<lparr>as_tolerance = 0, as_signals = (\<lambda>_. example_signals), as_anchors = (\<lambda>_. Inr None), as_prepare = None,
      as_handles = (\<lambda>_. True), as_uuid = Some, as_source = example_accounts, as_before = (\<lambda>_ _. False),
      as_prover = example_prover, as_txid_decode = (\<lambda>_. Some [1]), as_account_pubkey = (\<lambda>_. Some 0),
      as_send = (\<lambda>_. example_send_env)\<rparr>"

lemma example_account_sends:
  "z_send_from_account example_sender (example_roles example_parsed) example_extract example_account_send example_unlocked
     (JString ''a'') (JString ''any_transparent'') [example_amount_to ''t''] None ''NoPrivacy'' [] =
   (Inr \<lparr>sr_txid = Some [], sr_txids = [[]], sr_broadcast = True\<rparr>, [7])"
proof -
  have "example_send_env\<lparr>se_account_pubkey := Some 0\<rparr> = example_send_env" by (simp add: example_send_env_def)
  moreover obtain pczt where "build_pczt example_sender (example_roles example_parsed) ()
      (fund_source_spend_policy FsAnyTransparent) 1 NoPrivacy 0 = Inr (pczt, required_privacy_policy [example_step], [example_step])"
    using example_built [of example_sender] by (auto simp: example_sender_def)
  moreover have "encode_pczt_base64 (example_roles example_parsed) p = Inr []" for p
    by (simp add: encode_pczt_base64_def example_roles_def)
  moreover have "pczt_prove (example_roles example_parsed) example_prover [] =
      Inr \<lparr>pv_pczt = [], sapling_proven = False, orchard_proven = False, ironwood_proven = False\<rparr>"
    by (simp add: pczt_prove_def decode_pczt_base64_def example_roles_def MAX_PCZT_BASE64_LEN_def example_prover_def
        encode_pczt_base64_def)
  moreover have "pczt_extract (example_roles example_parsed) example_extract [] =
      Inr \<lparr>xr_hex = [], xr_txid = ''01'', xr_stored = False\<rparr>"
    by (simp add: pczt_extract_def decode_pczt_base64_def example_roles_def MAX_PCZT_BASE64_LEN_def example_extract_def
        example_pczt_def serialize_transaction_def)
  moreover have "send_gate example_account_send FsAnyTransparent None = Inr ()"
    "prepare_pir example_account_send FsAnyTransparent = Inr None"
    by (simp_all add: send_gate_def prepare_pir_def should_prepare_pir_def example_account_send_def example_signals_def status_def
        saturating_sub_def)
  ultimately show ?thesis
    using example_request example_usk example_signs example_send
    by (simp add: z_send_from_account_def sbind_def slift_def wallet_handle_def sraise_def example_account_send_def
        parse_account_parameter_def fund_source_parse_def parse_privacy_policy_def policy_from_str_def
        confirmations_policy_for_minconf_def example_sender_def)
qed


end
