(* ===== verification/Rpc_Auth.thy ===== *)
theory Rpc_Auth
  imports Rpc_Errors
begin

text \<open>
  Access to the JSON-RPC server: salted password hashes and the authorization layer
  (\<open>json_rpc/server/authorization.rs\<close>), the cookie file (\<open>server/cookie.rs\<close>) on a model of the file
  system, and how the server's start puts them together (\<open>server.rs\<close>). HMAC, base64, hexadecimal
  text and the text of a header value come from other crates and are arguments; what is random is
  an argument too.
\<close>

section \<open>Password hashes\<close>

record 'h auth_crates =
  hmac_sha256 :: "u8 list \<Rightarrow> u8 list \<Rightarrow> u8 list"
  ac_hex_encode :: "u8 list \<Rightarrow> string"
  ac_hex_decode :: "string \<Rightarrow> u8 list option"
  ac_base64_encode :: "u8 list \<Rightarrow> string"
  ac_base64_decode :: "string \<Rightarrow> u8 list option"
  header_to_str :: "'h \<Rightarrow> string option"

text \<open>What the crates document: an HMAC has 32 bytes, the encoders are undone by the decoders and
  write text of their alphabets.\<close>

definition base64_char :: "char \<Rightarrow> bool" where
  "base64_char c \<longleftrightarrow> (let n = of_char c :: nat in
     (48 \<le> n \<and> n \<le> 57) \<or> (65 \<le> n \<and> n \<le> 90) \<or> (97 \<le> n \<and> n \<le> 122) \<or> n = 43 \<or> n = 47 \<or> n = 61)"

definition auth_crates_documented :: "'h auth_crates \<Rightarrow> bool" where
  "auth_crates_documented C \<longleftrightarrow>
     (\<forall>k m. length (hmac_sha256 C k m) = 32) \<and>
     (\<forall>b. ac_hex_decode C (ac_hex_encode C b) = Some b \<and> CHR ''$'' \<notin> set (ac_hex_encode C b)) \<and>
     (\<forall>b. ac_base64_decode C (ac_base64_encode C b) = Some b \<and> list_all base64_char (ac_base64_encode C b))"

definition hash_password :: "'h auth_crates \<Rightarrow> string \<Rightarrow> string \<Rightarrow> u8 list" where
  "hash_password C password salt = hmac_sha256 C (as_bytes salt) (as_bytes password)"

record PasswordHash =
  ph_salt :: string
  ph_hash :: "u8 list"

definition pwhash_from_str :: "'h auth_crates \<Rightarrow> string \<Rightarrow> PasswordHash option" where
  "pwhash_from_str C s =
     Option.bind (split_once (CHR ''$'') s) (\<lambda>(salt, hash).
     Option.bind (ac_hex_decode C hash) (\<lambda>hash.
       if length hash = 32 then Some \<lparr>ph_salt = salt, ph_hash = hash\<rparr> else None))"

definition pwhash_display :: "'h auth_crates \<Rightarrow> PasswordHash \<Rightarrow> string" where
  "pwhash_display C h = ph_salt h @ ''$'' @ ac_hex_encode C (ph_hash h)"

definition pwhash_from_bare :: "'h auth_crates \<Rightarrow> u8 list \<Rightarrow> string \<Rightarrow> PasswordHash" where
  "pwhash_from_bare C random_salt password =
     (let salt = ac_hex_encode C random_salt
      in \<lparr>ph_salt = salt, ph_hash = hash_password C password salt\<rparr>)"

definition pwhash_check :: "'h auth_crates \<Rightarrow> PasswordHash \<Rightarrow> string \<Rightarrow> bool" where
  "pwhash_check C h password \<longleftrightarrow> hash_password C password (ph_salt h) = ph_hash h"

section \<open>The authorization layer\<close>

definition COOKIE_USER :: string where
  "COOKIE_USER = ''__cookie__''"

record RpcAuthSection =
  auth_user :: string
  auth_password :: "string option"
  auth_pwhash :: "string option"

text \<open>One configured entry, and all of them: the salts of the bare passwords are drawn in order. A
  map collected from pairs keeps the last value of a key.\<close>

definition auth_entry ::
    "'h auth_crates \<Rightarrow> u8 list \<Rightarrow> RpcAuthSection \<Rightarrow> unit + string \<times> PasswordHash" where
  "auth_entry C random_salt a =
     (if auth_user a = COOKIE_USER then Inl ()
      else case (auth_password a, auth_pwhash a) of
        (Some password, None) \<Rightarrow>
          if password \<noteq> [] then Inr (auth_user a, pwhash_from_bare C random_salt password) else Inl ()
      | (None, Some pwhash) \<Rightarrow>
          (case pwhash_from_str C pwhash of
             None \<Rightarrow> Inl ()
           | Some hash \<Rightarrow> if pwhash_check C hash [] then Inl () else Inr (auth_user a, hash))
      | _ \<Rightarrow> Inl ())"

definition authorization_layer_new ::
    "'h auth_crates \<Rightarrow> (nat \<Rightarrow> u8 list) \<Rightarrow> RpcAuthSection list \<Rightarrow> (string \<times> PasswordHash) option \<Rightarrow>
     unit + (string \<rightharpoonup> PasswordHash)" where
  "authorization_layer_new C random_salts auth cookie =
     rbind (try_map (\<lambda>(i, a). auth_entry C (random_salts i) a) (enumerate 0 auth)) (\<lambda>entries.
       let users = map_of (rev entries)
       in Inr (case cookie of
                 None \<Rightarrow> users
               | Some (cookie_user, cookie_hash) \<Rightarrow> users(cookie_user \<mapsto> cookie_hash)))"

definition header_credentials :: "'h auth_crates \<Rightarrow> 'h \<Rightarrow> (string \<times> string) option" where
  "header_credentials C auth_header =
     Option.bind (header_to_str C auth_header) (\<lambda>s.
     Option.bind (strip_prefix ''Basic '' s) (\<lambda>s.
     Option.bind (ac_base64_decode C s) (\<lambda>b.
     Option.bind (from_utf8 b) (\<lambda>s. split_once (CHR '':'') s))))"

definition is_authorized :: "'h auth_crates \<Rightarrow> (string \<rightharpoonup> PasswordHash) \<Rightarrow> 'h \<Rightarrow> bool" where
  "is_authorized C users auth_header =
     (case header_credentials C auth_header of
        None \<Rightarrow> False
      | Some (user, pass) \<Rightarrow>
          (case users user of None \<Rightarrow> False | Some password \<Rightarrow> pwhash_check C password pass))"

text \<open>A request is passed on to the wrapped service, or refused with status 401 after a delay in
  milliseconds.\<close>

datatype auth_outcome = Forward | Refuse nat

definition authorization_call ::
    "'h auth_crates \<Rightarrow> (string \<rightharpoonup> PasswordHash) \<Rightarrow> 'h option \<Rightarrow> auth_outcome" where
  "authorization_call C users authorization_header =
     (case authorization_header of
        None \<Rightarrow> Refuse 0
      | Some auth_header \<Rightarrow> if is_authorized C users auth_header then Forward else Refuse 250)"

section \<open>The cookie file\<close>

text \<open>Files with their access mode, and every state the file system has gone through.\<close>

record file_entry =
  f_contents :: string
  f_mode :: nat

record disk =
  files :: "string \<rightharpoonup> file_entry"
  history :: "(string \<rightharpoonup> file_entry) list"

type_synonym 'a dio = "(disk, string, 'a) sr"

definition set_files :: "((string \<rightharpoonup> file_entry) \<Rightarrow> (string \<rightharpoonup> file_entry)) \<Rightarrow> unit dio" where
  "set_files f = smodify (\<lambda>d. d\<lparr>files := f (files d), history := history d @ [f (files d)]\<rparr>)"

text \<open>The operations of the standard library, each with the failure the system may have in store
  for it; a failed write may have written a part.\<close>

definition remove_file :: "string option \<Rightarrow> string \<Rightarrow> unit dio" where
  "remove_file failure path =
     (case failure of
        Some e \<Rightarrow> sfail e
      | None \<Rightarrow> sbind (sget files) (\<lambda>fs.
          if fs path = None then sfail ''NotFound'' else set_files (\<lambda>fs. fs(path := None))))"

definition create_private_file :: "string option \<Rightarrow> string \<Rightarrow> unit dio" where
  "create_private_file failure path =
     (case failure of
        Some e \<Rightarrow> sfail e
      | None \<Rightarrow> sbind (sget files) (\<lambda>fs.
          if fs path \<noteq> None then sfail ''AlreadyExists''
          else set_files (\<lambda>fs. fs(path \<mapsto> \<lparr>f_contents = [], f_mode = 384\<rparr>))))"

definition write_all :: "(nat \<times> string) option \<Rightarrow> string \<Rightarrow> string \<Rightarrow> unit dio" where
  "write_all failure path contents =
     (case failure of
        Some (n, e) \<Rightarrow> sbind (set_files (\<lambda>fs. fs(path := map_option (f_contents_update (\<lambda>_. take n contents)) (fs path)))) (\<lambda>_. sfail e)
      | None \<Rightarrow> set_files (\<lambda>fs. fs(path := map_option (f_contents_update (\<lambda>_. contents)) (fs path))))"

definition rename :: "string option \<Rightarrow> string \<Rightarrow> string \<Rightarrow> unit dio" where
  "rename failure from_path to_path =
     (case failure of
        Some e \<Rightarrow> sfail e
      | None \<Rightarrow> set_files (\<lambda>fs. fs(to_path := fs from_path, from_path := None)))"

text \<open>Ignoring the result of an operation.\<close>

definition ignore :: "'a dio \<Rightarrow> unit dio" where
  "ignore m = (\<lambda>d. (Inr (), snd (m d)))"

definition on_error :: "'a dio \<Rightarrow> unit dio \<Rightarrow> 'a dio" where
  "on_error m cleanup = (\<lambda>d. case m d of (Inl e, d) \<Rightarrow> (Inl e, snd (cleanup d)) | (Inr x, d) \<Rightarrow> (Inr x, d))"

record io_failures =
  io_stale :: "string option"
  io_create :: "string option"
  io_write :: "(nat \<times> string) option"
  io_cleanup :: "string option"
  io_rename :: "string option"
  io_drop :: "string option"

definition COOKIE_FILENAME :: string where
  "COOKIE_FILENAME = ''.cookie''"

definition cookie_path :: "string \<Rightarrow> string" where
  "cookie_path datadir = datadir @ ''/'' @ COOKIE_FILENAME"

definition cookie_tmp_path :: "string \<Rightarrow> string" where
  "cookie_tmp_path datadir = datadir @ ''/'' @ COOKIE_FILENAME @ ''.tmp''"

definition cookie_text :: "'h auth_crates \<Rightarrow> u8 list \<Rightarrow> string" where
  "cookie_text C random_password = COOKIE_USER @ '':'' @ ac_base64_encode C random_password"

definition generate_cookie ::
    "'h auth_crates \<Rightarrow> io_failures \<Rightarrow> u8 list \<Rightarrow> u8 list \<Rightarrow> string \<Rightarrow> (string \<times> PasswordHash) dio" where
  "generate_cookie C io random_password random_salt datadir =
     (let password = ac_base64_encode C random_password;
          cookie = COOKIE_USER @ '':'' @ password;
          tmp_path = cookie_tmp_path datadir in
      sbind (ignore (remove_file (io_stale io) tmp_path)) (\<lambda>_.
      sbind (create_private_file (io_create io) tmp_path) (\<lambda>_.
      sbind (on_error (write_all (io_write io) tmp_path cookie) (ignore (remove_file (io_cleanup io) tmp_path))) (\<lambda>_.
      sbind (on_error (rename (io_rename io) tmp_path (cookie_path datadir)) (ignore (remove_file (io_cleanup io) tmp_path))) (\<lambda>_.
      sret (COOKIE_USER, pwhash_from_bare C random_salt password))))))"

definition drop_cookie_guard :: "io_failures \<Rightarrow> string \<Rightarrow> unit dio" where
  "drop_cookie_guard io datadir = ignore (remove_file (io_drop io) (cookie_path datadir))"

definition read_cookie :: "disk \<Rightarrow> string \<Rightarrow> string + string" where
  "read_cookie d datadir =
     (case files d (cookie_path datadir) of
        None \<Rightarrow> Inl ''NotFound''
      | Some f \<Rightarrow>
          (let cookie = trim (f_contents f)
           in if starts_with (COOKIE_USER @ '':'') cookie then Inr cookie
              else Inl ''Invalid cookie file format''))"

section \<open>Starting the server\<close>

text \<open>\<open>server::spawn\<close>: the configuration's checks, the cookie and the authorization layer, up to the
  server being built; the guard of the cookie file is dropped on every failure after its creation.
  What building, binding and merging the methods answer is an argument.\<close>

datatype spawn_error = AssertFailed | CookieUserReserved | CookieFailed string | AuthInvalid | BuildFailed string

definition server_spawn ::
    "'h auth_crates \<Rightarrow> io_failures \<Rightarrow> u8 list \<Rightarrow> u8 list \<Rightarrow> (nat \<Rightarrow> u8 list) \<Rightarrow> nat \<Rightarrow> RpcAuthSection list \<Rightarrow>
     string \<Rightarrow> string option \<Rightarrow> disk \<Rightarrow> (spawn_error + (string \<rightharpoonup> PasswordHash)) \<times> disk" where
  "server_spawn C io random_password random_salt random_salts bind_len auth datadir build_failure d =
     (if bind_len \<noteq> 1 then (Inl AssertFailed, d)
      else if \<exists>a \<in> set auth. auth_user a = COOKIE_USER then (Inl CookieUserReserved, d)
      else case generate_cookie C io random_password random_salt datadir d of
        (Inl e, d) \<Rightarrow> (Inl (CookieFailed e), d)
      | (Inr cookie, d) \<Rightarrow>
          (case authorization_layer_new C random_salts auth (Some cookie) of
             Inl _ \<Rightarrow> (Inl AuthInvalid, snd (drop_cookie_guard io datadir d))
           | Inr users \<Rightarrow>
               (case build_failure of
                  Some e \<Rightarrow> (Inl (BuildFailed e), snd (drop_cookie_guard io datadir d))
                | None \<Rightarrow> (Inr users, d))))"

section \<open>Who gets in\<close>

text \<open>The entry that counts for a user is the last one; it accepts a password by its hash.\<close>

definition entry_valid :: "'h auth_crates \<Rightarrow> RpcAuthSection \<Rightarrow> bool" where
  "entry_valid C a \<longleftrightarrow> auth_user a \<noteq> COOKIE_USER \<and>
     ((\<exists>p. auth_password a = Some p \<and> auth_pwhash a = None \<and> p \<noteq> []) \<or>
      (\<exists>s h. auth_password a = None \<and> auth_pwhash a = Some s \<and> pwhash_from_str C s = Some h \<and> \<not> pwhash_check C h []))"

definition entry_hash :: "'h auth_crates \<Rightarrow> u8 list \<Rightarrow> RpcAuthSection \<Rightarrow> PasswordHash" where
  "entry_hash C salt a =
     (case auth_password a of
        Some p \<Rightarrow> pwhash_from_bare C salt p
      | None \<Rightarrow> the (pwhash_from_str C (the (auth_pwhash a))))"

definition last_entry :: "RpcAuthSection list \<Rightarrow> string \<Rightarrow> (nat \<times> RpcAuthSection) option" where
  "last_entry auth user = find (\<lambda>(_, a). auth_user a = user) (rev (enumerate 0 auth))"

lemma auth_entry_Inr:
  "auth_entry C salt a = Inr e \<longleftrightarrow> entry_valid C a \<and> e = (auth_user a, entry_hash C salt a)"
  by (auto simp: auth_entry_def entry_valid_def entry_hash_def split: option.splits)

lemma map_of_entries:
  "map_of (map (\<lambda>(i, a). (auth_user a, entry_hash C (salts i) a)) ps) user =
     map_option (\<lambda>(i, a). entry_hash C (salts i) a) (find (\<lambda>(_, a). auth_user a = user) ps)"
  by (induction ps) auto

lemma layer_entries:
  "try_map (\<lambda>(i, a). auth_entry C (salts i) a) ps = Inr entries \<longleftrightarrow>
   (\<forall>(i, a) \<in> set ps. entry_valid C a) \<and> entries = map (\<lambda>(i, a). (auth_user a, entry_hash C (salts i) a)) ps"
  by (induction ps arbitrary: entries) (auto simp: result_simps auth_entry_Inr)

lemma authorization_layer_new_Inr:
  "authorization_layer_new C salts auth cookie = Inr users \<longleftrightarrow>
   list_all (entry_valid C) auth \<and>
   users = (\<lambda>user. case cookie of
     Some (cu, ch) \<Rightarrow> if user = cu then Some ch else map_option (\<lambda>(i, a). entry_hash C (salts i) a) (last_entry auth user)
   | None \<Rightarrow> map_option (\<lambda>(i, a). entry_hash C (salts i) a) (last_entry auth user))"
proof -
  have valid: "(\<forall>(i, a) \<in> set (enumerate n auth). entry_valid C a) \<longleftrightarrow> list_all (entry_valid C) auth" for n
    by (induction auth arbitrary: n) auto
  have lookup: "map_of (rev (map (\<lambda>(i, a). (auth_user a, entry_hash C (salts i) a)) (enumerate 0 auth))) user =
      map_option (\<lambda>(i, a). entry_hash C (salts i) a) (last_entry auth user)" for user
    by (simp add: rev_map map_of_entries last_entry_def)
  show ?thesis
    unfolding authorization_layer_new_def rbind_Inr_iff layer_entries valid
    by (auto simp: Let_def lookup fun_eq_iff split: option.split prod.split)
qed

text \<open>Whether the configuration and the cookie accept a user's password.\<close>

definition accepts_password ::
    "'h auth_crates \<Rightarrow> (nat \<Rightarrow> u8 list) \<Rightarrow> RpcAuthSection list \<Rightarrow> PasswordHash \<Rightarrow> string \<Rightarrow> string \<Rightarrow> bool" where
  "accepts_password C salts auth cookie_hash user pass \<longleftrightarrow>
     (if user = COOKIE_USER then pwhash_check C cookie_hash pass
      else case last_entry auth user of
        None \<Rightarrow> False
      | Some (i, a) \<Rightarrow>
          (case auth_password a of
             Some p \<Rightarrow> hash_password C pass (ac_hex_encode C (salts i)) = hash_password C p (ac_hex_encode C (salts i))
           | None \<Rightarrow>
               (case auth_pwhash a of
                  None \<Rightarrow> False
                | Some s \<Rightarrow> (case pwhash_from_str C s of None \<Rightarrow> False | Some hash \<Rightarrow> pwhash_check C hash pass))))"

lemma layer_accepts:
  assumes "authorization_layer_new C salts auth (Some (COOKIE_USER, cookie_hash)) = Inr users"
  shows "(case users user of None \<Rightarrow> False | Some hash \<Rightarrow> pwhash_check C hash pass) \<longleftrightarrow>
    accepts_password C salts auth cookie_hash user pass"
proof -
  have "a \<in> set auth" if "last_entry auth user = Some (i, a)" for i a
    using that by (auto simp: last_entry_def dest!: find_Some_mem in_set_enumerate_eq [THEN iffD1])
  then have "entry_valid C a" if "last_entry auth user = Some (i, a)" for i a
    using that assms unfolding authorization_layer_new_Inr list_all_iff by blast
  then show ?thesis
    using assms unfolding authorization_layer_new_Inr accepts_password_def
    by (auto simp: entry_valid_def entry_hash_def pwhash_from_bare_def pwhash_check_def Let_def split: option.split)
qed

text \<open>When a configuration is accepted, none of its entries uses the cookie's name, each has a
  password or a password hash but not both, and no entry accepts the empty password through its
  hash. A request is then passed on exactly when it carries Basic credentials of a user whose
  deciding entry (the cookie, or else the last one configured) has the hash of the password
  given; otherwise it is refused, after a delay if it carried credentials.\<close>

theorem authorization_exact:
  assumes "authorization_layer_new C salts auth (Some (COOKIE_USER, cookie_hash)) = Inr users"
  shows "list_all (entry_valid C) auth \<and>
    authorization_call C users header =
      (case header of
         None \<Rightarrow> Refuse 0
       | Some h \<Rightarrow>
           if \<exists>user pass. header_credentials C h = Some (user, pass) \<and> accepts_password C salts auth cookie_hash user pass
           then Forward else Refuse 250)"
proof
  show "list_all (entry_valid C) auth" using assms by (simp add: authorization_layer_new_Inr)
  show "authorization_call C users header =
      (case header of
         None \<Rightarrow> Refuse 0
       | Some h \<Rightarrow>
           if \<exists>user pass. header_credentials C h = Some (user, pass) \<and> accepts_password C salts auth cookie_hash user pass
           then Forward else Refuse 250)"
    using layer_accepts [OF assms]
    by (auto simp: authorization_call_def is_authorized_def split: option.split)
qed

lemma pwhash_round_trip:
  assumes "auth_crates_documented C"
  shows "pwhash_from_str C (pwhash_display C (pwhash_from_bare C salt password)) = Some (pwhash_from_bare C salt password)"
    and "pwhash_check C (pwhash_from_bare C salt password) password"
  using assms
  by (simp_all add: auth_crates_documented_def pwhash_from_str_def pwhash_display_def pwhash_from_bare_def
      pwhash_check_def hash_password_def Let_def split_once_append)

section \<open>The cookie file over time\<close>

lemma cookie_paths [simp]: "cookie_tmp_path datadir \<noteq> cookie_path datadir" "cookie_path datadir \<noteq> cookie_tmp_path datadir"
  by (simp_all add: cookie_tmp_path_def cookie_path_def)

lemma base64_char_plain: "base64_char c \<Longrightarrow> \<not> is_ascii_space c \<and> of_char c < (128 :: nat) \<and> c \<noteq> CHR '':''"
  by (auto simp: base64_char_def is_ascii_space_def Let_def)

lemma cookie_text_plain:
  assumes "auth_crates_documented C" and "c \<in> set (cookie_text C random_password)"
  shows "\<not> is_ascii_space c \<and> of_char c < (128 :: nat)"
proof -
  from assms(2) consider "c \<in> set COOKIE_USER" | "c = CHR '':''" | "c \<in> set (ac_base64_encode C random_password)"
    by (auto simp: cookie_text_def)
  then show ?thesis
  proof cases
    case 3
    then have "base64_char c" using assms(1) by (auto simp: auth_crates_documented_def list_all_iff)
    then show ?thesis by (auto dest: base64_char_plain)
  qed (auto simp: COOKIE_USER_def is_ascii_space_def)
qed

text \<open>A state of the file system while the cookie \<open>text\<close> is installed, from \<open>before\<close>: the final path
  holds what it held or the complete new cookie, the temporary one nothing, a leftover of an
  earlier run, or a part of the new cookie; both new files are readable by their owner only, and
  nothing else changes.\<close>

definition installing :: "string \<Rightarrow> string \<Rightarrow> (string \<rightharpoonup> file_entry) \<Rightarrow> (string \<rightharpoonup> file_entry) \<Rightarrow> bool" where
  "installing text datadir before fs \<longleftrightarrow>
     (fs (cookie_path datadir) = before (cookie_path datadir) \<or>
      fs (cookie_path datadir) = Some \<lparr>f_contents = text, f_mode = 384\<rparr>) \<and>
     (fs (cookie_tmp_path datadir) = None \<or> fs (cookie_tmp_path datadir) = before (cookie_tmp_path datadir) \<or>
      (\<exists>n. fs (cookie_tmp_path datadir) = Some \<lparr>f_contents = take n text, f_mode = 384\<rparr>)) \<and>
     (\<forall>p. p \<noteq> cookie_path datadir \<and> p \<noteq> cookie_tmp_path datadir \<longrightarrow> fs p = before p)"

definition recorded :: "((string \<rightharpoonup> file_entry) \<Rightarrow> bool) \<Rightarrow> disk \<Rightarrow> disk \<Rightarrow> bool" where
  "recorded P d d' \<longleftrightarrow>
     (\<exists>steps. history d' = history d @ steps \<and> list_all P steps \<and> files d' = last (files d # steps))"

lemma recorded_refl [simp]: "recorded P d d"
  by (simp add: recorded_def)

lemma recorded_set_files:
  "P (f (files d')) \<Longrightarrow> recorded P d d' \<Longrightarrow>
   recorded P d (d'\<lparr>files := f (files d'), history := history d' @ [f (files d')]\<rparr>)"
  unfolding recorded_def by (elim exE, rule_tac x = "steps @ [f (files d')]" in exI) simp

lemma recorded_last: "recorded P d d' \<Longrightarrow> P (files d) \<Longrightarrow> P (files d')"
  unfolding recorded_def list_all_iff by (elim exE conjE, case_tac "steps = []") simp_all

lemma installing_before [simp]: "installing cookie datadir before before"
  by (simp add: installing_def)

text \<open>The state between two steps of the installation: what the two paths hold.\<close>

definition stage ::
    "string \<Rightarrow> string \<Rightarrow> disk \<Rightarrow> file_entry option \<Rightarrow> file_entry option \<Rightarrow> disk \<Rightarrow> bool" where
  "stage cookie datadir d final tmp d' \<longleftrightarrow>
     recorded (installing cookie datadir (files d)) d d' \<and>
     files d' (cookie_path datadir) = final \<and> files d' (cookie_tmp_path datadir) = tmp"

lemma stage_step:
  assumes "stage cookie datadir d final tmp d'"
    and "final' = files d (cookie_path datadir) \<or> final' = Some \<lparr>f_contents = cookie, f_mode = 384\<rparr>"
    and "tmp' = None \<or> (\<exists>n. tmp' = Some \<lparr>f_contents = take n cookie, f_mode = 384\<rparr>)"
    and "f (files d') = (files d')(cookie_path datadir := final', cookie_tmp_path datadir := tmp')"
  shows "stage cookie datadir d final' tmp' (d'\<lparr>files := f (files d'), history := history d' @ [f (files d')]\<rparr>)"
proof -
  have "installing cookie datadir (files d) (files d')"
    using assms(1) recorded_last installing_before unfolding stage_def by blast
  then have "installing cookie datadir (files d) (f (files d'))"
    using assms(2,3) unfolding assms(4) installing_def by auto
  with assms(1,4) show ?thesis by (auto simp: stage_def intro!: recorded_set_files)
qed

text \<open>The steps, as they move from one stage to the next.\<close>

definition absent_or :: "file_entry option \<Rightarrow> file_entry option \<Rightarrow> bool" where
  "absent_or t t' \<longleftrightarrow> t' = None \<or> t' = t"

lemma remove_tmp_stage:
  assumes "stage cookie datadir d (files d (cookie_path datadir)) tmp d'"
  shows "\<exists>tmp'. absent_or tmp tmp' \<and> stage cookie datadir d (files d (cookie_path datadir)) tmp'
    (snd (ignore (remove_file failure (cookie_tmp_path datadir)) d'))"
proof -
  have "stage cookie datadir d (files d (cookie_path datadir)) None
      (d'\<lparr>files := (files d')(cookie_tmp_path datadir := None), history := history d' @ [(files d')(cookie_tmp_path datadir := None)]\<rparr>)"
    by (rule stage_step [OF assms, where f = "\<lambda>fs. fs(cookie_tmp_path datadir := None)"])
      (use assms in \<open>auto simp: stage_def fun_eq_iff\<close>)
  with assms show ?thesis
    by (auto simp: absent_or_def ignore_def remove_file_def sbind_def sget_def sfail_def set_files_def smodify_def split: option.split)
qed

lemma create_stage:
  assumes "stage cookie datadir d final tmp d'" and "final = files d (cookie_path datadir)"
    and "create_private_file failure (cookie_tmp_path datadir) d' = (r, d'')"
  shows "case r of
      Inr _ \<Rightarrow> stage cookie datadir d final (Some \<lparr>f_contents = [], f_mode = 384\<rparr>) d''
    | Inl e \<Rightarrow> d'' = d'"
proof -
  have "stage cookie datadir d final (Some \<lparr>f_contents = [], f_mode = 384\<rparr>)
      (d'\<lparr>files := (files d')(cookie_tmp_path datadir \<mapsto> \<lparr>f_contents = [], f_mode = 384\<rparr>),
         history := history d' @ [(files d')(cookie_tmp_path datadir \<mapsto> \<lparr>f_contents = [], f_mode = 384\<rparr>)]\<rparr>)"
    by (rule stage_step [OF assms(1), where f = "\<lambda>fs. fs(cookie_tmp_path datadir \<mapsto> \<lparr>f_contents = [], f_mode = 384\<rparr>)"])
      (use assms(1,2) in \<open>auto simp: stage_def fun_eq_iff intro: exI [of _ 0]\<close>)
  with assms(3) show ?thesis
    by (auto simp: create_private_file_def sbind_def sget_def sfail_def set_files_def smodify_def split: option.splits if_splits)
qed

lemma write_stage:
  assumes "stage cookie datadir d final (Some \<lparr>f_contents = [], f_mode = 384\<rparr>) d'"
    and "final = files d (cookie_path datadir)"
    and "write_all failure (cookie_tmp_path datadir) cookie d' = (r, d'')"
  shows "\<exists>n. stage cookie datadir d final (Some \<lparr>f_contents = take n cookie, f_mode = 384\<rparr>) d'' \<and>
    (r = Inr () \<longrightarrow> take n cookie = cookie)"
proof -
  let ?f = "\<lambda>n fs. fs(cookie_tmp_path datadir := map_option (f_contents_update (\<lambda>_. take n cookie)) (fs (cookie_tmp_path datadir)))"
  have step: "stage cookie datadir d final (Some \<lparr>f_contents = take n cookie, f_mode = 384\<rparr>)
      (d'\<lparr>files := ?f n (files d'), history := history d' @ [?f n (files d')]\<rparr>)" for n
    by (rule stage_step [OF assms(1), where f = "?f n"])
      (use assms(1,2) in \<open>auto simp: stage_def fun_eq_iff\<close>)
  show ?thesis
  proof (cases failure)
    case None
    with assms(3) step [of "length cookie"] show ?thesis
      by (intro exI [of _ "length cookie"]) (auto simp: write_all_def set_files_def smodify_def)
  next
    case (Some p)
    with assms(3) step [of "fst p"] show ?thesis
      by (intro exI [of _ "fst p"]) (auto simp: write_all_def set_files_def smodify_def sbind_def sfail_def split: prod.splits)
  qed
qed

lemma rename_stage:
  assumes "stage cookie datadir d final (Some \<lparr>f_contents = cookie, f_mode = 384\<rparr>) d'"
    and "rename failure (cookie_tmp_path datadir) (cookie_path datadir) d' = (r, d'')"
  shows "case r of
      Inr _ \<Rightarrow> stage cookie datadir d (Some \<lparr>f_contents = cookie, f_mode = 384\<rparr>) None d''
    | Inl e \<Rightarrow> d'' = d'"
proof -
  let ?f = "\<lambda>fs. fs(cookie_path datadir := fs (cookie_tmp_path datadir), cookie_tmp_path datadir := None)"
  have "stage cookie datadir d (Some \<lparr>f_contents = cookie, f_mode = 384\<rparr>) None
      (d'\<lparr>files := ?f (files d'), history := history d' @ [?f (files d')]\<rparr>)"
    by (rule stage_step [OF assms(1), where f = ?f]) (use assms(1) in \<open>auto simp: stage_def fun_eq_iff\<close>)
  with assms(2) show ?thesis
    by (auto simp: rename_def sfail_def set_files_def smodify_def split: option.splits)
qed

lemma generate_cookie_stages:
  assumes "generate_cookie C io random_password random_salt datadir d = (r, d')"
  shows "case r of
      Inr (user, hash) \<Rightarrow> user = COOKIE_USER \<and>
        hash = pwhash_from_bare C random_salt (ac_base64_encode C random_password) \<and>
        stage (cookie_text C random_password) datadir d
          (Some \<lparr>f_contents = cookie_text C random_password, f_mode = 384\<rparr>) None d'
    | Inl e \<Rightarrow> \<exists>tmp. stage (cookie_text C random_password) datadir d (files d (cookie_path datadir)) tmp d'"
proof -
  let ?c = "cookie_text C random_password" and ?final = "files d (cookie_path datadir)"
  let ?stage = "stage ?c datadir d" and ?tmp = "cookie_tmp_path datadir"
  let ?cleanup = "ignore (remove_file (io_cleanup io) ?tmp)"
  have "?stage ?final (files d ?tmp) d" by (simp add: stage_def)
  from remove_tmp_stage [OF this] obtain t1
    where s1: "?stage ?final t1 (snd (ignore (remove_file (io_stale io) ?tmp) d))" by blast
  let ?d1 = "snd (ignore (remove_file (io_stale io) ?tmp) d)"
  obtain r2 d2 where c: "create_private_file (io_create io) ?tmp ?d1 = (r2, d2)" by fastforce
  note s2 = create_stage [OF s1 refl c]
  show ?thesis
  proof (cases r2)
    case (Inl e)
    with c assms s1 s2 show ?thesis
      by (auto simp: generate_cookie_def Let_def sbind_def ignore_def split: prod.splits)
  next
    case (Inr u)
    with s2 have s2: "?stage ?final (Some \<lparr>f_contents = [], f_mode = 384\<rparr>) d2" by simp
    obtain r3 d3 where w: "write_all (io_write io) ?tmp ?c d2 = (r3, d3)" by fastforce
    from write_stage [OF s2 refl w] obtain n
      where s3: "?stage ?final (Some \<lparr>f_contents = take n ?c, f_mode = 384\<rparr>) d3" "r3 = Inr () \<longrightarrow> take n ?c = ?c"
      by blast
    have run: "generate_cookie C io random_password random_salt datadir d =
        (case r3 of
           Inl e \<Rightarrow> (Inl e, snd (?cleanup d3))
         | Inr _ \<Rightarrow> (case rename (io_rename io) ?tmp (cookie_path datadir) d3 of
             (Inl e, d4) \<Rightarrow> (Inl e, snd (?cleanup d4))
           | (Inr _, d4) \<Rightarrow> (Inr (COOKIE_USER, pwhash_from_bare C random_salt (ac_base64_encode C random_password)), d4)))"
      using c Inr w
      by (auto simp: generate_cookie_def Let_def sbind_def ignore_def on_error_def sret_def cookie_text_def split: prod.splits sum.splits)
    show ?thesis
    proof (cases r3)
      case (Inl e)
      with run assms remove_tmp_stage [OF s3(1), of "io_cleanup io"] show ?thesis by auto
    next
      case (Inr u)
      with s3 have s3: "?stage ?final (Some \<lparr>f_contents = ?c, f_mode = 384\<rparr>) d3" by simp
      obtain r4 d4 where rn: "rename (io_rename io) ?tmp (cookie_path datadir) d3 = (r4, d4)" by fastforce
      from rename_stage [OF s3 rn] run assms Inr rn remove_tmp_stage [OF s3, of "io_cleanup io"] show ?thesis
        by (cases r4) auto
    qed
  qed
qed

lemma read_installed_cookie:
  assumes "auth_crates_documented C"
    and "files d (cookie_path datadir) = Some \<lparr>f_contents = cookie_text C random_password, f_mode = m\<rparr>"
  shows "read_cookie d datadir = Inr (cookie_text C random_password)"
proof -
  have "strip_prefix (COOKIE_USER @ '':'') (cookie_text C random_password) = Some (ac_base64_encode C random_password)"
    by (simp add: strip_prefix_iff cookie_text_def)
  then show ?thesis
    using assms(2) trim_id [of "cookie_text C random_password"] cookie_text_plain [OF assms(1)]
    by (simp add: read_cookie_def Let_def)
qed

text \<open>C37: Whatever fails while the cookie is generated, and at every moment: the cookie's path holds
  what it held before or the complete new cookie, a partial cookie is only ever in the temporary
  file, both are created for their owner only, and no other file changes. On success the temporary
  file is gone and the file reads back as the cookie whose password the returned hash accepts; on
  failure the previous cookie is still in place.\<close>

theorem cookie_installed_atomically:
  assumes "auth_crates_documented C"
    and "generate_cookie C io random_password random_salt datadir d = (r, d')"
  shows "recorded (installing (cookie_text C random_password) datadir (files d)) d d' \<and>
    (case r of
       Inr (user, hash) \<Rightarrow>
         files d' (cookie_tmp_path datadir) = None \<and>
         files d' (cookie_path datadir) = Some \<lparr>f_contents = cookie_text C random_password, f_mode = 384\<rparr> \<and>
         read_cookie d' datadir = Inr (user @ '':'' @ ac_base64_encode C random_password) \<and>
         pwhash_check C hash (ac_base64_encode C random_password)
     | Inl e \<Rightarrow> files d' (cookie_path datadir) = files d (cookie_path datadir))"
  using generate_cookie_stages [OF assms(2)] read_installed_cookie [OF assms(1), of d' datadir random_password 384]
    pwhash_round_trip(2) [OF assms(1)]
  by (auto simp: stage_def cookie_text_def split: sum.splits)

text \<open>The header a client sends after reading the cookie file.\<close>

definition cookie_header :: "'h auth_crates \<Rightarrow> string \<Rightarrow> 'h \<Rightarrow> bool" where
  "cookie_header C cookie h \<longleftrightarrow> header_to_str C h = Some (''Basic '' @ ac_base64_encode C (as_bytes cookie))"

lemma cookie_header_credentials:
  assumes "auth_crates_documented C" and "cookie_header C (cookie_text C random_password) h"
  shows "header_credentials C h = Some (COOKIE_USER, ac_base64_encode C random_password)"
proof -
  have "from_utf8 (as_bytes (cookie_text C random_password)) = Some (cookie_text C random_password)"
    using cookie_text_plain [OF assms(1)] by (intro from_utf8_ascii) blast
  moreover have "strip_prefix ''Basic '' (''Basic '' @ x) = Some x" for x
    by (simp only: strip_prefix_iff)
  moreover have "split_once (CHR '':'') (cookie_text C random_password) = Some (COOKIE_USER, ac_base64_encode C random_password)"
    using split_once_append [of "CHR '':''" COOKIE_USER] by (simp add: cookie_text_def COOKIE_USER_def)
  ultimately show ?thesis
    using assms by (simp add: header_credentials_def cookie_header_def auth_crates_documented_def)
qed

text \<open>A server that starts admits whoever can read the cookie file it left, and it starts only with
  a configuration that does not claim the cookie's name. A server that fails to start leaves the
  cookie's path as it was, or empty once it had written it, unless removing the file fails.\<close>

theorem server_cookie_admits_reader:
  assumes "auth_crates_documented C"
    and "server_spawn C io random_password random_salt salts bind_len auth datadir build_failure d = (r, d')"
  shows "case r of
      Inr users \<Rightarrow> \<exists>cookie. read_cookie d' datadir = Inr cookie \<and>
        (\<forall>h. cookie_header C cookie h \<longrightarrow> authorization_call C users (Some h) = Forward) \<and>
        list_all (\<lambda>a. auth_user a \<noteq> COOKIE_USER) auth
    | Inl e \<Rightarrow> io_drop io \<noteq> None \<or> files d' (cookie_path datadir) = None \<or>
        files d' (cookie_path datadir) = files d (cookie_path datadir)"
proof -
  obtain g d1 where g: "generate_cookie C io random_password random_salt datadir d = (g, d1)" by fastforce
  note stages = generate_cookie_stages [OF g]
  have dropped: "io_drop io \<noteq> None \<or> files (snd (drop_cookie_guard io datadir d1)) (cookie_path datadir) = None"
    by (auto simp: drop_cookie_guard_def ignore_def remove_file_def sbind_def sget_def sfail_def set_files_def
        smodify_def split: option.split)
  show ?thesis
  proof (cases r)
    case (Inl e)
    with assms(2) g stages dropped show ?thesis
      by (auto simp: server_spawn_def stage_def split: if_splits sum.splits option.splits)
  next
    case (Inr users)
    then obtain cookie where ok: "g = Inr cookie" "d' = d1"
      "authorization_layer_new C salts auth (Some cookie) = Inr users" "\<forall>a \<in> set auth. auth_user a \<noteq> COOKIE_USER"
      using assms(2) g by (auto simp: server_spawn_def split: if_splits sum.splits option.splits)
    let ?hash = "pwhash_from_bare C random_salt (ac_base64_encode C random_password)"
    from stages ok have installed: "files d' (cookie_path datadir) = Some \<lparr>f_contents = cookie_text C random_password, f_mode = 384\<rparr>"
      and cookie: "cookie = (COOKIE_USER, ?hash)"
      by (auto simp: stage_def)
    have users: "authorization_layer_new C salts auth (Some (COOKIE_USER, ?hash)) = Inr users" using ok cookie by simp
    have "accepts_password C salts auth ?hash COOKIE_USER (ac_base64_encode C random_password)"
      using pwhash_round_trip(2) [OF assms(1)] by (simp add: accepts_password_def)
    then have "authorization_call C users (Some h) = Forward" if "cookie_header C (cookie_text C random_password) h" for h
      using layer_accepts [OF users] cookie_header_credentials [OF assms(1) that]
      by (simp add: authorization_call_def is_authorized_def)
    with read_installed_cookie [OF assms(1) installed] ok(4) Inr show ?thesis by (auto simp: list_all_iff)
  qed
qed

section \<open>Instances\<close>

text \<open>Encoders that write a byte as two letters, and a keyed checksum.\<close>

fun letters_encode :: "u8 list \<Rightarrow> string" where
  "letters_encode [] = []"
| "letters_encode (b # bs) = char_of (65 + unat b div 16) # char_of (65 + unat b mod 16) # letters_encode bs"

fun letters_decode :: "string \<Rightarrow> u8 list option" where
  "letters_decode [] = Some []"
| "letters_decode [c] = None"
| "letters_decode (c # d # cs) =
     map_option ((#) (of_nat ((of_char c - 65) * 16 + (of_char d - 65)))) (letters_decode cs)"

definition example_crates :: "string auth_crates" where
  "example_crates =
     \<lparr>hmac_sha256 = (\<lambda>k m. take 32 (m @ k @ replicate 32 0)),
      ac_hex_encode = letters_encode, ac_hex_decode = letters_decode,
      ac_base64_encode = letters_encode, ac_base64_decode = letters_decode, header_to_str = Some\<rparr>"

lemma letters_round_trip: "letters_decode (letters_encode b) = Some b"
proof (induction b)
  case (Cons b bs)
  have "unat b < 256" using unsigned_less [of b] by simp
  then have "of_char (char_of (65 + unat b div 16) :: char) = 65 + unat b div 16"
    "of_char (char_of (65 + unat b mod 16) :: char) = 65 + unat b mod 16" by simp_all
  with Cons show ?case by (simp add: mult.commute)
qed simp

lemma letter_char:
  assumes "n < (16 :: nat)"
  shows "base64_char (char_of (65 + n))" and "char_of (65 + n) \<noteq> CHR ''$''"
proof -
  have code: "of_char (char_of (65 + n) :: char) = 65 + n" using assms by simp
  then show "base64_char (char_of (65 + n))" using assms by (simp add: base64_char_def Let_def)
  show "char_of (65 + n) \<noteq> CHR ''$''"
  proof
    assume "char_of (65 + n) = CHR ''$''"
    then have "of_char (CHR ''$'') = 65 + n" using code by simp
    then show False by simp
  qed
qed

lemma letters_alphabet: "c \<in> set (letters_encode b) \<Longrightarrow> base64_char c \<and> c \<noteq> CHR ''$''"
proof (induction b)
  case (Cons b bs)
  have "unat b < 256" using unsigned_less [of b] by simp
  then have "unat b div 16 < 16" "unat b mod 16 < 16" by auto
  with Cons letter_char [of "unat b div 16"] letter_char [of "unat b mod 16"] show ?case by auto
qed simp

lemma example_crates_documented: "auth_crates_documented example_crates"
  using letters_alphabet
  by (auto simp: auth_crates_documented_def example_crates_def letters_round_trip list_all_iff)


text \<open>One user with a bare password, and a request with it.\<close>

definition example_auth :: "RpcAuthSection list" where
  "example_auth = [\<lparr>auth_user = ''bob'', auth_password = Some ''pw'', auth_pwhash = None\<rparr>]"

definition example_header :: string where
  "example_header = ''Basic '' @ letters_encode (as_bytes ''bob:pw'')"

definition no_failures :: io_failures where
  "no_failures = \<lparr>io_stale = None, io_create = None, io_write = None, io_cleanup = None, io_rename = None, io_drop = None\<rparr>"


lemma example_layer:
  "\<exists>users. authorization_layer_new example_crates (\<lambda>_. [7]) example_auth (Some (COOKIE_USER, cookie_hash)) = Inr users"
  by (simp add: authorization_layer_new_Inr example_auth_def entry_valid_def COOKIE_USER_def)

lemma example_header_credentials: "header_credentials example_crates example_header = Some (''bob'', ''pw'')"
proof -
  have "from_utf8 (as_bytes ''bob:pw'') = Some ''bob:pw''" by (rule from_utf8_ascii) auto
  moreover have "strip_prefix ''Basic '' (''Basic '' @ x) = Some x" for x by (simp only: strip_prefix_iff)
  moreover have "split_once (CHR '':'') ''bob:pw'' = Some (''bob'', ''pw'')"
    using split_once_append [of "CHR '':''" "''bob''" "''pw''"] by simp
  ultimately show ?thesis
    by (simp add: header_credentials_def example_header_def example_crates_def letters_round_trip)
qed

theorem authorization_exact_witness:
  "\<exists>users. authorization_layer_new example_crates (\<lambda>_. [7]) example_auth
      (Some (COOKIE_USER, pwhash_from_bare example_crates [9] ''AA'')) = Inr users \<and>
     authorization_call example_crates users (Some example_header) = Forward \<and>
     authorization_call example_crates users None = Refuse 0"
proof -
  let ?hash = "pwhash_from_bare example_crates [9] ''AA''"
  obtain users where users: "authorization_layer_new example_crates (\<lambda>_. [7]) example_auth (Some (COOKIE_USER, ?hash)) = Inr users"
    using example_layer by blast
  have "accepts_password example_crates (\<lambda>_. [7]) example_auth ?hash ''bob'' ''pw''"
    by (simp add: accepts_password_def COOKIE_USER_def last_entry_def example_auth_def)
  with authorization_exact [OF users, of "Some example_header"] authorization_exact [OF users, of None] users
  show ?thesis by (auto simp: example_header_credentials)
qed

definition example_disk :: disk where
  "example_disk = \<lparr>files = Map.empty, history = []\<rparr>"

lemma example_generate:
  obtains hash d' where
    "generate_cookie example_crates no_failures [1, 2] [3] ''d'' example_disk = (Inr (COOKIE_USER, hash), d')"
proof -
  obtain r d' where "generate_cookie example_crates no_failures [1, 2] [3] ''d'' example_disk = (r, d')" by fastforce
  moreover from this have "\<exists>hash. r = Inr (COOKIE_USER, hash)"
    by (auto simp: generate_cookie_def Let_def no_failures_def example_disk_def sbind_def ignore_def
        remove_file_def create_private_file_def write_all_def rename_def on_error_def sget_def set_files_def
        smodify_def sret_def sfail_def)
  ultimately show ?thesis using that by blast
qed

theorem cookie_installed_atomically_witness:
  "\<exists>r d'. generate_cookie example_crates no_failures [1, 2] [3] ''d'' example_disk = (Inr r, d') \<and>
     read_cookie d' ''d'' = Inr ''__cookie__:ABAC''"
proof -
  obtain hash d' where g: "generate_cookie example_crates no_failures [1, 2] [3] ''d'' example_disk = (Inr (COOKIE_USER, hash), d')"
    by (rule example_generate)
  from cookie_installed_atomically [OF example_crates_documented g] g show ?thesis
    by (auto simp: COOKIE_USER_def example_crates_def char_of_def bit_simps)
qed

theorem server_cookie_admits_reader_witness:
  "\<exists>users d' cookie. server_spawn example_crates no_failures [1, 2] [3] (\<lambda>_. [7]) 1 example_auth ''d'' None example_disk =
       (Inr users, d') \<and> read_cookie d' ''d'' = Inr cookie \<and>
     authorization_call example_crates users (Some (''Basic '' @ letters_encode (as_bytes cookie))) = Forward"
proof -
  obtain hash d' where "generate_cookie example_crates no_failures [1, 2] [3] ''d'' example_disk = (Inr (COOKIE_USER, hash), d')"
    by (rule example_generate)
  moreover obtain users where "authorization_layer_new example_crates (\<lambda>_. [7]) example_auth (Some (COOKIE_USER, hash)) = Inr users"
    using example_layer by blast
  ultimately have s: "server_spawn example_crates no_failures [1, 2] [3] (\<lambda>_. [7]) 1 example_auth ''d'' None example_disk = (Inr users, d')"
    by (simp add: server_spawn_def example_auth_def COOKIE_USER_def)
  from server_cookie_admits_reader [OF example_crates_documented s] s show ?thesis
    by (auto simp: cookie_header_def example_crates_def)
qed

end
