(* ===== verification/Rpc_Compat.thy ===== *)
theory Rpc_Compat
  imports Rpc_Auth
begin

text \<open>
  The middleware of the JSON-RPC server: the HTTP layer that lets clients of older JSON-RPC
  versions talk to a server of version 2.0 (\<open>server/http_request_compatibility.rs\<close>), the call layer
  that replaces error codes (\<open>server/rpc_call_compatibility.rs\<close>), and the order in which the server
  stacks them behind the authorization (\<open>server.rs\<close>). The wrapped service, the JSON parser and
  printer, the bodies of HTTP messages and the bytes they hold are arguments.
\<close>

section \<open>Messages\<close>

datatype json = JNull | JBool bool | JNumber string | JString string | JArray "json list" | JObject "(string \<times> json) list"

record JsonRpcRequest =
  rq_jsonrpc :: "string option"
  rq_method :: string
  rq_params :: "string option"
  rq_id :: "json option"

record JsonRpcResponse =
  rs_jsonrpc :: "string option"
  rs_result :: "string option"
  rs_error :: "string option"
  rs_id :: json

datatype JsonRpcVersion = Bitcoind | Lightwalletd | TwoPointZero | Unknown

text \<open>The headers of a message hold a list of values for each name.\<close>

record ('h, 'b) http_request =
  hq_headers :: "string \<Rightarrow> 'h list"
  hq_body :: 'b

record ('h, 'b) http_response =
  hr_status :: nat
  hr_headers :: "string \<Rightarrow> 'h list"
  hr_body :: 'b

datatype body_error = LengthLimitError | ReadError

datatype ErrorCode =
  ParseError | OversizedRequest | InvalidRequest | MethodNotFound | ServerIsBusy | ErrInvalidParams
  | ErrInternalError | ServerError int

record ('h, 'b, 'c) http_crates =
  hc_to_str :: "'h \<Rightarrow> string option"
  from_static :: "string \<Rightarrow> 'h"
  collect_limited :: "nat \<Rightarrow> 'b \<Rightarrow> body_error + 'c"
  collect_body :: "'b \<Rightarrow> 'c option"
  body_from :: "'c \<Rightarrow> 'b"
  body_empty :: 'b
  TEN_MB_SIZE_BYTES :: u32
  parse_request :: "'c \<Rightarrow> JsonRpcRequest option"
  print_request :: "JsonRpcRequest \<Rightarrow> 'c"
  parse_response :: "'c \<Rightarrow> JsonRpcResponse option"
  print_response :: "JsonRpcResponse \<Rightarrow> 'c"
  parse_error_code :: "string \<Rightarrow> int option"
  error_code :: "int \<Rightarrow> ErrorCode"

text \<open>What the crates document. A member that is \<open>null\<close> or absent is parsed into no value, and a
  member without value is not printed; a message read from bytes is printed back to an equal one.
  The two codes that decide an HTTP status are the ones of the JSON-RPC specification.\<close>

definition request_plain :: "JsonRpcRequest \<Rightarrow> bool" where
  "request_plain r \<longleftrightarrow> rq_id r \<noteq> Some JNull \<and> rq_params r \<noteq> Some ''null''"

definition response_plain :: "JsonRpcResponse \<Rightarrow> bool" where
  "response_plain r \<longleftrightarrow> rs_result r \<noteq> Some ''null'' \<and> rs_error r \<noteq> Some ''null''"

definition http_crates_documented :: "('h, 'b, 'c) http_crates \<Rightarrow> bool" where
  "http_crates_documented H \<longleftrightarrow>
     (\<forall>b. collect_body H (body_from H b) = Some b) \<and>
     (\<forall>bytes r. parse_request H bytes = Some r \<longrightarrow> request_plain r) \<and>
     (\<forall>r. request_plain r \<longrightarrow> parse_request H (print_request H r) = Some r) \<and>
     (\<forall>bytes r. parse_response H bytes = Some r \<longrightarrow> response_plain r) \<and>
     (\<forall>c. error_code H c = InvalidRequest \<longleftrightarrow> c = -32600) \<and>
     (\<forall>c. error_code H c = MethodNotFound \<longleftrightarrow> c = -32601)"

section \<open>Translating between versions\<close>

definition version :: "JsonRpcRequest \<Rightarrow> JsonRpcVersion" where
  "version r =
     (if rq_jsonrpc r = Some ''2.0'' \<and>
         (case rq_id r of
            None \<Rightarrow> True | Some JNull \<Rightarrow> True | Some (JString _) \<Rightarrow> True | Some (JNumber _) \<Rightarrow> True | _ \<Rightarrow> False)
      then TwoPointZero
      else if rq_jsonrpc r = Some ''1.0'' \<and> rq_params r \<noteq> None \<and> rq_id r \<noteq> None then Lightwalletd
      else if rq_jsonrpc r = None \<and> rq_params r \<noteq> None \<and> rq_id r \<noteq> None then Bitcoind
      else Unknown)"

definition into_2 :: "JsonRpcRequest \<Rightarrow> JsonRpcRequest" where
  "into_2 r = r\<lparr>rq_jsonrpc := Some ''2.0''\<rparr>"

definition json_null :: "string option" where
  "json_null = Some ''null''"

definition or_else :: "'a option \<Rightarrow> 'a option \<Rightarrow> 'a option" where
  "or_else a b = (case a of None \<Rightarrow> b | Some x \<Rightarrow> Some x)"

definition into_version :: "JsonRpcResponse \<Rightarrow> JsonRpcVersion \<Rightarrow> 'e fault + JsonRpcResponse" where
  "into_version r v =
     (case v of
        Bitcoind \<Rightarrow> Inr (r\<lparr>rs_jsonrpc := None, rs_result := or_else (rs_result r) json_null, rs_error := or_else (rs_error r) json_null\<rparr>)
      | Lightwalletd \<Rightarrow>
          Inr (r\<lparr>rs_jsonrpc := Some ''1.0'', rs_result := or_else (rs_result r) json_null, rs_error := or_else (rs_error r) json_null\<rparr>)
      | TwoPointZero \<Rightarrow>
          if rs_jsonrpc r \<noteq> Some ''2.0'' then Inl (Panic ''assertion failed: jsonrpc'')
          else if rs_error r = None then Inr (r\<lparr>rs_result := or_else (rs_result r) json_null\<rparr>)
          else if rs_result r \<noteq> None then Inl (Panic ''assertion failed: result'')
          else Inr r
      | Unknown \<Rightarrow> Inr r)"

section \<open>The HTTP layer\<close>

definition CONTENT_TYPE :: string where
  "CONTENT_TYPE = ''content-type''"

definition insert_or_replace_content_type_header ::
    "('h, 'b, 'c) http_crates \<Rightarrow> (string \<Rightarrow> 'h list) \<Rightarrow> (string \<Rightarrow> 'h list)" where
  "insert_or_replace_content_type_header H headers =
     (if headers CONTENT_TYPE = [] \<or>
         (case headers CONTENT_TYPE of
            [] \<Rightarrow> False
          | value # _ \<Rightarrow> starts_with ''text/plain'' (case hc_to_str H value of None \<Rightarrow> [] | Some s \<Rightarrow> s))
      then headers(CONTENT_TYPE := [from_static H ''application/json''])
      else headers)"

definition MAX_REQUEST_BODY_SIZE :: "('h, 'b, 'c) http_crates \<Rightarrow> u32" where
  "MAX_REQUEST_BODY_SIZE H = TEN_MB_SIZE_BYTES H"

definition status_response :: "('h, 'b, 'c) http_crates \<Rightarrow> nat \<Rightarrow> ('h, 'b) http_response" where
  "status_response H status = \<lparr>hr_status = status, hr_headers = (\<lambda>_. []), hr_body = body_empty H\<rparr>"

definition request_to_json_rpc_2 ::
    "('h, 'b, 'c) http_crates \<Rightarrow> ('h, 'b) http_request \<Rightarrow> ('h, 'b) http_response + JsonRpcVersion \<times> ('h, 'b) http_request" where
  "request_to_json_rpc_2 H request =
     (case collect_limited H (unat (MAX_REQUEST_BODY_SIZE H)) (hq_body request) of
        Inl e \<Rightarrow> Inl (status_response H (if e = LengthLimitError then 413 else 400))
      | Inr bytes \<Rightarrow>
          (let (v, bytes) =
             (case parse_request H bytes of
                Some r \<Rightarrow> (let v = version r in if v = Unknown then (v, bytes) else (v, print_request H (into_2 r)))
              | None \<Rightarrow> (Unknown, bytes))
           in Inr (v, request\<lparr>hq_body := body_from H bytes\<rparr>)))"

definition error_status :: "('h, 'b, 'c) http_crates \<Rightarrow> JsonRpcVersion \<Rightarrow> JsonRpcResponse \<Rightarrow> nat \<Rightarrow> nat" where
  "error_status H v r status =
     (if v = Bitcoind \<or> v = Lightwalletd then
        (case Option.bind (rs_error r) (parse_error_code H) of
           Some code \<Rightarrow>
             (case error_code H code of InvalidRequest \<Rightarrow> 400 | MethodNotFound \<Rightarrow> 404 | _ \<Rightarrow> 500)
         | None \<Rightarrow> status)
      else status)"

definition response_from_json_rpc_2 ::
    "('h, 'b, 'c) http_crates \<Rightarrow> JsonRpcVersion \<Rightarrow> ('h, 'b) http_response \<Rightarrow> 'e fault + ('h, 'b) http_response" where
  "response_from_json_rpc_2 H v response =
     (case collect_body H (hr_body response) of
        None \<Rightarrow> Inl (Panic ''Failed to collect body data'')
      | Some bytes \<Rightarrow>
          (case parse_response H bytes of
             Some r \<Rightarrow> rbind (into_version r v) (\<lambda>r'.
               Inr (response\<lparr>hr_status := error_status H v r (hr_status response),
                             hr_body := body_from H (print_response H r')\<rparr>))
           | None \<Rightarrow> Inr (response\<lparr>hr_body := body_from H bytes\<rparr>)))"

definition http_request_middleware ::
    "('h, 'b, 'c) http_crates \<Rightarrow> (('h, 'b) http_request \<Rightarrow> 'e + ('h, 'b) http_response) \<Rightarrow> ('h, 'b) http_request \<Rightarrow>
     'e fault + ('h, 'b) http_response" where
  "http_request_middleware H service request =
     (case request_to_json_rpc_2 H
             (request\<lparr>hq_headers := insert_or_replace_content_type_header H (hq_headers request)\<rparr>) of
        Inl error_response \<Rightarrow> Inr error_response
      | Inr (v, request) \<Rightarrow>
          (case service request of
             Inl e \<Rightarrow> Inl (Raise e)
           | Inr response \<Rightarrow> response_from_json_rpc_2 H v response))"

section \<open>The call layer\<close>

record error_object =
  eo_code :: int
  eo_message :: string
  eo_data :: "string option"

datatype payload = PayloadError error_object | PayloadSuccess string

record 't method_response =
  mr_is_error :: bool
  mr_text :: 't

record ('i, 't) call_crates =
  parse_method_response :: "'t \<Rightarrow> ('i \<times> payload) option"
  method_response_error :: "'i \<Rightarrow> error_object \<Rightarrow> 't method_response"
  cc_error_code :: "int \<Rightarrow> ErrorCode"

definition trim_matches :: "char \<Rightarrow> string \<Rightarrow> string" where
  "trim_matches c s = rev (dropWhile ((=) c) (rev (dropWhile ((=) c) s)))"

definition legacy_error_object :: "LegacyCode \<Rightarrow> string \<Rightarrow> error_object" where
  "legacy_error_object c m = \<lparr>eo_code = legacy_code c, eo_message = m, eo_data = None\<rparr>"

definition fix_rpc_response :: "('i, 't) call_crates \<Rightarrow> 't method_response \<Rightarrow> 'e fault + 't method_response" where
  "fix_rpc_response M response =
     (if mr_is_error response then
        (case parse_method_response M (mr_text response) of
           None \<Rightarrow> Inl (Panic ''response string should be valid json'')
         | Some (_, PayloadSuccess _) \<Rightarrow> Inl (Panic ''internal error: entered unreachable code'')
         | Some (request_id, PayloadError err) \<Rightarrow>
             (let data = map_option (trim_matches (CHR 0x22)) (eo_data err) in
              case cc_error_code M (eo_code err) of
                MethodNotFound \<Rightarrow> Inr response
              | ErrInvalidParams \<Rightarrow>
                  if data = Some ''No more params'' then Inr response
                  else Inr (method_response_error M request_id
                         (legacy_error_object InvalidParameter (case data of Some d \<Rightarrow> d | None \<Rightarrow> eo_message err)))
              | _ \<Rightarrow> Inr response))
      else Inr response)"

section \<open>The stack of the server\<close>

definition unauthorized :: "('h, 'b, 'c) http_crates \<Rightarrow> ('h, 'b) http_response" where
  "unauthorized H =
     \<lparr>hr_status = 401,
      hr_headers = (\<lambda>_. [])(''www-authenticate'' := [from_static H (''Basic realm='' @ [CHR 0x22] @ ''jsonrpc'' @ [CHR 0x22])]),
      hr_body = body_empty H\<rparr>"

text \<open>The authorization is outermost: it sees the request before the compatibility layer and the
  wrapped service do.\<close>

definition http_stack ::
    "'h auth_crates \<Rightarrow> ('h, 'b, 'c) http_crates \<Rightarrow> (string \<rightharpoonup> PasswordHash) \<Rightarrow>
     (('h, 'b) http_request \<Rightarrow> 'e + ('h, 'b) http_response) \<Rightarrow> ('h, 'b) http_request \<Rightarrow>
     'e fault + ('h, 'b) http_response" where
  "http_stack C H users service request =
     (case authorization_call C users (case hq_headers request ''authorization'' of [] \<Rightarrow> None | h # _ \<Rightarrow> Some h) of
        Refuse _ \<Rightarrow> Inr (unauthorized H)
      | Forward \<Rightarrow> http_request_middleware H service request)"

section \<open>Each client sees its own version\<close>

text \<open>The form each version requires of a reply, and what a reply tells: an error, or a result
  where an absent member stands for \<open>null\<close>.\<close>

fun reply_conforms :: "JsonRpcVersion \<Rightarrow> JsonRpcResponse \<Rightarrow> bool" where
  "reply_conforms Bitcoind r \<longleftrightarrow> rs_jsonrpc r = None \<and> rs_result r \<noteq> None \<and> rs_error r \<noteq> None \<and>
     (rs_result r = json_null \<or> rs_error r = json_null)"
| "reply_conforms Lightwalletd r \<longleftrightarrow> rs_jsonrpc r = Some ''1.0'' \<and> rs_result r \<noteq> None \<and> rs_error r \<noteq> None \<and>
     (rs_result r = json_null \<or> rs_error r = json_null)"
| "reply_conforms TwoPointZero r \<longleftrightarrow> rs_jsonrpc r = Some ''2.0'' \<and> (rs_result r = None) \<noteq> (rs_error r = None)"
| "reply_conforms Unknown r \<longleftrightarrow> True"

definition rpc_outcome :: "JsonRpcResponse \<Rightarrow> string + string" where
  "rpc_outcome r =
     (if rs_error r \<noteq> None \<and> rs_error r \<noteq> json_null then Inl (the (rs_error r))
      else Inr (the (or_else (rs_result r) json_null)))"

text \<open>What is asked of the wrapped server: it answers, its body can be read, and a reply it sends is
  one of version 2.0.\<close>

definition serves_2 :: "('h, 'b, 'c) http_crates \<Rightarrow> (('h, 'b) http_request \<Rightarrow> 'e + ('h, 'b) http_response) \<Rightarrow> bool" where
  "serves_2 H service \<longleftrightarrow>
     (\<forall>q p. service q = Inr p \<longrightarrow>
        (\<exists>bytes. collect_body H (hr_body p) = Some bytes \<and>
          (\<forall>r. parse_response H bytes = Some r \<longrightarrow>
             rs_jsonrpc r = Some ''2.0'' \<and> (rs_result r = None \<or> rs_error r = None))))"

lemma into_version_conforms:
  assumes "rs_jsonrpc r = Some ''2.0''" "rs_result r = None \<or> rs_error r = None" "response_plain r"
  shows "\<exists>r'. into_version r v = Inr r' \<and> reply_conforms v r' \<and> rs_id r' = rs_id r \<and> rpc_outcome r' = rpc_outcome r"
  using assms
  by (cases v; cases "rs_result r"; cases "rs_error r")
    (simp_all add: into_version_def rpc_outcome_def or_else_def json_null_def response_plain_def)

lemma into_2_plain: "request_plain r \<Longrightarrow> request_plain (into_2 r)"
  by (simp add: request_plain_def into_2_def)

text \<open>The HTTP status of a reply with an error code.\<close>

definition expected_status :: "JsonRpcVersion \<Rightarrow> int option \<Rightarrow> nat \<Rightarrow> nat" where
  "expected_status v code status =
     (if v = TwoPointZero \<or> v = Unknown then status
      else case code of
        None \<Rightarrow> status
      | Some c \<Rightarrow> if c = -32600 then 400 else if c = -32601 then 404 else 500)"

lemma error_status_exact:
  assumes "http_crates_documented H"
  shows "error_status H v r status = expected_status v (Option.bind (rs_error r) (parse_error_code H)) status"
proof -
  have codes: "error_code H c = InvalidRequest \<longleftrightarrow> c = -32600" "error_code H c = MethodNotFound \<longleftrightarrow> c = -32601" for c
    using assms by (simp_all add: http_crates_documented_def)
  have "(case error_code H c of InvalidRequest \<Rightarrow> 400 | MethodNotFound \<Rightarrow> 404 | _ \<Rightarrow> 500) =
      (if c = -32600 then 400 else if c = -32601 then 404 else 500 :: nat)" for c
    unfolding codes [symmetric] by (simp split: ErrorCode.split)
  then show ?thesis
    by (cases v; cases "Option.bind (rs_error r) (parse_error_code H)")
      (simp_all add: error_status_def expected_status_def)
qed


text \<open>A \<open>null\<close> id is parsed like an absent one, so the arm of \<^const>\<open>version\<close> for it is never taken; a
  request of version 2.0 with such an id is passed on without one, as a notification.\<close>

lemma null_id_forwarded_without_id:
  assumes "http_crates_documented H" and "parse_request H bytes = Some r"
  shows "rq_id r \<noteq> Some JNull \<and>
    (rq_id r = None \<and> rq_jsonrpc r = Some ''2.0'' \<longrightarrow>
       version r = TwoPointZero \<and>
       (\<exists>r'. parse_request H (print_request H (into_2 r)) = Some r' \<and> rq_id r' = None))"
  using assms into_2_plain [of r]
  by (auto simp: http_crates_documented_def request_plain_def version_def into_2_def)

section \<open>Nothing passes the authorization\<close>

definition given_credentials :: "'h auth_crates \<Rightarrow> ('h, 'b) http_request \<Rightarrow> (string \<times> string) option" where
  "given_credentials C request =
     (case hq_headers request ''authorization'' of [] \<Rightarrow> None | h # _ \<Rightarrow> header_credentials C h)"

text \<open>C35: With the users of an accepted configuration, a request that does not carry credentials the
  configuration accepts is answered with status 401 and a challenge, whatever its body is, and
  what the wrapped server would do makes no difference. With accepted credentials, a body beyond
  the limit or one that cannot be read is answered with status 413 or 400, again without the
  server; everything else is the compatibility layer's.\<close>

theorem http_stack_guards:
  assumes "authorization_layer_new C salts auth (Some (COOKIE_USER, cookie_hash)) = Inr users"
  shows "http_stack C H users service request =
    (if \<exists>user pass. given_credentials C request = Some (user, pass) \<and> accepts_password C salts auth cookie_hash user pass
     then case collect_limited H (unat (TEN_MB_SIZE_BYTES H)) (hq_body request) of
            Inl LengthLimitError \<Rightarrow> Inr (status_response H 413)
          | Inl ReadError \<Rightarrow> Inr (status_response H 400)
          | Inr bytes \<Rightarrow> http_request_middleware H service request
     else Inr (unauthorized H))"
proof -
  have "authorization_call C users (case hq_headers request ''authorization'' of [] \<Rightarrow> None | h # _ \<Rightarrow> Some h) = Forward \<longleftrightarrow>
      (\<exists>user pass. given_credentials C request = Some (user, pass) \<and> accepts_password C salts auth cookie_hash user pass)"
    using layer_accepts [OF assms]
    by (auto simp: authorization_call_def is_authorized_def given_credentials_def split: list.split option.split)
  moreover have "http_request_middleware H service request =
      (case collect_limited H (unat (TEN_MB_SIZE_BYTES H)) (hq_body request) of
         Inl LengthLimitError \<Rightarrow> Inr (status_response H 413)
       | Inl ReadError \<Rightarrow> Inr (status_response H 400)
       | Inr bytes \<Rightarrow> http_request_middleware H service request)"
    by (auto simp: http_request_middleware_def request_to_json_rpc_2_def MAX_REQUEST_BODY_SIZE_def
        split: sum.splits body_error.splits)
  ultimately show ?thesis
    by (cases "authorization_call C users (case hq_headers request ''authorization'' of [] \<Rightarrow> None | h # _ \<Rightarrow> Some h)")
      (auto simp: http_stack_def)
qed

section \<open>Error codes of calls\<close>

definition call_crates_documented :: "('i, 't) call_crates \<Rightarrow> bool" where
  "call_crates_documented M \<longleftrightarrow>
     (\<forall>i e. mr_is_error (method_response_error M i e) \<and>
        parse_method_response M (mr_text (method_response_error M i e)) = Some (i, PayloadError e)) \<and>
     (\<forall>c. cc_error_code M c = ErrInvalidParams \<longleftrightarrow> c = -32602)"

text \<open>What zcashd would have answered: only the code for invalid parameters is replaced, by -8 with
  the parser's explanation as message, unless parameters are missing.\<close>

definition zcashd_error :: "error_object \<Rightarrow> error_object" where
  "zcashd_error e =
     (if eo_code e = -32602 \<and> map_option (trim_matches (CHR 0x22)) (eo_data e) \<noteq> Some ''No more params''
      then \<lparr>eo_code = -8, eo_message = (case eo_data e of None \<Rightarrow> eo_message e | Some d \<Rightarrow> trim_matches (CHR 0x22) d), eo_data = None\<rparr>
      else e)"

text \<open>The call layer never panics on what the server answers: it keeps results as they are and turns
  each error into the one zcashd reports, with the request's id.\<close>

theorem call_errors_match_zcashd:
  assumes "call_crates_documented M"
    and "mr_is_error response \<longrightarrow> parse_method_response M (mr_text response) = Some (request_id, PayloadError e)"
  shows "\<exists>response'. fix_rpc_response M response = (Inr response' :: 'e fault + _) \<and>
    (if mr_is_error response
     then mr_is_error response' \<and> parse_method_response M (mr_text response') = Some (request_id, PayloadError (zcashd_error e))
     else response' = response)"
proof (cases "mr_is_error response")
  case True
  have code: "cc_error_code M (eo_code e) = ErrInvalidParams \<longleftrightarrow> eo_code e = -32602"
    using assms(1) by (simp add: call_crates_documented_def)
  have made: "mr_is_error (method_response_error M i x)"
    "parse_method_response M (mr_text (method_response_error M i x)) = Some (i, PayloadError x)" for i x
    using assms(1) by (simp_all add: call_crates_documented_def)
  show ?thesis
  proof (cases "cc_error_code M (eo_code e) = ErrInvalidParams")
    case inv: True
    with code True assms(2) made show ?thesis
      by (cases "map_option (trim_matches (CHR 0x22)) (eo_data e) = Some ''No more params''"; cases "eo_data e")
        (simp_all add: fix_rpc_response_def Let_def zcashd_error_def legacy_error_object_def)
  next
    case False
    then have "fix_rpc_response M response = (Inr response :: 'e fault + _)"
      using True assms(2) by (simp add: fix_rpc_response_def Let_def split: ErrorCode.split)
    moreover have "zcashd_error e = e" using code False by (simp add: zcashd_error_def)
    ultimately show ?thesis using True assms(2) by simp
  qed
qed (simp add: fix_rpc_response_def)

section \<open>Instances\<close>

text \<open>Messages that stand for the bytes they print to.\<close>

datatype example_bytes = RequestBytes JsonRpcRequest | ResponseBytes JsonRpcResponse | NoBytes

definition example_http :: "(string, example_bytes, example_bytes) http_crates" where
  "example_http =
     \<lparr>hc_to_str = Some, from_static = (\<lambda>s. s), collect_limited = (\<lambda>_ b. Inr b), collect_body = Some,
      body_from = (\<lambda>b. b), body_empty = NoBytes, TEN_MB_SIZE_BYTES = 10485760,
      parse_request = (\<lambda>b. case b of RequestBytes r \<Rightarrow> if request_plain r then Some r else None | _ \<Rightarrow> None),
      print_request = RequestBytes,
      parse_response = (\<lambda>b. case b of ResponseBytes r \<Rightarrow> if response_plain r then Some r else None | _ \<Rightarrow> None),
      print_response = ResponseBytes,
      parse_error_code = (\<lambda>s. if s = ''-32601'' then Some (-32601) else None),
      error_code = (\<lambda>c. if c = -32600 then InvalidRequest else if c = -32601 then MethodNotFound else ServerError c)\<rparr>"

lemma example_http_documented: "http_crates_documented example_http"
  by (auto simp: http_crates_documented_def example_http_def split: example_bytes.splits if_splits)

text \<open>A client of bitcoind's kind calls a method the server does not have.\<close>

definition example_request :: JsonRpcRequest where
  "example_request = \<lparr>rq_jsonrpc = None, rq_method = ''nosuch'', rq_params = Some ''[]'', rq_id = Some (JNumber ''1'')\<rparr>"

definition example_http_request :: "(string, example_bytes) http_request" where
  "example_http_request = \<lparr>hq_headers = (\<lambda>_. []), hq_body = RequestBytes example_request\<rparr>"

definition example_service ::
    "(string, example_bytes) http_request \<Rightarrow> unit + (string, example_bytes) http_response" where
  "example_service q = Inr \<lparr>hr_status = 200, hr_headers = (\<lambda>_. []), hr_body =
     ResponseBytes \<lparr>rs_jsonrpc = Some ''2.0'', rs_result = None, rs_error = Some ''-32601'', rs_id = JNumber ''1''\<rparr>\<rparr>"

lemma example_serves_2: "serves_2 example_http example_service"
  by (auto simp: serves_2_def example_service_def example_http_def split: if_splits)


theorem http_stack_guards_witness:
  "\<exists>users. authorization_layer_new example_crates (\<lambda>_. [7]) example_auth
      (Some (COOKIE_USER, pwhash_from_bare example_crates [9] ''AA'')) = Inr users \<and>
     http_stack example_crates example_http users example_service example_http_request = Inr (unauthorized example_http)"
proof -
  obtain users where users: "authorization_layer_new example_crates (\<lambda>_. [7]) example_auth
      (Some (COOKIE_USER, pwhash_from_bare example_crates [9] ''AA'')) = Inr users"
    using example_layer by blast
  from users http_stack_guards [OF users, of example_http example_service example_http_request] show ?thesis
    by (simp add: given_credentials_def example_http_request_def)
qed

text \<open>Replies that stand for their own text.\<close>

definition example_calls :: "(nat, nat \<times> error_object) call_crates" where
  "example_calls =
     \<lparr>parse_method_response = (\<lambda>(i, e). Some (i, PayloadError e)),
      method_response_error = (\<lambda>i e. \<lparr>mr_is_error = True, mr_text = (i, e)\<rparr>),
      cc_error_code = (\<lambda>c. if c = -32602 then ErrInvalidParams else ServerError c)\<rparr>"

theorem call_errors_match_zcashd_witness:
  "\<exists>response'. fix_rpc_response example_calls
       \<lparr>mr_is_error = True, mr_text = (7, \<lparr>eo_code = -32602, eo_message = ''Invalid params'', eo_data = Some ''bad''\<rparr>)\<rparr>
       = (Inr response' :: unit fault + _) \<and> eo_code (snd (mr_text response')) = -8"
proof -
  let ?e = "\<lparr>eo_code = -32602, eo_message = ''Invalid params'', eo_data = Some ''bad''\<rparr>"
  have "call_crates_documented example_calls"
    by (auto simp: call_crates_documented_def example_calls_def)
  from call_errors_match_zcashd [OF this, of "\<lparr>mr_is_error = True, mr_text = (7, ?e)\<rparr>" 7 ?e, where ?'e = unit]
  obtain response' where fixed: "fix_rpc_response example_calls \<lparr>mr_is_error = True, mr_text = (7, ?e)\<rparr> = (Inr response' :: unit fault + _)"
    and "parse_method_response example_calls (mr_text response') = Some (7, PayloadError (zcashd_error ?e))"
    by (auto simp: example_calls_def)
  then have "mr_text response' = (7, zcashd_error ?e)"
    by (cases "mr_text response'") (simp add: example_calls_def)
  with fixed show ?thesis by (auto simp: zcashd_error_def trim_matches_def)
qed

end
