(* ===== verification/Wallet_Balances.thy ===== *)
theory Wallet_Balances
  imports Payments
begin

text \<open>
  The balance methods: \<open>z_getbalances\<close> (\<open>methods/get_balances.rs\<close>), \<open>z_gettotalbalance\<close>
  (\<open>z_get_total_balance.rs\<close>), \<open>z_getbalanceforaccount\<close> (\<open>z_get_balance_for_account.rs\<close>) and
  \<open>z_getnotescount\<close> (\<open>get_notes_count.rs\<close>). The summary they read is that of the wallet database,
  and the accessors of its balances belong to the backend crate.
\<close>

section \<open>What the database answers\<close>

text \<open>The four figures of a pool, and the five pools of an account.\<close>

record bucket =
  b_spendable :: Zatoshis
  b_change_pending :: Zatoshis
  b_value_pending :: Zatoshis
  b_uneconomic :: Zatoshis

record account_funds =
  af_sapling :: bucket
  af_orchard :: bucket
  af_ironwood :: bucket
  af_regular :: bucket
  af_coinbase :: bucket

text \<open>The derived accessors, the addition of amounts, the printed amount, the policy constructor and
  the summary.\<close>

record 'cp balance_api =
  ba_add :: "Zatoshis \<Rightarrow> Zatoshis \<Rightarrow> Zatoshis option"
  ba_bucket_total :: "bucket \<Rightarrow> Zatoshis"
  ba_unshielded :: "account_funds \<Rightarrow> bucket"
  ba_spendable :: "account_funds \<Rightarrow> Zatoshis"
  ba_change_pending :: "account_funds \<Rightarrow> Zatoshis"
  ba_value_pending :: "account_funds \<Rightarrow> Zatoshis"
  ba_uneconomic :: "account_funds \<Rightarrow> Zatoshis"
  ba_str :: "Zatoshis \<Rightarrow> string"
  ba_new_symmetrical :: "u32 \<Rightarrow> bool \<Rightarrow> 'cp"
  ba_summary :: "'cp \<Rightarrow> string + (AccountUuid \<times> account_funds) list option"

text \<open>Adding to an amount that may have overflowed already.\<close>

definition add_opt :: "'cp balance_api \<Rightarrow> Zatoshis option \<Rightarrow> Zatoshis \<Rightarrow> Zatoshis option" where
  "add_opt B a b = Option.bind a (\<lambda>a. ba_add B a b)"

section \<open>Balances of every account\<close>

record Balance =
  bal_spendable :: nat
  bal_locked :: "nat option"
  bal_pending :: "nat option"
  bal_dust :: "nat option"

record TransparentBalance =
  tb_regular :: "Balance option"
  tb_coinbase :: "Balance option"

record AccountBalance =
  ab_uuid :: AccountUuid
  ab_transparent :: "TransparentBalance option"
  ab_watchonly :: "(string \<times> TransparentBalance) list"
  ab_sapling :: "Balance option"
  ab_orchard :: "Balance option"
  ab_ironwood :: "Balance option"
  ab_total :: Balance

record Balances =
  bs_accounts :: "AccountBalance list"
  bs_legacy :: "TransparentBalance option"
  bs_legacy_watchonly :: "TransparentBalance option"

definition opt_value :: "Zatoshis \<Rightarrow> nat option" where
  "opt_value v = (if v = 0 then None else Some (nat v))"

definition balance :: "Zatoshis \<Rightarrow> Zatoshis \<Rightarrow> Zatoshis \<Rightarrow> Balance" where
  "balance spendable pending dust =
     \<lparr>bal_spendable = nat spendable, bal_locked = None, bal_pending = opt_value pending, bal_dust = opt_value dust\<rparr>"

definition opt_balance :: "Zatoshis \<Rightarrow> Zatoshis \<Rightarrow> Zatoshis \<Rightarrow> Balance option" where
  "opt_balance spendable pending dust =
     (if spendable = 0 \<and> pending = 0 \<and> dust = 0 then None else Some (balance spendable pending dust))"

definition corrupt_balance :: rpc_error where
  "corrupt_balance = with_static Database ''Wallet database is corrupt: storing more than MAX_MONEY''"

definition opt_balance_from :: "'cp balance_api \<Rightarrow> bucket \<Rightarrow> rpc_error + Balance option" where
  "opt_balance_from B b =
     rbind (ok_or corrupt_balance (ba_add B (b_change_pending b) (b_value_pending b))) (\<lambda>pending.
       Inr (opt_balance (b_spendable b) pending (b_uneconomic b)))"

definition opt_transparent_balance ::
    "'cp balance_api \<Rightarrow> bucket \<Rightarrow> bucket \<Rightarrow> rpc_error + TransparentBalance option" where
  "opt_transparent_balance B regular coinbase =
     (let is_empty = (\<lambda>b. ba_bucket_total B b = 0 \<and> b_uneconomic b = 0) in
      if is_empty regular \<and> is_empty coinbase then Inr None
      else rbind (opt_balance_from B regular) (\<lambda>r.
        rbind (opt_balance_from B coinbase) (\<lambda>c.
          Inr (Some \<lparr>tb_regular = r, tb_coinbase = c\<rparr>))))"

definition balance_from :: "'cp balance_api \<Rightarrow> account_funds \<Rightarrow> rpc_error + Balance" where
  "balance_from B a =
     (let regular = af_regular a; coinbase = af_coinbase a in
      rbind (ok_or corrupt_balance
        (add_opt B (ba_add B (ba_spendable B a) (b_spendable regular)) (b_spendable coinbase))) (\<lambda>spendable.
      rbind (ok_or corrupt_balance
        (add_opt B (add_opt B (add_opt B (add_opt B (ba_add B (ba_change_pending B a) (ba_value_pending B a))
          (b_change_pending regular)) (b_value_pending regular))
          (b_change_pending coinbase)) (b_value_pending coinbase))) (\<lambda>pending.
        Inr (balance spendable pending (ba_uneconomic B a)))))"

definition account_balance_response ::
    "'cp balance_api \<Rightarrow> AccountUuid \<Rightarrow> account_funds \<Rightarrow> rpc_error + AccountBalance" where
  "account_balance_response B account_uuid a =
     rbind (opt_transparent_balance B (af_regular a) (af_coinbase a)) (\<lambda>transparent.
     rbind (opt_balance_from B (af_sapling a)) (\<lambda>sapling.
     rbind (opt_balance_from B (af_orchard a)) (\<lambda>orchard.
     rbind (opt_balance_from B (af_ironwood a)) (\<lambda>ironwood.
     rbind (balance_from B a) (\<lambda>in_all.
       Inr \<lparr>ab_uuid = account_uuid, ab_transparent = transparent, ab_watchonly = [], ab_sapling = sapling,
            ab_orchard = orchard, ab_ironwood = ironwood, ab_total = in_all\<rparr>)))))"

definition balances_policy :: "'cp balance_api \<Rightarrow> u32 option \<Rightarrow> 'cp" where
  "balances_policy B minconf =
     (case minconf of
        Some c \<Rightarrow> if c = 0 then ba_new_symmetrical B 1 True else ba_new_symmetrical B c False
      | None \<Rightarrow> ba_new_symmetrical B 1 False)"

definition get_balances :: "'cp balance_api \<Rightarrow> u32 option \<Rightarrow> rpc_error + Balances" where
  "get_balances B minconf =
     rbind (map_err database_error (ba_summary B (balances_policy B minconf))) (\<lambda>found.
     case found of
       None \<Rightarrow> Inl (with_static InWarmup ''Wallet sync required'')
     | Some summary \<Rightarrow>
         rbind (try_map (\<lambda>(account_uuid, a). account_balance_response B account_uuid a) summary) (\<lambda>accounts.
           Inr \<lparr>bs_accounts = accounts, bs_legacy = None, bs_legacy_watchonly = None\<rparr>))"

section \<open>The total\<close>

record TotalBalance =
  tot_transparent :: string
  tot_private :: string
  tot_total :: string

definition total_step ::
    "'cp balance_api \<Rightarrow> Zatoshis option \<times> Zatoshis option \<Rightarrow> account_funds \<Rightarrow> Zatoshis option \<times> Zatoshis option" where
  "total_step B acc a =
     (add_opt B (fst acc) (ba_bucket_total B (ba_unshielded B a)),
      add_opt B (add_opt B (add_opt B (snd acc) (ba_bucket_total B (af_sapling a)))
        (ba_bucket_total B (af_orchard a))) (ba_bucket_total B (af_ironwood a)))"

definition total_balance :: "'cp balance_api \<Rightarrow> account_funds list \<Rightarrow> rpc_error + TotalBalance" where
  "total_balance B balances =
     (let (transparent, private) = foldl (total_step B) (Some 0, Some 0) balances in
      ok_or (with_static Wallet ''balance overflow'')
        (Option.bind transparent (\<lambda>transparent.
         Option.bind private (\<lambda>private.
         map_option (\<lambda>in_all.
             \<lparr>tot_transparent = ba_str B transparent, tot_private = ba_str B private, tot_total = ba_str B in_all\<rparr>)
           (ba_add B transparent private)))))"

definition get_total_balance :: "'cp balance_api \<Rightarrow> u32 option \<Rightarrow> bool option \<Rightarrow> rpc_error + TotalBalance" where
  "get_total_balance B minconf include_watchonly =
     (if include_watchonly \<noteq> Some True
      then Inl (with_static Misc ''include_watchonly argument must be set to true (for now)'')
      else rbind (map_err database_error (ba_summary B (balances_policy B minconf))) (\<lambda>found.
        total_balance B (case found of Some summary \<Rightarrow> map snd summary | None \<Rightarrow> [])))"

section \<open>One account\<close>

record Pools =
  pl_transparent :: "nat option"
  pl_sapling :: "nat option"
  pl_orchard :: "nat option"
  pl_ironwood :: "nat option"

record BalanceForAccount =
  bfa_pools :: Pools
  minimum_confirmations :: u32

definition response_for_balance :: "'cp balance_api \<Rightarrow> account_funds \<Rightarrow> u32 option \<Rightarrow> BalanceForAccount" where
  "response_for_balance B a minconf =
     \<lparr>bfa_pools = \<lparr>pl_transparent = opt_value (b_spendable (ba_unshielded B a)),
                   pl_sapling = opt_value (b_spendable (af_sapling a)),
                   pl_orchard = opt_value (b_spendable (af_orchard a)),
                   pl_ironwood = opt_value (b_spendable (af_ironwood a))\<rparr>,
      minimum_confirmations = (case minconf of None \<Rightarrow> 1 | Some c \<Rightarrow> c)\<rparr>"

definition account_policy :: "'cp balance_api \<Rightarrow> u32 option \<Rightarrow> 'cp" where
  "account_policy B minconf =
     (case minconf of
        Some c \<Rightarrow> if c = 0 then ba_new_symmetrical B 1 True else ba_new_symmetrical B c False
      | None \<Rightarrow> ba_new_symmetrical B 1 True)"

definition get_balance_for_account ::
    "'cp balance_api \<Rightarrow> (string \<Rightarrow> AccountUuid option) \<Rightarrow> account_source \<Rightarrow> (JsonValue \<Rightarrow> string) \<Rightarrow> JsonValue \<Rightarrow>
     u32 option \<Rightarrow> rpc_error + BalanceForAccount" where
  "get_balance_for_account B parse_uuid source show_json account minconf =
     rbind (parse_account_parameter parse_uuid source account) (\<lambda>account_id.
     rbind (map_err database_error (ba_summary B (account_policy B minconf))) (\<lambda>found.
     rbind (ok_or (with_static InWarmup ''Wallet sync required'') found) (\<lambda>summary.
     rbind (ok_or (with_message InvalidParameter (Text
         (''Error: account '' @ show_json account @ '' has not been generated by z_getnewaccount.'')))
       (map_of summary account_id)) (\<lambda>a.
       Inr (response_for_balance B a minconf)))))"

section \<open>Counting notes\<close>

text \<open>The counts of the database are 64-bit and cast to 32 bits; the sums wrap.\<close>

record GetNotesCount =
  nc_sprout :: u32
  nc_sapling :: u32
  nc_orchard :: u32
  nc_ironwood :: u32

record notes_db =
  nd_chain_height :: "string + BlockHeight option"
  nd_account_ids :: "string + AccountUuid list"
  nd_metadata :: "AccountUuid \<Rightarrow> BlockHeight \<Rightarrow> string + (ShieldedPool \<Rightarrow> 64 word option)"

definition add_count :: "u32 \<Rightarrow> 64 word option \<Rightarrow> u32" where
  "add_count n note_count = (case note_count of None \<Rightarrow> n | Some c \<Rightarrow> n + ucast c)"

fun count_notes ::
    "notes_db \<Rightarrow> BlockHeight \<Rightarrow> AccountUuid list \<Rightarrow> GetNotesCount \<Rightarrow> rpc_error + GetNotesCount" where
  "count_notes D target_height [] n = Inr n"
| "count_notes D target_height (account_id # ids) n =
     rbind (map_err database_error (nd_metadata D account_id target_height)) (\<lambda>note_count.
       count_notes D target_height ids
         (n\<lparr>nc_sapling := add_count (nc_sapling n) (note_count Sapling),
            nc_orchard := add_count (nc_orchard n) (note_count Orchard),
            nc_ironwood := add_count (nc_ironwood n) (note_count Ironwood)\<rparr>))"

definition get_notes_count :: "height_ops \<Rightarrow> notes_db \<Rightarrow> u32 option \<Rightarrow> int option \<Rightarrow> rpc_error + GetNotesCount" where
  "get_notes_count H D minconf as_of_height =
     rbind (parse_as_of_height as_of_height) (\<lambda>as_of_height.
     rbind (parse_minconf minconf 1 as_of_height) (\<lambda>minconf.
     rbind (map_err database_error (nd_chain_height D)) (\<lambda>found.
     rbind (ok_or (with_static InWarmup ''Wallet sync required'') found) (\<lambda>chain_height.
     let from = (case as_of_height of Some h \<Rightarrow> h | None \<Rightarrow> chain_height);
         target_height = h_sub H (h_add H from 1) minconf in
     rbind (map_err database_error (nd_account_ids D)) (\<lambda>ids.
       count_notes D target_height ids \<lparr>nc_sprout = 0, nc_sapling = 0, nc_orchard = 0, nc_ironwood = 0\<rparr>)))))"

section \<open>The figures add up\<close>

text \<open>What the backend crate promises: an account's balances are within the supply of money, its
  derived accessors are the sums their names say, and the total of a pool leaves dust out.\<close>

definition bucket_total :: "bucket \<Rightarrow> Zatoshis" where
  "bucket_total b = b_spendable b + b_change_pending b + b_value_pending b"

definition bucket_ok :: "bucket \<Rightarrow> bool" where
  "bucket_ok b \<longleftrightarrow> 0 \<le> b_spendable b \<and> 0 \<le> b_change_pending b \<and> 0 \<le> b_value_pending b \<and> 0 \<le> b_uneconomic b"

abbreviation shielded :: "account_funds \<Rightarrow> bucket list" where
  "shielded a \<equiv> [af_sapling a, af_orchard a, af_ironwood a]"

abbreviation buckets :: "account_funds \<Rightarrow> bucket list" where
  "buckets a \<equiv> [af_sapling a, af_orchard a, af_ironwood a, af_regular a, af_coinbase a]"

abbreviation over :: "(bucket \<Rightarrow> Zatoshis) \<Rightarrow> bucket list \<Rightarrow> Zatoshis" where
  "over f bs \<equiv> sum_list (map f bs)"

definition funds_ok :: "account_funds \<Rightarrow> bool" where
  "funds_ok a \<longleftrightarrow> list_all bucket_ok (buckets a) \<and> over bucket_total (buckets a) \<le> MAX_MONEY"

definition balance_api_documented :: "'cp balance_api \<Rightarrow> bool" where
  "balance_api_documented B \<longleftrightarrow> zat_add_documented (ba_add B) \<and>
     (\<forall>b. bucket_ok b \<longrightarrow> ba_bucket_total B b = bucket_total b) \<and>
     (\<forall>a. funds_ok a \<longrightarrow>
        bucket_ok (ba_unshielded B a) \<and>
        bucket_total (ba_unshielded B a) = bucket_total (af_regular a) + bucket_total (af_coinbase a) \<and>
        ba_spendable B a = over b_spendable (shielded a) \<and>
        ba_change_pending B a = over b_change_pending (shielded a) \<and>
        ba_value_pending B a = over b_value_pending (shielded a) \<and>
        ba_uneconomic B a = over b_uneconomic (buckets a))"

text \<open>The figures of a printed balance, an omitted one standing for zeros.\<close>

definition shown :: "nat option \<Rightarrow> nat" where
  "shown v = (case v of None \<Rightarrow> 0 | Some n \<Rightarrow> n)"

definition figures :: "Balance option \<Rightarrow> nat \<times> nat \<times> nat" where
  "figures r = (case r of None \<Rightarrow> (0, 0, 0) | Some b \<Rightarrow> (bal_spendable b, shown (bal_pending b), shown (bal_dust b)))"

definition bucket_figures :: "bucket \<Rightarrow> nat \<times> nat \<times> nat" where
  "bucket_figures b = (nat (b_spendable b), nat (b_change_pending b + b_value_pending b), nat (b_uneconomic b))"

definition reported :: "bucket \<Rightarrow> Balance option \<Rightarrow> bool" where
  "reported b r \<longleftrightarrow> figures r = bucket_figures b \<and> (r = None \<longleftrightarrow> bucket_figures b = (0, 0, 0))"

definition account_reported :: "AccountUuid \<times> account_funds \<Rightarrow> AccountBalance \<Rightarrow> bool" where
  "account_reported entry r \<longleftrightarrow> (let a = snd entry in
     ab_uuid r = fst entry \<and>
     reported (af_sapling a) (ab_sapling r) \<and> reported (af_orchard a) (ab_orchard r) \<and>
     reported (af_ironwood a) (ab_ironwood r) \<and>
     reported (af_regular a) (Option.bind (ab_transparent r) tb_regular) \<and>
     reported (af_coinbase a) (Option.bind (ab_transparent r) tb_coinbase) \<and>
     figures (Some (ab_total r)) =
       (\<Sum>b\<leftarrow>buckets a. fst (bucket_figures b), \<Sum>b\<leftarrow>buckets a. fst (snd (bucket_figures b)),
        \<Sum>b\<leftarrow>buckets a. snd (snd (bucket_figures b))))"

definition bounded :: "Zatoshis \<Rightarrow> Zatoshis option" where
  "bounded x = (if x \<le> MAX_MONEY then Some x else None)"

lemma add_bounded:
  assumes "balance_api_documented B" "0 \<le> x" "0 \<le> y"
  shows "ba_add B x y = bounded (x + y)" and "add_opt B (bounded x) y = bounded (x + y)"
  using assms by (auto simp: balance_api_documented_def zat_add_documented_def add_opt_def bounded_def)

lemma shown_opt_value [simp]: "0 \<le> v \<Longrightarrow> shown (opt_value v) = nat v"
  by (simp add: shown_def opt_value_def)

lemma figures_balance [simp]:
  "0 \<le> p \<Longrightarrow> 0 \<le> d \<Longrightarrow> figures (Some (balance s p d)) = (nat s, nat p, nat d)"
  by (simp add: figures_def balance_def)

lemma bucket_total_nonneg: "bucket_ok b \<Longrightarrow> 0 \<le> bucket_total b"
  by (simp add: bucket_ok_def bucket_total_def)

lemma opt_balance_from_reports:
  assumes "balance_api_documented B" "bucket_ok b" "bucket_total b \<le> MAX_MONEY"
  shows "\<exists>r. opt_balance_from B b = Inr r \<and> reported b r"
  using assms add_bounded(1) [OF assms(1), of "b_change_pending b" "b_value_pending b"]
  by (auto simp: opt_balance_from_def bounded_def bucket_ok_def bucket_total_def opt_balance_def reported_def
      bucket_figures_def figures_def [of None])

lemma opt_transparent_balance_reports:
  assumes "balance_api_documented B" "bucket_ok r" "bucket_ok c" "bucket_total r \<le> MAX_MONEY" "bucket_total c \<le> MAX_MONEY"
  shows "\<exists>t. opt_transparent_balance B r c = Inr t \<and>
    reported r (Option.bind t tb_regular) \<and> reported c (Option.bind t tb_coinbase)"
proof -
  have tot: "ba_bucket_total B r = bucket_total r" "ba_bucket_total B c = bucket_total c"
    using assms by (auto simp: balance_api_documented_def)
  have empty: "reported b None" if "bucket_ok b" "bucket_total b = 0" "b_uneconomic b = 0" for b
    using that by (auto simp: reported_def figures_def bucket_figures_def bucket_ok_def bucket_total_def)
  obtain r' c' where parts: "opt_balance_from B r = Inr r'" "reported r r'" "opt_balance_from B c = Inr c'" "reported c c'"
    using opt_balance_from_reports [OF assms(1,2,4)] opt_balance_from_reports [OF assms(1,3,5)] by (elim exE conjE) (rule that)
  show ?thesis
  proof (cases "(bucket_total r = 0 \<and> b_uneconomic r = 0) \<and> bucket_total c = 0 \<and> b_uneconomic c = 0")
    case True
    then show ?thesis
      using empty [OF assms(2)] empty [OF assms(3)] by (simp add: opt_transparent_balance_def tot)
  next
    case False
    then have "opt_transparent_balance B r c = Inr (Some \<lparr>tb_regular = r', tb_coinbase = c'\<rparr>)"
      unfolding opt_transparent_balance_def Let_def tot by (simp only: if_False parts rbind_simps)
    with parts show ?thesis by simp
  qed
qed

lemma balance_from_reports:
  assumes "balance_api_documented B" "funds_ok a"
  shows "\<exists>r. balance_from B a = Inr r \<and>
    figures (Some r) = (nat (over b_spendable (buckets a)),
      nat (over b_change_pending (buckets a) + over b_value_pending (buckets a)), nat (over b_uneconomic (buckets a)))"
proof -
  have acc: "ba_spendable B a = over b_spendable (shielded a)" "ba_change_pending B a = over b_change_pending (shielded a)"
    "ba_value_pending B a = over b_value_pending (shielded a)" "ba_uneconomic B a = over b_uneconomic (buckets a)"
    using assms by (simp_all add: balance_api_documented_def)
  have ok: "list_all bucket_ok (buckets a)" "over bucket_total (buckets a) \<le> MAX_MONEY"
    using assms(2) by (simp_all add: funds_ok_def)
  then have le: "over b_spendable (buckets a) \<le> MAX_MONEY"
    "over b_change_pending (buckets a) + over b_value_pending (buckets a) \<le> MAX_MONEY"
    by (auto simp: bucket_ok_def bucket_total_def)
  have nn: "0 \<le> b_spendable b \<and> 0 \<le> b_change_pending b \<and> 0 \<le> b_value_pending b \<and> 0 \<le> b_uneconomic b"
    if "b \<in> set (buckets a)" for b
    using ok(1) that by (auto simp: bucket_ok_def)
  note nns = nn [of "af_sapling a"] nn [of "af_orchard a"] nn [of "af_ironwood a"] nn [of "af_regular a"] nn [of "af_coinbase a"]
  have "add_opt B (ba_add B (ba_spendable B a) (b_spendable (af_regular a))) (b_spendable (af_coinbase a)) =
      bounded (over b_spendable (buckets a))"
    using nns by (simp add: acc add_bounded [OF assms(1)] add.assoc)
  moreover have "add_opt B (add_opt B (add_opt B (add_opt B (ba_add B (ba_change_pending B a) (ba_value_pending B a))
          (b_change_pending (af_regular a))) (b_value_pending (af_regular a)))
          (b_change_pending (af_coinbase a))) (b_value_pending (af_coinbase a)) =
      bounded (over b_change_pending (buckets a) + over b_value_pending (buckets a))"
    using nns by (simp add: acc add_bounded [OF assms(1)] algebra_simps)
  ultimately show ?thesis
    using nns le by (simp add: balance_from_def Let_def bounded_def acc(4))
qed

lemma funds_ok_bucket:
  "funds_ok a \<Longrightarrow> b \<in> set (buckets a) \<Longrightarrow> bucket_ok b \<and> bucket_total b \<le> MAX_MONEY"
proof -
  assume ok: "funds_ok a" and b: "b \<in> set (buckets a)"
  then have all: "\<forall>b \<in> set (buckets a). bucket_ok b" by (auto simp: funds_ok_def)
  then have "bucket_total b \<le> over bucket_total (buckets a)"
    using b by (intro member_le_sum_list) (auto intro: bucket_total_nonneg)
  with ok all b show ?thesis by (auto simp: funds_ok_def)
qed

lemma account_response_reports:
  assumes "balance_api_documented B" "funds_ok (snd e)"
  shows "\<exists>r. account_balance_response B (fst e) (snd e) = Inr r \<and> account_reported e r"
proof -
  let ?a = "snd e"
  have part: "\<exists>r. opt_balance_from B b = Inr r \<and> reported b r" if "b \<in> set (buckets ?a)" for b
    using opt_balance_from_reports [OF assms(1)] funds_ok_bucket [OF assms(2) that] by blast
  obtain s o' i where shielded: "opt_balance_from B (af_sapling ?a) = Inr s" "reported (af_sapling ?a) s"
    "opt_balance_from B (af_orchard ?a) = Inr o'" "reported (af_orchard ?a) o'"
    "opt_balance_from B (af_ironwood ?a) = Inr i" "reported (af_ironwood ?a) i"
    using part [of "af_sapling ?a"] part [of "af_orchard ?a"] part [of "af_ironwood ?a"] by auto
  obtain t where transparent: "opt_transparent_balance B (af_regular ?a) (af_coinbase ?a) = Inr t"
    "reported (af_regular ?a) (Option.bind t tb_regular)" "reported (af_coinbase ?a) (Option.bind t tb_coinbase)"
    using opt_transparent_balance_reports [OF assms(1)] funds_ok_bucket [OF assms(2), of "af_regular ?a"]
      funds_ok_bucket [OF assms(2), of "af_coinbase ?a"] by auto
  obtain w where in_all: "balance_from B ?a = Inr w" "figures (Some w) = (nat (over b_spendable (buckets ?a)),
      nat (over b_change_pending (buckets ?a) + over b_value_pending (buckets ?a)), nat (over b_uneconomic (buckets ?a)))"
    using balance_from_reports [OF assms] by blast
  have "\<forall>b \<in> set (buckets ?a). bucket_ok b" using assms(2) by (auto simp: funds_ok_def)
  then have "figures (Some w) =
       (\<Sum>b\<leftarrow>buckets ?a. fst (bucket_figures b), \<Sum>b\<leftarrow>buckets ?a. fst (snd (bucket_figures b)),
        \<Sum>b\<leftarrow>buckets ?a. snd (snd (bucket_figures b)))"
    unfolding in_all(2) by (simp add: bucket_figures_def bucket_ok_def nat_add_distrib)
  then show ?thesis
    using shielded transparent in_all(1)
    by (simp add: account_balance_response_def account_reported_def Let_def)
qed

lemma total_fold:
  assumes "balance_api_documented B" "\<forall>a \<in> set as. funds_ok a" "0 \<le> t" "0 \<le> p"
  shows "foldl (total_step B) (bounded t, bounded p) as =
    (bounded (t + (\<Sum>a\<leftarrow>as. over bucket_total [af_regular a, af_coinbase a])),
     bounded (p + (\<Sum>a\<leftarrow>as. over bucket_total (shielded a))))"
  using assms(2-4)
proof (induction as arbitrary: t p)
  case Nil
  then show ?case by simp
next
  case (Cons a as)
  have ok: "funds_ok a" using Cons.prems by simp
  have tot: "ba_bucket_total B b = bucket_total b" "0 \<le> bucket_total b" if "b \<in> set (buckets a)" for b
    using assms(1) funds_ok_bucket [OF ok that] bucket_total_nonneg by (auto simp: balance_api_documented_def)
  have un: "ba_bucket_total B (ba_unshielded B a) = bucket_total (af_regular a) + bucket_total (af_coinbase a)"
    using assms(1) ok by (simp add: balance_api_documented_def)
  have "total_step B (bounded t, bounded p) a =
      (bounded (t + over bucket_total [af_regular a, af_coinbase a]), bounded (p + over bucket_total (shielded a)))"
    using Cons.prems tot by (simp add: total_step_def un add_bounded [OF assms(1)] add.assoc)
  then show ?case
    using Cons.IH [of "t + over bucket_total [af_regular a, af_coinbase a]" "p + over bucket_total (shielded a)"] Cons.prems tot
    by (simp add: add.assoc)
qed

text \<open>What a report says an account holds, in transparent and in shielded pools, dust left out.\<close>

definition held :: "Balance option \<Rightarrow> nat" where
  "held r = fst (figures r) + fst (snd (figures r))"

definition held_transparent :: "AccountBalance \<Rightarrow> nat" where
  "held_transparent r = held (Option.bind (ab_transparent r) tb_regular) + held (Option.bind (ab_transparent r) tb_coinbase)"

definition held_shielded :: "AccountBalance \<Rightarrow> nat" where
  "held_shielded r = held (ab_sapling r) + held (ab_orchard r) + held (ab_ironwood r)"

lemma held_reported: "reported b r \<Longrightarrow> bucket_ok b \<Longrightarrow> int (held r) = bucket_total b"
  by (simp add: reported_def held_def bucket_figures_def bucket_ok_def bucket_total_def)

lemma held_account:
  assumes "account_reported e r" "funds_ok (snd e)"
  shows "int (held_transparent r) = over bucket_total [af_regular (snd e), af_coinbase (snd e)]"
    and "int (held_shielded r) = over bucket_total (shielded (snd e))"
    and "held (Some (ab_total r)) = held_transparent r + held_shielded r"
proof -
  have ok: "bucket_ok b" if "b \<in> set (buckets (snd e))" for b
    using funds_ok_bucket [OF assms(2) that] ..
  have rep: "reported (af_sapling (snd e)) (ab_sapling r)" "reported (af_orchard (snd e)) (ab_orchard r)"
    "reported (af_ironwood (snd e)) (ab_ironwood r)" "reported (af_regular (snd e)) (Option.bind (ab_transparent r) tb_regular)"
    "reported (af_coinbase (snd e)) (Option.bind (ab_transparent r) tb_coinbase)"
    using assms(1) by (simp_all add: account_reported_def Let_def)
  note helds = rep [THEN held_reported, OF ok]
  show t: "int (held_transparent r) = over bucket_total [af_regular (snd e), af_coinbase (snd e)]"
    by (simp add: held_transparent_def helds)
  show s: "int (held_shielded r) = over bucket_total (shielded (snd e))"
    by (simp add: held_shielded_def helds)
  show "held (Some (ab_total r)) = held_transparent r + held_shielded r"
    using assms(1) by (simp add: account_reported_def Let_def reported_def held_def held_transparent_def held_shielded_def)
qed

lemma held_sums:
  assumes "list_all2 account_reported es rs" "\<forall>e \<in> set es. funds_ok (snd e)"
  shows "int (\<Sum>r\<leftarrow>rs. held_transparent r) = (\<Sum>e\<leftarrow>es. over bucket_total [af_regular (snd e), af_coinbase (snd e)])"
    and "int (\<Sum>r\<leftarrow>rs. held_shielded r) = (\<Sum>e\<leftarrow>es. over bucket_total (shielded (snd e)))"
    and "(\<Sum>r\<leftarrow>rs. held (Some (ab_total r))) = (\<Sum>r\<leftarrow>rs. held_transparent r) + (\<Sum>r\<leftarrow>rs. held_shielded r)"
  using assms
proof (induction es rs rule: list_all2_induct)
  case (Cons e es r rs)
  { case 1 then show ?case using Cons held_account(1) [of e r] by simp }
  { case 2 then show ?case using Cons held_account(2) [of e r] by simp }
  { case 3 then show ?case using Cons held_account(3) [of e r] by simp }
qed simp_all

text \<open>C29: The balance methods agree with the wallet and with each other. Over balances within the supply,
  \<open>z_getbalances\<close> always answers; it reports every account and every pool with what is spendable,
  pending and dust, a pool being omitted exactly when it has nothing, and the figures of each
  account's total are the sums over its pools. For the same number of confirmations
  \<open>z_gettotalbalance\<close> prints what these reports add up to without the dust, and refuses exactly
  when that exceeds the supply.\<close>

theorem balances_add_up:
  assumes "balance_api_documented B"
    and "ba_summary B (balances_policy B minconf) = Inr (Some accounts)"
    and "\<forall>e \<in> set accounts. funds_ok (snd e)"
  shows "\<exists>R. get_balances B minconf = Inr R \<and> list_all2 account_reported accounts (bs_accounts R) \<and>
    (\<exists>t s. t = (\<Sum>r\<leftarrow>bs_accounts R. held_transparent r) \<and> s = (\<Sum>r\<leftarrow>bs_accounts R. held_shielded r) \<and>
       (\<Sum>r\<leftarrow>bs_accounts R. held (Some (ab_total r))) = t + s \<and>
       get_total_balance B minconf (Some True) =
         (if int (t + s) \<le> MAX_MONEY
          then Inr \<lparr>tot_transparent = ba_str B (int t), tot_private = ba_str B (int s), tot_total = ba_str B (int (t + s))\<rparr>
          else Inl (with_static Wallet ''balance overflow'')))"
proof -
  have "\<exists>rs. try_map (\<lambda>(u, a). account_balance_response B u a) accounts = Inr rs \<and> list_all2 account_reported accounts rs"
    using assms(3)
  proof (induction accounts)
    case (Cons e es)
    with account_response_reports [OF assms(1), of e] show ?case by (cases e) auto
  qed simp
  then obtain rs where rs: "try_map (\<lambda>(u, a). account_balance_response B u a) accounts = Inr rs"
      "list_all2 account_reported accounts rs" by blast
  let ?t = "\<Sum>r\<leftarrow>rs. held_transparent r" and ?s = "\<Sum>r\<leftarrow>rs. held_shielded r"
  note sums = held_sums [OF rs(2) assms(3)]
  have zero: "Some 0 = bounded 0" by (simp add: bounded_def MAX_MONEY_def)
  have "foldl (total_step B) (Some 0, Some 0) (map snd accounts) = (bounded (int ?t), bounded (int ?s))"
    unfolding zero using assms(3) by (subst total_fold [OF assms(1)]) (auto simp: sums o_def)
  then have "get_total_balance B minconf (Some True) =
      (if int (?t + ?s) \<le> MAX_MONEY
       then Inr \<lparr>tot_transparent = ba_str B (int ?t), tot_private = ba_str B (int ?s), tot_total = ba_str B (int (?t + ?s))\<rparr>
       else Inl (with_static Wallet ''balance overflow''))"
    using add_bounded(1) [OF assms(1), of "int ?t" "int ?s"] assms(2)
    by (auto simp: get_total_balance_def total_balance_def bounded_def)
  then show ?thesis
    using rs assms(2) sums(3) by (simp add: get_balances_def)
qed

text \<open>Without \<open>minconf\<close>, \<open>z_getbalanceforaccount\<close> answers as for \<open>minconf = 0\<close>, with the policy that
  counts unconfirmed transparent funds, and yet states that one confirmation was required, while
  \<open>z_getbalances\<close> and \<open>z_gettotalbalance\<close> then do require one.\<close>

theorem balance_for_account_default_is_zero_conf:
  "get_balance_for_account B parse_uuid source show_json account None =
     map_sum (\<lambda>e. e) (\<lambda>r. r\<lparr>minimum_confirmations := 1\<rparr>)
       (get_balance_for_account B parse_uuid source show_json account (Some 0))"
  "account_policy B None = ba_new_symmetrical B 1 True"
  "balances_policy B None = ba_new_symmetrical B 1 False"
proof -
  have "account_policy B None = account_policy B (Some 0)" by (simp add: account_policy_def)
  then show "get_balance_for_account B parse_uuid source show_json account None =
     map_sum (\<lambda>e. e) (\<lambda>r. r\<lparr>minimum_confirmations := 1\<rparr>)
       (get_balance_for_account B parse_uuid source show_json account (Some 0))"
    unfolding get_balance_for_account_def
    by (cases "parse_account_parameter parse_uuid source account"; simp)
       (auto simp: rbind_def map_err_def ok_or_def response_for_balance_def split: sum.splits option.splits)
qed (simp_all add: account_policy_def balances_policy_def)

text \<open>The counts of \<open>z_getnotescount\<close> are the sums over the accounts as long as these fit 32 bits;
  beyond that they wrap.\<close>

definition notes_of :: "notes_db \<Rightarrow> BlockHeight \<Rightarrow> ShieldedPool \<Rightarrow> AccountUuid \<Rightarrow> nat" where
  "notes_of D h pool i = (case nd_metadata D i h of Inl _ \<Rightarrow> 0 | Inr f \<Rightarrow> (case f pool of None \<Rightarrow> 0 | Some c \<Rightarrow> unat c))"

lemma add_count_of_nat: "add_count n c = n + of_nat (case c of None \<Rightarrow> 0 | Some c \<Rightarrow> unat c)"
  by (cases c) (simp_all add: add_count_def)

lemma count_notes_sums:
  "count_notes D h ids n = Inr r \<Longrightarrow>
     nc_sapling r = nc_sapling n + of_nat (\<Sum>i\<leftarrow>ids. notes_of D h Sapling i) \<and>
     nc_orchard r = nc_orchard n + of_nat (\<Sum>i\<leftarrow>ids. notes_of D h Orchard i) \<and>
     nc_ironwood r = nc_ironwood n + of_nat (\<Sum>i\<leftarrow>ids. notes_of D h Ironwood i) \<and> nc_sprout r = nc_sprout n"
proof (induction ids arbitrary: n)
  case (Cons i ids)
  then show ?case
    by (auto simp: result_simps add_count_of_nat notes_of_def algebra_simps dest!: Cons.IH)
qed simp

theorem notes_counted:
  assumes "get_notes_count H D minconf None = Inr r" and "nd_chain_height D = Inr (Some tip)"
    and "nd_account_ids D = Inr ids" and "\<forall>pool. (\<Sum>i\<leftarrow>ids. notes_of D h pool i) < 2 ^ 32"
    and "h = h_sub H (h_add H tip 1) (case minconf of None \<Rightarrow> 1 | Some c \<Rightarrow> c)"
  shows "unat (nc_sapling r) = (\<Sum>i\<leftarrow>ids. notes_of D h Sapling i)"
    and "unat (nc_orchard r) = (\<Sum>i\<leftarrow>ids. notes_of D h Orchard i)"
    and "unat (nc_ironwood r) = (\<Sum>i\<leftarrow>ids. notes_of D h Ironwood i)"
proof -
  have "count_notes D h ids \<lparr>nc_sprout = 0, nc_sapling = 0, nc_orchard = 0, nc_ironwood = 0\<rparr> = Inr r"
    using assms by (cases minconf) (auto simp: get_notes_count_def parse_as_of_height_def parse_minconf_def)
  note sums = count_notes_sums [OF this]
  have fit: "unat (of_nat n :: u32) = n" if "n < 2 ^ 32" for n
    using that by (simp add: unsigned_of_nat take_bit_nat_eq_self_iff)
  show "unat (nc_sapling r) = (\<Sum>i\<leftarrow>ids. notes_of D h Sapling i)"
    using sums fit [OF assms(4) [rule_format, of Sapling]] by simp
  show "unat (nc_orchard r) = (\<Sum>i\<leftarrow>ids. notes_of D h Orchard i)"
    using sums fit [OF assms(4) [rule_format, of Orchard]] by simp
  show "unat (nc_ironwood r) = (\<Sum>i\<leftarrow>ids. notes_of D h Ironwood i)"
    using sums fit [OF assms(4) [rule_format, of Ironwood]] by simp
qed

section \<open>An example\<close>

definition example_bucket :: "Zatoshis \<Rightarrow> Zatoshis \<Rightarrow> Zatoshis \<Rightarrow> bucket" where
  "example_bucket s p d = \<lparr>b_spendable = s, b_change_pending = 0, b_value_pending = p, b_uneconomic = d\<rparr>"

definition example_funds :: account_funds where
  "example_funds =
     \<lparr>af_sapling = example_bucket 5 0 0, af_orchard = example_bucket 0 0 2, af_ironwood = example_bucket 0 0 0,
      af_regular = example_bucket 0 0 0, af_coinbase = example_bucket 1 3 0\<rparr>"

definition example_balance_api :: "(u32 \<times> bool) balance_api" where
  "example_balance_api =
     \<lparr>ba_add = (\<lambda>a b. if a + b \<le> MAX_MONEY then Some (a + b) else None), ba_bucket_total = bucket_total,
      ba_unshielded = (\<lambda>a.
        \<lparr>b_spendable = b_spendable (af_regular a) + b_spendable (af_coinbase a),
         b_change_pending = b_change_pending (af_regular a) + b_change_pending (af_coinbase a),
         b_value_pending = b_value_pending (af_regular a) + b_value_pending (af_coinbase a),
         b_uneconomic = b_uneconomic (af_regular a) + b_uneconomic (af_coinbase a)\<rparr>),
      ba_spendable = (\<lambda>a. over b_spendable (shielded a)), ba_change_pending = (\<lambda>a. over b_change_pending (shielded a)),
      ba_value_pending = (\<lambda>a. over b_value_pending (shielded a)), ba_uneconomic = (\<lambda>a. over b_uneconomic (buckets a)),
      ba_str = (\<lambda>v. show_nat (nat v)), ba_new_symmetrical = Pair, ba_summary = (\<lambda>_. Inr (Some [(''u'', example_funds)]))\<rparr>"

lemma example_balance_api_documented: "balance_api_documented example_balance_api"
  by (simp add: balance_api_documented_def example_balance_api_def zat_add_documented_def funds_ok_def bucket_ok_def
      bucket_total_def)

theorem balances_add_up_witness:
  "get_total_balance example_balance_api None (Some True) =
     Inr \<lparr>tot_transparent = show_nat 4, tot_private = show_nat 5, tot_total = show_nat 9\<rparr>"
proof -
  have sum: "ba_summary example_balance_api (balances_policy example_balance_api None) = Inr (Some [(''u'', example_funds)])"
    by (simp add: example_balance_api_def)
  have ok: "\<forall>e \<in> set [(''u'', example_funds)]. funds_ok (snd e)"
    by (simp add: funds_ok_def example_funds_def example_bucket_def bucket_ok_def bucket_total_def MAX_MONEY_def)
  obtain R :: Balances and t s where R: "list_all2 account_reported [(''u'', example_funds)] (bs_accounts R)"
      "t = (\<Sum>r\<leftarrow>bs_accounts R. held_transparent r)" "s = (\<Sum>r\<leftarrow>bs_accounts R. held_shielded r)"
      "get_total_balance example_balance_api None (Some True) =
         (if int (t + s) \<le> MAX_MONEY
          then Inr \<lparr>tot_transparent = ba_str example_balance_api (int t), tot_private = ba_str example_balance_api (int s),
                    tot_total = ba_str example_balance_api (int (t + s))\<rparr>
          else Inl (with_static Wallet ''balance overflow''))"
    using balances_add_up [OF example_balance_api_documented sum ok] by (elim exE conjE) (rule that)
  have "int t = 4" "int s = 5"
    unfolding R(2,3) held_sums [OF R(1) ok] by (simp_all add: example_funds_def example_bucket_def bucket_total_def)
  then show ?thesis using R(4) by (simp add: example_balance_api_def MAX_MONEY_def)
qed
end
