(* ===== verification/Wallet_Listing.thy ===== *)
theory Wallet_Listing
  imports Payments
begin

text \<open>
  The listing methods \<open>z_listunspent\<close> (\<open>methods/list_unspent.rs\<close>) and \<open>z_listtransactions\<close>
  (\<open>methods/list_transactions.rs\<close>). The first asks the wallet database for the outputs and notes of
  every account; the second runs SQL over the views of the database, whose rows are an argument.
\<close>

section \<open>Unspent outputs\<close>

text \<open>These errors carry a data field.\<close>

record data_error = rpc_error +
  err_data :: "string option"

definition plain_error :: "rpc_error \<Rightarrow> data_error" where
  "plain_error e = \<lparr>err_code = err_code e, err_message = err_message e, err_data = None\<rparr>"

definition db_failure :: "string \<Rightarrow> string \<Rightarrow> data_error" where
  "db_failure operation e =
     \<lparr>err_code = Legacy Database, err_message = Text (''WalletDb::'' @ operation @ '' failed''), err_data = Some e\<rparr>"

record utxo =
  ux_txid :: TxId
  ux_n :: u32
  ux_recipient :: TransparentAddress
  ux_txout_recipient :: "TransparentAddress option"
  ux_value :: Zatoshis
  ux_mined :: "BlockHeight option"

record wallet_note =
  nt_txid :: TxId
  nt_index :: u32
  nt_recipient :: "u8 list"
  nt_value :: Zatoshis
  nt_internal :: bool

text \<open>The database, the address codecs and the printers. \<open>un_diff\<close> is the difference of a target height
  and a height, \<open>un_spendable\<close> takes the coinbase filter as a flag, and a memo is its hexadecimal
  form and its text if it has one.\<close>

record ('cp, 'scope, 'z) unspent_env =
  un_decode :: "string \<Rightarrow> Address option"
  un_to_sapling :: "Address \<Rightarrow> u8 list option"
  un_orchard_receivers :: "Address \<Rightarrow> u8 list list"
  un_new_symmetrical :: "u32 \<Rightarrow> bool \<Rightarrow> 'cp"
  un_chain_height :: "string + BlockHeight option"
  un_add_one :: "BlockHeight \<Rightarrow> BlockHeight"
  un_diff :: "BlockHeight \<Rightarrow> BlockHeight \<Rightarrow> u32"
  un_account_ids :: "string + AccountUuid list"
  un_spending_account :: "AccountUuid \<Rightarrow> string + bool option"
  un_receivers :: "AccountUuid \<Rightarrow> string + TransparentAddress list"
  un_spendable :: "TransparentAddress \<Rightarrow> BlockHeight \<Rightarrow> 'cp \<Rightarrow> bool \<Rightarrow> string + utxo list"
  un_scope :: "AccountUuid \<Rightarrow> TransparentAddress \<Rightarrow> string + 'scope option option"
  un_internal_scope :: 'scope
  un_notes :: "AccountUuid \<Rightarrow> BlockHeight \<Rightarrow> string + (ShieldedPool \<Rightarrow> wallet_note list)"
  un_memo :: "TxId \<Rightarrow> ShieldedPool \<Rightarrow> u32 \<Rightarrow> string + (string \<times> string option) option"
  un_tx_height :: "TxId \<Rightarrow> string + BlockHeight option"
  un_txid_str :: "TxId \<Rightarrow> string"
  un_encode_transparent :: "TransparentAddress \<Rightarrow> string"
  un_encode_shielded :: "ShieldedPool \<Rightarrow> u8 list \<Rightarrow> string"
  un_value :: "Zatoshis \<Rightarrow> 'z"

record 'z UnspentOutput =
  uo_txid :: string
  uo_pool :: string
  uo_outindex :: u32
  uo_confirmations :: u32
  uo_is_watch_only :: bool
  uo_address :: "string option"
  uo_account_uuid :: AccountUuid
  uo_wallet_internal :: bool
  uo_generated :: "bool option"
  uo_value :: 'z
  uo_value_zat :: nat
  uo_memo :: "string option"
  uo_memo_str :: "string option"

definition confirmation_count ::
    "('cp, 'scope, 'z) unspent_env \<Rightarrow> BlockHeight \<Rightarrow> BlockHeight option \<Rightarrow> u32" where
  "confirmation_count U target_height mined =
     (case mined of None \<Rightarrow> 0 | Some h \<Rightarrow> un_diff U target_height h)"

definition confirmations_in_range :: "u32 \<Rightarrow> u32 \<Rightarrow> u32 option \<Rightarrow> bool" where
  "confirmations_in_range confirmations minconf maxconf \<longleftrightarrow>
     confirmations \<ge> minconf \<and> (case maxconf of None \<Rightarrow> True | Some c \<Rightarrow> confirmations \<le> c)"

text \<open>The parameters of a call, once they have been read.\<close>

record 'cp unspent_query =
  uq_target :: BlockHeight
  uq_minconf :: u32
  uq_maxconf :: "u32 option"
  uq_policy :: 'cp
  uq_addresses :: "Address list"

definition transparent_unspent_output ::
    "('cp, 'scope, 'z) unspent_env \<Rightarrow> string \<Rightarrow> u32 \<Rightarrow> u32 \<Rightarrow> bool \<Rightarrow> string option \<Rightarrow> AccountUuid \<Rightarrow> bool \<Rightarrow>
     Zatoshis \<Rightarrow> bool \<Rightarrow> 'z UnspentOutput" where
  "transparent_unspent_output U txid outindex confirmations is_watch_only address account_uuid wallet_internal v generated =
     \<lparr>uo_txid = txid, uo_pool = ''transparent'', uo_outindex = outindex, uo_confirmations = confirmations,
      uo_is_watch_only = is_watch_only, uo_address = address, uo_account_uuid = account_uuid,
      uo_wallet_internal = wallet_internal, uo_generated = Some generated, uo_value = un_value U v,
      uo_value_zat = nat v, uo_memo = None, uo_memo_str = None\<rparr>"

definition account_utxos ::
    "('cp, 'scope, 'z) unspent_env \<Rightarrow> 'cp unspent_query \<Rightarrow> AccountUuid \<Rightarrow> data_error + (utxo \<times> bool) list" where
  "account_utxos U q account_id =
     rbind (map_err (db_failure ''get_transparent_receivers'') (un_receivers U account_id)) (\<lambda>addrs.
     rbind (try_map (\<lambda>(addr, generated).
         rbind (map_err (db_failure ''get_spendable_transparent_outputs'')
           (un_spendable U addr (uq_target q) (uq_policy q) generated)) (\<lambda>outputs.
           Inr (map (\<lambda>utxo. (utxo, generated)) outputs)))
       (concat (map (\<lambda>addr. [(addr, False), (addr, True)]) addrs))) (\<lambda>parts.
       Inr (concat parts)))"

fun transparent_outputs ::
    "('cp, 'scope, 'z) unspent_env \<Rightarrow> 'cp unspent_query \<Rightarrow> AccountUuid \<Rightarrow> bool \<Rightarrow> (utxo \<times> bool) list \<Rightarrow>
     data_error + 'z UnspentOutput list" where
  "transparent_outputs U q account_id is_watch_only [] = Inr []"
| "transparent_outputs U q account_id is_watch_only ((utxo, generated) # utxos) =
     (let confirmations = confirmation_count U (uq_target q) (ux_mined utxo) in
      if \<not> confirmations_in_range confirmations (uq_minconf q) (uq_maxconf q)
      then transparent_outputs U q account_id is_watch_only utxos
      else rbind (map_err (db_failure ''get_transparent_address_metadata'')
             (un_scope U account_id (ux_recipient utxo))) (\<lambda>scope.
        rbind (transparent_outputs U q account_id is_watch_only utxos) (\<lambda>outputs.
          Inr (transparent_unspent_output U (un_txid_str U (ux_txid utxo)) (ux_n utxo) confirmations is_watch_only
                 (map_option (un_encode_transparent U) (ux_txout_recipient utxo)) account_id
                 (scope = Some (Some (un_internal_scope U))) (ux_value utxo) generated # outputs))))"

definition pool_name :: "ShieldedPool \<Rightarrow> string" where
  "pool_name pool = (case pool of Sapling \<Rightarrow> ''sapling'' | Orchard \<Rightarrow> ''orchard'' | Ironwood \<Rightarrow> ''ironwood'')"

text \<open>Whether a note passes the filter by addresses: the Sapling receiver for a Sapling note, an
  Orchard receiver for the other two pools.\<close>

definition note_matches ::
    "('cp, 'scope, 'z) unspent_env \<Rightarrow> Address list \<Rightarrow> ShieldedPool \<Rightarrow> wallet_note \<Rightarrow> bool" where
  "note_matches U addresses pool n =
     list_all (\<lambda>addr. case pool of
         Sapling \<Rightarrow> un_to_sapling U addr = Some (nt_recipient n)
       | _ \<Rightarrow> list_ex (\<lambda>r. r = nt_recipient n) (un_orchard_receivers U addr)) addresses"

definition get_memo ::
    "('cp, 'scope, 'z) unspent_env \<Rightarrow> TxId \<Rightarrow> ShieldedPool \<Rightarrow> u32 \<Rightarrow> data_error + string \<times> string option" where
  "get_memo U txid pool output_index =
     rbind (map_err (db_failure ''get_memo'') (un_memo U txid pool output_index)) (\<lambda>memo.
       Inr (case memo of Some m \<Rightarrow> m | None \<Rightarrow> (''TODO: Always enhance every note'', None)))"

fun note_outputs ::
    "('cp, 'scope, 'z) unspent_env \<Rightarrow> 'cp unspent_query \<Rightarrow> AccountUuid \<Rightarrow> bool \<Rightarrow> ShieldedPool \<Rightarrow> wallet_note list \<Rightarrow>
     data_error + 'z UnspentOutput list" where
  "note_outputs U q account_id is_watch_only pool [] = Inr []"
| "note_outputs U q account_id is_watch_only pool (n # notes) =
     rbind (map_err (db_failure ''get_tx_height'') (un_tx_height U (nt_txid n))) (\<lambda>mined.
     let confirmations = confirmation_count U (uq_target q) mined in
     if \<not> confirmations_in_range confirmations (uq_minconf q) (uq_maxconf q)
     then note_outputs U q account_id is_watch_only pool notes
     else rbind (get_memo U (nt_txid n) pool (nt_index n)) (\<lambda>(memo, memo_str).
       rbind (note_outputs U q account_id is_watch_only pool notes) (\<lambda>outputs.
         Inr (\<lparr>uo_txid = un_txid_str U (nt_txid n), uo_pool = pool_name pool, uo_outindex = nt_index n,
               uo_confirmations = confirmations, uo_is_watch_only = is_watch_only,
               uo_address = (if nt_internal n then None else Some (un_encode_shielded U pool (nt_recipient n))),
               uo_account_uuid = account_id, uo_wallet_internal = nt_internal n, uo_generated = None,
               uo_value = un_value U (nt_value n), uo_value_zat = nat (nt_value n), uo_memo = Some memo,
               uo_memo_str = memo_str\<rparr> # outputs))))"

definition account_unspent ::
    "('cp, 'scope, 'z) unspent_env \<Rightarrow> 'cp unspent_query \<Rightarrow> AccountUuid \<Rightarrow> data_error + 'z UnspentOutput list" where
  "account_unspent U q account_id =
     rbind (map_err (db_failure ''get_account'') (un_spending_account U account_id)) (\<lambda>account.
     rbind (ok_or (plain_error (rpc_error_of InternalError)) account) (\<lambda>spending.
     let is_watch_only = \<not> spending in
     rbind (account_utxos U q account_id) (\<lambda>utxos.
     rbind (transparent_outputs U q account_id is_watch_only utxos) (\<lambda>transparent.
     rbind (map_err (db_failure ''select_unspent_notes'') (un_notes U account_id (uq_target q))) (\<lambda>notes.
     rbind (try_map (\<lambda>pool. note_outputs U q account_id is_watch_only pool
              (filter (note_matches U (uq_addresses q) pool) (notes pool))) [Sapling, Orchard, Ironwood]) (\<lambda>shielded.
       Inr (transparent @ concat shielded)))))))"

definition query_for ::
    "('cp, 'scope, 'z) unspent_env \<Rightarrow> u32 \<Rightarrow> u32 option \<Rightarrow> Address list \<Rightarrow> BlockHeight \<Rightarrow> 'cp unspent_query" where
  "query_for U minconf maxconf addresses h =
     (let policy = (if minconf = 0 then un_new_symmetrical U 1 True else un_new_symmetrical U minconf False) in
      \<lparr>uq_target = un_add_one U h, uq_minconf = minconf, uq_maxconf = maxconf, uq_policy = policy,
       uq_addresses = addresses\<rparr>)"

definition list_unspent ::
    "('cp, 'scope, 'z) unspent_env \<Rightarrow> u32 option \<Rightarrow> u32 option \<Rightarrow> bool option \<Rightarrow> string list option \<Rightarrow> int option \<Rightarrow>
     data_error + 'z UnspentOutput list" where
  "list_unspent U minconf maxconf include_watchonly addresses as_of_height =
     rbind (map_err plain_error (parse_as_of_height as_of_height)) (\<lambda>as_of_height.
     rbind (map_err plain_error (parse_minconf minconf 1 as_of_height)) (\<lambda>minconf.
     rbind (try_map (\<lambda>addr. ok_or \<lparr>err_code = Legacy InvalidParameter, err_message = Text ''Not a valid Zcash address'',
                                  err_data = Some addr\<rparr> (un_decode U addr))
       (case addresses of None \<Rightarrow> [] | Some as \<Rightarrow> as)) (\<lambda>addresses.
     rbind (case as_of_height of
              Some h \<Rightarrow> Inr (Some h)
            | None \<Rightarrow> map_err (db_failure ''chain_height'') (un_chain_height U)) (\<lambda>height.
     case height of
       None \<Rightarrow> Inr []
     | Some h \<Rightarrow>
         let q = query_for U minconf maxconf addresses h in
         rbind (map_err (db_failure ''get_account_ids'') (un_account_ids U)) (\<lambda>ids.
         rbind (try_map (account_unspent U q) ids) (\<lambda>parts.
           Inr (concat parts)))))))"

section \<open>Transactions\<close>

text \<open>Rows of the views \<open>v_transactions\<close> and \<open>v_tx_outputs\<close>.\<close>

record output_row =
  or_pool :: int
  or_index :: u32
  or_from_account :: "AccountUuid option"
  or_to_account :: "AccountUuid option"
  or_to_address :: "string option"
  or_value :: int
  or_is_change :: bool
  or_memo :: "u8 list option"

record tx_row =
  tr_account_uuid :: "u8 list"
  tr_mined_height :: "u32 option"
  tr_txid :: "u8 list"
  tr_expiry_height :: "u32 option"
  tr_balance_delta :: int
  tr_fee_paid :: "nat option"
  tr_sent_note_count :: nat
  tr_received_note_count :: nat
  tr_block_time :: "int option"
  tr_expired_unmined :: bool

record WalletTxOutput =
  wo_pool :: string
  wo_index :: u32
  wo_from_account :: "string option"
  wo_to_account :: "string option"
  wo_to_address :: "string option"
  wo_value :: nat
  wo_is_change :: bool
  wo_memo :: "string option"

record WalletTx =
  wt_account_uuid :: string
  wt_mined_height :: "u32 option"
  wt_txid :: string
  wt_expiry_height :: "u32 option"
  wt_balance_delta :: int
  wt_fee_paid :: "nat option"
  wt_sent_note_count :: nat
  wt_received_note_count :: nat
  wt_block_time :: "int option"
  wt_block_datetime :: "string option"
  wt_expired_unmined :: bool
  wt_outputs :: "WalletTxOutput list"

datatype Memo = MemoEmpty | MemoText string | MemoFuture "u8 list" | MemoArbitrary "u8 list"

text \<open>The codecs and printers, the printed form of a corruption error, and the tables.\<close>

record listing_env =
  le_parse_uuid :: "string \<Rightarrow> (u8 list) option"
  le_uuid_str :: "u8 list \<Rightarrow> string"
  le_txid_str :: "u8 list \<Rightarrow> string"
  le_debug_int :: "int \<Rightarrow> string"
  le_zatoshis :: "int \<Rightarrow> string + nat"
  le_balance :: "int \<Rightarrow> string + int"
  le_memo :: "u8 list \<Rightarrow> string + Memo"
  le_corrupted :: "string \<Rightarrow> string"
  le_hex :: "u8 list \<Rightarrow> string"
  le_datetime :: "int \<Rightarrow> string + string"
  le_transactions :: "tx_row list"
  le_outputs :: "u8 list \<Rightarrow> output_row list"

definition parse_pool_code :: "int \<Rightarrow> PoolType option" where
  "parse_pool_code pool_code =
     (if pool_code = 0 then Some Transparent
      else if pool_code = 2 then Some (Shielded Sapling)
      else if pool_code = 3 then Some (Shielded Orchard)
      else if pool_code = 4 then Some (Shielded Ironwood)
      else None)"

definition render_memo :: "listing_env \<Rightarrow> u8 list option \<Rightarrow> string + string option" where
  "render_memo L memo =
     (case memo of
        None \<Rightarrow> Inr None
      | Some b \<Rightarrow>
          rbind (map_err (\<lambda>e. ''Invalid memo data: '' @ e) (le_memo L b)) (\<lambda>m.
            Inr (case m of
                   MemoEmpty \<Rightarrow> None
                 | MemoText t \<Rightarrow> Some t
                 | MemoFuture bs \<Rightarrow> Some (le_hex L bs)
                 | MemoArbitrary bs \<Rightarrow> Some (le_hex L bs))))"

definition wallet_tx_output :: "listing_env \<Rightarrow> output_row \<Rightarrow> string + WalletTxOutput" where
  "wallet_tx_output L r =
     rbind (ok_or (''Invalid pool code: '' @ le_debug_int L (or_pool r)) (parse_pool_code (or_pool r))) (\<lambda>pool.
     rbind (map_err (\<lambda>e. ''Invalid output value '' @ le_debug_int L (or_value r) @ '': '' @ e)
       (le_zatoshis L (or_value r))) (\<lambda>v.
     rbind (render_memo L (or_memo r)) (\<lambda>memo.
       Inr \<lparr>wo_pool = (case pool of Transparent \<Rightarrow> ''transparent'' | Shielded p \<Rightarrow> pool_name p),
            wo_index = or_index r, wo_from_account = or_from_account r, wo_to_account = or_to_account r,
            wo_to_address = or_to_address r, wo_value = v, wo_is_change = or_is_change r, wo_memo = memo\<rparr>)))"

definition wallet_tx_from_parts :: "listing_env \<Rightarrow> tx_row \<Rightarrow> WalletTxOutput list \<Rightarrow> string + WalletTx" where
  "wallet_tx_from_parts L r outputs =
     rbind (if length (tr_account_uuid r) = 16 then Inr ()
            else Inl (''Invalid account uuid: '' @ show_nat (length (tr_account_uuid r)))) (\<lambda>_.
     rbind (if length (tr_txid r) = 32 then Inr ()
            else Inl (''Invalid txid: '' @ show_nat (length (tr_txid r)))) (\<lambda>_.
     rbind (map_err (\<lambda>e. ''Invalid balance delta '' @ le_debug_int L (tr_balance_delta r) @ '': '' @ e)
       (le_balance L (tr_balance_delta r))) (\<lambda>delta.
     rbind (case tr_fee_paid r of
              None \<Rightarrow> Inr None
            | Some v \<Rightarrow> rbind (map_err (\<lambda>e. ''Invalid fee value '' @ show_nat v @ '': '' @ e) (le_zatoshis L (int v)))
                (\<lambda>v. Inr (Some v))) (\<lambda>fee.
     rbind (case tr_block_time r of
              None \<Rightarrow> Inr None
            | Some t \<Rightarrow> rbind (map_err (\<lambda>e. ''Invalid unix timestamp '' @ le_debug_int L t @ '': '' @ e) (le_datetime L t))
                (\<lambda>d. Inr (Some d))) (\<lambda>datetime.
       Inr \<lparr>wt_account_uuid = le_uuid_str L (tr_account_uuid r), wt_mined_height = tr_mined_height r,
            wt_txid = le_txid_str L (tr_txid r), wt_expiry_height = tr_expiry_height r, wt_balance_delta = delta,
            wt_fee_paid = fee, wt_sent_note_count = tr_sent_note_count r,
            wt_received_note_count = tr_received_note_count r, wt_block_time = tr_block_time r,
            wt_block_datetime = datetime, wt_expired_unmined = tr_expired_unmined r, wt_outputs = outputs\<rparr>)))))"

text \<open>The query. A comparison with a missing height is not true.\<close>

definition row_selected :: "(u8 list) option \<Rightarrow> u32 option \<Rightarrow> u32 option \<Rightarrow> tx_row \<Rightarrow> bool" where
  "row_selected account_uuid start_height end_height r \<longleftrightarrow>
     (account_uuid = None \<or> account_uuid = Some (tr_account_uuid r)) \<and>
     (case start_height of
        None \<Rightarrow> True
      | Some s \<Rightarrow> (case tr_mined_height r of Some h \<Rightarrow> h \<ge> s | None \<Rightarrow> end_height = None)) \<and>
     (case end_height of
        None \<Rightarrow> True
      | Some e \<Rightarrow> (case tr_mined_height r of Some h \<Rightarrow> h < e | None \<Rightarrow> False))"

definition sort_height :: "tx_row \<Rightarrow> u32 option" where
  "sort_height r =
     (case tr_mined_height r of
        Some h \<Rightarrow> Some h
      | None \<Rightarrow> (case tr_expiry_height r of Some e \<Rightarrow> if e = 0 then None else Some e | None \<Rightarrow> None))"

text \<open>Ascending with missing heights last.\<close>

definition sort_position :: "tx_row \<Rightarrow> nat" where
  "sort_position r = (case sort_height r of Some h \<Rightarrow> unat h | None \<Rightarrow> 2 ^ 32)"

definition page :: "u32 option \<Rightarrow> u32 option \<Rightarrow> 'a list \<Rightarrow> 'a list" where
  "page offset lim xs =
     (let rest = drop (unat (case offset of Some n \<Rightarrow> n | None \<Rightarrow> 0)) xs in
      case lim of Some n \<Rightarrow> take (unat n) rest | None \<Rightarrow> rest)"

definition query_transactions ::
    "listing_env \<Rightarrow> (u8 list) option \<Rightarrow> u32 option \<Rightarrow> u32 option \<Rightarrow> u32 option \<Rightarrow> u32 option \<Rightarrow> string + WalletTx list" where
  "query_transactions L account_uuid start_height end_height offset lim =
     try_map (\<lambda>r. rbind (try_map (wallet_tx_output L) (le_outputs L (tr_txid r))) (wallet_tx_from_parts L r))
       (page offset lim
         (sort_key sort_position (filter (row_selected account_uuid start_height end_height) (le_transactions L))))"

definition list_transactions ::
    "listing_env \<Rightarrow> string option \<Rightarrow> string option \<Rightarrow> u32 option \<Rightarrow> u32 option \<Rightarrow> u32 option \<Rightarrow> u32 option \<Rightarrow>
     rpc_error + WalletTx list" where
  "list_transactions L transaction_failure account_uuid start_height end_height offset lim =
     rbind (case account_uuid of
              None \<Rightarrow> Inr None
            | Some s \<Rightarrow> rbind (ok_or (with_message InvalidParameter (Text (''not a valid UUID: '' @ s))) (le_parse_uuid L s))
                (\<lambda>u. Inr (Some u))) (\<lambda>account_uuid.
     rbind (case transaction_failure of Some e \<Rightarrow> Inl (with_message Database (Text e)) | None \<Rightarrow> Inr ()) (\<lambda>_.
       map_err (\<lambda>e. with_message Database (Text (le_corrupted L e)))
         (query_transactions L account_uuid start_height end_height offset lim)))"

section \<open>What is listed\<close>

text \<open>An entry is told apart by its transaction, pool and index; with it goes its number of
  confirmations. The holdings of an account are what the database has of it, notes restricted to
  those that pass the filter by addresses.\<close>

definition entry_of :: "'z UnspentOutput \<Rightarrow> (string \<times> string \<times> u32) \<times> u32" where
  "entry_of out = ((uo_txid out, uo_pool out, uo_outindex out), uo_confirmations out)"

definition utxo_entry :: "('cp, 'scope, 'z) unspent_env \<Rightarrow> 'cp unspent_query \<Rightarrow> utxo \<Rightarrow> (string \<times> string \<times> u32) \<times> u32" where
  "utxo_entry U q u = ((un_txid_str U (ux_txid u), ''transparent'', ux_n u), confirmation_count U (uq_target q) (ux_mined u))"

definition note_entry ::
    "('cp, 'scope, 'z) unspent_env \<Rightarrow> 'cp unspent_query \<Rightarrow> ShieldedPool \<Rightarrow> wallet_note \<Rightarrow> (string \<times> string \<times> u32) \<times> u32" where
  "note_entry U q pool n =
     ((un_txid_str U (nt_txid n), pool_name pool, nt_index n),
      (case un_tx_height U (nt_txid n) of Inr m \<Rightarrow> confirmation_count U (uq_target q) m | Inl _ \<Rightarrow> 0))"

definition in_range :: "'cp unspent_query \<Rightarrow> 'k \<times> u32 \<Rightarrow> bool" where
  "in_range q e \<longleftrightarrow> confirmations_in_range (snd e) (uq_minconf q) (uq_maxconf q)"

inductive holding ::
    "('cp, 'scope, 'z) unspent_env \<Rightarrow> 'cp unspent_query \<Rightarrow> AccountUuid \<Rightarrow> (string \<times> string \<times> u32) \<times> u32 \<Rightarrow> bool"
  for U q i where
  holding_utxo: "un_receivers U i = Inr addrs \<Longrightarrow> addr \<in> set addrs \<Longrightarrow>
    un_spendable U addr (uq_target q) (uq_policy q) generated = Inr us \<Longrightarrow> u \<in> set us \<Longrightarrow>
    holding U q i (utxo_entry U q u)"
| holding_note: "un_notes U i (uq_target q) = Inr nts \<Longrightarrow> n \<in> set (nts pool) \<Longrightarrow>
    note_matches U (uq_addresses q) pool n \<Longrightarrow> holding U q i (note_entry U q pool n)"

lemma transparent_outputs_Inr:
  "transparent_outputs U q i w us = Inr outs \<Longrightarrow>
     map entry_of outs = filter (in_range q) (map (utxo_entry U q) (map fst us)) \<and>
     list_all (\<lambda>out. uo_pool out = ''transparent'') outs"
proof (induction us arbitrary: outs)
  case (Cons u us)
  obtain x g where "u = (x, g)" by (cases u)
  with Cons show ?case
    by (auto simp: Let_def result_simps in_range_def utxo_entry_def entry_of_def transparent_unspent_output_def
        split: if_splits)
qed simp

lemma note_outputs_Inr:
  "note_outputs U q i w pool ns = Inr outs \<Longrightarrow>
     map entry_of outs = filter (in_range q) (map (note_entry U q pool) ns) \<and>
     list_all (\<lambda>out. uo_pool out = pool_name pool) outs"
proof (induction ns arbitrary: outs)
  case (Cons n ns)
  then show ?case
    by (auto simp: Let_def result_simps in_range_def note_entry_def entry_of_def split: if_splits)
qed simp

lemma account_utxos_Inr:
  assumes "account_utxos U q i = Inr us" "un_receivers U i = Inr addrs"
  shows "fst ` set us = {u. \<exists>addr \<in> set addrs. \<exists>g us. un_spendable U addr (uq_target q) (uq_policy q) g = Inr us \<and> u \<in> set us}"
proof -
  let ?f = "\<lambda>(addr, g). rbind (map_err (db_failure ''get_spendable_transparent_outputs'')
           (un_spendable U addr (uq_target q) (uq_policy q) g)) (\<lambda>outputs. Inr (map (\<lambda>utxo. (utxo, g)) outputs))"
  let ?xs = "concat (map (\<lambda>addr. [(addr, False), (addr, True)]) addrs)"
  obtain parts where parts: "try_map ?f ?xs = Inr parts" "us = concat parts"
    using assms unfolding account_utxos_def by (simp only: map_err_simps rbind_simps rbind_Inr_iff sum.inject) blast
  have xs: "(addr, g) \<in> set ?xs \<longleftrightarrow> addr \<in> set addrs" for addr g by (cases g) auto
  have mem: "x \<in> set us \<longleftrightarrow> (\<exists>a \<in> set ?xs. \<exists>y. ?f a = Inr y \<and> x \<in> set y)" for x
    unfolding parts(2) set_concat try_map_Inr_set [OF parts(1)] by blast
  have "(u, g') \<in> set us \<longleftrightarrow>
      (\<exists>addr \<in> set addrs. \<exists>ys. un_spendable U addr (uq_target q) (uq_policy q) g' = Inr ys \<and> u \<in> set ys)" for u g'
  proof
    assume "(u, g') \<in> set us"
    then obtain a y where a: "a \<in> set ?xs" "?f a = Inr y" "(u, g') \<in> set y" unfolding mem by blast
    obtain addr g where "a = (addr, g)" by (cases a)
    with a show "\<exists>addr \<in> set addrs. \<exists>ys. un_spendable U addr (uq_target q) (uq_policy q) g' = Inr ys \<and> u \<in> set ys"
      by (auto simp: result_simps; blast)
  next
    assume "\<exists>addr \<in> set addrs. \<exists>ys. un_spendable U addr (uq_target q) (uq_policy q) g' = Inr ys \<and> u \<in> set ys"
    then obtain addr ys where "addr \<in> set addrs" "un_spendable U addr (uq_target q) (uq_policy q) g' = Inr ys" "u \<in> set ys"
      by blast
    then have "(addr, g') \<in> set ?xs" "?f (addr, g') = Inr (map (\<lambda>u. (u, g')) ys)" "(u, g') \<in> set (map (\<lambda>u. (u, g')) ys)"
      using xs by (simp_all add: image_iff)
    then show "(u, g') \<in> set us" unfolding mem by blast
  qed
  moreover have "u \<in> fst ` set us \<longleftrightarrow> (\<exists>g. (u, g) \<in> set us)" for u by force
  ultimately show ?thesis by blast
qed

lemma ex_pool: "(\<exists>pool. P pool) \<longleftrightarrow> P Sapling \<or> P Orchard \<or> P Ironwood"
  by (metis ShieldedPool.exhaust)

lemma account_unspent_Inr:
  assumes "account_unspent U q i = Inr outs"
  shows "e \<in> entry_of ` set outs \<longleftrightarrow> holding U q i e \<and> in_range q e"
proof -
  obtain w us t nts ss where us: "account_utxos U q i = Inr us" and t: "transparent_outputs U q i w us = Inr t"
    and nts: "un_notes U i (uq_target q) = Inr nts"
    and ss: "try_map (\<lambda>pool. note_outputs U q i w pool (filter (note_matches U (uq_addresses q) pool) (nts pool)))
        [Sapling, Orchard, Ironwood] = Inr ss" and outs: "outs = t @ concat ss"
    using assms unfolding account_unspent_def Let_def
    by (simp only: rbind_Inr_iff map_err_Inr_iff ok_or_Inr_iff sum.inject) blast
  obtain addrs where addrs: "un_receivers U i = Inr addrs"
    using us unfolding account_utxos_def by (simp only: rbind_Inr_iff map_err_Inr_iff) blast
  have "e \<in> entry_of ` set t \<longleftrightarrow> e \<in> utxo_entry U q ` (fst ` set us) \<and> in_range q e"
    using transparent_outputs_Inr [OF t, THEN conjunct1, THEN arg_cong, of set] by (force simp: image_iff)
  also have "\<dots> \<longleftrightarrow> (\<exists>addr \<in> set addrs. \<exists>g us u. un_spendable U addr (uq_target q) (uq_policy q) g = Inr us \<and>
      u \<in> set us \<and> e = utxo_entry U q u) \<and> in_range q e"
    unfolding account_utxos_Inr [OF us addrs] by blast
  finally have left: "e \<in> entry_of ` set t \<longleftrightarrow> \<dots>" .
  have part: "e \<in> entry_of ` set s \<longleftrightarrow>
      (\<exists>n \<in> set (nts pool). note_matches U (uq_addresses q) pool n \<and> e = note_entry U q pool n) \<and> in_range q e"
    if "note_outputs U q i w pool (filter (note_matches U (uq_addresses q) pool) (nts pool)) = Inr s" for pool s
    using note_outputs_Inr [OF that, THEN conjunct1, THEN arg_cong, of set] by (force simp: image_iff)
  obtain s1 s2 s3 where "ss = [s1, s2, s3]"
    and s: "note_outputs U q i w Sapling (filter (note_matches U (uq_addresses q) Sapling) (nts Sapling)) = Inr s1"
      "note_outputs U q i w Orchard (filter (note_matches U (uq_addresses q) Orchard) (nts Orchard)) = Inr s2"
      "note_outputs U q i w Ironwood (filter (note_matches U (uq_addresses q) Ironwood) (nts Ironwood)) = Inr s3"
    using ss by (auto simp: result_simps)
  then have "e \<in> entry_of ` set (concat ss) \<longleftrightarrow>
      (\<exists>pool. \<exists>n \<in> set (nts pool). note_matches U (uq_addresses q) pool n \<and> e = note_entry U q pool n) \<and> in_range q e"
    using part [OF s(1)] part [OF s(2)] part [OF s(3)] by (simp add: image_Un ex_pool) blast
  with left show ?thesis
    unfolding outs set_append image_Un Un_iff holding.simps using addrs nts by auto
qed

lemma list_unspent_Inr:
  assumes "list_unspent U minconf maxconf w addrs as_of = Inr outs"
    and "un_chain_height U = Inr (Some tip)" and "un_account_ids U = Inr ids"
  obtains addresses parts where "map (un_decode U) (case addrs of None \<Rightarrow> [] | Some as \<Rightarrow> as) = map Some addresses"
    and "try_map (account_unspent U (query_for U (case minconf of None \<Rightarrow> 1 | Some c \<Rightarrow> c) maxconf addresses
           (if as_of = None \<or> as_of = Some (- 1) then tip else word_of_int (the as_of)))) ids = Inr parts"
    and "outs = concat parts"
proof -
  obtain height m addresses where h: "parse_as_of_height as_of = Inr height" and m: "parse_minconf minconf 1 height = Inr m"
    and a: "try_map (\<lambda>addr. ok_or \<lparr>err_code = Legacy InvalidParameter, err_message = Text ''Not a valid Zcash address'',
                                  err_data = Some addr\<rparr> (un_decode U addr)) (case addrs of None \<Rightarrow> [] | Some as \<Rightarrow> as) = Inr addresses"
    and rest: "rbind (case height of Some h \<Rightarrow> Inr (Some h) | None \<Rightarrow> map_err (db_failure ''chain_height'') (un_chain_height U)) (\<lambda>height.
       case height of None \<Rightarrow> Inr [] | Some h \<Rightarrow>
         let q = query_for U m maxconf addresses h in
         rbind (map_err (db_failure ''get_account_ids'') (un_account_ids U)) (\<lambda>ids.
         rbind (try_map (account_unspent U q) ids) (\<lambda>parts. Inr (concat parts)))) = Inr outs"
    using assms(1) unfolding list_unspent_def by (simp only: rbind_Inr_iff map_err_Inr_iff) blast
  have dec: "map (un_decode U) (case addrs of None \<Rightarrow> [] | Some as \<Rightarrow> as) = map Some addresses"
    using a unfolding try_map_Inr_iff ok_or_Inr_iff list_all2_conv_all_nth by (auto intro!: nth_equalityI)
  have m': "m = (case minconf of None \<Rightarrow> 1 | Some c \<Rightarrow> c)"
    using m by (auto simp: parse_minconf_def split: option.splits if_splits)
  have h': "(case height of Some h \<Rightarrow> h | None \<Rightarrow> tip) = (if as_of = None \<or> as_of = Some (- 1) then tip else word_of_int (the as_of))"
    using h by (auto simp: parse_as_of_height_def split: option.splits if_splits)
  have "\<exists>parts. try_map (account_unspent U (query_for U m maxconf addresses
      (case height of Some h \<Rightarrow> h | None \<Rightarrow> tip))) ids = Inr parts \<and> outs = concat parts"
    using rest assms(2,3) by (cases height) (auto simp: Let_def rbind_Inr_iff)
  then show thesis using that dec unfolding m' h' by blast
qed


lemma transparent_outputs_addresses:
  "transparent_outputs U (q\<lparr>uq_addresses := as\<rparr>) i w us = transparent_outputs U q i w us"
  by (induction us) (auto simp: Let_def)

lemma account_utxos_addresses: "account_utxos U (q\<lparr>uq_addresses := as\<rparr>) i = account_utxos U q i"
  by (simp add: account_utxos_def)

definition no_common_receiver :: "('cp, 'scope, 'z) unspent_env \<Rightarrow> Address \<Rightarrow> Address \<Rightarrow> bool" where
  "no_common_receiver U a b \<longleftrightarrow>
     (un_to_sapling U a = None \<or> un_to_sapling U a \<noteq> un_to_sapling U b) \<and>
     set (un_orchard_receivers U a) \<inter> set (un_orchard_receivers U b) = {}"

lemma no_note_matches:
  "no_common_receiver U a b \<Longrightarrow> a \<in> set as \<Longrightarrow> b \<in> set as \<Longrightarrow> \<not> note_matches U as pool n"
  by (cases pool) (auto simp: no_common_receiver_def note_matches_def list_all_iff list_ex_iff)

lemma account_unspent_misfiltered:
  assumes "account_unspent U (q\<lparr>uq_addresses := as\<rparr>) i = Inr p" "account_unspent U (q\<lparr>uq_addresses := []\<rparr>) i = Inr p'"
    and "no_common_receiver U a b" "a \<in> set as" "b \<in> set as"
  shows "p = filter (\<lambda>out. uo_pool out = ''transparent'') p'"
proof -
  have none: "filter (note_matches U as pool) ns = []" for pool ns
    using no_note_matches [OF assms(3-5)] by simp
  obtain sp us t nts ss where t: "transparent_outputs U q i (\<not> sp) us = Inr t"
    and us: "account_utxos U q i = Inr us" and acc: "un_spending_account U i = Inr (Some sp)"
    and ss: "try_map (\<lambda>pool. note_outputs U (q\<lparr>uq_addresses := []\<rparr>) i (\<not> sp) pool
          (filter (note_matches U (uq_addresses (q\<lparr>uq_addresses := []\<rparr>)) pool) (nts pool)))
        [Sapling, Orchard, Ironwood] = Inr ss" and p': "t @ concat ss = p'"
    using assms(2) unfolding account_unspent_def Let_def transparent_outputs_addresses account_utxos_addresses
    by (simp only: rbind_Inr_iff map_err_Inr_iff ok_or_Inr_iff sum.inject unspent_query.simps) blast
  have "p = t"
    using assms(1) us t acc unfolding account_unspent_def Let_def transparent_outputs_addresses account_utxos_addresses
    by (auto simp: result_simps none)
  moreover have "list_all (\<lambda>out. uo_pool out = ''transparent'') t"
    using transparent_outputs_Inr [OF t] ..
  moreover have "list_all (\<lambda>out. uo_pool out \<noteq> ''transparent'') (concat ss)"
    using ss by (auto simp: result_simps pool_name_def list_all_iff dest!: note_outputs_Inr)
  ultimately show ?thesis unfolding p' [symmetric] by (simp add: list_all_iff filter_id_conv filter_empty_conv)
qed

text \<open>C31: The filter by addresses. Given two addresses that share no receiver, the listing is that of a
  call without the filter, less all of its shielded outputs: also those the two addresses received
  are missing, and the transparent outputs are there whoever received them. The documentation of
  the parameter promises only the outputs the addresses received.\<close>

theorem unspent_addresses_misfiltered:
  assumes "list_unspent U minconf maxconf w (Some addrs) as_of = Inr outs"
    and "list_unspent U minconf maxconf w None as_of = Inr everything"
    and "un_chain_height U = Inr (Some tip)" and "un_account_ids U = Inr ids"
    and "a \<in> set addrs" "un_decode U a = Some A" "b \<in> set addrs" "un_decode U b = Some B" "no_common_receiver U A B"
  shows "outs = filter (\<lambda>out. uo_pool out = ''transparent'') everything"
proof -
  let ?h = "if as_of = None \<or> as_of = Some (- 1) then tip else word_of_int (the as_of)"
  let ?m = "case minconf of None \<Rightarrow> 1 | Some c \<Rightarrow> c"
  obtain addresses parts where dec: "map (un_decode U) addrs = map Some addresses"
    and parts: "try_map (account_unspent U (query_for U ?m maxconf addresses ?h)) ids = Inr parts" "outs = concat parts"
    using list_unspent_Inr [OF assms(1,3,4)] by auto
  obtain parts' where parts': "try_map (account_unspent U (query_for U ?m maxconf [] ?h)) ids = Inr parts'"
      "everything = concat parts'"
    using list_unspent_Inr [OF assms(2-4)] by auto
  have "Some ` set addresses = un_decode U ` set addrs"
    using dec by (metis image_set)
  then have AB: "A \<in> set addresses" "B \<in> set addresses"
    using assms(5-8) by (metis (no_types, lifting) image_iff option.inject)+
  have q: "query_for U ?m maxconf as ?h = (query_for U ?m maxconf [] ?h)\<lparr>uq_addresses := as\<rparr>" for as
    by (simp add: query_for_def Let_def)
  have "concat parts = filter (\<lambda>out. uo_pool out = ''transparent'') (concat parts')"
    using parts(1) parts'(1)
  proof (induction ids arbitrary: parts parts')
    case (Cons i ids)
    then obtain p ps p' ps' where "account_unspent U (query_for U ?m maxconf addresses ?h) i = Inr p"
        "account_unspent U (query_for U ?m maxconf [] ?h) i = Inr p'" "parts = p # ps" "parts' = p' # ps'"
        "try_map (account_unspent U (query_for U ?m maxconf addresses ?h)) ids = Inr ps"
        "try_map (account_unspent U (query_for U ?m maxconf [] ?h)) ids = Inr ps'"
      by (auto simp: result_simps)
    with Cons.IH account_unspent_misfiltered [of U addresses "query_for U ?m maxconf [] ?h" i p p' A B] assms(9) AB
    show ?case using q [of "[]"] q [of addresses] by simp
  qed simp
  then show ?thesis using parts(2) parts'(2) by simp
qed

section \<open>Pages of transactions\<close>

text \<open>A row and the transaction it is listed as.\<close>

definition listed_as :: "listing_env \<Rightarrow> tx_row \<Rightarrow> WalletTx \<Rightarrow> bool" where
  "listed_as L r t \<longleftrightarrow>
     wt_txid t = le_txid_str L (tr_txid r) \<and> wt_account_uuid t = le_uuid_str L (tr_account_uuid r) \<and>
     wt_mined_height t = tr_mined_height r \<and> wt_expiry_height t = tr_expiry_height r \<and>
     map wo_index (wt_outputs t) = map or_index (le_outputs L (tr_txid r)) \<and>
     length (tr_txid r) = 32 \<and> length (tr_account_uuid r) = 16"

abbreviation list_row :: "listing_env \<Rightarrow> tx_row \<Rightarrow> string + WalletTx" where
  "list_row L r \<equiv> rbind (try_map (wallet_tx_output L) (le_outputs L (tr_txid r))) (wallet_tx_from_parts L r)"

lemma list_row_Inr: "list_row L r = Inr t \<Longrightarrow> listed_as L r t"
proof -
  assume "list_row L r = Inr t"
  then obtain os where os: "try_map (wallet_tx_output L) (le_outputs L (tr_txid r)) = Inr os"
      and t: "wallet_tx_from_parts L r os = Inr t" by (auto simp: rbind_Inr_iff)
  have "map wo_index os = map or_index rows" if "try_map (wallet_tx_output L) rows = Inr os" for rows
    using that by (induction rows arbitrary: os) (auto simp: result_simps wallet_tx_output_def)
  with os t show ?thesis
    by (auto simp: wallet_tx_from_parts_def listed_as_def result_simps split: if_splits)
qed

lemma try_map_page:
  "try_map f xs = Inr ys \<Longrightarrow> try_map f (page offset lim xs) = Inr (page offset lim ys)"
  unfolding try_map_Inr_iff page_def by (auto simp: Let_def split: option.splits)

definition wanted_row :: "(u8 list) option \<Rightarrow> u32 option \<Rightarrow> u32 option \<Rightarrow> tx_row \<Rightarrow> bool" where
  "wanted_row u start_height end_height r \<longleftrightarrow>
     (\<forall>i. u = Some i \<longrightarrow> tr_account_uuid r = i) \<and>
     (case tr_mined_height r of
        Some h \<Rightarrow> (\<forall>s. start_height = Some s \<longrightarrow> s \<le> h) \<and> (\<forall>e. end_height = Some e \<longrightarrow> h < e)
      | None \<Rightarrow> end_height = None)"

lemma row_selected_wanted: "row_selected u s e r = wanted_row u s e r"
  by (cases u) (auto simp: row_selected_def wanted_row_def split: option.splits)


section \<open>Examples\<close>

definition example_unspent :: "(u32 \<times> bool, nat, Zatoshis) unspent_env" where
  "example_unspent =
     \<lparr>un_decode = (\<lambda>s. if s = ''a'' then Some (AddrSapling [1]) else if s = ''b'' then Some (AddrSapling [2]) else None),
      un_to_sapling = (\<lambda>a. case a of AddrSapling r \<Rightarrow> Some r | _ \<Rightarrow> None), un_orchard_receivers = (\<lambda>_. []),
      un_new_symmetrical = Pair, un_chain_height = Inr (Some 10), un_add_one = (\<lambda>h. saturating_add h 1),
      un_diff = saturating_sub, un_account_ids = Inr [''i''], un_spending_account = (\<lambda>_. Inr (Some True)),
      un_receivers = (\<lambda>_. Inr [PublicKeyHash [3]]),
      un_spendable = (\<lambda>addr target policy coinbase. Inr (if coinbase then []
        else [\<lparr>ux_txid = [7], ux_n = 0, ux_recipient = PublicKeyHash [3], ux_txout_recipient = None, ux_value = 5,
               ux_mined = Some 9\<rparr>])),
      un_scope = (\<lambda>_ _. Inr None), un_internal_scope = 1,
      un_notes = (\<lambda>_ _. Inr (\<lambda>pool. if pool = Sapling
        then [\<lparr>nt_txid = [8], nt_index = 1, nt_recipient = [1], nt_value = 6, nt_internal = False\<rparr>] else [])),
      un_memo = (\<lambda>_ _ _. Inr None), un_tx_height = (\<lambda>_. Inr (Some 10)), un_txid_str = (\<lambda>t. map (\<lambda>b. char_of (unat b)) t),
      un_encode_transparent = (\<lambda>_. ''t''), un_encode_shielded = (\<lambda>_ _. ''a''), un_value = (\<lambda>v. v)\<rparr>"

lemma example_unspent_calls:
  "\<exists>outs. list_unspent example_unspent None None None (Some [''a'', ''b'']) None = Inr outs \<and> length outs = 1"
  "\<exists>outs. list_unspent example_unspent None None None None None = Inr outs \<and> length outs = 2"
  by (simp_all add: list_unspent_def example_unspent_def parse_as_of_height_def parse_minconf_def query_for_def
      account_unspent_def account_utxos_def confirmation_count_def confirmations_in_range_def saturating_add_def
      saturating_sub_def note_matches_def get_memo_def)

theorem unspent_addresses_misfiltered_witness:
  "\<exists>outs everything. list_unspent example_unspent None None None (Some [''a'', ''b'']) None = Inr outs \<and>
     list_unspent example_unspent None None None None None = Inr everything \<and> length everything = 2 \<and>
     outs = filter (\<lambda>out. uo_pool out = ''transparent'') everything"
proof -
  obtain outs everything where calls: "list_unspent example_unspent None None None (Some [''a'', ''b'']) None = Inr outs"
      "list_unspent example_unspent None None None None None = Inr everything" "length everything = 2"
    using example_unspent_calls by blast
  have env: "un_chain_height example_unspent = Inr (Some 10)" "un_account_ids example_unspent = Inr [''i'']"
    "un_decode example_unspent ''a'' = Some (AddrSapling [1])" "un_decode example_unspent ''b'' = Some (AddrSapling [2])"
    "no_common_receiver example_unspent (AddrSapling [1]) (AddrSapling [2])"
    by (simp_all add: example_unspent_def no_common_receiver_def)
  have "outs = filter (\<lambda>out. uo_pool out = ''transparent'') everything"
    by (rule unspent_addresses_misfiltered [OF calls(1,2) env(1,2) _ env(3) _ env(4,5)]) simp_all
  with calls show ?thesis by blast
qed


definition example_row :: "u32 option \<Rightarrow> tx_row" where
  "example_row h =
     \<lparr>tr_account_uuid = replicate 16 0, tr_mined_height = h, tr_txid = replicate 32 0, tr_expiry_height = None,
      tr_balance_delta = 0, tr_fee_paid = None, tr_sent_note_count = 0, tr_received_note_count = 0,
      tr_block_time = None, tr_expired_unmined = False\<rparr>"

definition example_listing :: listing_env where
  "example_listing =
     \<lparr>le_parse_uuid = (\<lambda>_. Some []), le_uuid_str = (\<lambda>_. ''u''), le_txid_str = (\<lambda>_. ''t''),
      le_debug_int = (\<lambda>_. []), le_zatoshis = (\<lambda>v. Inr (nat v)), le_balance = Inr, le_memo = (\<lambda>_. Inr MemoEmpty),
      le_corrupted = (\<lambda>e. e), le_hex = (\<lambda>_. []), le_datetime = (\<lambda>_. Inr ''d''),
      le_transactions = [example_row None, example_row (Some 5), example_row (Some 3)], le_outputs = (\<lambda>_. [])\<rparr>"

lemma example_row_listed:
  "\<exists>t. list_row example_listing (example_row h) = Inr t \<and> wt_mined_height t = h"
  by (simp add: example_listing_def example_row_def wallet_tx_from_parts_def)

lemma example_rows:
  "sort_key sort_position (filter (row_selected None (Some 4) None) (le_transactions example_listing)) =
     [example_row (Some 5), example_row None]"
proof -
  have "filter (row_selected None (Some 4) None) (le_transactions example_listing) = [example_row None, example_row (Some 5)]"
    by (simp add: example_listing_def example_row_def row_selected_def)
  moreover have "sort_position (example_row h) = (case h of Some n \<Rightarrow> unat n | None \<Rightarrow> 2 ^ 32)" for h
    by (simp add: sort_position_def sort_height_def example_row_def split: option.splits)
  ultimately show ?thesis by simp
qed

lemma example_listing_all:
  "\<exists>ts. list_transactions example_listing None None (Some 4) None None None = Inr ts \<and> map wt_mined_height ts = [Some 5, None]"
proof -
  obtain t t' where "list_row example_listing (example_row (Some 5)) = Inr t" "wt_mined_height t = Some 5"
      "list_row example_listing (example_row None) = Inr t'" "wt_mined_height t' = None"
    using example_row_listed [of "Some 5"] example_row_listed [of None] by (elim exE conjE) (rule that)
  then show ?thesis by (simp add: list_transactions_def query_transactions_def page_def example_rows)
qed

end
