(* ===== verification/Messages.thy ===== *)
theory Messages
  imports Send_Many
begin

text \<open>
  Signed messages: \<open>signmessage\<close> (\<open>methods/sign_message.rs\<close>) and \<open>verifymessage\<close>
  (\<open>methods/verify_message.rs\<close>). The curve, the hash, base64, the compact length encoding and the
  address codec are those of other crates; the keys come out of the keystore. A secret key is its
  bytes.
\<close>

unbundle bit_operations_syntax

section \<open>Verification\<close>

record ('usk, 'pk, 'sig, 'scope) message_crates =
  mc_decode :: "string \<Rightarrow> TransparentAddress option"
  mc_from_pubkey :: "'pk \<Rightarrow> TransparentAddress"
  mc_public_key :: "u8 list \<Rightarrow> 'pk"
  mc_sign_recoverable :: "u8 list \<Rightarrow> u8 list \<Rightarrow> int \<times> u8 list"
  mc_recovery_id :: "int \<Rightarrow> bool"
  mc_from_compact :: "u8 list \<Rightarrow> int \<Rightarrow> 'sig option"
  mc_digest :: "u8 list \<Rightarrow> bool"
  mc_recover :: "u8 list \<Rightarrow> 'sig \<Rightarrow> 'pk option"
  mc_base64_encode :: "u8 list \<Rightarrow> string"
  mc_base64_decode :: "string \<Rightarrow> (u8 list) option"
  mc_compact_size :: "nat \<Rightarrow> u8 list"
  mc_hash :: "u8 list \<Rightarrow> u8 list"
  mc_metadata :: "AccountUuid \<Rightarrow> TransparentAddress \<Rightarrow> string + ('scope option \<times> u32 option) option"
  mc_ephemeral :: 'scope
  mc_derive :: "'usk \<Rightarrow> 'scope \<Rightarrow> u32 \<Rightarrow> string + u8 list"

definition MESSAGE_MAGIC :: string where
  "MESSAGE_MAGIC = ''Zcash Signed Message:'' @ [CHR 0x0A]"

definition message_hash :: "('usk, 'pk, 'sig, 'scope) message_crates \<Rightarrow> string \<Rightarrow> u8 list" where
  "message_hash M message =
     mc_hash M (mc_compact_size M (length MESSAGE_MAGIC) @ as_bytes MESSAGE_MAGIC @
       mc_compact_size M (length message) @ as_bytes message)"

definition verify_message ::
    "('usk, 'pk, 'sig, 'scope) message_crates \<Rightarrow> string \<Rightarrow> string \<Rightarrow> string \<Rightarrow> rpc_error + bool" where
  "verify_message M zcashaddress signature message =
     rbind (ok_or (with_static Type ''Invalid address'') (mc_decode M zcashaddress)) (\<lambda>transparent_addr.
     if (case transparent_addr of ScriptHash _ \<Rightarrow> True | _ \<Rightarrow> False)
     then Inl (with_static Type ''Address does not refer to key'')
     else rbind (ok_or (with_static InvalidAddressOrKey ''Malformed base64 encoding'') (mc_base64_decode M signature)) (\<lambda>sig_bytes.
     if length sig_bytes \<noteq> 65 then Inr False
     else
     let header = sig_bytes ! 0 in
     if 27 \<le> header \<and> header \<le> 30
     then Inl (with_static Type ''Uncompressed key signatures are not supported.'')
     else if \<not> (31 \<le> header \<and> header \<le> 34) then Inr False
     else
     let recovery_id = uint ((header - 27) AND 3); hash = message_hash M message in
     if \<not> mc_recovery_id M recovery_id then Inr False
     else case mc_from_compact M (tl sig_bytes) recovery_id of
       None \<Rightarrow> Inr False
     | Some recoverable_sig \<Rightarrow>
         if \<not> mc_digest M hash then Inr False
         else case mc_recover M hash recoverable_sig of
           None \<Rightarrow> Inr False
         | Some recovered_pubkey \<Rightarrow> Inr (mc_from_pubkey M recovered_pubkey = transparent_addr)))"

section \<open>Signing\<close>

definition sign_message_with_key :: "('usk, 'pk, 'sig, 'scope) message_crates \<Rightarrow> u8 list \<Rightarrow> string \<Rightarrow> rpc_error fault + string" where
  "sign_message_with_key M secret_key message =
     (let hash = message_hash M message in
      if \<not> mc_digest M hash then Inl (Panic ''message_hash always returns 32 bytes'')
      else
      let (recovery_id, sig_bytes) = mc_sign_recoverable M hash secret_key;
          header = 31 + (word_of_int recovery_id :: u8) in
      if length sig_bytes \<noteq> 64 then Inl (Panic ''copy_from_slice: source slice length does not match destination slice length'')
      else Inr (mc_base64_encode M (header # sig_bytes)))"

definition map_wallet_locked_error :: "err_texts \<Rightarrow> ks_error fault \<Rightarrow> rpc_error fault" where
  "map_wallet_locked_error T e =
     (case e of
        Panic m \<Rightarrow> Panic m
      | Raise e \<Rightarrow>
          let k = keystore_failure T e in
          Raise (if ke_generic k \<and> ke_text k = ''Wallet is locked''
                 then with_static WalletUnlockNeeded
                   ''Error: Please enter the wallet passphrase with walletpassphrase first.''
                 else with_message Database (Text (ke_text k))))"

text \<open>The first account that knows the address.\<close>

fun find_address ::
    "('zaddr, 'req, 'cp, 'acct, 'i, 'rcpt, 'usk, 'script) sender \<Rightarrow> ('usk, 'pk, 'sig, 'scope) message_crates \<Rightarrow>
     TransparentAddress \<Rightarrow> AccountUuid list \<Rightarrow> rpc_error + ('acct \<times> 'scope option \<times> u32 option) option" where
  "find_address E M address [] = Inr None"
| "find_address E M address (account_id # ids) =
     rbind (map_err database_error (mc_metadata M account_id address)) (\<lambda>found.
     case found of
       None \<Rightarrow> find_address E M address ids
     | Some meta \<Rightarrow>
         rbind (map_err database_error (adb_account (sd_accounts E) account_id)) (\<lambda>account.
         rbind (ok_or (with_static Database ''Account not found'') account) (\<lambda>account.
           Inr (Some (account, meta)))))"

definition get_transparent_secret_key ::
    "('zaddr, 'req, 'cp, 'acct, 'i, 'rcpt, 'usk, 'script) sender \<Rightarrow> ('usk, 'pk, 'sig, 'scope) message_crates \<Rightarrow>
     'i KeyStore \<Rightarrow> TransparentAddress \<Rightarrow> rpc_error fault + u8 list" where
  "get_transparent_secret_key E M ks address =
     rbind (raising (map_err database_error (adb_account_ids (sd_accounts E)))) (\<lambda>ids.
     rbind (raising (find_address E M address ids)) (\<lambda>found.
     rbind (raising (ok_or (with_static Wallet ''Unknown address'') found)) (\<lambda>(account, scope, address_index).
     case (scope, address_index) of
       (Some scope, Some address_index) \<Rightarrow>
         if scope = mc_ephemeral M then Inl (Raise (with_static Wallet ''Private key not available''))
         else
         rbind (raising (ok_or (with_static Wallet ''Private key not available'') (key_derivation (sd_accounts E) account))) (\<lambda>derivation.
         rbind (map_err (map_wallet_locked_error (sd_texts E))
           (fst (decrypt_seed (sd_crypto E) (sd_conn E) (fst derivation) ks))) (\<lambda>seed.
         rbind (raising (map_err (\<lambda>e. with_message Wallet (Text e)) (sd_usk_from_seed E seed (snd derivation)))) (\<lambda>usk.
           raising (map_err (\<lambda>e. with_message Wallet (Text e)) (mc_derive M usk scope address_index)))))
     | (None, None) \<Rightarrow>
         map_err (map_wallet_locked_error (sd_texts E))
           (fst (decrypt_standalone_transparent_key (sd_crypto E) (sd_public_key E) (sd_imported_pubkey E)
              (sd_conn E) address ks))
     | _ \<Rightarrow> Inl (Raise (with_static Wallet ''Private key not available'')))))"

definition sign_message ::
    "('zaddr, 'req, 'cp, 'acct, 'i, 'rcpt, 'usk, 'script) sender \<Rightarrow> ('usk, 'pk, 'sig, 'scope) message_crates \<Rightarrow>
     'i KeyStore \<Rightarrow> string \<Rightarrow> string \<Rightarrow> rpc_error fault + string" where
  "sign_message E M ks t_addr message =
     rbind (raising (ok_or (with_static InvalidAddressOrKey ''Invalid Zcash address'') (mc_decode M t_addr))) (\<lambda>transparent_addr.
     if (case transparent_addr of ScriptHash _ \<Rightarrow> True | _ \<Rightarrow> False)
     then Inl (Raise (with_static Type ''Address does not refer to key''))
     else rbind (get_transparent_secret_key E M ks transparent_addr) (\<lambda>secret_key.
     if mc_from_pubkey M (mc_public_key M secret_key) \<noteq> transparent_addr
     then Inl (Raise (with_static InvalidAddressOrKey ''Sign failed''))
     else sign_message_with_key M secret_key message))"

section \<open>Signatures verify\<close>

text \<open>What the crates promise: base64 is undone by its decoder, a hash is a digest, a recoverable
  signature is 64 bytes with one of four recovery ids, and the key recovered from it is the key
  that made it.\<close>

definition message_crates_documented :: "('usk, 'pk, 'sig, 'scope) message_crates \<Rightarrow> bool" where
  "message_crates_documented M \<longleftrightarrow>
     (\<forall>bs. mc_base64_decode M (mc_base64_encode M bs) = Some bs) \<and>
     (\<forall>bs. mc_digest M (mc_hash M bs)) \<and>
     (\<forall>r. 0 \<le> r \<and> r < 4 \<longrightarrow> mc_recovery_id M r) \<and>
     (\<forall>bs sk r s. mc_sign_recoverable M (mc_hash M bs) sk = (r, s) \<longrightarrow>
        0 \<le> r \<and> r < 4 \<and> length s = 64 \<and>
        (\<exists>sg. mc_from_compact M s r = Some sg \<and> mc_recover M (mc_hash M bs) sg = Some (mc_public_key M sk)))"

text \<open>The header byte of a signature: 31 plus the recovery id, and the id read back from it.\<close>

lemma header_recovery_id:
  assumes "0 \<le> r" "r < 4"
  defines "h \<equiv> 31 + (word_of_int r :: u8)"
  shows "31 \<le> h" "h \<le> 34" "\<not> h \<le> 30" "uint ((h - 27) AND 3) = r"
proof -
  from assms(1,2) have "r = 0 \<or> r = 1 \<or> r = 2 \<or> r = 3" by auto
  then show "31 \<le> h" "h \<le> 34" "\<not> h \<le> 30" "uint ((h - 27) AND 3) = r"
    unfolding h_def by (elim disjE; simp)+
qed

text \<open>C28: A signature \<open>signmessage\<close> returns is accepted by \<open>verifymessage\<close> for the same address and message;
  it was made by a key the keystore released while unlocked.\<close>

theorem signed_message_verifies:
  assumes "message_crates_documented M"
    and "sign_message E M ks t_addr message = Inr signature"
  shows "verify_message M t_addr signature message = Inr True \<and> \<not> is_locked ks"
proof -
  obtain addr sk where addr: "mc_decode M t_addr = Some addr" "(case addr of ScriptHash _ \<Rightarrow> True | _ \<Rightarrow> False) = False"
    and key: "get_transparent_secret_key E M ks addr = Inr sk"
    and own: "mc_from_pubkey M (mc_public_key M sk) = addr"
    and signed: "sign_message_with_key M sk message = Inr signature"
    using assms(2) unfolding sign_message_def
    by (auto simp: result_simps split: if_splits)
  let ?h = "message_hash M message"
  obtain r s where rs: "mc_sign_recoverable M ?h sk = (r, s)" by (cases "mc_sign_recoverable M ?h sk")
  have doc: "0 \<le> r" "r < 4" "length s = 64" "mc_recovery_id M r" "mc_digest M ?h"
    "\<exists>sg. mc_from_compact M s r = Some sg \<and> mc_recover M ?h sg = Some (mc_public_key M sk)"
    using assms(1) rs unfolding message_crates_documented_def message_hash_def by blast+
  have "signature = mc_base64_encode M ((31 + word_of_int r) # s)"
    using signed rs doc(3,5) by (simp add: sign_message_with_key_def Let_def)
  then have dec: "mc_base64_decode M signature = Some ((31 + word_of_int r) # s)"
    using assms(1) by (simp add: message_crates_documented_def)
  have "verify_message M t_addr signature message = Inr True"
    using addr dec doc own header_recovery_id [OF doc(1,2)]
    by (auto simp: verify_message_def Let_def)
  moreover have "\<not> is_locked ks"
  proof
    assume "is_locked ks"
    note locked = decrypt_seed_locked [OF this] decrypt_standalone_transparent_key_locked [OF this]
    from key show False
      unfolding get_transparent_secret_key_def locked
      by (auto simp: result_simps split: option.splits if_splits)
  qed
  ultimately show ?thesis ..
qed

section \<open>An example\<close>

definition example_messages :: "(nat, u8 list, u8 list, nat) message_crates" where
  "example_messages =
     \<lparr>mc_decode = (\<lambda>s. Some (PublicKeyHash [9])), mc_from_pubkey = PublicKeyHash, mc_public_key = take 1 \<circ> (\<lambda>sk. sk @ [0]),
      mc_sign_recoverable = (\<lambda>h sk. (1, replicate 63 0 @ take 1 (sk @ [0]))), mc_recovery_id = (\<lambda>r. 0 \<le> r \<and> r < 4),
      mc_from_compact = (\<lambda>bs r. Some bs), mc_digest = (\<lambda>_. True), mc_recover = (\<lambda>h sg. Some (drop 63 sg)),
      mc_base64_encode = map (\<lambda>b. char_of (unat b)), mc_base64_decode = (\<lambda>s. Some (as_bytes s)),
      mc_compact_size = (\<lambda>n. [of_nat n]), mc_hash = (\<lambda>bs. bs),
      mc_metadata = (\<lambda>_ _. Inr (Some (Some 0, Some 0))), mc_ephemeral = 2, mc_derive = (\<lambda>_ _ _. Inr [9])\<rparr>"

lemma unat_mod_256: "unat (b :: u8) mod 256 = unat b"
  using unsigned_less [of b, where 'a = nat] by simp

lemma as_bytes_of_chars: "as_bytes (map (\<lambda>b. char_of (unat b)) bs) = bs"
  by (induction bs) (simp_all add: as_bytes_def, simp add: unat_mod_256)

definition example_signed :: string where
  "example_signed = map (\<lambda>b. char_of (unat b)) (32 # replicate 63 0 @ [9 :: u8])"

lemma example_sign: "sign_message example_sender example_messages example_unlocked ''t1'' ''m'' = Inr example_signed"
proof -
  have "get_transparent_secret_key example_sender example_messages example_unlocked (PublicKeyHash [9]) = Inr [9]"
    using example_seed by (simp add: get_transparent_secret_key_def example_sender_def example_messages_def)
  then show ?thesis
    by (simp add: sign_message_def sign_message_with_key_def Let_def example_messages_def example_signed_def)
qed

lemma example_messages_documented: "message_crates_documented example_messages"
proof -
  have "length (take 1 (sk @ [0 :: u8])) = 1" for sk :: "u8 list" by (cases sk) auto
  then show ?thesis
    by (simp add: message_crates_documented_def example_messages_def as_bytes_of_chars)
qed

theorem signed_message_verifies_witness:
  "verify_message example_messages ''t1'' example_signed ''m'' = Inr True \<and> \<not> is_locked example_unlocked"
  by (rule signed_message_verifies [OF example_messages_documented example_sign])
end
