(* ===== verification/Account_Import.thy ===== *)
theory Account_Import
  imports Send_Many
begin

text \<open>
  The methods that bring accounts and keys into the wallet or take keys out: \<open>z_getnewaccount\<close>
  (\<open>methods/get_new_account.rs\<close>), \<open>z_recoveraccounts\<close> (\<open>recover_accounts.rs\<close>), \<open>z_importkey\<close>
  (\<open>import_key.rs\<close>), \<open>z_importviewingkey\<close> (\<open>import_viewing_key.rs\<close>), \<open>z_importaddress\<close>
  (\<open>z_import_address.rs\<close>), \<open>z_exportkey\<close> (\<open>export_key.rs\<close>) and \<open>z_exportviewingkey\<close>
  (\<open>z_export_viewing_key.rs\<close>). The wallet database with its transactions and the key codecs are
  arguments; the keystore is that of theory \<open>Keystore\<close>.
\<close>

section \<open>State\<close>

text \<open>The database, the keystore tables beside it, and the handle of the decryption engine of sync,
  to which a request to reload the viewing keys is sent while it runs.\<close>

record ('db, 'i) wallet_state =
  w_db :: 'db
  w_keystore :: "'i KeyStore"
  w_engine_running :: bool
  w_reloads :: nat

definition reload_keys :: "(('db, 'i) wallet_state, 'e, unit) sr" where
  "reload_keys = smodify (\<lambda>s. if w_engine_running s then s\<lparr>w_reloads := w_reloads s + 1\<rparr> else s)"

definition on_wallet_db :: "('e \<Rightarrow> rpc_error) \<Rightarrow> ('db, 'e, 'a) sr \<Rightarrow> (('db, 'i) wallet_state, rpc_error fault, 'a) sr" where
  "on_wallet_db f m = (\<lambda>s. case m (w_db s) of
      (Inl e, db) \<Rightarrow> (Inl (Raise (f e)), s\<lparr>w_db := db\<rparr>)
    | (Inr x, db) \<Rightarrow> (Inr x, s\<lparr>w_db := db\<rparr>))"

definition try_state :: "('s \<Rightarrow> rpc_error + 'a) \<Rightarrow> ('s, rpc_error fault, 'a) sr" where
  "try_state f = (\<lambda>s. (raising (f s), s))"

text \<open>An error of the keystore, with a code for it.\<close>

definition keystore_raise :: "err_texts \<Rightarrow> LegacyCode \<Rightarrow> ks_error fault \<Rightarrow> rpc_error fault" where
  "keystore_raise T code e =
     (case e of Panic m \<Rightarrow> Panic m | Raise e \<Rightarrow> Raise (with_message code (Text (ke_text (keystore_failure T e)))))"

definition ks_read ::
    "err_texts \<Rightarrow> LegacyCode \<Rightarrow> ('i, 'a) ks_op \<Rightarrow> (('db, 'i) wallet_state, rpc_error fault, 'a) sr" where
  "ks_read T code m = (\<lambda>s. (map_err (keystore_raise T code) (fst (m (w_keystore s))), s))"

section \<open>Importing a spending key\<close>

datatype ImportError = ImportDatabase string | ImportKeystore string

text \<open>\<open>im_transaction\<close> is the transaction of the wallet database that covers the keystore tables too.\<close>

record ('db, 'i, 'ufvk, 'fvk, 'blk, 'ts, 'tx) import_env =
  im_height :: "'db \<Rightarrow> string + BlockHeight option"
  im_account_for_ufvk :: "'db \<Rightarrow> 'ufvk \<Rightarrow> string + bool option"
  im_import_ufvk :: "string \<Rightarrow> 'ufvk \<Rightarrow> 'ts \<Rightarrow> bool \<Rightarrow> ('db, string, unit) sr"
  im_transaction :: "('db \<times> 'i KeyStore, ImportError fault, unit) sr \<Rightarrow> ('db \<times> 'i KeyStore, ImportError fault, unit) sr"
  im_insert_failure :: "string option"
  im_decode_extsk :: "string \<Rightarrow> string + u8 list"
  im_encode_extsk :: "u8 list \<Rightarrow> string"
  im_address :: "u8 list \<Rightarrow> string"
  im_to_dfvk :: "u8 list \<Rightarrow> u8 list"
  im_parse_extsk :: "u8 list \<Rightarrow> string + u8 list"
  im_owns :: "string \<Rightarrow> string + (u8 list \<Rightarrow> bool)"
  im_extsk_ufvk :: "u8 list \<Rightarrow> string + 'ufvk"
  im_decode_fvk :: "string \<Rightarrow> string + 'fvk"
  im_fvk_address :: "'fvk \<Rightarrow> string"
  im_fvk_ufvk :: "'fvk \<Rightarrow> string + 'ufvk"
  im_empty_state :: 'ts
  im_snapshot :: "ChainError + ('blk, 'ts, 'tx) ChainView"


text \<open>A spending key is its bytes; \<open>im_owns\<close> decodes a payment address and tells whether a viewing key
  has it.\<close>

definition validate_rescan :: "string option \<Rightarrow> rpc_error + string" where
  "validate_rescan rescan =
     (case rescan of
        None \<Rightarrow> Inr ''whenkeyisnew''
      | Some r \<Rightarrow>
          if r \<in> {''whenkeyisnew'', ''yes'', ''no''} then Inr r
          else Inl (with_static InvalidParameter
            (''Invalid rescan value. Must be '' @ [CHR 0x22] @ ''yes'' @ [CHR 0x22] @ '', '' @ [CHR 0x22] @ ''no'' @ [CHR 0x22] @
             '', or '' @ [CHR 0x22] @ ''whenkeyisnew'' @ [CHR 0x22] @ ''.'')))"

definition out_of_range :: rpc_error where
  "out_of_range = with_static InvalidParameter ''Block height out of range.''"

definition height_from_u64 :: "64 word \<Rightarrow> rpc_error + BlockHeight" where
  "height_from_u64 h = (if unat h < 2 ^ 32 then Inr (ucast h) else Inl out_of_range)"

definition decode_key_and_address ::
    "('db, 'i, 'ufvk, 'fvk, 'blk, 'ts, 'tx) import_env \<Rightarrow> string \<Rightarrow> rpc_error + u8 list \<times> string" where
  "decode_key_and_address I key =
     rbind (map_err (\<lambda>e. with_message InvalidAddressOrKey (Text (''Invalid spending key: '' @ e))) (im_decode_extsk I key)) (\<lambda>extsk.
       Inr (extsk, im_address I extsk))"

definition effective_birthday ::
    "('db, 'i, 'ufvk, 'fvk, 'blk, 'ts, 'tx) import_env \<Rightarrow> string \<Rightarrow> BlockHeight \<Rightarrow> BlockHeight option \<Rightarrow> rpc_error fault + 'ts" where
  "effective_birthday I rescan start_height chain_tip =
     rbind (if rescan = ''yes'' \<or> rescan = ''whenkeyisnew'' then Inr start_height
            else if rescan = ''no'' then Inr (case chain_tip of Some tip \<Rightarrow> tip | None \<Rightarrow> 0)
            else Inl (Panic ''unreachable'')) (\<lambda>height.
       raising (fetch_account_birthday (im_empty_state I) (im_snapshot I) height))"

definition store_import ::
    "('db, 'i, 'ufvk, 'fvk, 'blk, 'ts, 'tx) import_env \<Rightarrow> 'ufvk \<Rightarrow> string \<Rightarrow> 'ts option \<Rightarrow> u8 list \<times> u8 list \<Rightarrow>
     ('db \<times> 'i KeyStore, ImportError fault, unit) sr" where
  "store_import I ufvk address birthday encrypted_key =
     sbind (case birthday of
              None \<Rightarrow> sret ()
            | Some birthday \<Rightarrow>
                sbind (\<lambda>s. (map_err (\<lambda>e. Raise (ImportDatabase e)) (im_account_for_ufvk I (fst s) ufvk), s)) (\<lambda>existing.
                if existing \<noteq> None then sret ()
                else if length address < 16 then sfail (Panic ''byte index 16 is out of bounds'')
                else (\<lambda>s. case im_import_ufvk I (''Imported Sapling key '' @ take 16 address) ufvk birthday True (fst s) of
                        (Inl e, db) \<Rightarrow> (Inl (Raise (ImportDatabase e)), (db, snd s))
                      | (Inr _, db) \<Rightarrow> (Inr (), (db, snd s))))) (\<lambda>_.
     case im_insert_failure I of
       Some e \<Rightarrow> sfail (Raise (ImportKeystore e))
     | None \<Rightarrow> smodify (\<lambda>s. (fst s, (snd s)\<lparr>standalone_sapling_keys :=
         upsert_row (fst encrypted_key) (snd encrypted_key) (standalone_sapling_keys (snd s))\<rparr>)))"

definition import_error :: "ImportError fault \<Rightarrow> rpc_error fault" where
  "import_error e =
     (case e of
        Panic m \<Rightarrow> Panic m
      | Raise (ImportDatabase e) \<Rightarrow> Raise (with_message Database (Text e))
      | Raise (ImportKeystore e) \<Rightarrow> Raise (with_message Wallet (Text e)))"

definition run_import ::
    "('db, 'i, 'ufvk, 'fvk, 'blk, 'ts, 'tx) import_env \<Rightarrow> ('db \<times> 'i KeyStore, ImportError fault, unit) sr \<Rightarrow>
     (('db, 'i) wallet_state, rpc_error fault, unit) sr" where
  "run_import I m = (\<lambda>s.
     let (r, t) = im_transaction I m (w_db s, w_keystore s) in
     (map_err import_error r, s\<lparr>w_db := fst t, w_keystore := snd t\<rparr>))"

definition import_key ::
    "('db, 'i, 'ufvk, 'fvk, 'blk, 'ts, 'tx) import_env \<Rightarrow> ('i, 'rcpt) crypto \<Rightarrow> err_texts \<Rightarrow> string option \<Rightarrow>
     string \<Rightarrow> string option \<Rightarrow> 64 word option \<Rightarrow> (('db, 'i) wallet_state, rpc_error fault, string \<times> string) sr" where
  "import_key I A T conn key rescan start_height =
     sbind (slift (raising (validate_rescan rescan))) (\<lambda>rescan.
     sbind (slift (raising (height_from_u64 (case start_height of Some h \<Rightarrow> h | None \<Rightarrow> 0)))) (\<lambda>start_height.
     sbind (try_state (\<lambda>s. map_err database_error (im_height I (w_db s)))) (\<lambda>chain_tip.
     if rescan \<noteq> ''no'' \<and> (case chain_tip of Some tip \<Rightarrow> start_height > tip | None \<Rightarrow> False)
     then sfail (Raise out_of_range)
     else
     sbind (slift (raising (decode_key_and_address I key))) (\<lambda>(extsk, address).
     sbind (ks_read T Wallet (encrypt_standalone_sapling_key A (im_to_dfvk I) conn extsk)) (\<lambda>encrypted_key.
     sbind (slift (raising (map_err (\<lambda>e. with_message Wallet (Text e)) (im_extsk_ufvk I extsk)))) (\<lambda>ufvk.
     sbind (try_state (\<lambda>s. map_err database_error (im_account_for_ufvk I (w_db s) ufvk))) (\<lambda>existing.
     sbind (if existing = None
            then sbind (slift (effective_birthday I rescan start_height chain_tip)) (\<lambda>b. sret (Some b))
            else sret None) (\<lambda>birthday.
     sbind (run_import I (store_import I ufvk address birthday encrypted_key)) (\<lambda>_.
     sbind reload_keys (\<lambda>_.
       sret (''sapling'', address)))))))))))"

section \<open>Importing a viewing key\<close>

datatype RescanPolicy = RescanYes | RescanNo | WhenKeyIsNew

definition rescan_policy_parse :: "string option \<Rightarrow> rpc_error + RescanPolicy" where
  "rescan_policy_parse rescan =
     rbind (validate_rescan rescan) (\<lambda>r.
       Inr (if r = ''yes'' then RescanYes else if r = ''no'' then RescanNo else WhenKeyIsNew))"

definition decode_vkey_and_address ::
    "('db, 'i, 'ufvk, 'fvk, 'blk, 'ts, 'tx) import_env \<Rightarrow> string \<Rightarrow> rpc_error + 'fvk \<times> string" where
  "decode_vkey_and_address I vkey =
     rbind (map_err (\<lambda>e. with_message InvalidAddressOrKey (Text (''Invalid viewing key: '' @ e))) (im_decode_fvk I vkey)) (\<lambda>fvk.
       Inr (fvk, im_fvk_address I fvk))"

definition viewing_birthday_height :: "RescanPolicy \<Rightarrow> BlockHeight option \<Rightarrow> BlockHeight option \<Rightarrow> BlockHeight" where
  "viewing_birthday_height rescan start_height chain_tip =
     (case rescan of
        RescanNo \<Rightarrow> (case start_height of Some h \<Rightarrow> h | None \<Rightarrow> (case chain_tip of Some tip \<Rightarrow> tip | None \<Rightarrow> 0))
      | _ \<Rightarrow> (case start_height of Some h \<Rightarrow> h | None \<Rightarrow> 0))"

definition import_viewing_key ::
    "('db, 'i, 'ufvk, 'fvk, 'blk, 'ts, 'tx) import_env \<Rightarrow> string \<Rightarrow> string option \<Rightarrow> 64 word option \<Rightarrow>
     (('db, 'i) wallet_state, rpc_error fault, string \<times> string) sr" where
  "import_viewing_key I vkey rescan start_height =
     sbind (slift (raising (rescan_policy_parse rescan))) (\<lambda>rescan.
     sbind (slift (case start_height of
              None \<Rightarrow> Inr None
            | Some h \<Rightarrow> rbind (raising (height_from_u64 h)) (\<lambda>h. Inr (Some h)))) (\<lambda>start_height.
     sbind (try_state (\<lambda>s. map_err database_error (im_height I (w_db s)))) (\<lambda>chain_tip.
     if (case (start_height, chain_tip) of (Some h, Some tip) \<Rightarrow> h > tip | _ \<Rightarrow> False)
     then sfail (Raise out_of_range)
     else
     sbind (slift (raising (decode_vkey_and_address I vkey))) (\<lambda>(fvk, address).
     sbind (slift (raising (map_err (\<lambda>e. with_message Wallet (Text e)) (im_fvk_ufvk I fvk)))) (\<lambda>ufvk.
     sbind (try_state (\<lambda>s. map_err database_error (im_account_for_ufvk I (w_db s) ufvk))) (\<lambda>existing.
     sbind (case existing of
              Some spending \<Rightarrow>
                if spending
                then sfail (Raise (with_message Wallet (Text
                  (''The wallet already contains the private key for this viewing key (address: '' @ address @ '')''))))
                else sret ()
            | None \<Rightarrow>
                sbind (slift (raising (fetch_account_birthday (im_empty_state I) (im_snapshot I)
                  (viewing_birthday_height rescan start_height chain_tip)))) (\<lambda>birthday.
                on_wallet_db database_error (im_import_ufvk I (''Imported Sapling viewing key '' @ address) ufvk birthday False))) (\<lambda>_.
       sret (''sapling'', address))))))))"

section \<open>Exporting keys\<close>

definition export_key ::
    "('db, 'i, 'ufvk, 'fvk, 'blk, 'ts, 'tx) import_env \<Rightarrow> ('i, 'rcpt) crypto \<Rightarrow> err_texts \<Rightarrow> string option \<Rightarrow>
     string \<Rightarrow> (('db, 'i) wallet_state, rpc_error fault, string) sr" where
  "export_key I A T conn address =
     sbind (try_state (\<lambda>s. ensure_wallet_is_unlocked (is_locked (w_keystore s)))) (\<lambda>_.
     sbind (slift (raising (map_err (\<lambda>e. with_message InvalidAddressOrKey (Text (''Invalid Sapling address: '' @ e)))
       (im_owns I address)))) (\<lambda>owns.
     sbind (ks_read T Wallet (decrypt_standalone_sapling_key A (im_parse_extsk I) owns conn)) (\<lambda>found.
     sbind (slift (raising (ok_or (with_static InvalidAddressOrKey
       ''Wallet does not hold the spending key for this Sapling address'') found))) (\<lambda>extsk.
       sret (im_encode_extsk I extsk)))))"

section \<open>New and recovered accounts\<close>

text \<open>\<open>ae_seedfp\<close> and \<open>ae_hex32\<close> parse a seed fingerprint in its two forms, \<open>ae_index\<close> is
  \<open>zip32::AccountId::try_from\<close>. An account birthday is the tree state before it and the height up to
  which the account is being recovered.\<close>

record ('db, 'blk, 'ts, 'tx) account_env =
  ae_seedfp :: "string \<Rightarrow> string + SeedFingerprint"
  ae_hex32 :: "string \<Rightarrow> u8 list option"
  ae_fp_str :: "SeedFingerprint \<Rightarrow> string"
  ae_index :: "u32 \<Rightarrow> string + u32"
  ae_chain_height :: "'db \<Rightarrow> string + BlockHeight option"
  ae_chain :: "ChainError + ('blk, 'ts, 'tx) ChainView"
  ae_create_account :: "string \<Rightarrow> u8 list \<Rightarrow> 'ts \<times> BlockHeight option \<Rightarrow> ('db, string, AccountUuid) sr"
  ae_import_account_hd :: "string \<Rightarrow> u8 list \<Rightarrow> u32 \<Rightarrow> 'ts \<times> BlockHeight option \<Rightarrow> ('db, string, AccountUuid) sr"

definition seedfp_parameter :: "('db, 'blk, 'ts, 'tx) account_env \<Rightarrow> string \<Rightarrow> rpc_error + SeedFingerprint" where
  "seedfp_parameter E s = parse_seedfp_parameter (\<lambda>e. e) (ae_seedfp E) (ae_hex32 E) s"

definition seed_selection_error :: "err_texts \<Rightarrow> SeedSelectionError \<Rightarrow> rpc_error fault" where
  "seed_selection_error T e =
     (case e of
        SelDatabase e \<Rightarrow> keystore_raise T Database e
      | NoSeeds \<Rightarrow> Raise (with_static Wallet ''Wallet does not contain any seeds to generate accounts with'')
      | Ambiguous \<Rightarrow> Raise (with_static InvalidParameter ''Wallet has more than one seed; seedfp argument must be provided'')
      | Unknown \<Rightarrow> Raise (with_static InvalidParameter ''seedfp does not match any seed in the wallet''))"

definition backed_up :: "err_texts \<Rightarrow> string option \<Rightarrow> SeedFingerprint \<Rightarrow> 'i KeyStore \<Rightarrow> rpc_error fault + unit" where
  "backed_up T conn seed_fp ks =
     (case fst (backup_required conn seed_fp ks) of
        Inl (Panic m) \<Rightarrow> Inl (Panic m)
      | Inl (Raise e) \<Rightarrow> raising (ensure_seed_is_backed_up (Inl (ke_text (keystore_failure T e))))
      | Inr required \<Rightarrow> raising (ensure_seed_is_backed_up (Inr required)))"

definition wallet_height :: "('db, 'blk, 'ts, 'tx) account_env \<Rightarrow> 'db \<Rightarrow> rpc_error + BlockHeight" where
  "wallet_height E db =
     rbind (map_err database_error (ae_chain_height E db)) (\<lambda>h.
       ok_or (with_static InWarmup ''Wallet sync required'') h)"

definition account_chain :: "('db, 'blk, 'ts, 'tx) account_env \<Rightarrow> rpc_error + ('blk, 'ts, 'tx) ChainView" where
  "account_chain E = map_err (\<lambda>e. database_error (show_chain_error e)) (ae_chain E)"

definition treestate_error :: "BlockHeight \<Rightarrow> ChainError \<Rightarrow> rpc_error" where
  "treestate_error h e = with_message InvalidParameter (Text
     (''Failed to get treestate at height '' @ show_nat (unat h) @ '': '' @ show_chain_error e))"

definition get_new_account ::
    "('db, 'blk, 'ts, 'tx) account_env \<Rightarrow> ('i, 'rcpt) crypto \<Rightarrow> err_texts \<Rightarrow> string option \<Rightarrow> string \<Rightarrow> string option \<Rightarrow>
     (('db, 'i) wallet_state, rpc_error fault, AccountUuid) sr" where
  "get_new_account E A T conn account_name seedfp =
     sbind (try_state (\<lambda>s. ensure_wallet_is_unlocked (is_locked (w_keystore s)))) (\<lambda>_.
     sbind (slift (case seedfp of None \<Rightarrow> Inr None | Some s \<Rightarrow> rbind (raising (seedfp_parameter E s)) (\<lambda>f. Inr (Some f)))) (\<lambda>seedfp.
     sbind (slift (raising (account_chain E))) (\<lambda>chain_view.
     sbind (try_state (\<lambda>s. wallet_height E (w_db s))) (\<lambda>height.
     sbind (slift (raising (map_err (\<lambda>e. database_error (show_chain_error e)) (view_tip chain_view)))) (\<lambda>tip.
     let treestate_height = saturating_sub (min height (cb_height tip)) 1 in
     sbind (slift (raising (map_err (treestate_error treestate_height) (tree_state_as_of chain_view treestate_height)))) (\<lambda>found.
     sbind (slift (ok_or (Panic ''always in range'') found)) (\<lambda>chain_state.
     sbind (\<lambda>s. (map_err (seed_selection_error T) (select_seed conn seedfp (w_keystore s)), s)) (\<lambda>seed_fp.
     sbind (\<lambda>s. (backed_up T conn seed_fp (w_keystore s), s)) (\<lambda>_.
     sbind (ks_read T Database (decrypt_seed A conn seed_fp)) (\<lambda>seed.
     sbind (on_wallet_db database_error (ae_create_account E account_name seed (chain_state, None))) (\<lambda>account_id.
     sbind reload_keys (\<lambda>_.
       sret account_id))))))))))))"

record AccountParameter =
  ap_name :: string
  ap_seedfp :: string
  ap_zip32_account_index :: u32
  ap_birthday_height :: u32

text \<open>The first loop: the arguments for the wallet.\<close>

definition account_arg ::
    "('db, 'blk, 'ts, 'tx) account_env \<Rightarrow> ('blk, 'ts, 'tx) ChainView \<Rightarrow> BlockHeight \<Rightarrow> AccountParameter \<Rightarrow>
     rpc_error + (string \<times> SeedFingerprint \<times> u32 \<times> 'ts \<times> BlockHeight option)" where
  "account_arg E chain_view recover_until account =
     rbind (seedfp_parameter E (ap_seedfp account)) (\<lambda>seed_fp.
     rbind (map_err (\<lambda>e. with_message InvalidParameter (Text (''Invalid ZIP 32 account index: '' @ e)))
       (ae_index E (ap_zip32_account_index account))) (\<lambda>account_index.
     let birthday_height = ap_birthday_height account;
         treestate_height = saturating_sub birthday_height 1 in
     rbind (map_err (treestate_error treestate_height) (tree_state_as_of chain_view treestate_height)) (\<lambda>found.
     rbind (ok_or (with_message InvalidParameter (Text (''Account birthday height '' @ show_nat (unat birthday_height) @
       '' does not exist in the chain''))) found) (\<lambda>chain_state.
       Inr (ap_name account, seed_fp, account_index, chain_state, Some recover_until)))))"

text \<open>The second loop: the seeds by their fingerprints, each of them looked up once.\<close>

fun fetch_seeds ::
    "('i, 'rcpt) crypto \<Rightarrow> err_texts \<Rightarrow> string option \<Rightarrow> 'i KeyStore \<Rightarrow> SeedFingerprint list \<Rightarrow>
     (SeedFingerprint \<rightharpoonup> u8 list) \<Rightarrow> rpc_error fault + (SeedFingerprint \<rightharpoonup> u8 list)" where
  "fetch_seeds A T conn ks [] seeds = Inr seeds"
| "fetch_seeds A T conn ks (seed_fp # fps) seeds =
     (if seeds seed_fp \<noteq> None then fetch_seeds A T conn ks fps seeds
      else rbind (backed_up T conn seed_fp ks) (\<lambda>_.
           rbind (map_err (keystore_raise T Database) (fst (decrypt_seed A conn seed_fp ks))) (\<lambda>seed.
             fetch_seeds A T conn ks fps (seeds(seed_fp \<mapsto> seed)))))"

text \<open>The third loop: the accounts are imported one after another, each in a transaction of its own.\<close>

fun import_accounts ::
    "('db, 'blk, 'ts, 'tx) account_env \<Rightarrow> (SeedFingerprint \<rightharpoonup> u8 list) \<Rightarrow>
     (string \<times> SeedFingerprint \<times> u32 \<times> 'ts \<times> BlockHeight option) list \<Rightarrow>
     (('db, 'i) wallet_state, rpc_error fault, (AccountUuid \<times> string \<times> u32) list) sr" where
  "import_accounts E seeds [] = sret []"
| "import_accounts E seeds ((account_name, seed_fp, account_index, birthday) # args) =
     sbind (slift (ok_or (Panic ''present'') (seeds seed_fp))) (\<lambda>seed.
     sbind (on_wallet_db database_error (ae_import_account_hd E account_name seed account_index birthday)) (\<lambda>uuid.
     sbind (import_accounts E seeds args) (\<lambda>accounts.
       sret ((uuid, ae_fp_str E seed_fp, account_index) # accounts))))"

definition recover_accounts ::
    "('db, 'blk, 'ts, 'tx) account_env \<Rightarrow> ('i, 'rcpt) crypto \<Rightarrow> err_texts \<Rightarrow> string option \<Rightarrow> AccountParameter list \<Rightarrow>
     (('db, 'i) wallet_state, rpc_error fault, (AccountUuid \<times> string \<times> u32) list) sr" where
  "recover_accounts E A T conn accounts =
     sbind (try_state (\<lambda>s. ensure_wallet_is_unlocked (is_locked (w_keystore s)))) (\<lambda>_.
     sbind (slift (raising (account_chain E))) (\<lambda>chain_view.
     sbind (try_state (\<lambda>s. wallet_height E (w_db s))) (\<lambda>recover_until.
     sbind (slift (raising (try_map (account_arg E chain_view recover_until) accounts))) (\<lambda>account_args.
     sbind (\<lambda>s. (fetch_seeds A T conn (w_keystore s) (map (\<lambda>(_, fp, _). fp) account_args) Map.empty, s)) (\<lambda>seeds.
     sbind (import_accounts E seeds account_args) (\<lambda>accounts.
     sbind reload_keys (\<lambda>_.
       sret accounts)))))))"

section \<open>Importing a transparent address\<close>

text \<open>\<open>ti_rewind\<close> is \<open>rewind_to_chain_state\<close> with no birthday reset.\<close>

record ('db, 'pk, 'script, 'blk, 'ts, 'tx) address_env =
  ti_parse_uuid :: "string \<Rightarrow> AccountUuid option"
  ti_hex_decode :: "string \<Rightarrow> u8 list option"
  ti_pubkey :: "u8 list \<Rightarrow> 'pk option"
  ti_pubkey_address :: "'pk \<Rightarrow> TransparentAddress"
  ti_hash160 :: "u8 list \<Rightarrow> u8 list"
  ti_redeem :: "u8 list \<Rightarrow> 'script option"
  ti_encode :: "TransparentAddress \<Rightarrow> string"
  ti_import_pubkey :: "AccountUuid \<Rightarrow> 'pk \<Rightarrow> ('db, string, unit) sr"
  ti_import_script :: "AccountUuid \<Rightarrow> 'script \<Rightarrow> ('db, string, unit) sr"
  ti_birthday :: "AccountUuid \<Rightarrow> 'db \<Rightarrow> string + BlockHeight"
  ti_chain :: "ChainError + ('blk, 'ts, 'tx) ChainView"
  ti_rewind :: "'ts \<Rightarrow> ('db, string, unit) sr"

datatype ('pk, 'script) ParsedImport = P2pkh 'pk "string \<times> string" | P2sh 'script "string \<times> string"

datatype ParseImportError = InvalidHex | NotKeyOrScript

definition parse_import_rpc_error :: "ParseImportError \<Rightarrow> string \<Rightarrow> rpc_error" where
  "parse_import_rpc_error err hex_data =
     (case err of
        InvalidHex \<Rightarrow> with_static InvalidParameter ''Invalid hex encoding''
      | NotKeyOrScript \<Rightarrow> with_message InvalidParameter
          (Text (''Unrecognized input (not a valid pubkey or redeem script): '' @ hex_data)))"

definition parse_import ::
    "('db, 'pk, 'script, 'blk, 'ts, 'tx) address_env \<Rightarrow> string \<Rightarrow> ParseImportError + ('pk, 'script) ParsedImport" where
  "parse_import I hex_data =
     rbind (ok_or InvalidHex (ti_hex_decode I hex_data)) (\<lambda>bytes.
       case ti_pubkey I bytes of
         Some pubkey \<Rightarrow> Inr (P2pkh pubkey (''p2pkh'', ti_encode I (ti_pubkey_address I pubkey)))
       | None \<Rightarrow>
           let address = ti_encode I (ScriptHash (ti_hash160 I bytes)) in
           rbind (ok_or NotKeyOrScript (ti_redeem I bytes)) (\<lambda>script.
             Inr (P2sh script (''p2sh'', address))))"

definition import_address ::
    "('db, 'pk, 'script, 'blk, 'ts, 'tx) address_env \<Rightarrow> string \<Rightarrow> string \<Rightarrow> bool option \<Rightarrow>
     (('db, 'i) wallet_state, rpc_error fault, string \<times> string) sr" where
  "import_address I account hex_data rescan =
     sbind (slift (raising (ok_or (rpc_error_of InvalidParams) (ti_parse_uuid I account)))) (\<lambda>account_id.
     sbind (slift (raising (map_err (\<lambda>e. parse_import_rpc_error e hex_data) (parse_import I hex_data)))) (\<lambda>parsed.
     sbind (case parsed of
              P2pkh pubkey result \<Rightarrow>
                sbind (on_wallet_db database_error (ti_import_pubkey I account_id pubkey)) (\<lambda>_. sret result)
            | P2sh script result \<Rightarrow>
                sbind (on_wallet_db database_error (ti_import_script I account_id script)) (\<lambda>_. sret result)) (\<lambda>result.
     sbind (if (case rescan of Some b \<Rightarrow> b | None \<Rightarrow> True)
            then
              sbind (try_state (\<lambda>s. map_err database_error (ti_birthday I account_id (w_db s)))) (\<lambda>birthday.
              sbind (slift (raising (map_err (\<lambda>e. database_error (show_chain_error e)) (ti_chain I)))) (\<lambda>chain_view.
              sbind (slift (raising (map_err (\<lambda>e. database_error (show_chain_error e))
                (tree_state_as_of chain_view (saturating_sub birthday 1))))) (\<lambda>found.
              sbind (slift (raising (ok_or (with_static Database ''chain state unavailable for rescan'') found))) (\<lambda>prior.
                on_wallet_db (\<lambda>e. with_message Misc (Text (''Rescan failed: '' @ e))) (ti_rewind I prior)))))
            else sret ()) (\<lambda>_.
       sret result))))"

section \<open>Imports are all or nothing\<close>

text \<open>The contract of a database transaction: what its body wrote is kept when the body succeeds and
  the commit does, and nothing of it otherwise.\<close>

definition transactional :: "(('s, 'e fault, 'a) sr \<Rightarrow> ('s, 'e fault, 'a) sr) \<Rightarrow> bool" where
  "transactional tr \<longleftrightarrow>
     (\<forall>m s. (\<forall>e t. m s = (Inl e, t) \<longrightarrow> tr m s = (Inl e, s)) \<and>
            (\<forall>x t. m s = (Inr x, t) \<longrightarrow> tr m s = (Inr x, t) \<or> (\<exists>e. tr m s = (Inl (Raise e), s))))"

lemma transactional_Inl: "transactional tr \<Longrightarrow> tr m s = (Inl e, t) \<Longrightarrow> t = s"
  unfolding transactional_def by (cases "m s"; cases "fst (m s)") force+

lemma transactional_Inr: "transactional tr \<Longrightarrow> tr m s = (Inr x, t) \<Longrightarrow> m s = (Inr x, t)"
  unfolding transactional_def by (cases "m s"; cases "fst (m s)") force+

lemma try_state_Inr [sr_simps]: "try_state f s = (Inr x, t) \<longleftrightarrow> f s = Inr x \<and> t = s"
  by (cases "f s") (auto simp: try_state_def result_simps)

lemma ks_read_Inr [sr_simps]:
  "ks_read T code m s = (Inr x, t) \<longleftrightarrow> fst (m (w_keystore s)) = Inr x \<and> t = s"
  by (auto simp: ks_read_def map_err_Inr_iff)

lemma run_import_Inr [sr_simps]:
  "run_import I m s = (Inr x, t) \<longleftrightarrow>
     (\<exists>db ks. im_transaction I m (w_db s, w_keystore s) = (Inr x, (db, ks)) \<and> t = s\<lparr>w_db := db, w_keystore := ks\<rparr>)"
  by (auto simp: run_import_def Let_def map_err_Inr_iff split: prod.splits)

lemma sr_reads:
  "sr_valid P (try_state f) (\<lambda>_. P) (\<lambda>_. P)" "sr_valid P (ks_read T code m) (\<lambda>_. P) (\<lambda>_. P)"
  by (auto simp: sr_valid_def try_state_def ks_read_def split: sum.splits)

lemma run_import_fails:
  assumes "transactional (im_transaction I)"
  shows "sr_valid (\<lambda>t. t = s) (run_import I m) (\<lambda>_ _. True) (\<lambda>_ t. t = s)"
proof (rule sr_validI; simp)
  fix u :: "('a, 'b) wallet_state" and e
  assume r: "run_import I m s = (Inl e, u)"
  obtain r' t' where tr: "im_transaction I m (w_db s, w_keystore s) = (r', t')" by (rule prod.exhaust)
  with r obtain e' where "r' = Inl e'" by (cases r') (auto simp: run_import_def)
  with tr transactional_Inl [OF assms] have "t' = (w_db s, w_keystore s)" by blast
  with r tr show "u = s" by (simp add: run_import_def)
qed

lemma reload_keys_succeeds: "sr_valid P reload_keys (\<lambda>_ _. True) E"
  by (simp add: sr_valid_def reload_keys_def smodify_def)

lemma import_key_fails_clean:
  assumes "transactional (im_transaction I)"
  shows "sr_valid (\<lambda>t. t = s) (import_key I A T conn key rescan start_height) (\<lambda>_ _. True) (\<lambda>_ t. t = s)"
  unfolding import_key_def case_prod_unfold
  by (intro sr_valid_sbind [where R = "\<lambda>_ t. t = s"] sr_valid_sbind [OF run_import_fails [OF assms]]
      sr_valid_sbind [OF reload_keys_succeeds] sr_valid_if sr_reads sr_valid_slift sr_valid_sret sr_valid_sfail) auto

lemma map_of_upsert_row [simp]: "map_of (upsert_row k v rows) = (map_of rows)(k \<mapsto> v)"
  by (induction k v rows rule: upsert_row.induct) auto

lemma store_import_Inr:
  "store_import I ufvk address birthday enc (db, ks) = (Inr (), (db', ks')) \<Longrightarrow>
   ks' = ks\<lparr>standalone_sapling_keys := upsert_row (fst enc) (snd enc) (standalone_sapling_keys ks)\<rparr> \<and>
   (db' = db \<and> (birthday \<noteq> None \<longrightarrow> im_account_for_ufvk I db ufvk \<noteq> Inr None) \<or>
    (\<exists>b. birthday = Some b \<and> im_account_for_ufvk I db ufvk = Inr None \<and>
      im_import_ufvk I (''Imported Sapling key '' @ take 16 address) ufvk b True db = (Inr (), db')))"
  unfolding store_import_def
  by (cases birthday)
    (auto simp: sr_simps map_err_Inr_iff split: option.splits if_splits prod.splits sum.splits)

lemma encrypt_standalone_sapling_key_Inr:
  "fst (encrypt_standalone_sapling_key A to_dfvk conn extsk ks) = Inr enc \<Longrightarrow>
   \<exists>recipients ct. enc = (to_dfvk extsk, ct) \<and> read_recipients A (age_recipients ks) = Inr recipients \<and>
     age_encrypt A recipients extsk = Inr ct"
  by (cases "encrypt_standalone_sapling_key A to_dfvk conn extsk ks")
    (auto simp: encrypt_standalone_sapling_key_def sr_simps result_simps)

lemma import_key_Inr:
  assumes tr: "transactional (im_transaction I)"
    and ok: "import_key I A T conn key rescan start_height s = (Inr (kind, address), t)"
  obtains extsk ufvk ct recipients where
    "im_decode_extsk I key = Inr extsk" "kind = ''sapling''" "address = im_address I extsk"
    "im_extsk_ufvk I extsk = Inr ufvk" "age_encrypt A recipients extsk = Inr ct"
    "read_recipients A (age_recipients (w_keystore s)) = Inr recipients"
    "w_keystore t = (w_keystore s)\<lparr>standalone_sapling_keys :=
       upsert_row (im_to_dfvk I extsk) ct (standalone_sapling_keys (w_keystore s))\<rparr>"
    "(\<exists>acct. im_account_for_ufvk I (w_db s) ufvk = Inr (Some acct)) \<and> w_db t = w_db s \<or>
     im_account_for_ufvk I (w_db s) ufvk = Inr None \<and>
     (\<exists>b. im_import_ufvk I (''Imported Sapling key '' @ take 16 address) ufvk b True (w_db s) = (Inr (), w_db t))"
    "w_engine_running t = w_engine_running s"
    "w_reloads t = w_reloads s + (if w_engine_running s then 1 else 0)"
proof -
  from ok obtain enc extsk ufvk existing birthday db ks where *:
      "im_decode_extsk I key = Inr extsk" "kind = ''sapling''" "address = im_address I extsk"
      "fst (encrypt_standalone_sapling_key A (im_to_dfvk I) conn extsk (w_keystore s)) = Inr enc"
      "im_extsk_ufvk I extsk = Inr ufvk" "im_account_for_ufvk I (w_db s) ufvk = Inr existing"
      "existing = None \<longleftrightarrow> birthday \<noteq> None"
      "im_transaction I (store_import I ufvk address birthday enc) (w_db s, w_keystore s) = (Inr (), (db, ks))"
      "reload_keys (s\<lparr>w_db := db, w_keystore := ks\<rparr>) = ((Inr () :: rpc_error fault + unit), t)"
    unfolding import_key_def
    by (fastforce simp: sr_simps result_simps decode_key_and_address_def split: if_splits)
  from *(4) obtain recipients ct where enc: "enc = (im_to_dfvk I extsk, ct)"
      "read_recipients A (age_recipients (w_keystore s)) = Inr recipients" "age_encrypt A recipients extsk = Inr ct"
    using encrypt_standalone_sapling_key_Inr by blast
  from transactional_Inr [OF tr *(8)] have st:
      "store_import I ufvk address birthday enc (w_db s, w_keystore s) = (Inr (), (db, ks))" .
  from *(9) have t: "w_db t = db" "w_keystore t = ks" "w_engine_running t = w_engine_running s"
      "w_reloads t = w_reloads s + (if w_engine_running s then 1 else 0)"
    by (auto simp: reload_keys_def sr_simps)
  have k: "w_keystore t = (w_keystore s)\<lparr>standalone_sapling_keys :=
       upsert_row (im_to_dfvk I extsk) ct (standalone_sapling_keys (w_keystore s))\<rparr>"
    using store_import_Inr [OF st] enc(1) t by simp
  have "(\<exists>acct. im_account_for_ufvk I (w_db s) ufvk = Inr (Some acct)) \<and> w_db t = w_db s \<or>
     im_account_for_ufvk I (w_db s) ufvk = Inr None \<and>
     (\<exists>b. im_import_ufvk I (''Imported Sapling key '' @ take 16 address) ufvk b True (w_db s) = (Inr (), w_db t))"
    using store_import_Inr [OF st] *(6,7) t(1) by (cases existing) auto
  from that [OF *(1-3,5) enc(3,2) k this t(3,4)] show ?thesis .
qed

text \<open>C25: \<open>z_importkey\<close> is all or nothing. Given a database transaction that keeps all of its body or nothing,
  a call that fails leaves the database, the keystore and the sync engine exactly as they were. One that
  succeeds has decoded the key, stored it encrypted to the wallet's recipients under its viewing key, the
  wallet has an account for it (one it already had, or one it imported, marked as spending), and the
  engine, if it runs, was told to reload its keys.
\<close>

theorem import_key_atomic:
  assumes "transactional (im_transaction I)"
    and "import_key I A T conn key rescan start_height s = (r, t)"
  shows "case r of
      Inl e \<Rightarrow> t = s
    | Inr (kind, address) \<Rightarrow>
        \<exists>extsk ufvk ct recipients. im_decode_extsk I key = Inr extsk \<and> address = im_address I extsk \<and>
          im_extsk_ufvk I extsk = Inr ufvk \<and>
          read_recipients A (age_recipients (w_keystore s)) = Inr recipients \<and>
          age_encrypt A recipients extsk = Inr ct \<and>
          map_of (standalone_sapling_keys (w_keystore t)) =
            (map_of (standalone_sapling_keys (w_keystore s)))(im_to_dfvk I extsk \<mapsto> ct) \<and>
          ((\<exists>acct. im_account_for_ufvk I (w_db s) ufvk = Inr (Some acct)) \<and> w_db t = w_db s \<or>
           im_account_for_ufvk I (w_db s) ufvk = Inr None \<and>
           (\<exists>name b. im_import_ufvk I name ufvk b True (w_db s) = (Inr (), w_db t))) \<and>
          w_reloads t = w_reloads s + (if w_engine_running s then 1 else 0)"
proof (cases r)
  case (Inl e)
  then show ?thesis using sr_validD_Inl [OF import_key_fails_clean [OF assms(1)] refl] assms(2) by simp
next
  case (Inr ka)
  then obtain kind address where ka: "r = Inr (kind, address)" by (cases ka) simp
  with assms(2) have "import_key I A T conn key rescan start_height s = (Inr (kind, address), t)" by simp
  then show ?thesis
    unfolding ka sum.case prod.case by (rule import_key_Inr [OF assms(1)]) (simp, blast)
qed

lemma find_upserted_sapling_key:
  assumes "to_dfvk extsk = Inr dfvk" "length dfvk = 128" "owns dfvk"
    "\<forall>d \<in> fst ` set rows. owns d \<longrightarrow> d = dfvk" "age_decrypt A ids ct = Inr extsk"
  shows "find_sapling_key A to_dfvk owns ids (upsert_row dfvk ct rows) = Inr (Some extsk)"
  using assms(4)
proof (induction rows)
  case Nil
  then show ?case using assms by (simp add: result_simps)
next
  case (Cons row rows)
  obtain d c where row: "row = (d, c)" by (rule prod.exhaust)
  with Cons.prems have "owns d \<Longrightarrow> d = dfvk" by simp
  moreover from Cons have "find_sapling_key A to_dfvk owns ids (upsert_row dfvk ct rows) = Inr (Some extsk)" by simp
  ultimately show ?case using assms(1-3,5) by (cases "d = dfvk") (auto simp: row)
qed

text \<open>C26: A spending key imported with \<open>z_importkey\<close> is what \<open>z_exportkey\<close> gives back for the address it
  reported, on an unlocked wallet: the codecs and age undo themselves, and the address belongs to no other
  key in the store.
\<close>

theorem imported_key_exported:
  assumes tr: "transactional (im_transaction I)"
    and ok: "import_key I A T conn key rescan start_height s = (Inr (kind, address), t)"
    and unlocked: "\<not> is_locked (w_keystore s)"
    and age: "\<forall>rs pt ct. read_recipients A (age_recipients (w_keystore s)) = Inr rs \<and> age_encrypt A rs pt = Inr ct \<longrightarrow>
        age_decrypt A (identities (w_keystore s)) ct = Inr pt"
    and codec: "\<forall>extsk. im_decode_extsk I key = Inr extsk \<longrightarrow>
        im_encode_extsk I extsk = key \<and> im_parse_extsk I extsk = Inr (im_to_dfvk I extsk) \<and>
        length (im_to_dfvk I extsk) = 128 \<and>
        (\<exists>owns. im_owns I (im_address I extsk) = Inr owns \<and> owns (im_to_dfvk I extsk) \<and>
          (\<forall>dfvk \<in> fst ` set (standalone_sapling_keys (w_keystore s)). owns dfvk \<longrightarrow> dfvk = im_to_dfvk I extsk))"
  shows "kind = ''sapling'' \<and> export_key I A T None address t = (Inr key, t)"
proof -
  obtain extsk ct recipients where *:
    "im_decode_extsk I key = Inr extsk" "kind = ''sapling''" "address = im_address I extsk"
    "age_encrypt A recipients extsk = Inr ct"
    "read_recipients A (age_recipients (w_keystore s)) = Inr recipients"
    "w_keystore t = (w_keystore s)\<lparr>standalone_sapling_keys :=
       upsert_row (im_to_dfvk I extsk) ct (standalone_sapling_keys (w_keystore s))\<rparr>"
    by (rule import_key_Inr [OF tr ok]) (rule that)
  from codec *(1) obtain owns where c: "im_encode_extsk I extsk = key" "im_parse_extsk I extsk = Inr (im_to_dfvk I extsk)"
      "length (im_to_dfvk I extsk) = 128" "im_owns I (im_address I extsk) = Inr owns" "owns (im_to_dfvk I extsk)"
      "\<forall>dfvk \<in> fst ` set (standalone_sapling_keys (w_keystore s)). owns dfvk \<longrightarrow> dfvk = im_to_dfvk I extsk"
    by blast
  have "age_decrypt A (identities (w_keystore s)) ct = Inr extsk" using age *(4,5) by blast
  with c(2,3,5,6) have "find_sapling_key A (im_parse_extsk I) owns (identities (w_keystore s))
      (upsert_row (im_to_dfvk I extsk) ct (standalone_sapling_keys (w_keystore s))) = Inr (Some extsk)"
    by (rule find_upserted_sapling_key)
  then have "decrypt_standalone_sapling_key A (im_parse_extsk I) owns None (w_keystore t) = (Inr (Some extsk), w_keystore t)"
    using unlocked *(6) by (simp add: decrypt_standalone_sapling_key_def sr_simps is_locked_def)
  with *(2,3,6) c(1,4) unlocked show ?thesis
    by (simp add: export_key_def sr_simps result_simps ensure_wallet_is_unlocked_def is_locked_def)
qed

text \<open>A wallet of viewing keys, with one spending key to import.\<close>

definition example_import :: "(u8 list list, nat, u8 list, nat, nat, nat, nat) import_env" where
  "example_import =
     \<lparr>im_height = (\<lambda>_. Inr (Some 10)),
      im_account_for_ufvk = (\<lambda>db u. Inr (if u \<in> set db then Some True else None)),
      im_import_ufvk = (\<lambda>_ u _ _ db. (Inr (), u # db)),
      im_transaction = (\<lambda>m s. case m s of (Inl e, _) \<Rightarrow> (Inl e, s) | (Inr x, t) \<Rightarrow> (Inr x, t)),
      im_insert_failure = None, im_decode_extsk = (\<lambda>k. if k = ''secret'' then Inr [7] else Inl ''bad key''),
      im_encode_extsk = (\<lambda>_. ''secret''), im_address = (\<lambda>_. ''zs1exampleaddress''),
      im_to_dfvk = (\<lambda>k. replicate 128 (hd k)), im_parse_extsk = (\<lambda>k. Inr (replicate 128 (hd k))),
      im_owns = (\<lambda>_. Inr (\<lambda>d. d = replicate 128 7)), im_extsk_ufvk = Inr,
      im_decode_fvk = (\<lambda>_. Inl ''bad key''), im_fvk_address = (\<lambda>_. []), im_fvk_ufvk = (\<lambda>_. Inl []),
      im_empty_state = 0, im_snapshot = Inl (Unavailable [])\<rparr>"

definition example_wallet :: "(u8 list list, nat) wallet_state" where
  "example_wallet =
     \<lparr>w_db = [], w_keystore = example_keystore\<lparr>identities := [0]\<rparr>, w_engine_running = True, w_reloads = 0\<rparr>"

lemma example_transactional: "transactional (im_transaction example_import)"
  by (simp add: transactional_def example_import_def)

abbreviation example_imported :: "(u8 list list, nat) wallet_state" where
  "example_imported \<equiv> example_wallet\<lparr>w_db := [[7]], w_keystore := example_keystore\<lparr>identities := [0],
     standalone_sapling_keys := [(replicate 128 7, [1, 7])]\<rparr>, w_reloads := 1\<rparr>"

lemma example_import_key:
  "import_key example_import example_crypto T None ''secret'' None None example_wallet =
     (Inr (''sapling'', ''zs1exampleaddress''), example_imported)"
  by (simp add: import_key_def sr_simps result_simps validate_rescan_def height_from_u64_def example_import_def
      example_wallet_def decode_key_and_address_def effective_birthday_def fetch_account_birthday_def
      store_import_def run_import_def reload_keys_def encrypt_standalone_sapling_key_def ks_read_def
      example_crypto_def example_keystore_def encryptor_def maybe_encryptor_def with_db_def sbind_def sget_def
      slift_def sret_def smodify_def try_state_def sfail_def)

definition example_texts :: err_texts where
  "example_texts = \<lparr>fl_text = (\<lambda>x. x), context_display = (\<lambda>_. [])\<rparr>"

theorem import_key_atomic_witness:
  "w_reloads example_imported = 1"
  using import_key_atomic [OF example_transactional example_import_key [of example_texts]]
  by (simp add: example_wallet_def example_import_def)

theorem imported_key_exported_witness:
  "export_key example_import example_crypto example_texts None ''zs1exampleaddress'' example_imported =
     (Inr ''secret'', example_imported)"
  using imported_key_exported [OF example_transactional example_import_key, of example_texts]
  by (simp add: example_wallet_def example_import_def example_keystore_def is_locked_def example_crypto_def)

section \<open>Accounts and the running engine\<close>

text \<open>What an operation on the database alone keeps.\<close>

definition outside_db :: "('db, 'i) wallet_state \<Rightarrow> 'i KeyStore \<times> bool \<times> nat" where
  "outside_db s = (w_keystore s, w_engine_running s, w_reloads s)"

lemma on_wallet_db_keeps: "sr_keeps (\<lambda>t. outside_db t = v) (on_wallet_db f m)"
  by (auto simp: sr_valid_def on_wallet_db_def outside_db_def split: prod.splits sum.splits)

lemma on_wallet_db_Inr [sr_simps]:
  "on_wallet_db f m s = (Inr x, t) \<longleftrightarrow> (\<exists>db. m (w_db s) = (Inr x, db) \<and> t = s\<lparr>w_db := db\<rparr>)"
  by (auto simp: on_wallet_db_def split: prod.splits sum.splits)

lemma import_viewing_key_keeps:
  "sr_keeps (\<lambda>t. outside_db t = v) (import_viewing_key I vkey rescan start_height)"
  unfolding import_viewing_key_def case_prod_unfold
  by (intro sr_valid_sbind [where R = "\<lambda>_ t. outside_db t = v"] sr_valid_if sr_valid_option sr_reads on_wallet_db_keeps
      sr_valid_slift sr_valid_sret sr_valid_sfail) auto

text \<open>\<open>z_importviewingkey\<close> tells the running sync engine nothing: whatever it returns, no reload of the
  viewing keys is requested, also when it imported an account for a key the wallet did not have, so the
  blocks the engine scans are not tried with that key before the engine starts again.
\<close>

theorem viewing_key_not_reloaded:
  assumes "import_viewing_key I vkey rescan start_height s = (r, t)"
  shows "w_reloads t = w_reloads s \<and> w_keystore t = w_keystore s \<and> w_engine_running t = w_engine_running s \<and>
    (\<forall>kind address. r = Inr (kind, address) \<longrightarrow>
      (\<exists>fvk ufvk. im_decode_fvk I vkey = Inr fvk \<and> address = im_fvk_address I fvk \<and> im_fvk_ufvk I fvk = Inr ufvk \<and>
        (im_account_for_ufvk I (w_db s) ufvk = Inr (Some False) \<and> t = s \<or>
         im_account_for_ufvk I (w_db s) ufvk = Inr None \<and>
         (\<exists>name b. im_import_ufvk I name ufvk b False (w_db s) = (Inr (), w_db t)))))"
proof (intro conjI allI impI)
  have "outside_db (snd (import_viewing_key I vkey rescan start_height s)) = outside_db s"
    using import_viewing_key_keeps [of "outside_db s" I vkey rescan start_height] by (simp add: sr_keeps_iff)
  then show "w_reloads t = w_reloads s" "w_keystore t = w_keystore s" "w_engine_running t = w_engine_running s"
    by (simp_all add: assms outside_db_def)
next
  fix kind address
  assume "r = Inr (kind, address)"
  with assms show "\<exists>fvk ufvk. im_decode_fvk I vkey = Inr fvk \<and> address = im_fvk_address I fvk \<and> im_fvk_ufvk I fvk = Inr ufvk \<and>
        (im_account_for_ufvk I (w_db s) ufvk = Inr (Some False) \<and> t = s \<or>
         im_account_for_ufvk I (w_db s) ufvk = Inr None \<and>
         (\<exists>name b. im_import_ufvk I name ufvk b False (w_db s) = (Inr (), w_db t)))"
    unfolding import_viewing_key_def
    by (fastforce simp: sr_simps result_simps decode_vkey_and_address_def split: if_splits option.splits)
qed

abbreviation example_watched :: "(u8 list list, nat, u8 list, nat, nat, nat, nat) import_env" where
  "example_watched \<equiv> example_import\<lparr>im_decode_fvk := \<lambda>_. Inr 3, im_fvk_ufvk := \<lambda>_. Inr [3]\<rparr>"

lemma example_import_viewing_key:
  "import_viewing_key example_watched ''zxviews'' None None example_wallet =
     (Inr (''sapling'', []), example_wallet\<lparr>w_db := [[3]]\<rparr>)"
  by (simp add: import_viewing_key_def sr_simps result_simps rescan_policy_parse_def validate_rescan_def
      example_import_def example_wallet_def decode_vkey_and_address_def fetch_account_birthday_def
      viewing_birthday_height_def)

theorem viewing_key_not_reloaded_witness:
  "w_engine_running example_wallet \<and> w_reloads (example_wallet\<lparr>w_db := [[3]]\<rparr>) = w_reloads example_wallet"
  using viewing_key_not_reloaded [OF example_import_viewing_key] by (simp add: example_wallet_def)

section \<open>Accounts come from seeds that are backed up\<close>

text \<open>A seed the keystore holds and gives out: its phrase decrypts and matches the fingerprint, and when the
  configuration asks for a backup, the phrase is confirmed to be backed up.\<close>

definition usable_seed :: "('i, 'rcpt) crypto \<Rightarrow> 'i KeyStore \<Rightarrow> SeedFingerprint \<Rightarrow> u8 list \<Rightarrow> bool" where
  "usable_seed A ks fp seed \<longleftrightarrow>
     \<not> is_locked ks \<and> from_seed A seed = Some fp \<and>
     (\<exists>ct confirmed. mnemonics ks fp = Some (ct, confirmed) \<and> (require_backup ks \<longrightarrow> confirmed))"

lemma backed_up_Inr:
  "backed_up T conn fp ks = Inr u \<Longrightarrow> require_backup ks \<Longrightarrow> \<exists>ct. mnemonics ks fp = Some (ct, True)"
  by (auto simp: backed_up_def backup_required_def backup_confirmed_def ensure_seed_is_backed_up_def sbind_def sget_def
      sret_def with_db_def sfail_def result_simps split: option.splits if_splits sum.splits fault.splits prod.splits)

lemma decrypt_seed_usable:
  assumes "backed_up T conn fp ks = Inr u" "fst (decrypt_seed A conn fp ks) = Inr seed"
  shows "usable_seed A ks fp seed"
  using assms(2) backed_up_Inr [OF assms(1)]
  by (cases "decrypt_seed A conn fp ks")
    (auto simp: decrypt_seed_def sr_simps decrypt_mnemonic_Inr usable_seed_def is_locked_def map_err_Inr_iff)

lemma fetch_seeds_usable:
  "fetch_seeds A T conn ks fps seeds = Inr seeds' \<Longrightarrow> \<forall>fp seed. seeds fp = Some seed \<longrightarrow> usable_seed A ks fp seed \<Longrightarrow>
   (\<forall>fp seed. seeds' fp = Some seed \<longrightarrow> usable_seed A ks fp seed) \<and> set fps \<subseteq> dom seeds' \<and> dom seeds \<subseteq> dom seeds'"
proof (induction A T conn ks fps seeds rule: fetch_seeds.induct)
  case (2 A T conn ks fp fps seeds)
  show ?case
  proof (cases "seeds fp")
    case None
    with "2.prems"(1) obtain seed where s: "backed_up T conn fp ks = Inr ()" "fst (decrypt_seed A conn fp ks) = Inr seed"
        "fetch_seeds A T conn ks fps (seeds(fp \<mapsto> seed)) = Inr seeds'"
      by (auto simp: rbind_Inr_iff map_err_Inr_iff)
    have "\<forall>f sd. (seeds(fp \<mapsto> seed)) f = Some sd \<longrightarrow> usable_seed A ks f sd"
      using "2.prems"(2) decrypt_seed_usable [OF s(1,2)] by simp
    from "2.IH"(2) [OF _ s(3) this] None show ?thesis by (simp del: fun_upd_apply)
  next
    case (Some seed)
    with "2.prems" "2.IH"(1) show ?thesis by fastforce
  qed
qed simp

text \<open>The database after the imports of a list of accounts, each of which succeeded.\<close>

fun imported ::
    "('db, 'blk, 'ts, 'tx) account_env \<Rightarrow> (SeedFingerprint \<rightharpoonup> u8 list) \<Rightarrow>
     (string \<times> SeedFingerprint \<times> u32 \<times> 'ts \<times> BlockHeight option) list \<Rightarrow> 'db \<Rightarrow> 'db option" where
  "imported E seeds [] db = Some db"
| "imported E seeds ((name, fp, index, birthday) # args) db =
     Option.bind (seeds fp) (\<lambda>seed.
       case ae_import_account_hd E name seed index birthday db of
         (Inl _, _) \<Rightarrow> None
       | (Inr _, db') \<Rightarrow> imported E seeds args db')"

text \<open>The contract of the two methods of the wallet database: one that fails has written nothing.\<close>

definition failures_clean :: "('db, 'blk, 'ts, 'tx) account_env \<Rightarrow> bool" where
  "failures_clean E \<longleftrightarrow>
     (\<forall>name seed b db e db'. ae_create_account E name seed b db = (Inl e, db') \<longrightarrow> db' = db) \<and>
     (\<forall>name seed i b db e db'. ae_import_account_hd E name seed i b db = (Inl e, db') \<longrightarrow> db' = db)"

lemma import_accounts_prefix:
  fixes s t :: "('db, 'i) wallet_state"
  assumes "failures_clean E"
  shows "import_accounts E seeds args s = (r, t) \<Longrightarrow>
    outside_db t = outside_db s \<and>
    (\<exists>n \<le> length args. imported E seeds (take n args) (w_db s) = Some (w_db t) \<and>
      (case r of Inl _ \<Rightarrow> n < length args | Inr _ \<Rightarrow> n = length args))"
proof (induction args arbitrary: r s)
  case Nil
  then show ?case by (auto simp: sret_def)
next
  case (Cons arg args)
  obtain name fp index birthday where arg: "arg = (name, fp, index, birthday)" by (cases arg)
  show ?case
  proof (cases "seeds fp")
    case None
    with Cons.prems show ?thesis
      by (intro conjI exI [of _ 0]) (auto simp: arg sbind_def slift_def)
  next
    case (Some seed)
    obtain q db where m: "ae_import_account_hd E name seed index birthday (w_db s) = (q, db)" by (rule prod.exhaust)
    show ?thesis
    proof (cases q)
      case (Inl e)
      with m assms have "db = w_db s" unfolding failures_clean_def by blast
      with Cons.prems Some m Inl show ?thesis
        by (intro conjI exI [of _ 0]) (auto simp: arg sbind_def slift_def on_wallet_db_def outside_db_def)
    next
      case (Inr uuid)
      obtain r' t' where rest: "import_accounts E seeds args (s\<lparr>w_db := db\<rparr>) = (r', t')" by (rule prod.exhaust)
      with Cons.prems Some m Inr have r: "t' = t" "isl r' = isl r"
        by (auto simp: arg sbind_def slift_def sret_def on_wallet_db_def split: sum.splits)
      from Cons.IH [OF rest [unfolded r(1)]] obtain n where n: "outside_db t = outside_db s" "n \<le> length args"
          "imported E seeds (take n args) db = Some (w_db t)"
          "case r' of Inl _ \<Rightarrow> n < length args | Inr _ \<Rightarrow> n = length args"
        by (auto simp: outside_db_def)
      with r(2) have "case r of Inl _ \<Rightarrow> Suc n < Suc (length args) | Inr _ \<Rightarrow> Suc n = Suc (length args)"
        by (auto split: sum.splits)
      with n(1-3) Some m Inr show ?thesis by (intro conjI exI [of _ "Suc n"]) (simp_all add: arg split: sum.splits)
    qed
  qed
qed

lemma sr_inspect: "sr_valid P (\<lambda>s. (f s, s)) (\<lambda>_. P) (\<lambda>_. P)"
  by (auto simp: sr_valid_def split: sum.splits)

lemma create_account_fails:
  assumes "failures_clean E"
  shows "sr_valid (\<lambda>t. t = s) (on_wallet_db f (ae_create_account E name seed b)) (\<lambda>_ _. True) (\<lambda>_ t. t = s)"
proof (rule sr_validI; simp)
  fix e u
  assume "on_wallet_db f (ae_create_account E name seed b) s = (Inl e, u)"
  then obtain e' db where "ae_create_account E name seed b (w_db s) = (Inl e', db)" "u = s\<lparr>w_db := db\<rparr>"
    by (auto simp: on_wallet_db_def split: prod.splits sum.splits)
  moreover from assms this(1) have "db = w_db s" unfolding failures_clean_def by blast
  ultimately show "u = s" by simp
qed

lemma get_new_account_fails:
  assumes "failures_clean E"
  shows "sr_valid (\<lambda>t. t = s) (get_new_account E A T conn name seedfp) (\<lambda>_ _. True) (\<lambda>_ t. t = s)"
  unfolding get_new_account_def Let_def
  by (intro sr_valid_sbind [where R = "\<lambda>_ t. t = s"] sr_valid_sbind [OF create_account_fails [OF assms]]
      sr_valid_sbind [OF reload_keys_succeeds] sr_reads sr_valid_slift sr_valid_sret sr_inspect) auto

lemma get_new_account_Inr:
  assumes "get_new_account E A T conn name seedfp s = (Inr uuid, t)"
  shows "w_keystore t = w_keystore s \<and> (\<exists>fp seed b. usable_seed A (w_keystore s) fp seed \<and>
      ae_create_account E name seed b (w_db s) = (Inr uuid, w_db t))"
proof -
  from assms obtain fp seed b db v w where *: "backed_up T conn fp (w_keystore s) = Inr v"
      "fst (decrypt_seed A conn fp (w_keystore s)) = Inr seed"
      "ae_create_account E name seed b (w_db s) = (Inr uuid, db)"
      "reload_keys (s\<lparr>w_db := db\<rparr>) = ((Inr w :: rpc_error fault + unit), t)"
    unfolding get_new_account_def Let_def by (simp only: sr_simps prod.inject) blast
  from *(4) have "w_keystore t = w_keystore s" "w_db t = db" by (auto simp: reload_keys_def sr_simps)
  with *(3) decrypt_seed_usable [OF *(1,2)] show ?thesis by blast
qed

lemma recover_accounts_imports:
  fixes s u :: "('db, 'i) wallet_state"
  assumes "failures_clean E" "recover_accounts E A T conn accounts s = (q, u)"
  shows "u = s \<or> (\<exists>seeds args n. (\<forall>fp seed. seeds fp = Some seed \<longrightarrow> usable_seed A (w_keystore s) fp seed) \<and>
    length args = length accounts \<and> w_keystore u = w_keystore s \<and>
    imported E seeds (take n args) (w_db s) = Some (w_db u) \<and>
    (case q of Inl _ \<Rightarrow> n < length accounts \<and> w_reloads u = w_reloads s
     | Inr _ \<Rightarrow> n = length accounts \<and> w_reloads u = w_reloads s + (if w_engine_running s then 1 else 0)))"
proof (cases "u = s")
  case False
  with assms(2) obtain chain_view recover_until args seeds r t where *:
      "try_map (account_arg E chain_view recover_until) accounts = Inr args"
      "fetch_seeds A T conn (w_keystore s) (map (\<lambda>(_, fp, _). fp) args) Map.empty = Inr seeds"
      "import_accounts E seeds args s = (r, t)"
      "case r of Inl e \<Rightarrow> q = Inl e \<and> u = t | Inr x \<Rightarrow> q = Inr x \<and> reload_keys t = ((Inr () :: rpc_error fault + unit), u)"
    unfolding recover_accounts_def
    by (auto simp: sbind_def slift_def sret_def try_state_def reload_keys_def smodify_def result_simps
        split: prod.splits sum.splits)
  have "\<forall>fp seed. seeds fp = Some seed \<longrightarrow> usable_seed A (w_keystore s) fp seed"
    using fetch_seeds_usable [OF *(2)] by simp
  moreover have "length args = length accounts" using *(1) by (rule try_map_Inr_length)
  moreover from import_accounts_prefix [OF assms(1) *(3)] obtain n where "outside_db t = outside_db s"
      "imported E seeds (take n args) (w_db s) = Some (w_db t)"
      "case r of Inl _ \<Rightarrow> n < length args | Inr _ \<Rightarrow> n = length args" by blast
  ultimately show ?thesis using *(4)
    by (intro disjI2 exI [of _ seeds] exI [of _ args] exI [of _ n])
      (auto simp: outside_db_def reload_keys_def sr_simps split: sum.splits if_splits)
qed simp

text \<open>C27: Accounts are derived only from seeds that are backed up. On a locked wallet neither \<open>z_getnewaccount\<close>
  nor \<open>z_recoveraccounts\<close> changes anything; otherwise every account either of them adds to the database
  derives from a mnemonic the keystore holds, whose seed has the fingerprint asked for, and which is
  confirmed to be backed up whenever the configuration requires it. The keystore is not changed.
\<close>

theorem accounts_from_backed_up_seeds:
  fixes s t u :: "('db, 'i) wallet_state"
  assumes E: "failures_clean E"
  shows "(get_new_account E A T conn name seedfp s = (r, t) \<longrightarrow>
      w_keystore t = w_keystore s \<and>
      (w_db t \<noteq> w_db s \<longrightarrow> (\<exists>fp seed b uuid. usable_seed A (w_keystore s) fp seed \<and>
        ae_create_account E name seed b (w_db s) = (Inr uuid, w_db t)))) \<and>
    (recover_accounts E A T conn accounts s = (q, u) \<longrightarrow>
      w_keystore u = w_keystore s \<and>
      (w_db u \<noteq> w_db s \<longrightarrow> (\<exists>seeds args. (\<forall>fp seed. seeds fp = Some seed \<longrightarrow> usable_seed A (w_keystore s) fp seed) \<and>
        imported E seeds args (w_db s) = Some (w_db u))))"
proof (intro conjI impI)
  assume new: "get_new_account E A T conn name seedfp s = (r, t)"
  then have "case r of Inl _ \<Rightarrow> t = s | Inr uuid \<Rightarrow> w_keystore t = w_keystore s \<and>
      (\<exists>fp seed b. usable_seed A (w_keystore s) fp seed \<and> ae_create_account E name seed b (w_db s) = (Inr uuid, w_db t))"
    using get_new_account_Inr sr_validD_Inl [OF get_new_account_fails [OF E] refl]
    by (cases r) (simp only: sum.case, blast)+
  then show "w_keystore t = w_keystore s"
    "w_db t \<noteq> w_db s \<Longrightarrow> \<exists>fp seed b uuid. usable_seed A (w_keystore s) fp seed \<and>
       ae_create_account E name seed b (w_db s) = (Inr uuid, w_db t)"
    by (cases r; simp only: sum.case; blast)+
qed (use recover_accounts_imports [OF E] in blast)+

text \<open>A wallet of ZIP 32 account indices, which refuses an index it has.\<close>

definition example_account_env :: "(u32 list, nat, nat, nat) account_env" where
  "example_account_env =
     \<lparr>ae_seedfp = (\<lambda>_. Inr [5]), ae_hex32 = (\<lambda>_. None), ae_fp_str = (\<lambda>_. ''fp''), ae_index = Inr,
      ae_chain_height = (\<lambda>_. Inr (Some 9)),
      ae_chain = Inr \<lparr>view_tip = Inr (chain_block 9 [9]), find_fork_point = (\<lambda>_. Inr None),
        tree_state_as_of = (\<lambda>h. Inr (Some (unat h))), get_block_header = (\<lambda>_. Inr None), get_block = (\<lambda>_. Inr None),
        stream_blocks_to_tip = (\<lambda>_. []), stream_blocks = (\<lambda>_. []), get_mempool_stream = Inr None,
        get_transaction = (\<lambda>_. Inr None), get_transaction_status = (\<lambda>_. Inl (Unavailable [])),
        outpoint_spend_status = (\<lambda>_. Inl (Unavailable [])), get_address_unspent_outpoints = (\<lambda>_. Inr []),
        get_address_tx_ids = (\<lambda>_ _. Inr [])\<rparr>,
      ae_create_account = (\<lambda>_ _ _ db. (Inr ''new'', of_nat (length db) # db)),
      ae_import_account_hd = (\<lambda>_ _ i _ db. if i \<in> set db then (Inl ''collision'', db) else (Inr ''uuid'', i # db))\<rparr>"

definition example_seeded :: "(u32 list, nat) wallet_state" where
  "example_seeded =
     \<lparr>w_db = [], w_keystore = example_keystore\<lparr>identities := [0], mnemonics := [[5] \<mapsto> ([1, 5], True)]\<rparr>,
      w_engine_running = True, w_reloads = 0\<rparr>"

lemma example_failures_clean: "failures_clean example_account_env"
  by (auto simp: failures_clean_def example_account_env_def)

lemma example_decrypt_seed:
  "decrypt_seed example_crypto None [5] (w_keystore example_seeded) = (Inr [5], w_keystore example_seeded)"
  by (auto simp: decrypt_seed_def sr_simps decrypt_mnemonic_Inr example_seeded_def example_crypto_def example_keystore_def)

lemma example_unlocked: "\<not> is_locked (w_keystore example_seeded)"
  by (simp add: is_locked_def example_seeded_def)

lemma example_backed_up: "backed_up T None [5] (w_keystore example_seeded) = Inr ()"
  by (simp add: example_seeded_def example_keystore_def backed_up_def backup_required_def backup_confirmed_def
      sbind_def sget_def with_db_def sret_def ensure_seed_is_backed_up_def)

lemma example_new_account:
  "get_new_account example_account_env example_crypto T None ''savings'' None example_seeded =
     (Inr ''new'', example_seeded\<lparr>w_db := [0], w_reloads := 1\<rparr>)"
proof -
  have "select_seed None None (w_keystore example_seeded) = Inr [5]"
    by (simp add: select_seed_def list_seed_fingerprints_def with_db_def sget_def example_seeded_def)
  then show ?thesis
    using example_decrypt_seed example_backed_up
    by (simp add: get_new_account_def Let_def sr_simps result_simps wallet_height_def account_chain_def
        ensure_wallet_is_unlocked_def is_locked_def reload_keys_def example_account_env_def)
      (simp add: example_seeded_def)
qed

theorem accounts_from_backed_up_seeds_witness:
  "\<exists>fp seed. usable_seed example_crypto (w_keystore example_seeded) fp seed"
proof -
  have "w_db (example_seeded\<lparr>w_db := [0], w_reloads := 1\<rparr>) \<noteq> w_db example_seeded"
    by (simp add: example_seeded_def)
  with accounts_from_backed_up_seeds [OF example_failures_clean, THEN conjunct1, THEN mp,
      OF example_new_account [of example_texts]]
  show ?thesis by blast
qed

text \<open>A recovery that fails part of the way keeps what it had done. \<open>z_recoveraccounts\<close> imports the accounts
  one by one: when it returns an error, the accounts before the one that failed are in the database and
  their number is less than asked for, but the sync engine is not told to reload its keys for them, as it
  is when all of them were imported.
\<close>

theorem failed_recovery_keeps_prefix:
  fixes s t :: "('db, 'i) wallet_state"
  assumes "failures_clean E" and "recover_accounts E A T conn accounts s = (r, t)"
  shows "case r of
      Inl e \<Rightarrow> w_reloads t = w_reloads s \<and>
        (t = s \<or> (\<exists>seeds args. length args < length accounts \<and> imported E seeds args (w_db s) = Some (w_db t)))
    | Inr done \<Rightarrow> t = s \<or> w_reloads t = w_reloads s + (if w_engine_running s then 1 else 0) \<and>
        (\<exists>seeds args. length args = length accounts \<and> imported E seeds args (w_db s) = Some (w_db t))"
proof -
  from recover_accounts_imports [OF assms] show ?thesis
  proof (elim disjE exE conjE)
    fix seeds :: "SeedFingerprint \<rightharpoonup> u8 list" and args n
    assume "length args = length accounts" "imported E seeds (take n args) (w_db s) = Some (w_db t)"
      "case r of Inl _ \<Rightarrow> n < length accounts \<and> w_reloads t = w_reloads s
       | Inr _ \<Rightarrow> n = length accounts \<and> w_reloads t = w_reloads s + (if w_engine_running s then 1 else 0)"
    then show ?thesis
      by (auto split: sum.splits intro!: exI [of _ seeds] exI [of _ "take n args"])
  qed (simp split: sum.splits)
qed

definition twice :: "AccountParameter list" where
  "twice = replicate 2 \<lparr>ap_name = ''savings'', ap_seedfp = ''fp'', ap_zip32_account_index = 3, ap_birthday_height = 1\<rparr>"

lemma example_recovery:
  "recover_accounts example_account_env example_crypto T None twice example_seeded =
     (Inl (Raise (database_error ''collision'')), example_seeded\<lparr>w_db := [3]\<rparr>)"
    by (simp add: recover_accounts_def twice_def sbind_def slift_def sret_def try_state_def result_simps numeral_2_eq_2
      wallet_height_def account_chain_def account_arg_def seedfp_parameter_def parse_seedfp_parameter_def parse_seedfp_def
      ensure_wallet_is_unlocked_def example_unlocked on_wallet_db_def example_account_env_def example_decrypt_seed
      example_backed_up)
    (simp add: example_seeded_def)

theorem failed_recovery_keeps_prefix_witness:
  "w_reloads (example_seeded\<lparr>w_db := [3]\<rparr>) = 0 \<and>
   (\<exists>seeds args. length args < 2 \<and> imported example_account_env seeds args [] = Some [3])"
  using failed_recovery_keeps_prefix [OF example_failures_clean example_recovery [of example_texts]]
  by (simp add: example_seeded_def twice_def)

section \<open>Exporting a viewing key\<close>

text \<open>\<open>vk_sapling\<close> gives the bytes of a unified viewing key's Sapling component, \<open>vk_decrypt_diversifier\<close>
  whether such a component has an address, \<open>vk_usk_dfvk\<close> the bytes of a spending key's viewing key.\<close>

record ('acct, 'ufvk, 'usk) viewing_env =
  vk_decode :: "string \<Rightarrow> Address option"
  vk_accounts :: "'acct account_db"
  vk_account_ufvk :: "'acct \<Rightarrow> 'ufvk option"
  vk_ufvks :: "string + (AccountUuid \<times> 'ufvk) list"
  vk_sapling :: "'ufvk \<Rightarrow> u8 list option"
  vk_decrypt_diversifier :: "u8 list \<Rightarrow> u8 list \<Rightarrow> bool"
  vk_encode_ufvk :: "'ufvk \<Rightarrow> string"
  vk_encode_uivk :: "'ufvk \<Rightarrow> string"
  vk_usk_from_seed :: "u8 list \<Rightarrow> u32 \<Rightarrow> string + 'usk"
  vk_usk_dfvk :: "'usk \<Rightarrow> u8 list"
  vk_encode_extfvk :: "'usk \<Rightarrow> string"

definition no_viewing_key :: rpc_error where
  "no_viewing_key = with_static Wallet ''Wallet does not hold private key or viewing key for this zaddr''"

definition export_sapling_viewing_key ::
    "('acct, 'ufvk, 'usk) viewing_env \<Rightarrow> ('i, 'rcpt) crypto \<Rightarrow> err_texts \<Rightarrow> string option \<Rightarrow> 'i KeyStore \<Rightarrow>
     u8 list \<Rightarrow> bool \<Rightarrow> rpc_error fault + string" where
  "export_sapling_viewing_key V A T conn ks sapling_addr export_ivk =
     rbind (raising (map_err database_error (vk_ufvks V))) (\<lambda>ufvks.
     rbind (raising (ok_or no_viewing_key (List.find (\<lambda>(_, ufvk).
         case vk_sapling V ufvk of None \<Rightarrow> False | Some dfvk \<Rightarrow> vk_decrypt_diversifier V dfvk sapling_addr) ufvks))) (\<lambda>(account_id, ufvk).
     if export_ivk then Inr (vk_encode_uivk V ufvk)
     else
     rbind (raising (map_err database_error (adb_account (vk_accounts V) account_id))) (\<lambda>found.
     rbind (raising (ok_or no_viewing_key found)) (\<lambda>account.
     rbind (raising (ok_or (with_static Wallet ''Cannot export viewing key for an imported view-only account'')
       (key_derivation (vk_accounts V) account))) (\<lambda>(seed_fp, account_index).
     rbind (map_err (raise_seed_error T) (fst (decrypt_seed A conn seed_fp ks))) (\<lambda>seed.
     rbind (raising (map_err (\<lambda>e. with_message Wallet (Text e)) (vk_usk_from_seed V seed account_index))) (\<lambda>usk.
     if (case vk_sapling V ufvk of None \<Rightarrow> True | Some dfvk \<Rightarrow> dfvk \<noteq> vk_usk_dfvk V usk)
     then Inl (Raise (with_static Wallet ''Wallet key derivation does not match the stored viewing key''))
     else Inr (vk_encode_extfvk V usk))))))))"

definition z_export_viewing_key ::
    "('acct, 'ufvk, 'usk) viewing_env \<Rightarrow> ('i, 'rcpt) crypto \<Rightarrow> err_texts \<Rightarrow> string option \<Rightarrow> 'i KeyStore \<Rightarrow>
     string \<Rightarrow> bool option \<Rightarrow> rpc_error fault + string" where
  "z_export_viewing_key V A T conn ks zaddr ivk =
     rbind (raising (ensure_wallet_is_unlocked (is_locked ks))) (\<lambda>_.
     rbind (raising (ok_or (with_static InvalidAddressOrKey ''Invalid zaddr'') (vk_decode V zaddr))) (\<lambda>address.
     let export_ivk = (ivk = Some True) in
     case address of
       AddrUnified ua \<Rightarrow>
         rbind (map_err (\<lambda>e. case e of
             Raise r \<Rightarrow> if err_code r = Legacy InvalidAddressOrKey then Raise no_viewing_key else Raise r
           | Panic m \<Rightarrow> Panic m) (get_account_for_address (vk_accounts V) address)) (\<lambda>account.
         rbind (raising (ok_or (with_static Wallet ''Account does not have a unified full viewing key'')
           (vk_account_ufvk V account))) (\<lambda>ufvk.
           Inr (if export_ivk then vk_encode_uivk V ufvk else vk_encode_ufvk V ufvk)))
     | AddrSapling sapling_addr \<Rightarrow> export_sapling_viewing_key V A T conn ks sapling_addr export_ivk
     | _ \<Rightarrow> Inl (Raise (with_static InvalidAddressOrKey
         ''z_exportviewingkey only supports Sapling and unified addresses''))))"

text \<open>A viewing key exported for a Sapling address views that address: on an unlocked wallet, the key
  \<open>z_exportviewingkey\<close> returns is either the encoded incoming viewing key of an account one of whose
  viewing keys has the address, or the extended viewing key of a spending key derived from one of the
  wallet's own seeds, whose viewing key has the address.
\<close>

theorem exported_viewing_key_views_address:
  assumes "z_export_viewing_key V A T conn ks zaddr ivk = Inr key" and "vk_decode V zaddr = Some (AddrSapling addr)"
  shows "\<not> is_locked ks \<and>
    (\<exists>dfvk. vk_decrypt_diversifier V dfvk addr \<and>
      (ivk = Some True \<and> (\<exists>ufvk. vk_sapling V ufvk = Some dfvk \<and> key = vk_encode_uivk V ufvk) \<or>
       ivk \<noteq> Some True \<and> (\<exists>usk seed fp index. from_seed A seed = Some fp \<and> mnemonics ks fp \<noteq> None \<and>
         vk_usk_from_seed V seed index = Inr usk \<and> vk_usk_dfvk V usk = dfvk \<and> key = vk_encode_extfvk V usk)))"
proof -
  from assms have un: "\<not> is_locked ks" and
    ex: "export_sapling_viewing_key V A T conn ks addr (ivk = Some True) = Inr key"
    by (auto simp: z_export_viewing_key_def ensure_wallet_is_unlocked_def result_simps split: if_splits)
  from ex obtain ufvks account_id ufvk where f: "vk_ufvks V = Inr ufvks"
      "List.find (\<lambda>(_, ufvk). case vk_sapling V ufvk of None \<Rightarrow> False | Some dfvk \<Rightarrow> vk_decrypt_diversifier V dfvk addr) ufvks =
         Some (account_id, ufvk)"
    by (auto simp: export_sapling_viewing_key_def result_simps)
  then obtain dfvk where d: "vk_sapling V ufvk = Some dfvk" "vk_decrypt_diversifier V dfvk addr"
    by (auto simp: find_Some_iff split: option.splits)
  show ?thesis
  proof (cases "ivk = Some True")
    case True
    with ex f d un show ?thesis by (auto simp: export_sapling_viewing_key_def)
  next
    case False
    with ex f d obtain fp index seed usk where "fst (decrypt_seed A conn fp ks) = Inr seed"
        "vk_usk_from_seed V seed index = Inr usk" "vk_usk_dfvk V usk = dfvk" "key = vk_encode_extfvk V usk"
      by (auto simp: export_sapling_viewing_key_def result_simps split: if_splits)
    moreover from this(1) have "from_seed A seed = Some fp" "mnemonics ks fp \<noteq> None"
      by (cases "decrypt_seed A conn fp ks"; auto simp: decrypt_seed_def sr_simps decrypt_mnemonic_Inr map_err_Inr_iff)+
    ultimately show ?thesis using d un False by blast
  qed
qed

abbreviation example_viewing :: "(nat, nat, nat) viewing_env" where
  "example_viewing \<equiv>
     \<lparr>vk_decode = (\<lambda>_. Some (AddrSapling [4])),
      vk_accounts = \<lparr>find_account_for_address = (\<lambda>_. Inr None), adb_account_ids = Inr [], adb_account = (\<lambda>_. Inr (Some 1)),
        list_addresses = (\<lambda>_. Inr []), key_derivation = (\<lambda>_. Some ([5], 0))\<rparr>,
      vk_account_ufvk = Some, vk_ufvks = Inr [(''uuid'', 1)], vk_sapling = (\<lambda>_. Some [8]),
      vk_decrypt_diversifier = (\<lambda>d a. d = [8] \<and> a = [4]), vk_encode_ufvk = (\<lambda>_. ''uview''), vk_encode_uivk = (\<lambda>_. ''uivk''),
      vk_usk_from_seed = (\<lambda>_ _. Inr 2), vk_usk_dfvk = (\<lambda>_. [8]), vk_encode_extfvk = (\<lambda>_. ''zxviews'')\<rparr>"

theorem exported_viewing_key_views_address_witness:
  "\<exists>dfvk. vk_decrypt_diversifier example_viewing dfvk [4]"
proof -
  have "z_export_viewing_key example_viewing example_crypto example_texts None (w_keystore example_seeded) ''zs1'' None = Inr ''zxviews''"
    by (simp add: z_export_viewing_key_def export_sapling_viewing_key_def ensure_wallet_is_unlocked_def example_unlocked
        example_decrypt_seed)
  from exported_viewing_key_views_address [OF this, of "[4]"] show ?thesis by simp
qed

end
