(* ===== verification/Spec2Isabelle.thy ===== *)
theory Spec2Isabelle
  imports Chain_Compat Sync_Tasks Sync_Services Zebra_Sync Async_Op Pczt Rpc_Compat
    Wallet_Balances Wallet_Listing Messages Account_Import
begin

text \<open>
  \<^bold>\<open>A verification library of the Zallet wallet.\<close>

  \<^bold>\<open>The program.\<close> Zallet is a Zcash full-node wallet. Its library crate \<open>src/zallet-core\<close> holds a
  sync engine that follows a chain backend and scans blocks into a wallet database
  (\<open>components/sync.rs\<close> and \<open>components/sync/\<close>), a chain abstraction with the startup check that
  the node and this build follow the same consensus rules (\<open>components/chain.rs\<close>,
  \<open>network.rs\<close>), a keystore that encrypts seeds and keys and locks itself on a timer
  (\<open>components/keystore.rs\<close>), and a JSON-RPC server with asynchronous operations, parameter
  parsing and the payment methods (\<open>components/json_rpc\<close>). The backends \<open>src/backends\<close> implement
  the chain abstraction on a full node. The parts meet in three places: the sync engine pulls
  blocks through a pinned \<open>ChainView\<close> and publishes a status that gates the balance and spend
  methods; the payment methods take funds through the database, keys from the keystore, and hand
  transactions to the \<open>Chain\<close>; and long-running methods run as operations of the queue.

  \<^bold>\<open>Conventions.\<close> Theory \<open>Prelude\<close> fixes them. Heights and counters are words of the source's
  width and the operations on them are the ones the code calls (saturating, checked, or panicking
  on overflow as the release profile has it); signed 64-bit arithmetic is \<open>int\<close> with the wrap
  written out. A fallible pure function returns \<open>'e + 'a\<close>. Stateful code is a value of the
  state-and-error monad \<open>sr\<close> over a record of the state, and a panic is an error of its own, so
  that an assertion of the source is a branch of the model. Loops over successive snapshots of the
  chain run over a list of views, one for each turn, so that no fuel is involved: statements are
  for every such list, and loops over data are structural or have a termination proof.
  Code outside the repository (the wallet database, the address codecs, the proposal builder,
  age, the key crates, the state service of the full node) is an argument of the definitions that
  call it; what a theorem needs of it is a named hypothesis stating its documented behaviour, and
  the witness instantiates it.

  \<^bold>\<open>Theories, in the order of their imports.\<close>
  \<^item> \<open>Prelude\<close>: the integer operations, the monad with its Hoare-style rules (\<open>returns\<close> and the
    collection of its rules), the interface \<open>string_codec\<close> of the enums with a textual form, list
    facts. \<open>Numerals\<close>: the standard library's decimal and hexadecimal text of unsigned integers.
  \<^item> \<open>Chain_Types\<close>: \<open>ChainError\<close>, \<open>ChainBlock\<close>, \<open>BlockLocator\<close> with the assertion of
    \<open>from_blocks\<close>, \<open>TreePool\<close> and \<open>empty_tree_is_legitimate\<close>. \<open>Chain_Compat\<close>: network parameters
    and \<open>check_consensus_compatibility\<close>; the shutdown height it reports is the first height at
    which the node and the build differ.
  \<^item> \<open>Sync_Status\<close>: the published signals and the gate. \<open>Sync_Locator\<close>: the sampled heights and
    how well they cover the window. \<open>Sync_Recovery\<close>: the rollback ladder, the step-back search,
    truncation. \<open>Sync_Steps\<close>: one scanning step. \<open>Sync_Engine\<close>: the steady-state pass and its loop
    with the invariants of every reachable state. \<open>Sync_Progress\<close>: what a pass achieves over a
    view that behaves as documented. \<open>Sync_Tasks\<close>: the startup scan and history recovery.
    \<open>Sync_Services\<close>: data requests and the start of the tasks.
  \<^item> \<open>Zebra_Reader\<close>: the reader of the node's state and the client of its JSON-RPC interface
    (\<open>backends/zebra/src/chain/\<close>). \<open>Ordered_Map\<close>: the ordered map of the standard library.
    \<open>Zebra_View\<close>: the captured view, its memo table and its queries (\<open>backends/zebra/src/chain.rs\<close>).
    \<open>Zebra_Mempool\<close>: the mempool stream. \<open>Zebra_Sync\<close>: an abstract view of a pinned chain, which the
    zebra view implements while the node serves the captured chain, and the sync engine over it.
  \<^item> \<open>Rpc_Errors\<close>: error codes and messages. \<open>Async_Op\<close>: operations and the bounded queue, with
    the interface \<open>bounded_store\<close> and a step relation for the interleavings. \<open>Fixed_Point\<close>: the
    amount parser against decimal numerals. \<open>Rpc_Utils\<close>: the parameter parsers and guards.
  \<^item> \<open>Rpc_Auth\<close>: password hashes, the authorization layer, the cookie file over a model of the file
    system with failures at every step, the start of the server. \<open>Rpc_Compat\<close>: the layers that
    serve clients of three versions of JSON-RPC, and the order of the layers.
  \<^item> \<open>Privacy_Policy\<close>: the policy lattice as sets of disclosures, the disclosures of a proposal
    and the action limits. \<open>Payments\<close>: requests, sources of funds and proposal checks.
    \<open>Send_Check\<close>: the verification of built transactions before any of them is broadcast.
  \<^item> \<open>Send_Many\<close>, \<open>Shield_Coinbase\<close>: the methods \<open>z_sendmany\<close> and \<open>z_shieldcoinbase\<close> from the gate and
    the queue to the future that broadcasts. \<open>Pczt\<close>: the methods on partially created transactions
    and \<open>z_sendfromaccount\<close>, which drives one through all of them.
  \<^item> \<open>Account_Import\<close>: new, recovered and imported accounts and keys and the export of keys, over
    the keystore and a wallet database with transactions. \<open>Messages\<close>: signed messages.
    \<open>Wallet_Balances\<close>, \<open>Wallet_Listing\<close>: balances, unspent outputs and pages of transactions.
  \<^item> \<open>Keystore\<close>: the tables, encryption and decryption, backup confirmation and the lock with its
    timer as a step relation.

  \<^bold>\<open>What the theorems show.\<close> Safety of sync: no block at or above a known consensus divergence is
  stored, the tip pointer always names a stored block, recovery budgets are finite, the recovering
  state is left only at the tip. Progress: a pass over a well-behaved view reaches its tip and
  trips no assertion. Money: amounts are parsed exactly, a proposal reveals no more than its policy
  permits, and a transaction is broadcast only after every transaction of its proposal has been
  verified output by output. Keys: material is returned only while unlocked and only if it is the
  one asked for, an imported key is stored with its account or not at all and exports as itself,
  and accounts derive from seeds that are backed up where that is required. Reports: balances
  add up, listings are complete and their pages consecutive. Service: the operation queue is bounded and never forgets an unfinished
  operation. Some theorems state what the code does where it deviates from its comments; the
  manifest lists them as findings.

  \<^bold>\<open>Not modelled.\<close> The wallet database behind \<open>zcash_client_sqlite\<close> and the connection pool
  (\<open>components/database\<close>) are calls into other crates; their operations are arguments here. The
  command line (\<open>commands\<close>, \<open>cli.rs\<close>, \<open>application.rs\<close>), tracing, localisation and process
  plumbing are I/O. The second backend (\<open>backends/zaino\<close>) delegates to an indexer crate. Reading
  the identity file and the zewif export of the keystore, and the JSON-RPC methods that only
  format what the database or the chain returns, are left out. Timing is modelled only where the code decides
  on it (the re-lock deadline, the retry tables).
\<close>

end
